(* ===== verification/Pi_Prelude.thy ===== *)
theory Pi_Prelude
  imports Main "HOL-Library.Word"
begin

text \<open>
  Shared material of the development: the model of the C and C++ library pieces that the
  server's sources use (character classification, decimal printing, unordered maps), the
  automation collections, and the three interfaces that several components share:
  \<^item> \<open>keyed_map\<close>: what a client of \<open>std::unordered_map\<close> relies on;
  \<^item> \<open>invariant_machine\<close>: an object whose operations keep a representation invariant,
    with its extension \<open>monotone_machine\<close> for objects with a value that only grows;
  \<^item> \<open>deadline_source\<close>: an object that a waiting thread polls by its next deadline.

  Times are integers. A \<open>steady_clock\<close> reading and a millisecond epoch are plain \<open>int\<close>
  values; where the width of the representation matters it is written out.
\<close>

named_theorems um_simps \<open>lookup laws of the unordered-map model\<close>
named_theorems inv_intros \<open>preservation of representation invariants\<close>

type_synonym ('k, 'v) umap = "('k \<times> 'v) list"

section \<open>Unordered maps\<close>

text \<open>
  An \<open>std::unordered_map\<close> is an association list with distinct keys. The list order is the
  iteration order, which C++ leaves unspecified: a theorem about every list is a theorem
  about every iteration order. \<open>um_emplace\<close> keeps an existing entry, \<open>um_put\<close> is assignment
  through \<open>operator[]\<close>.
\<close>

definition um_find :: "('k, 'v) umap \<Rightarrow> 'k \<Rightarrow> 'v option" where
  "um_find m k = map_of m k"

definition um_contains :: "('k, 'v) umap \<Rightarrow> 'k \<Rightarrow> bool" where
  "um_contains m k \<longleftrightarrow> k \<in> fst ` set m"

definition um_erase :: "'k \<Rightarrow> ('k, 'v) umap \<Rightarrow> ('k, 'v) umap" where
  "um_erase k m = filter (\<lambda>p. fst p \<noteq> k) m"

fun um_put :: "'k \<Rightarrow> 'v \<Rightarrow> ('k, 'v) umap \<Rightarrow> ('k, 'v) umap" where
  "um_put k v [] = [(k, v)]"
| "um_put k v ((a, b) # m) = (if a = k then (k, v) # m else (a, b) # um_put k v m)"

definition um_emplace :: "'k \<Rightarrow> 'v \<Rightarrow> ('k, 'v) umap \<Rightarrow> ('k, 'v) umap" where
  "um_emplace k v m = (if um_contains m k then m else m @ [(k, v)])"

definition um_wf :: "('k, 'v) umap \<Rightarrow> bool" where
  "um_wf m \<longleftrightarrow> distinct (map fst m)"

section \<open>Characters and decimal numbers\<close>

definition c_isspace :: "char \<Rightarrow> bool" where
  "c_isspace c \<longleftrightarrow> c = CHR '' '' \<or> (9 \<le> (of_char c :: nat) \<and> (of_char c :: nat) \<le> 13)"

definition c_isdigit :: "char \<Rightarrow> bool" where
  "c_isdigit c \<longleftrightarrow> 48 \<le> (of_char c :: nat) \<and> (of_char c :: nat) \<le> 57"

definition c_toupper :: "char \<Rightarrow> char" where
  "c_toupper c = (if 97 \<le> (of_char c :: nat) \<and> (of_char c :: nat) \<le> 122
     then char_of ((of_char c :: nat) - 32) else c)"

definition digit_char :: "nat \<Rightarrow> char" where
  "digit_char d = char_of (48 + d)"

definition digit_value :: "char \<Rightarrow> nat" where
  "digit_value c = of_char c - 48"

fun dec_of_nat :: "nat \<Rightarrow> string" where
  "dec_of_nat n = (if n < 10 then [digit_char n]
     else dec_of_nat (n div 10) @ [digit_char (n mod 10)])"

declare dec_of_nat.simps [simp del]

definition to_string :: "int \<Rightarrow> string" where
  "to_string i = (if i < 0 then CHR ''-'' # dec_of_nat (nat (- i)) else dec_of_nat (nat i))"

definition nat_of_dec :: "string \<Rightarrow> nat" where
  "nat_of_dec s = foldl (\<lambda>v c. v * 10 + digit_value c) 0 s"

text \<open>
  \<open>std::stoi\<close> with its consumed count: leading white space, a sign, digits; \<open>None\<close> is the exception for no
  digits or a value outside 32 bits.
\<close>

definition c_stoi :: "string \<Rightarrow> (int \<times> nat) option" where
  "c_stoi s =
     (let ws = takeWhile c_isspace s; r = drop (length ws) s;
          signed = (case r of c # _ \<Rightarrow> c = CHR ''-'' \<or> c = CHR ''+'' | [] \<Rightarrow> False);
          negative = (case r of c # _ \<Rightarrow> c = CHR ''-'' | [] \<Rightarrow> False);
          digits = takeWhile c_isdigit (if signed then tl r else r);
          v = (if negative then - int (nat_of_dec digits) else int (nat_of_dec digits)) in
      if digits = [] \<or> v < - (2 ^ 31) \<or> v \<ge> 2 ^ 31 then None
      else Some (v, length ws + (if signed then 1 else 0) + length digits))"

section \<open>Exceptions\<close>

text \<open>A thrown exception is \<open>Inl\<close> of its message; the rest of the block does not run.\<close>

fun try_bind :: "'e + 'a \<Rightarrow> ('a \<Rightarrow> 'e + 'b) \<Rightarrow> 'e + 'b" where
  "try_bind (Inl e) f = Inl e"
| "try_bind (Inr x) f = f x"

section \<open>Runs of an object\<close>

text \<open>
  A call on a mutex-guarded object is one step: it takes the state and an input and gives
  the next state and the value the call returns. A run is the sequence of calls in the
  order in which the object's mutex admits them.
\<close>

fun run_steps :: "('s \<Rightarrow> 'e \<Rightarrow> 's \<times> 'o) \<Rightarrow> 's \<Rightarrow> 'e list \<Rightarrow> 's \<times> 'o list" where
  "run_steps step s [] = (s, [])"
| "run_steps step s (e # es) =
     (let (s1, out) = step s e; (s2, outs) = run_steps step s1 es in (s2, out # outs))"

abbreviation final_state :: "('s \<Rightarrow> 'e \<Rightarrow> 's \<times> 'o) \<Rightarrow> 's \<Rightarrow> 'e list \<Rightarrow> 's" where
  "final_state step s es \<equiv> fst (run_steps step s es)"

section \<open>Earliest of several deadlines\<close>

text \<open>The loop \<open>if (!earliest || d < *earliest) earliest = d\<close> over the deadlines of a container.\<close>

definition earliest_of :: "int list \<Rightarrow> int option" where
  "earliest_of ds = foldl (\<lambda>earliest d. case earliest of
       None \<Rightarrow> Some d
     | Some x \<Rightarrow> if d < x then Some d else earliest) None ds"

lemma try_bind_Inr [simp]: "try_bind m f = Inr y \<longleftrightarrow> (\<exists>x. m = Inr x \<and> f x = Inr y)"
  by (cases m) auto

section \<open>Laws of the unordered-map model\<close>

lemma um_find_empty [simp]: "um_find [] k = None"
  by (simp add: um_find_def)

lemma um_contains_iff [um_simps]: "um_contains m k \<longleftrightarrow> um_find m k \<noteq> None"
  by (simp add: um_contains_def um_find_def map_of_eq_None_iff)

lemma um_find_put [um_simps]: "um_find (um_put k v m) x = (if x = k then Some v else um_find m x)"
  by (induction k v m rule: um_put.induct) (auto simp: um_find_def)

lemma um_find_erase [um_simps]: "um_find (um_erase k m) x = (if x = k then None else um_find m x)"
  by (induction m) (auto simp: um_find_def um_erase_def)

lemma um_find_emplace [um_simps]:
  "um_find (um_emplace k v m) x =
     (if x = k \<and> um_find m k = None then Some v else um_find m x)"
proof (cases "um_find m k")
  case None
  then show ?thesis
    by (auto simp: um_emplace_def um_contains_iff) (auto simp: um_find_def map_add_def split: option.splits)
qed (auto simp: um_emplace_def um_contains_iff)

lemma um_put_keys: "fst ` set (um_put k v m) = insert k (fst ` set m)"
  by (induction k v m rule: um_put.induct) auto

lemma um_wf_empty [inv_intros, simp]: "um_wf []"
  by (simp add: um_wf_def)

lemma um_wf_put [inv_intros]: "um_wf m \<Longrightarrow> um_wf (um_put k v m)"
proof (induction k v m rule: um_put.induct)
  case (2 k v a b m)
  then show ?case
    using um_put_keys [of k v m] by (auto simp: um_wf_def)
qed (simp add: um_wf_def)

lemma um_wf_erase [inv_intros]: "um_wf m \<Longrightarrow> um_wf (um_erase k m)"
  by (auto simp: um_wf_def um_erase_def distinct_map_filter)

lemma um_wf_emplace [inv_intros]: "um_wf m \<Longrightarrow> um_wf (um_emplace k v m)"
  by (auto simp: um_wf_def um_emplace_def um_contains_def)

lemma um_wf_filter [inv_intros]: "um_wf m \<Longrightarrow> um_wf (filter P m)"
  by (simp add: um_wf_def distinct_map_filter)

lemma um_find_mem: "um_wf m \<Longrightarrow> um_find m k = Some v \<longleftrightarrow> (k, v) \<in> set m"
  by (simp add: um_wf_def um_find_def map_of_eq_Some_iff)

lemma um_find_SomeD: "um_find m k = Some v \<Longrightarrow> (k, v) \<in> set m"
  by (simp add: um_find_def map_of_SomeD)

lemma earliest_fold:
  "foldl (\<lambda>earliest d. case earliest of None \<Rightarrow> Some d
     | Some x \<Rightarrow> if d < x then Some d else earliest) (Some a) ds = Some (Min (set (a # ds)))"
  unfolding Min.set_eq_fold
proof (induction ds arbitrary: a)
  case (Cons d ds)
  then show ?case by (cases "d < a") (simp_all add: min_absorb1 min_absorb2)
qed simp

lemma earliest_of_eq: "earliest_of ds = (if ds = [] then None else Some (Min (set ds)))"
  by (cases ds) (auto simp: earliest_of_def earliest_fold simp del: set_simps)

lemma earliest_of_le: "(\<exists>d. earliest_of ds = Some d \<and> d \<le> now) \<longleftrightarrow> (\<exists>d \<in> set ds. d \<le> now)"
  by (auto simp: earliest_of_eq Min_le_iff)

lemma earliest_of_mem: "earliest_of ds = Some d \<Longrightarrow> d \<in> set ds"
  by (auto simp: earliest_of_eq split: if_splits)

section \<open>Interface: keyed maps\<close>

locale keyed_map =
  fixes find :: "'m \<Rightarrow> 'k \<Rightarrow> 'v option"
    and put :: "'k \<Rightarrow> 'v \<Rightarrow> 'm \<Rightarrow> 'm"
    and emplace :: "'k \<Rightarrow> 'v \<Rightarrow> 'm \<Rightarrow> 'm"
    and erase :: "'k \<Rightarrow> 'm \<Rightarrow> 'm"
    and empty :: "'m"
  assumes find_empty: "find empty k = None"
    and find_put: "find (put k v m) x = (if x = k then Some v else find m x)"
    and find_emplace: "find (emplace k v m) x =
          (if x = k \<and> find m k = None then Some v else find m x)"
    and find_erase: "find (erase k m) x = (if x = k then None else find m x)"
begin

text \<open>Updates at one key leave every other key alone, whichever update it is.\<close>

lemma other_key:
  assumes "x \<noteq> k"
  shows "find (put k v m) x = find m x"
    and "find (emplace k v m) x = find m x"
    and "find (erase k m) x = find m x"
  using assms by (simp_all add: find_put find_emplace find_erase)

lemma put_after_put: "find (put k v (put k w m)) = find (put k v m)"
  by (auto simp: find_put)

lemma erase_undoes_fresh_emplace:
  assumes "find m k = None"
  shows "find (erase k (emplace k v m)) = find m"
  using assms by (auto simp: find_erase find_emplace)

lemma dom_updates:
  "dom (find (put k v m)) = insert k (dom (find m))"
  "dom (find (emplace k v m)) = insert k (dom (find m))"
  "dom (find (erase k m)) = dom (find m) - {k}"
  by (auto simp: find_put find_emplace find_erase dom_def split: if_splits)

end

interpretation um: keyed_map um_find um_put um_emplace um_erase "[]"
  by unfold_locales (simp_all add: um_simps)

section \<open>Interface: objects with a representation invariant\<close>

locale invariant_machine =
  fixes step :: "'s \<Rightarrow> 'e \<Rightarrow> 's \<times> 'o"
    and inv :: "'s \<Rightarrow> bool"
  assumes inv_step: "inv s \<Longrightarrow> inv (fst (step s e))"
begin

lemma inv_run: "inv s \<Longrightarrow> inv (final_state step s es)"
proof (induction es arbitrary: s)
  case (Cons e es)
  then show ?case
    using inv_step [of s e] by (auto simp: split_beta)
qed simp

lemma run_append:
  "final_state step s (es @ fs) = final_state step (final_state step s es) fs"
  by (induction es arbitrary: s) (auto simp: split_beta)

text \<open>The invariant holds between any two calls of a run, not only at its end.\<close>

lemma inv_prefix: "inv s \<Longrightarrow> inv (final_state step s (take n es))"
  by (rule inv_run)

end

locale monotone_machine = invariant_machine step inv
  for step :: "'s \<Rightarrow> 'e \<Rightarrow> 's \<times> 'o" and inv :: "'s \<Rightarrow> bool" +
  fixes grows :: "'s \<Rightarrow> 's \<Rightarrow> bool"
  assumes grows_refl: "grows s s"
    and grows_trans: "grows s t \<Longrightarrow> grows t u \<Longrightarrow> grows s u"
    and step_grows: "inv s \<Longrightarrow> grows s (fst (step s e))"
begin

lemma run_grows: "inv s \<Longrightarrow> grows s (final_state step s es)"
proof (induction es arbitrary: s)
  case (Cons e es)
  then have "grows s (fst (step s e))" and "inv (fst (step s e))"
    by (auto intro: step_grows inv_step)
  with Cons.IH [of "fst (step s e)"] show ?case
    by (auto simp: split_beta intro: grows_trans)
qed (simp add: grows_refl)

lemma run_prefix_grows:
  assumes "inv s"
  shows "grows (final_state step s es) (final_state step s (es @ fs))"
  using assms by (simp add: run_append inv_run run_grows)

end

section \<open>Interface: deadline sources\<close>

text \<open>
  A waiting thread asks for the next deadline, sleeps until then and takes what is due.
  The laws are what makes that loop right: nothing is due before the deadline the thread
  was told, and after a turn nothing that was due is left.
\<close>

locale deadline_source =
  fixes next_deadline :: "'s \<Rightarrow> int option"
    and take_due :: "int \<Rightarrow> 's \<Rightarrow> 'x list \<times> 's"
    and inv :: "'s \<Rightarrow> bool"
  assumes inv_take: "inv s \<Longrightarrow> inv (snd (take_due now s))"
    and due_iff: "inv s \<Longrightarrow>
          fst (take_due now s) \<noteq> [] \<longleftrightarrow> (\<exists>d. next_deadline s = Some d \<and> d \<le> now)"
    and due_cleared: "inv s \<Longrightarrow> next_deadline (snd (take_due now s)) = Some d \<Longrightarrow> now < d"
begin

lemma sleeping_misses_nothing:
  assumes "inv s" and "next_deadline s = Some d" and "now < d"
  shows "fst (take_due now s) = []"
  using due_iff [OF assms(1), of now] assms(2,3) by auto

lemma waking_finds_work:
  assumes "inv s" and "next_deadline s = Some d"
  shows "fst (take_due d s) \<noteq> []"
  using due_iff [OF assms(1), of d] assms(2) by auto

lemma idle_without_deadline:
  assumes "inv s" and "next_deadline s = None"
  shows "fst (take_due now s) = []"
  using due_iff [OF assms(1), of now] assms(2) by auto

text \<open>A second poll at the same instant (or earlier) finds nothing.\<close>

lemma second_poll_empty:
  assumes "inv s" and "t \<le> now"
  shows "fst (take_due t (snd (take_due now s))) = []"
proof (rule ccontr)
  assume "fst (take_due t (snd (take_due now s))) \<noteq> []"
  then obtain d where "next_deadline (snd (take_due now s)) = Some d" and "d \<le> t"
    using due_iff [OF inv_take [OF assms(1)]] by auto
  with due_cleared [OF assms(1)] assms(2) show False by fastforce
qed

end

section \<open>Decimal numbers\<close>

lemma of_char_digit_char [simp]: "d < 10 \<Longrightarrow> (of_char (digit_char d) :: nat) = 48 + d"
  by (simp add: digit_char_def)

lemma c_isdigit_digit_char [simp]: "d < 10 \<Longrightarrow> c_isdigit (digit_char d)"
  by (simp add: c_isdigit_def)

lemma digit_value_digit_char [simp]: "d < 10 \<Longrightarrow> digit_value (digit_char d) = d"
  by (simp add: digit_value_def)

lemma digit_value_less: "c_isdigit c \<Longrightarrow> digit_value c < 10"
  by (auto simp: c_isdigit_def digit_value_def)

lemma nat_of_dec_snoc [simp]: "nat_of_dec (s @ [c]) = nat_of_dec s * 10 + digit_value c"
  by (simp add: nat_of_dec_def)

lemma nat_of_dec_Nil [simp]: "nat_of_dec [] = 0"
  by (simp add: nat_of_dec_def)

lemma dec_of_nat_nonempty [simp]: "dec_of_nat n \<noteq> []"
  by (subst dec_of_nat.simps) simp

lemma dec_of_nat_digits: "c \<in> set (dec_of_nat n) \<Longrightarrow> c_isdigit c"
proof (induction n rule: dec_of_nat.induct)
  case (1 n)
  then show ?case
    by (cases "n < 10") (auto simp: dec_of_nat.simps [of n])
qed

lemma nat_of_dec_of_nat [simp]: "nat_of_dec (dec_of_nat n) = n"
proof (induction n rule: dec_of_nat.induct)
  case (1 n)
  then show ?case
    by (cases "n < 10") (auto simp: dec_of_nat.simps [of n] nat_of_dec_def)
qed

lemma dec_of_nat_inject [simp]: "dec_of_nat m = dec_of_nat n \<longleftrightarrow> m = n"
  by (metis nat_of_dec_of_nat)

lemma minus_not_digit [simp]: "\<not> c_isdigit (CHR ''-'')"
  by (simp add: c_isdigit_def)

lemma to_string_nonempty [simp]: "to_string i \<noteq> []"
  by (simp add: to_string_def)

lemma minus_not_in_dec: "CHR ''-'' # s \<noteq> dec_of_nat n"
  using dec_of_nat_digits [of "CHR ''-''" n] by (metis list.set_intros(1) minus_not_digit)

lemma to_string_inject [simp]: "to_string i = to_string j \<longleftrightarrow> i = j"
proof
  assume eq: "to_string i = to_string j"
  show "i = j"
    using eq minus_not_in_dec minus_not_in_dec [symmetric]
    by (auto simp: to_string_def split: if_splits)
qed simp

lemma takeWhile_dec [simp]: "takeWhile c_isdigit (dec_of_nat n) = dec_of_nat n"
  using dec_of_nat_digits by (auto simp: takeWhile_eq_all_conv)

lemma isspace_not_digit: "c_isdigit c \<Longrightarrow> \<not> c_isspace c"
  by (auto simp: c_isdigit_def c_isspace_def)

lemma c_stoi_dec: "int n < 2 ^ 31 \<Longrightarrow> c_stoi (dec_of_nat n) = Some (int n, length (dec_of_nat n))"
proof -
  assume n: "int n < 2 ^ 31"
  obtain c cs where d: "dec_of_nat n = c # cs" by (cases "dec_of_nat n") simp_all
  have c: "c_isdigit c" using dec_of_nat_digits [of c n] by (simp add: d)
  then have "c \<noteq> CHR ''-''" "c \<noteq> CHR ''+''" by (auto simp: c_isdigit_def)
  moreover have "takeWhile c_isspace (dec_of_nat n) = []"
    using isspace_not_digit [OF c] by (simp add: d)
  ultimately have "c_stoi (dec_of_nat n) = (let v = int (nat_of_dec (dec_of_nat n)) in
      if v < - (2 ^ 31) \<or> v \<ge> 2 ^ 31 then None else Some (v, length (dec_of_nat n)))"
    using takeWhile_dec [of n] by (simp add: c_stoi_def Let_def d)
  then show ?thesis using n by (simp add: Let_def)
qed

end
