(* ===== verification/SensorProtocol.thy ===== *)
theory SensorProtocol
  imports Pi_Prelude
begin

text \<open>
  The text protocol between the STM32 sensor nodes and the server:
  \<^verbatim>\<open>include/sensor/SensorProtocolVersion.hpp\<close>, \<^verbatim>\<open>SensorProtocolMessage.hpp\<close>,
  \<^verbatim>\<open>FireSensorMessage.hpp\<close>, \<^verbatim>\<open>SensorProtocolParser.hpp\<close> and
  \<^verbatim>\<open>src/sensor/SensorProtocolParser.cpp\<close>.

  A \<open>std::string\<close> is a list of bytes. Sequence numbers are \<open>64 word\<close>. A
  \<open>system_clock::time_point\<close> is its nanosecond count (libstdc++), so the conversion of a
  millisecond field multiplies in 64 bits. The \<open>std::string*\<close> error argument is the left
  summand of the result. \<open>std::from_chars\<close> on \<open>double\<close> is the parameter \<open>fc\<close>: the value and
  the unread rest of the input, or \<open>None\<close> on a conversion error.
\<close>

section \<open>Data\<close>

datatype SensorProtocolVersion = LegacyV1 | BootEpochV2

fun version_toString :: "SensorProtocolVersion \<Rightarrow> string" where
  "version_toString LegacyV1 = ''LEGACY_V1''"
| "version_toString BootEpochV2 = ''BOOT_EPOCH_V2''"

definition sensorProtocolVersionFromString :: "string \<Rightarrow> SensorProtocolVersion option" where
  "sensorProtocolVersionFromString value =
     (if value = ''LEGACY_V1'' then Some LegacyV1
      else if value = ''BOOT_EPOCH_V2'' then Some BootEpochV2
      else None)"

datatype ParkingSensorState = Occupied | Vacant

datatype FireSensorState = Detected | Cleared

fun fire_toString :: "FireSensorState \<Rightarrow> string" where
  "fire_toString Detected = ''DETECTED''"
| "fire_toString Cleared = ''CLEARED''"

record SensorProtocolMessage =
  msg_sensorId :: string
  msg_state :: ParkingSensorState
  msg_occurredAt :: int
  msg_sequence :: "64 word option"
  msg_protocolVersion :: SensorProtocolVersion
  msg_bootId :: "string option"
  msg_transport :: string
  msg_node :: "string option"
  msg_receivedMonotonic :: int

record 'd FireSensorMessage =
  fire_sensorId :: string
  fire_state :: FireSensorState
  fire_occurredAt :: int
  fire_sequence :: "64 word option"
  fire_protocolVersion :: SensorProtocolVersion
  fire_bootId :: "string option"
  fire_transport :: string
  fire_node :: "string option"
  fire_energy :: "'d option"
  fire_raw :: string

section \<open>Lexical helpers\<close>

definition trim :: "string \<Rightarrow> string" where
  "trim s = rev (dropWhile c_isspace (rev (dropWhile c_isspace s)))"

definition upper :: "string \<Rightarrow> string" where
  "upper s = map c_toupper s"

text \<open>
  \<open>std::getline\<close> with delimiter \<open>':'\<close> until the stream fails. A field that ends at the end of
  input counts only if it has a character: a trailing delimiter adds no empty field.
\<close>

fun getline_fields :: "string \<Rightarrow> string \<Rightarrow> string list" where
  "getline_fields cur [] = (if cur = [] then [] else [rev cur])"
| "getline_fields cur (c # cs) =
     (if c = CHR '':'' then rev cur # getline_fields [] cs else getline_fields (c # cur) cs)"

definition split :: "string \<Rightarrow> string list" where
  "split s = map trim (getline_fields [] s)"

fun parse_digits :: "64 word \<Rightarrow> string \<Rightarrow> 64 word option" where
  "parse_digits v [] = Some v"
| "parse_digits v (c # cs) =
     (if \<not> c_isdigit c then None
      else let digit = of_nat (of_char c - 48) :: 64 word in
        if v > (- 1 - digit) div 10 then None else parse_digits (v * 10 + digit) cs)"

definition parseUnsigned64 :: "string \<Rightarrow> 64 word option" where
  "parseUnsigned64 text = (if text = [] then None else parse_digits 0 text)"

definition parseDouble :: "(string \<Rightarrow> ('d \<times> string) option) \<Rightarrow> string \<Rightarrow> 'd option" where
  "parseDouble fc text =
     (if text = [] then None
      else case fc text of
          None \<Rightarrow> None
        | Some (value, rest) \<Rightarrow> if rest \<noteq> [] then None else Some value)"

definition isLoRaNodeId :: "string \<Rightarrow> bool" where
  "isLoRaNodeId field = (let candidate = upper field in candidate = ''STM1'' \<or> candidate = ''STM2'')"

definition maxMillis :: "64 word" where
  "maxMillis = 9223372036854775807"

text \<open>
  \<open>time_point(Millis(ms))\<close>: the nanosecond count is the 64-bit product, read as signed.
\<close>

definition time_point_of_millis :: "64 word \<Rightarrow> int" where
  "time_point_of_millis ms = sint (ms * 1000000)"

section \<open>Frame tails\<close>

definition applyOptionalTail ::
  "string list \<Rightarrow> int \<Rightarrow> string + (64 word option \<times> int)" where
  "applyOptionalTail fs occurredAt =
     (case (if length fs \<ge> 4
            then (case parseUnsigned64 (fs ! 3) of
                    None \<Rightarrow> Inl ''sensor sequence is not an unsigned integer''
                  | Some s \<Rightarrow> Inr (Some s))
            else Inr None) of
        Inl e \<Rightarrow> Inl e
      | Inr sequence \<Rightarrow>
          if length fs = 5 then
            (case parseUnsigned64 (fs ! 4) of
               None \<Rightarrow> Inl ''sensor unix timestamp is invalid''
             | Some epochMs \<Rightarrow>
                 if epochMs > maxMillis then Inl ''sensor unix timestamp is out of range''
                 else Inr (sequence, time_point_of_millis epochMs))
          else Inr (sequence, occurredAt))"

definition applyVersionedTail ::
  "string list \<Rightarrow> int \<Rightarrow> string + (string option \<times> 64 word option \<times> int)" where
  "applyVersionedTail fs occurredAt =
     (if length fs \<noteq> 5 \<and> length fs \<noteq> 6
      then Inl ''expected versioned sensor frame with boot_id and sequence''
      else if fs ! 3 = [] then Inl ''versioned sensor boot ID is empty''
      else case parseUnsigned64 (fs ! 4) of
          None \<Rightarrow> Inl ''versioned sensor sequence is invalid''
        | Some s \<Rightarrow>
            if length fs = 6 then
              (case parseUnsigned64 (fs ! 5) of
                 None \<Rightarrow> Inl ''sensor unix timestamp is invalid''
               | Some epochMs \<Rightarrow>
                   if epochMs > maxMillis then Inl ''sensor unix timestamp is out of range''
                   else Inr (Some (fs ! 3), Some s, time_point_of_millis epochMs))
            else Inr (Some (fs ! 3), Some s, occurredAt))"

section \<open>The parsers\<close>

text \<open>
  \<open>monoNow\<close> is the \<open>steady_clock\<close> reading that the member initialiser of
  \<open>SensorProtocolMessage::receivedMonotonic\<close> takes.
\<close>

definition parse :: "string \<Rightarrow> int \<Rightarrow> int \<Rightarrow> string + SensorProtocolMessage" where
  "parse line receivedAt monoNow =
     (let normalizedLine = trim line in
      if normalizedLine = [] then Inl ''sensor message is empty''
      else let fs = split normalizedLine in
      if fs = [] then Inl ''unsupported sensor message type''
      else let type = upper (fs ! 0); versioned = (type = ''SENSOR2'') in
      if type \<noteq> ''SENSOR'' \<and> \<not> versioned then Inl ''unsupported sensor message type''
      else let nodePrefixed =
             (\<not> versioned \<and> length fs \<ge> 2 \<and> isLoRaNodeId (fs ! 1)) in
      if nodePrefixed \<and> length fs \<noteq> 5
      then Inl ''expected SENSOR:node:sensor_id:state:sequence''
      else if \<not> nodePrefixed \<and>
           ((\<not> versioned \<and> (length fs < 3 \<or> length fs > 5)) \<or>
            (versioned \<and> length fs \<noteq> 5 \<and> length fs \<noteq> 6))
      then Inl (if versioned
             then ''expected SENSOR2:sensor_id:state:boot_id:sequence[:unix_ms]''
             else ''expected SENSOR:sensor_id:state[:sequence[:unix_ms]]'')
      else let idField = (if nodePrefixed then 2 else 1);
               stateField = (if nodePrefixed then 3 else 2) in
      if fs ! idField = [] then Inl ''sensor id is empty''
      else case (let state = upper (fs ! stateField) in
                 if state = ''OCCUPIED'' then Some Occupied
                 else if state = ''VACANT'' then Some Vacant else None) of
          None \<Rightarrow> Inl ''sensor state must be OCCUPIED or VACANT''
        | Some st \<Rightarrow>
            let message = \<lparr>msg_sensorId = fs ! idField, msg_state = st,
                  msg_occurredAt = receivedAt, msg_sequence = None,
                  msg_protocolVersion = (if versioned then BootEpochV2 else LegacyV1),
                  msg_bootId = None, msg_transport = ''text-test'',
                  msg_node = (if nodePrefixed then Some (upper (fs ! 1)) else None),
                  msg_receivedMonotonic = monoNow\<rparr> in
            if nodePrefixed then
              (case parseUnsigned64 (fs ! 4) of
                 None \<Rightarrow> Inl ''sensor sequence is not an unsigned integer''
               | Some s \<Rightarrow> Inr (message\<lparr>msg_sequence := Some s\<rparr>))
            else if versioned then
              (case applyVersionedTail fs receivedAt of
                 Inl e \<Rightarrow> Inl e
               | Inr (boot, s, at) \<Rightarrow>
                   Inr (message\<lparr>msg_bootId := boot, msg_sequence := s, msg_occurredAt := at\<rparr>))
            else
              (case applyOptionalTail fs receivedAt of
                 Inl e \<Rightarrow> Inl e
               | Inr (s, at) \<Rightarrow> Inr (message\<lparr>msg_sequence := s, msg_occurredAt := at\<rparr>)))"

definition parseFire ::
  "(string \<Rightarrow> ('d \<times> string) option) \<Rightarrow> string \<Rightarrow> int \<Rightarrow> string + 'd FireSensorMessage" where
  "parseFire fc line receivedAt =
     (let normalizedLine = trim line in
      if normalizedLine = [] then Inl ''fire message is empty''
      else let fs = split normalizedLine in
      if fs = [] then Inl ''unsupported sensor message type''
      else let type = upper (fs ! 0); versioned = (type = ''FIRE2'') in
      if type \<noteq> ''FIRE'' \<and> \<not> versioned then Inl ''unsupported sensor message type''
      else let nodePrefixed =
             (\<not> versioned \<and> length fs \<ge> 2 \<and> isLoRaNodeId (fs ! 1)) in
      if nodePrefixed \<and> length fs \<noteq> 6
      then Inl ''expected FIRE:node:sensor_id:state:sequence:energy''
      else if \<not> nodePrefixed \<and>
           ((\<not> versioned \<and> (length fs < 3 \<or> length fs > 5)) \<or>
            (versioned \<and> length fs \<noteq> 5 \<and> length fs \<noteq> 6))
      then Inl (if versioned
             then ''expected FIRE2:sensor_id:state:boot_id:sequence[:unix_ms]''
             else ''expected FIRE:sensor_id:state[:sequence[:unix_ms]]'')
      else let idField = (if nodePrefixed then 2 else 1);
               stateField = (if nodePrefixed then 3 else 2) in
      if fs ! idField = [] then Inl ''fire sensor id is empty''
      else case (let state = upper (fs ! stateField) in
                 if state = ''DETECTED'' then Some Detected
                 else if state = ''CLEARED'' then Some Cleared else None) of
          None \<Rightarrow> Inl ''fire state must be DETECTED or CLEARED''
        | Some st \<Rightarrow>
            let message = \<lparr>fire_sensorId = fs ! idField, fire_state = st,
                  fire_occurredAt = receivedAt, fire_sequence = None,
                  fire_protocolVersion = (if versioned then BootEpochV2 else LegacyV1),
                  fire_bootId = None, fire_transport = ''text-test'',
                  fire_node = (if nodePrefixed then Some (upper (fs ! 1)) else None),
                  fire_energy = None, fire_raw = []\<rparr> in
            if nodePrefixed then
              (case parseUnsigned64 (fs ! 4) of
                 None \<Rightarrow> Inl ''fire sequence is not an unsigned integer''
               | Some s \<Rightarrow>
                   (case parseDouble fc (fs ! 5) of
                      None \<Rightarrow> Inl ''fire energy is not a number''
                    | Some energy \<Rightarrow>
                        Inr (message\<lparr>fire_sequence := Some s, fire_energy := Some energy\<rparr>)))
            else if versioned then
              (case applyVersionedTail fs receivedAt of
                 Inl e \<Rightarrow> Inl e
               | Inr (boot, s, at) \<Rightarrow>
                   Inr (message\<lparr>fire_bootId := boot, fire_sequence := s, fire_occurredAt := at\<rparr>))
            else
              (case applyOptionalTail fs receivedAt of
                 Inl e \<Rightarrow> Inl e
               | Inr (s, at) \<Rightarrow> Inr (message\<lparr>fire_sequence := s, fire_occurredAt := at\<rparr>)))"

definition isFireLine :: "string \<Rightarrow> bool" where
  "isFireLine line =
     (let normalizedLine = trim line in
      if CHR '':'' \<notin> set normalizedLine then False
      else let type = upper (takeWhile (\<lambda>c. c \<noteq> CHR '':'') normalizedLine) in
        type = ''FIRE'' \<or> type = ''FIRE2'')"

section \<open>Numbers\<close>


abbreviation dec_from :: "nat \<Rightarrow> string \<Rightarrow> nat" where
  "dec_from a s \<equiv> foldl (\<lambda>v c. v * 10 + digit_value c) a s"

lemma dec_from_ge: "a \<le> dec_from a s"
proof (induction s arbitrary: a)
  case (Cons c s)
  have "a \<le> a * 10 + digit_value c" by simp
  also have "\<dots> \<le> dec_from (a * 10 + digit_value c) s" by (rule Cons.IH)
  finally show ?case by simp
qed simp

lemma overflow_guard:
  fixes v :: "64 word"
  assumes "d < 10"
  shows "v > (- 1 - of_nat d) div 10 \<longleftrightarrow> 2 ^ 64 \<le> unat v * 10 + d"
proof -
  have "unat (- 1 - of_nat d :: 64 word) = 2 ^ 64 - 1 - d"
  proof -
    have m: "unat (- 1 :: 64 word) = 2 ^ 64 - 1"
      by (simp add: unsigned_minus_1_eq_mask mask_eq_exp_minus_1)
    have n: "unat (of_nat d :: 64 word) = d"
      using assms by (simp add: unat_of_nat)
    have "(of_nat d :: 64 word) \<le> - 1" by simp
    then show ?thesis by (simp only: unat_sub m n)
  qed
  then have "unat ((- 1 - of_nat d) div 10 :: 64 word) = (2 ^ 64 - 1 - d) div 10"
    by (simp add: unat_div)
  then have "v > (- 1 - of_nat d) div 10 \<longleftrightarrow> (2 ^ 64 - 1 - d) div 10 < unat v"
    by (simp add: word_less_nat_alt)
  also have "\<dots> \<longleftrightarrow> 2 ^ 64 \<le> unat v * 10 + d"
    using assms by auto
  finally show ?thesis .
qed

lemma parse_digits_correct:
  "parse_digits v s = Some w \<longleftrightarrow>
     (\<forall>c \<in> set s. c_isdigit c) \<and> dec_from (unat v) s < 2 ^ 64 \<and> w = of_nat (dec_from (unat v) s)"
proof (induction s arbitrary: v)
  case Nil
  show ?case using unsigned_less [of v] by auto
next
  case (Cons c s)
  show ?case
  proof (cases "c_isdigit c")
    case True
    define d where "d = digit_value c"
    have d: "d < 10" and dc: "of_char c - 48 = d"
      using digit_value_less [OF True] by (auto simp: d_def digit_value_def)
    show ?thesis
    proof (cases "2 ^ 64 \<le> unat v * 10 + d")
      case over: True
      then have "\<not> dec_from (unat v) (c # s) < 2 ^ 64"
        using dec_from_ge [of "unat v * 10 + d" s] by (simp add: d_def)
      with over True d dc show ?thesis
        by (simp add: Let_def overflow_guard)
    next
      case fits: False
      have "v * 10 + of_nat d = of_nat (unat v * 10 + d)" by simp
      then have "unat (v * 10 + of_nat d) = unat v * 10 + d"
        using fits by (simp only: unat_of_nat) simp
      with Cons.IH [of "v * 10 + of_nat d"] fits True d dc show ?thesis
        by (simp add: Let_def overflow_guard flip: d_def)
    qed
  qed auto
qed

lemma parseUnsigned64_iff:
  "parseUnsigned64 s = Some w \<longleftrightarrow>
     s \<noteq> [] \<and> (\<forall>c \<in> set s. c_isdigit c) \<and> nat_of_dec s < 2 ^ 64 \<and> w = of_nat (nat_of_dec s)"
  by (auto simp: parseUnsigned64_def parse_digits_correct nat_of_dec_def)

lemma parseUnsigned64_dec [simp]: "parseUnsigned64 (dec_of_nat (unat w)) = Some w"
  using unsigned_less [of w] by (auto simp: parseUnsigned64_iff dec_of_nat_digits)

section \<open>Fields\<close>

lemma dropWhile_keep: "s = [] \<or> \<not> P (hd s) \<Longrightarrow> dropWhile P s = s"
  by (cases s) auto

lemma trim_ends: "s \<noteq> [] \<Longrightarrow> \<not> c_isspace (hd s) \<Longrightarrow> \<not> c_isspace (last s) \<Longrightarrow> trim s = s"
  by (simp add: trim_def dropWhile_keep hd_rev)

lemma trim_id: "(\<forall>c \<in> set s. \<not> c_isspace c) \<Longrightarrow> trim s = s"
  by (cases "s = []") (simp add: trim_def, simp add: trim_ends)

lemma space_upper: "c_isspace c \<Longrightarrow> c_toupper c = c"
  by (auto simp: c_isspace_def c_toupper_def)

lemma no_space_if_upper:
  assumes "upper x = y" and "\<forall>c \<in> set y. \<not> c_isspace c"
  shows "trim x = x"
proof (rule trim_id, rule ballI, rule notI)
  fix c
  assume "c \<in> set x" and "c_isspace c"
  then have "c \<in> set (upper x)"
    by (auto simp: upper_def image_iff intro: bexI [of _ c] simp: space_upper)
  with assms \<open>c_isspace c\<close> show False by auto
qed

lemma getline_first:
  "CHR '':'' \<in> set s \<Longrightarrow> \<exists>rest. getline_fields cur s = (rev cur @ takeWhile (\<lambda>c. c \<noteq> CHR '':'') s) # rest"
  by (induction cur s rule: getline_fields.induct) auto

lemma getline_skip: "CHR '':'' \<notin> set f \<Longrightarrow> getline_fields cur (f @ s) = getline_fields (rev f @ cur) s"
  by (induction f arbitrary: cur) auto

lemma split_first:
  assumes "CHR '':'' \<in> set s"
  shows "split s \<noteq> []" and "split s ! 0 = trim (takeWhile (\<lambda>c. c \<noteq> CHR '':'') s)"
  using getline_first [OF assms, of "[]"] by (auto simp: split_def)

lemma parse_rejects_fire_line:
  assumes "isFireLine line"
  shows "parse line a b = Inl ''unsupported sensor message type''"
proof -
  define s where "s = trim line"
  define t where "t = takeWhile (\<lambda>c. c \<noteq> CHR '':'') s"
  have colon: "CHR '':'' \<in> set s" and t: "upper t = ''FIRE'' \<or> upper t = ''FIRE2''"
    using assms by (auto simp: isFireLine_def Let_def s_def t_def split: if_splits)
  have "trim t = t"
    using t no_space_if_upper [of t "''FIRE''"] no_space_if_upper [of t "''FIRE2''"]
    by (auto simp: c_isspace_def)
  then have "upper (split s ! 0) = upper t"
    using split_first(2) [OF colon] by (simp add: t_def)
  with t have "upper (split s ! 0) \<noteq> ''SENSOR''" and "upper (split s ! 0) \<noteq> ''SENSOR2''"
    by auto
  moreover have "s \<noteq> []" and "split s \<noteq> []"
    using colon split_first(1) [OF colon] by auto
  ultimately show ?thesis
    unfolding parse_def Let_def s_def [symmetric] by simp
qed

lemma fire_line_routed:
  assumes "parseFire fc line a = Inr m"
    and "\<forall>c \<in> set (takeWhile (\<lambda>c. c \<noteq> CHR '':'') (trim line)). \<not> c_isspace c"
  shows "isFireLine line"
proof -
  define s where "s = trim line"
  have "split s \<noteq> []" and ty: "upper (split s ! 0) = ''FIRE'' \<or> upper (split s ! 0) = ''FIRE2''"
    using assms(1) unfolding parseFire_def Let_def s_def [symmetric]
    by (simp_all split: if_splits)
  have len: "length (split s) \<ge> 2"
  proof (rule ccontr)
    assume "\<not> length (split s) \<ge> 2"
    then have "length (split s) < 3" "length (split s) \<noteq> 5" "length (split s) \<noteq> 6"
      "\<not> 2 \<le> length (split s)" by auto
    with assms(1) show False
      unfolding parseFire_def Let_def s_def [symmetric] by (simp split: if_splits)
  qed
  have colon: "CHR '':'' \<in> set s"
  proof (rule ccontr)
    assume "CHR '':'' \<notin> set s"
    then have "getline_fields [] s = (if s = [] then [] else [s])"
      using getline_skip [of s "[]" "[]"] by simp
    with len show False by (simp add: split_def split: if_splits)
  qed
  have "trim (takeWhile (\<lambda>c. c \<noteq> CHR '':'') s) = takeWhile (\<lambda>c. c \<noteq> CHR '':'') s"
    using assms(2) by (intro trim_id) (simp add: s_def)
  with ty colon split_first(2) [OF colon] show ?thesis
    by (simp add: isFireLine_def Let_def flip: s_def)
qed

lemma parse_shape:
  assumes "parse line a b = Inr m"
  shows "msg_sensorId m \<noteq> []"
    and "msg_protocolVersion m = BootEpochV2 \<Longrightarrow>
           (\<exists>boot. msg_bootId m = Some boot \<and> boot \<noteq> []) \<and> msg_sequence m \<noteq> None"
    and "msg_protocolVersion m = LegacyV1 \<Longrightarrow> msg_bootId m = None"
    and "msg_node m \<noteq> None \<Longrightarrow> msg_sequence m \<noteq> None \<and> msg_protocolVersion m = LegacyV1"
  using assms
  by (auto simp: parse_def Let_def applyVersionedTail_def applyOptionalTail_def
      split: if_splits sum.splits option.splits prod.splits)


section \<open>Round trip\<close>

definition clean_field :: "string \<Rightarrow> bool" where
  "clean_field f \<longleftrightarrow> f \<noteq> [] \<and> CHR '':'' \<notin> set f \<and> \<not> c_isspace (hd f) \<and> \<not> c_isspace (last f)"

fun join_fields :: "string list \<Rightarrow> string" where
  "join_fields [] = []"
| "join_fields [f] = f"
| "join_fields (f # g # fs) = f @ CHR '':'' # join_fields (g # fs)"

fun state_wire :: "ParkingSensorState \<Rightarrow> string" where
  "state_wire Occupied = ''OCCUPIED''"
| "state_wire Vacant = ''VACANT''"

definition seq_wire :: "64 word \<Rightarrow> string" where
  "seq_wire w = dec_of_nat (unat w)"

text \<open>
  The parking grammar of the header comment of \<^verbatim>\<open>SensorProtocolParser.hpp\<close>: a message and the
  optional source timestamp (\<open>unix_epoch_ms\<close>) that ends its frame.
\<close>

definition stamp_wire :: "64 word option \<Rightarrow> string list" where
  "stamp_wire stamp = (case stamp of None \<Rightarrow> [] | Some ms \<Rightarrow> [seq_wire ms])"

definition wire_of :: "SensorProtocolMessage \<Rightarrow> 64 word option \<Rightarrow> string" where
  "wire_of m stamp = join_fields
     (case (msg_protocolVersion m, msg_node m, msg_bootId m, msg_sequence m) of
        (BootEpochV2, _, Some boot, Some s) \<Rightarrow>
          [''SENSOR2'', msg_sensorId m, state_wire (msg_state m), boot, seq_wire s] @ stamp_wire stamp
      | (_, Some node, _, Some s) \<Rightarrow>
          [''SENSOR'', node, msg_sensorId m, state_wire (msg_state m), seq_wire s]
      | (_, None, _, Some s) \<Rightarrow>
          [''SENSOR'', msg_sensorId m, state_wire (msg_state m), seq_wire s] @ stamp_wire stamp
      | _ \<Rightarrow> [''SENSOR'', msg_sensorId m, state_wire (msg_state m)])"

text \<open>
  The messages of the grammar. A timestamp follows a sequence number, not in a node frame, is in the
  range of the parser, and is then the time of the message.
\<close>

definition wire_message :: "SensorProtocolMessage \<Rightarrow> 64 word option \<Rightarrow> bool" where
  "wire_message m stamp \<longleftrightarrow> clean_field (msg_sensorId m) \<and> msg_transport m = ''text-test'' \<and>
     (case msg_protocolVersion m of
        BootEpochV2 \<Rightarrow> msg_node m = None \<and> msg_sequence m \<noteq> None \<and>
          (case msg_bootId m of None \<Rightarrow> False | Some boot \<Rightarrow> clean_field boot)
      | LegacyV1 \<Rightarrow> msg_bootId m = None \<and>
          (case msg_node m of
             None \<Rightarrow> \<not> isLoRaNodeId (msg_sensorId m)
           | Some node \<Rightarrow> (node = ''STM1'' \<or> node = ''STM2'') \<and> msg_sequence m \<noteq> None)) \<and>
     (case stamp of None \<Rightarrow> True
      | Some ms \<Rightarrow> ms \<le> maxMillis \<and> msg_occurredAt m = time_point_of_millis ms \<and>
          msg_node m = None \<and> msg_sequence m \<noteq> None)"

text \<open>The time a frame carries, or the time of its arrival.\<close>

definition frame_time :: "64 word option \<Rightarrow> int \<Rightarrow> int" where
  "frame_time stamp receivedAt = (case stamp of None \<Rightarrow> receivedAt | Some ms \<Rightarrow> time_point_of_millis ms)"

definition stamp_ok :: "64 word option \<Rightarrow> bool" where
  "stamp_ok stamp \<longleftrightarrow> (case stamp of None \<Rightarrow> True | Some ms \<Rightarrow> ms \<le> maxMillis)"

lemma getline_join:
  "fs \<noteq> [] \<Longrightarrow> \<forall>f \<in> set fs. clean_field f \<Longrightarrow> getline_fields [] (join_fields fs) = fs"
proof (induction fs rule: join_fields.induct)
  case (2 f)
  then show ?case using getline_skip [of f "[]" "[]"] by (simp add: clean_field_def)
next
  case (3 f g fs)
  then show ?case using getline_skip [of f "[]"] by (simp add: clean_field_def)
qed simp

lemma clean_field_trim: "clean_field f \<Longrightarrow> trim f = f"
  by (simp add: clean_field_def trim_ends)

lemma split_join:
  "fs \<noteq> [] \<Longrightarrow> \<forall>f \<in> set fs. clean_field f \<Longrightarrow> split (join_fields fs) = fs"
  by (simp add: split_def getline_join map_idI clean_field_trim)

lemma join_ends:
  "fs \<noteq> [] \<Longrightarrow> \<forall>f \<in> set fs. clean_field f \<Longrightarrow>
     join_fields fs \<noteq> [] \<and> hd (join_fields fs) = hd (hd fs) \<and> last (join_fields fs) = last (last fs)"
  by (induction fs rule: join_fields.induct) (auto simp: clean_field_def)

lemma trim_join:
  "fs \<noteq> [] \<Longrightarrow> \<forall>f \<in> set fs. clean_field f \<Longrightarrow> trim (join_fields fs) = join_fields fs"
  using join_ends [of fs] by (intro trim_ends) (auto simp: clean_field_def)

lemma clean_seq_wire: "clean_field (seq_wire w)"
proof -
  have "\<forall>c \<in> set (seq_wire w). c_isdigit c" and "seq_wire w \<noteq> []"
    by (auto simp: seq_wire_def dec_of_nat_digits)
  moreover have "\<not> c_isdigit (CHR '':'')" by (simp add: c_isdigit_def)
  ultimately show ?thesis
    using hd_in_set last_in_set by (fastforce simp: clean_field_def dest: isspace_not_digit)
qed

lemma parse_seq_wire [simp]: "parseUnsigned64 (seq_wire w) = Some w"
  by (simp add: seq_wire_def)

lemma clean_constants:
  "clean_field ''SENSOR''" "clean_field ''SENSOR2''" "clean_field (state_wire st)"
  "clean_field ''STM1''" "clean_field ''STM2''"
  by (simp_all add: clean_field_def c_isspace_def) (cases st; simp)

lemma upper_constants:
  "upper ''SENSOR'' = ''SENSOR''" "upper ''SENSOR2'' = ''SENSOR2''"
  "upper (state_wire st) = state_wire st" "upper ''STM1'' = ''STM1''" "upper ''STM2'' = ''STM2''"
  by (simp_all add: upper_def c_toupper_def) (cases st; simp add: c_toupper_def)

lemmas clean_lemmas = clean_seq_wire clean_constants clean_field_trim

lemma parse_join:
  assumes "fs \<noteq> []" and "\<forall>f \<in> set fs. clean_field f"
  shows "trim (join_fields fs) = join_fields fs" "split (join_fields fs) = fs" "join_fields fs \<noteq> []"
  using assms trim_join split_join join_ends [OF assms] by auto

lemma upper_states [simp]: "upper ''OCCUPIED'' = ''OCCUPIED''" "upper ''VACANT'' = ''VACANT''"
  by (simp_all add: upper_def c_toupper_def)

lemma state_wire_eq:
  "upper (state_wire st) = ''OCCUPIED'' \<longleftrightarrow> st = Occupied"
  "upper (state_wire st) = ''VACANT'' \<longleftrightarrow> st = Vacant"
  unfolding upper_constants by (cases st; simp)+

lemma clean_stamp: "f \<in> set (stamp_wire stamp) \<Longrightarrow> clean_field f"
  by (auto simp: stamp_wire_def clean_seq_wire split: option.splits)

lemma parse_versioned:
  assumes "clean_field i" and "clean_field boot" and "stamp_ok stamp"
  shows "parse (join_fields ([''SENSOR2'', i, state_wire st, boot, seq_wire w] @ stamp_wire stamp)) a b =
    Inr \<lparr>msg_sensorId = i, msg_state = st, msg_occurredAt = frame_time stamp a, msg_sequence = Some w,
      msg_protocolVersion = BootEpochV2, msg_bootId = Some boot, msg_transport = ''text-test'',
      msg_node = None, msg_receivedMonotonic = b\<rparr>"
proof -
  let ?fs = "''SENSOR2'' # i # state_wire st # boot # seq_wire w # stamp_wire stamp"
  have c: "\<forall>f \<in> set ?fs. clean_field f" using assms by (auto simp: clean_lemmas clean_stamp)
  note pj = parse_join [OF list.distinct(2) c]
  have ne: "i \<noteq> []" "boot \<noteq> []" using assms by (auto simp: clean_field_def)
  have up: "upper (?fs ! 0) = ''SENSOR2''" "upper (?fs ! 2) = upper (state_wire st)"
    by (simp_all add: upper_constants numeral_eq_Suc)
  have app: "[''SENSOR2'', i, state_wire st, boot, seq_wire w] @ stamp_wire stamp = ?fs" by simp
  show ?thesis
    unfolding parse_def Let_def app pj up state_wire_eq using ne pj(3) assms(3)
    by (cases st; cases stamp)
      (simp_all add: applyVersionedTail_def stamp_wire_def frame_time_def stamp_ok_def not_less numeral_eq_Suc)
qed

lemma parse_node:
  assumes "clean_field i" and "node = ''STM1'' \<or> node = ''STM2''"
  shows "parse (join_fields [''SENSOR'', node, i, state_wire st, seq_wire w]) a b =
    Inr \<lparr>msg_sensorId = i, msg_state = st, msg_occurredAt = a, msg_sequence = Some w,
      msg_protocolVersion = LegacyV1, msg_bootId = None, msg_transport = ''text-test'',
      msg_node = Some node, msg_receivedMonotonic = b\<rparr>"
proof -
  let ?fs = "[''SENSOR'', node, i, state_wire st, seq_wire w]"
  have c: "\<forall>f \<in> set ?fs. clean_field f" using assms by (auto simp: clean_lemmas)
  note pj = parse_join [OF list.distinct(2) c]
  have ne: "i \<noteq> []" using assms by (auto simp: clean_field_def)
  have node: "upper node = node" "isLoRaNodeId node"
    using assms(2) upper_constants by (auto simp: isLoRaNodeId_def)
  have up: "upper (?fs ! 0) = ''SENSOR''" "upper (?fs ! 3) = upper (state_wire st)"
    by (simp_all add: upper_constants numeral_eq_Suc)
  show ?thesis
    unfolding parse_def Let_def pj up state_wire_eq using ne pj(3) node
    by (cases st) (simp_all add: numeral_eq_Suc)
qed

lemma parse_legacy:
  assumes "clean_field i" and "\<not> isLoRaNodeId i" and "stamp_ok stamp"
  shows "parse (join_fields ([''SENSOR'', i, state_wire st] @
      (case s of None \<Rightarrow> [] | Some w \<Rightarrow> seq_wire w # stamp_wire stamp))) a b =
    Inr \<lparr>msg_sensorId = i, msg_state = st,
      msg_occurredAt = (case s of None \<Rightarrow> a | Some w \<Rightarrow> frame_time stamp a), msg_sequence = s,
      msg_protocolVersion = LegacyV1, msg_bootId = None, msg_transport = ''text-test'',
      msg_node = None, msg_receivedMonotonic = b\<rparr>"
proof -
  let ?fs = "''SENSOR'' # i # state_wire st # (case s of None \<Rightarrow> [] | Some w \<Rightarrow> seq_wire w # stamp_wire stamp)"
  have c: "\<forall>f \<in> set ?fs. clean_field f" using assms by (auto simp: clean_lemmas clean_stamp split: option.splits)
  note pj = parse_join [OF list.distinct(2) c]
  have ne: "i \<noteq> []" using assms by (auto simp: clean_field_def)
  have up: "upper (?fs ! 0) = ''SENSOR''" "upper (?fs ! 2) = upper (state_wire st)"
    by (simp_all add: upper_constants numeral_eq_Suc)
  have app: "[''SENSOR'', i, state_wire st] @ (case s of None \<Rightarrow> [] | Some w \<Rightarrow> seq_wire w # stamp_wire stamp) = ?fs"
    by simp
  show ?thesis
    unfolding parse_def Let_def app pj up state_wire_eq using ne pj(3) assms(2,3)
    by (cases s; cases st; cases stamp)
      (simp_all add: applyOptionalTail_def stamp_wire_def frame_time_def stamp_ok_def not_less numeral_eq_Suc)
qed

lemma wire_of_roundtrip:
  assumes m: "wire_message m stamp" and received: "stamp = None \<Longrightarrow> receivedAt = msg_occurredAt m"
  shows "parse (wire_of m stamp) receivedAt (msg_receivedMonotonic m) = Inr m"
proof -
  have ok: "stamp_ok stamp" and time: "frame_time stamp receivedAt = msg_occurredAt m"
    using assms by (auto simp: wire_message_def stamp_ok_def frame_time_def split: option.splits)
  have received': "msg_node m \<noteq> None \<or> msg_sequence m = None \<Longrightarrow> receivedAt = msg_occurredAt m"
    using m received by (auto simp: wire_message_def split: option.splits)
  show ?thesis
    using m time received'
      parse_versioned [of "msg_sensorId m" "the (msg_bootId m)" stamp "msg_state m" "the (msg_sequence m)" receivedAt, OF _ _ ok]
      parse_node [of "msg_sensorId m" "the (msg_node m)" "msg_state m" "the (msg_sequence m)" receivedAt]
      parse_legacy [of "msg_sensorId m" stamp "msg_state m" "msg_sequence m" receivedAt, OF _ _ ok]
    by (auto simp: wire_of_def wire_message_def
        split: SensorProtocolVersion.splits option.splits)
qed

section \<open>Source timestamps\<close>

lemma time_point_of_millis_exact:
  assumes "uint ms \<le> 9223372036854"
  shows "time_point_of_millis ms = 1000000 * uint ms"
proof -
  have "ms * 1000000 = word_of_int (1000000 * uint ms)"
    by (simp add: mult.commute)
  then have "time_point_of_millis ms = signed_take_bit 63 (1000000 * uint ms)"
    unfolding time_point_of_millis_def by (simp only: signed_of_int) simp
  also have "\<dots> = 1000000 * uint ms"
  proof (rule signed_take_bit_int_eq_self)
    show "- (2 ^ 63) \<le> 1000000 * uint ms"
      by (rule order_trans [of _ 0]) simp_all
    show "1000000 * uint ms < 2 ^ 63"
      using assms by simp
  qed
  finally show ?thesis .
qed

lemma time_point_of_millis_bound: "time_point_of_millis ms < 2 ^ 63"
  using sint_lt [of "ms * 1000000"] by (simp add: time_point_of_millis_def)

section \<open>Properties\<close>

text \<open>
  \<open>parseUnsigned64\<close> accepts exactly the non-empty digit strings whose value fits 64 bits,
  and returns that value: the overflow guard refuses neither too much nor too little.
\<close>

theorem parseUnsigned64_exact:
  "parseUnsigned64 text = Some w \<longleftrightarrow>
     text \<noteq> [] \<and> list_all c_isdigit text \<and> nat_of_dec text < 2 ^ 64 \<and> unat w = nat_of_dec text"
proof -
  have "w = of_nat n \<longleftrightarrow> unat w = n" if "n < 2 ^ 64" for n
    using that by (auto simp: unat_of_nat)
  then show ?thesis
    by (auto simp: parseUnsigned64_iff list_all_iff)
qed

text \<open>
  C25: a parking frame written by the documented grammar is read back as the same message, for every
  frame kind: legacy with or without a sequence, versioned, node-prefixed, and the legacy and versioned
  frames with the optional source timestamp, which then becomes the time of the message; without it
  the message has the time of its arrival.
\<close>

theorem parse_wire_roundtrip:
  assumes "wire_message m stamp" and "stamp = None \<Longrightarrow> receivedAt = msg_occurredAt m"
  shows "parse (wire_of m stamp) receivedAt (msg_receivedMonotonic m) = Inr m"
  using assms by (rule wire_of_roundtrip)

theorem parse_wire_roundtrip_witness:
  "let m = \<lparr>msg_sensorId = ''HALL01'', msg_state = Occupied, msg_occurredAt = 7000000,
        msg_sequence = Some 18446744073709551615, msg_protocolVersion = BootEpochV2,
        msg_bootId = Some ''b1'', msg_transport = ''text-test'', msg_node = None,
        msg_receivedMonotonic = 6\<rparr>
   in wire_message m (Some 7) \<and> parse (wire_of m (Some 7)) 5 6 = Inr m"
proof -
  let ?m = "\<lparr>msg_sensorId = ''HALL01'', msg_state = Occupied, msg_occurredAt = 7000000,
        msg_sequence = Some 18446744073709551615, msg_protocolVersion = BootEpochV2,
        msg_bootId = Some ''b1'', msg_transport = ''text-test'', msg_node = None,
        msg_receivedMonotonic = 6\<rparr>"
  have "time_point_of_millis 7 = 7000000" using time_point_of_millis_exact [of 7] by simp
  then have m: "wire_message ?m (Some 7)"
    by (simp add: wire_message_def clean_field_def c_isspace_def maxMillis_def)
  with parse_wire_roundtrip [OF m, of 5] show ?thesis by simp
qed

text \<open>
  a line that \<open>isFireLine\<close> routes to the fire parser is never a parking message: the
  parking parser refuses it as an unsupported type.
\<close>

theorem fire_lines_are_not_parking:
  assumes "isFireLine line"
  shows "parse line receivedAt monoNow = Inl ''unsupported sensor message type''"
  using assms by (rule parse_rejects_fire_line)

theorem fire_lines_are_not_parking_witness:
  "isFireLine '' fire2:F1:DETECTED:b:7'' \<and>
   parse '' fire2:F1:DETECTED:b:7'' 0 0 = Inl ''unsupported sensor message type''"
proof -
  have "isFireLine '' fire2:F1:DETECTED:b:7''" by code_simp
  with fire_lines_are_not_parking [OF this] show ?thesis by simp
qed

text \<open>
  C33: the timestamp field. Every value up to the \<open>int64\<close> maximum passes the parser's range
  check, but the conversion to the nanosecond clock is exact only up to 9223372036854 ms
  (April 2262); above it the stored time is not the transmitted one.
\<close>

theorem source_time_exact_iff:
  assumes "ms \<le> maxMillis"
  shows "time_point_of_millis ms = 1000000 * uint ms \<longleftrightarrow> uint ms \<le> 9223372036854"
  using time_point_of_millis_exact [of ms] time_point_of_millis_bound [of ms] by auto

theorem source_time_exact_iff_witness:
  "(9223372036855 :: 64 word) \<le> maxMillis \<and>
   time_point_of_millis 9223372036855 \<noteq> 1000000 * uint (9223372036855 :: 64 word)"
proof -
  have "(9223372036855 :: 64 word) \<le> maxMillis" by (simp add: maxMillis_def)
  with source_time_exact_iff [OF this] show ?thesis by simp
qed

end
