(* ===== verification/SensorSequence.thy ===== *)
theory SensorSequence
  imports SensorProtocol
begin

text \<open>
  Duplicate and stale-packet protection: the policy of
  \<^verbatim>\<open>include/sensor/SensorSequencePolicy.hpp\<close> (one cursor per sensor) and the in-memory
  wrapper \<^verbatim>\<open>src/parking/ParkingSensorSequenceGuard.cpp\<close>, which keeps a cursor per sensor id
  and commits a fact only when the policy accepts it. \<^verbatim>\<open>include/parking/ParkingSensorEvent.hpp\<close>
  is the event type. Sequence numbers are 64-bit words: the subtraction in the reboot test is
  the unsigned one of the source.
\<close>

section \<open>Data\<close>

record ParkingSensorEvent =
  ev_slotId :: string
  ev_sensorId :: string
  ev_state :: ParkingSensorState
  ev_occurredAt :: int
  ev_sourceSequence :: "64 word option"
  ev_sourceProtocolVersion :: SensorProtocolVersion
  ev_sourceBootId :: "string option"
  ev_sourceTransport :: string
  ev_receivedMonotonic :: int

datatype SensorSequenceMode = Unseen | Legacy | Versioned

record SensorSequenceState =
  seq_mode :: SensorSequenceMode
  seq_activeBootId :: "string option"
  seq_lastSequence :: "64 word option"
  seq_retiredBootIds :: "string set"

record SensorSequenceFact =
  fact_protocolVersion :: SensorProtocolVersion
  fact_bootId :: "string option"
  fact_sequence :: "64 word option"

datatype SensorSequenceDecisionCode =
  Accept | Duplicate | Stale | LegacyDowngrade | RetiredBootId | Invalid

type_synonym SensorSequenceDecision = "SensorSequenceDecisionCode \<times> string"

definition accepted :: "SensorSequenceDecision \<Rightarrow> bool" where
  "accepted d \<longleftrightarrow> fst d = Accept"

definition initial_sequence_state :: SensorSequenceState where
  "initial_sequence_state =
     \<lparr>seq_mode = Unseen, seq_activeBootId = None, seq_lastSequence = None,
      seq_retiredBootIds = {}\<rparr>"

definition kLegacySequenceRebootDropThreshold :: "64 word" where
  "kLegacySequenceRebootDropThreshold = 1000"

section \<open>The policy\<close>

definition evaluateLegacySequence ::
  "SensorSequenceState \<Rightarrow> SensorSequenceFact \<Rightarrow> SensorSequenceDecision" where
  "evaluateLegacySequence state fct =
     (if fact_bootId fct \<noteq> None \<and> fact_bootId fct \<noteq> Some []
      then (Invalid, ''legacy frame must not carry a boot ID'')
      else if seq_mode state = Versioned
      then (LegacyDowngrade, ''legacy frame rejected after versioned mode'')
      else case (fact_sequence fct, seq_lastSequence state) of
          (Some s, Some l) \<Rightarrow>
            if seq_mode state = Unseen then (Accept, [])
            else if s = l then (Duplicate, ''duplicate sensor sequence'')
            else if s < l then
              (if l - s > kLegacySequenceRebootDropThreshold then (Accept, [])
               else (Stale, ''stale sensor sequence''))
            else (Accept, [])
        | _ \<Rightarrow> (Accept, []))"

definition evaluateVersionedSequence ::
  "SensorSequenceState \<Rightarrow> SensorSequenceFact \<Rightarrow> SensorSequenceDecision" where
  "evaluateVersionedSequence state fct =
     (case (fact_bootId fct, fact_sequence fct) of
        (Some boot, Some s) \<Rightarrow>
          if boot = [] then (Invalid, ''versioned frame requires boot ID and sequence'')
          else if boot \<in> seq_retiredBootIds state
          then (RetiredBootId, ''retired boot ID rejected'')
          else if seq_mode state \<noteq> Versioned then (Accept, [])
          else (case (seq_activeBootId state, seq_lastSequence state) of
              (Some active, Some l) \<Rightarrow>
                if active = [] then (Invalid, ''stored versioned cursor is incomplete'')
                else if boot \<noteq> active then (Accept, [])
                else if s = l then (Duplicate, ''duplicate sensor sequence in active boot epoch'')
                else if s < l then (Stale, ''stale sensor sequence in active boot epoch'')
                else (Accept, [])
            | _ \<Rightarrow> (Invalid, ''stored versioned cursor is incomplete''))
      | _ \<Rightarrow> (Invalid, ''versioned frame requires boot ID and sequence''))"

definition evaluateSensorSequence ::
  "SensorSequenceState \<Rightarrow> SensorSequenceFact \<Rightarrow> SensorSequenceDecision" where
  "evaluateSensorSequence state fct =
     (if fact_protocolVersion fct = LegacyV1 then evaluateLegacySequence state fct
      else evaluateVersionedSequence state fct)"

definition commitSensorSequence ::
  "SensorSequenceState \<Rightarrow> SensorSequenceFact \<Rightarrow> SensorSequenceState" where
  "commitSensorSequence state fct =
     (if fact_protocolVersion fct = LegacyV1 then
        state\<lparr>seq_mode := Legacy, seq_activeBootId := None,
          seq_lastSequence := (case fact_sequence fct of
             None \<Rightarrow> seq_lastSequence state | Some s \<Rightarrow> Some s)\<rparr>
      else
        (let retired =
           (case (seq_activeBootId state, fact_bootId fct) of
              (Some active, Some boot) \<Rightarrow>
                if seq_mode state = Versioned \<and> active \<noteq> boot
                then insert active (seq_retiredBootIds state)
                else seq_retiredBootIds state
            | _ \<Rightarrow> seq_retiredBootIds state)
         in state\<lparr>seq_retiredBootIds := retired, seq_mode := Versioned,
              seq_activeBootId := fact_bootId fct, seq_lastSequence := fact_sequence fct\<rparr>))"

section \<open>The guard\<close>

type_synonym SequenceGuard = "(string, SensorSequenceState) umap"

definition event_fact :: "ParkingSensorEvent \<Rightarrow> SensorSequenceFact" where
  "event_fact e = \<lparr>fact_protocolVersion = ev_sourceProtocolVersion e,
     fact_bootId = ev_sourceBootId e, fact_sequence = ev_sourceSequence e\<rparr>"

text \<open>\<open>stateBySensor_[sensorId]\<close>: a missing cursor is created, even if the fact is refused.\<close>

definition guard_state :: "SequenceGuard \<Rightarrow> string \<Rightarrow> SensorSequenceState" where
  "guard_state g sensorId =
     (case um_find g sensorId of None \<Rightarrow> initial_sequence_state | Some s \<Rightarrow> s)"

definition guard_accept ::
  "SequenceGuard \<Rightarrow> ParkingSensorEvent \<Rightarrow> SequenceGuard \<times> (string + unit)" where
  "guard_accept g event =
     (let state = guard_state g (ev_sensorId event); fct = event_fact event;
          decision = evaluateSensorSequence state fct in
      if \<not> accepted decision
      then (um_put (ev_sensorId event) state g, Inl (snd decision))
      else (um_put (ev_sensorId event) (commitSensorSequence state fct) g, Inr ()))"

definition guard_reset :: "SequenceGuard \<Rightarrow> string \<Rightarrow> SequenceGuard" where
  "guard_reset g sensorId = um_erase sensorId g"

definition guard_clear :: "SequenceGuard \<Rightarrow> SequenceGuard" where
  "guard_clear g = []"

section \<open>Invariant of a cursor\<close>

definition seq_wf :: "SensorSequenceState \<Rightarrow> bool" where
  "seq_wf s \<longleftrightarrow>
     (case seq_mode s of
        Versioned \<Rightarrow> (\<exists>b l. seq_activeBootId s = Some b \<and> b \<noteq> [] \<and>
          seq_lastSequence s = Some l \<and> b \<notin> seq_retiredBootIds s)
      | Legacy \<Rightarrow> seq_activeBootId s = None \<and> seq_retiredBootIds s = {}
      | Unseen \<Rightarrow> s = initial_sequence_state)"

definition guard_wf :: "SequenceGuard \<Rightarrow> bool" where
  "guard_wf g \<longleftrightarrow> um_wf g \<and> (\<forall>sensor. seq_wf (guard_state g sensor))"

text \<open>The versioned cursor has passed the fact with boot id \<open>b\<close> and sequence \<open>n\<close>.\<close>

definition covered :: "SensorSequenceState \<Rightarrow> string \<Rightarrow> 64 word \<Rightarrow> bool" where
  "covered s b n \<longleftrightarrow> seq_mode s = Versioned \<and>
     (b \<in> seq_retiredBootIds s \<or>
      (seq_activeBootId s = Some b \<and> (\<exists>l. seq_lastSequence s = Some l \<and> n \<le> l)))"

definition cursor_le :: "SensorSequenceState \<Rightarrow> SensorSequenceState \<Rightarrow> bool" where
  "cursor_le s t \<longleftrightarrow> (\<forall>b n. covered s b n \<longrightarrow> covered t b n) \<and>
     (seq_mode s = Versioned \<longrightarrow> seq_mode t = Versioned)"

lemma seq_wf_initial [simp]: "seq_wf initial_sequence_state"
  by (simp add: seq_wf_def initial_sequence_state_def)

lemmas evaluate_defs =
  evaluateSensorSequence_def evaluateLegacySequence_def evaluateVersionedSequence_def accepted_def

lemma seq_wf_commit [inv_intros]:
  assumes "seq_wf s" and "accepted (evaluateSensorSequence s f)"
  shows "seq_wf (commitSensorSequence s f)"
  using assms
  by (auto simp: seq_wf_def commitSensorSequence_def evaluate_defs initial_sequence_state_def
      split: SensorSequenceMode.splits if_splits option.splits)

lemma commit_grows:
  assumes "seq_wf s" and "accepted (evaluateSensorSequence s f)"
  shows "cursor_le s (commitSensorSequence s f)"
  using assms
  by (auto simp: seq_wf_def commitSensorSequence_def evaluate_defs covered_def cursor_le_def
      split: SensorSequenceMode.splits if_splits option.splits)

lemma commit_covers:
  assumes "accepted (evaluateSensorSequence s f)" and "fact_protocolVersion f = BootEpochV2"
    and "fact_bootId f = Some b" and "fact_sequence f = Some n"
  shows "covered (commitSensorSequence s f) b n"
  using assms by (auto simp: commitSensorSequence_def covered_def)

lemma covered_rejected:
  assumes "covered s b n" and "fact_protocolVersion f = BootEpochV2"
    and "fact_bootId f = Some b" and "fact_sequence f = Some m" and "m \<le> n"
  shows "\<not> accepted (evaluateSensorSequence s f)"
  using assms by (auto simp: covered_def evaluate_defs split: if_splits)

lemma cursor_le_refl: "cursor_le s s"
  by (simp add: cursor_le_def)

lemma cursor_le_trans: "cursor_le s t \<Longrightarrow> cursor_le t u \<Longrightarrow> cursor_le s u"
  by (auto simp: cursor_le_def)

section \<open>The guard as an invariant machine\<close>

lemma guard_state_put: "guard_state (um_put k s g) x = (if x = k then s else guard_state g x)"
  by (simp add: guard_state_def um_simps)

lemma guard_wf_accept [inv_intros]: "guard_wf g \<Longrightarrow> guard_wf (fst (guard_accept g e))"
  by (auto simp: guard_wf_def guard_accept_def Let_def guard_state_put intro: inv_intros)

lemma guard_accept_grows:
  "guard_wf g \<Longrightarrow> cursor_le (guard_state g x) (guard_state (fst (guard_accept g e)) x)"
  by (auto simp: guard_wf_def guard_accept_def Let_def guard_state_put
      intro: cursor_le_refl commit_grows)

interpretation sequence_guard: monotone_machine guard_accept guard_wf
  "\<lambda>g h. \<forall>x. cursor_le (guard_state g x) (guard_state h x)"
  by unfold_locales (auto intro: guard_wf_accept guard_accept_grows cursor_le_refl cursor_le_trans)

lemma guard_accept_Inr:
  "snd (guard_accept g e) = Inr () \<longleftrightarrow>
     accepted (evaluateSensorSequence (guard_state g (ev_sensorId e)) (event_fact e))"
  by (simp add: guard_accept_def Let_def)

lemma covered_after_accept:
  assumes "snd (guard_accept g e) = Inr ()" and "ev_sourceProtocolVersion e = BootEpochV2"
    and "ev_sourceBootId e = Some b" and "ev_sourceSequence e = Some n"
  shows "covered (guard_state (fst (guard_accept g e)) (ev_sensorId e)) b n"
  using assms commit_covers [of "guard_state g (ev_sensorId e)" "event_fact e" b n]
  by (simp add: guard_accept_def guard_state_put event_fact_def Let_def split: if_splits)

lemma legacy_step:
  fixes s l :: "64 word"
  shows "(s < l \<and> l - s > 1000) \<longleftrightarrow> unat s + 1000 < unat l"
proof (cases "s < l")
  case True
  then have "unat (l - s) = unat l - unat s"
    by (simp add: unat_sub)
  moreover have "unat s < unat l"
    using True by (simp add: word_less_nat_alt)
  moreover have "unat (1000 :: 64 word) = 1000"
    by simp
  ultimately show ?thesis
    using True by (auto simp only: word_less_nat_alt [of 1000])
qed (auto simp: word_less_nat_alt)

section \<open>Properties\<close>

text \<open>
  C26: once a sensor's guard has accepted a versioned frame, every frame of the sensor with the same
  boot id and a sequence not above it is refused at every later moment, whatever events (of any
  sensor, of either protocol version, with further reboots) come between.
\<close>

theorem versioned_frame_accepted_once:
  assumes wf: "guard_wf g"
    and acc: "snd (guard_accept g e) = Inr ()"
    and v2: "ev_sourceProtocolVersion e = BootEpochV2" and n: "ev_sourceSequence e = Some n"
    and same: "ev_sensorId e' = ev_sensorId e" "ev_sourceProtocolVersion e' = BootEpochV2"
      "ev_sourceBootId e' = ev_sourceBootId e" "ev_sourceSequence e' = Some m" "m \<le> n"
  shows "snd (guard_accept (final_state guard_accept (fst (guard_accept g e)) es) e') \<noteq> Inr ()"
proof -
  let ?g1 = "fst (guard_accept g e)"
  from acc v2 obtain b where b: "ev_sourceBootId e = Some b"
    by (auto simp: guard_accept_Inr evaluate_defs event_fact_def split: option.splits)
  have "cursor_le (guard_state ?g1 (ev_sensorId e))
      (guard_state (final_state guard_accept ?g1 es) (ev_sensorId e))"
    using sequence_guard.run_grows [OF guard_wf_accept [OF wf]] by simp
  then have "covered (guard_state (final_state guard_accept ?g1 es) (ev_sensorId e)) b n"
    using covered_after_accept [OF acc v2 b n] by (simp add: cursor_le_def)
  then show ?thesis
    using covered_rejected [of _ b n "event_fact e'" m] same b
    by (simp add: guard_accept_Inr event_fact_def)
qed

theorem versioned_frame_accepted_once_witness:
  "let e = \<lparr>ev_slotId = ''EV01'', ev_sensorId = ''HALL01'', ev_state = Occupied,
        ev_occurredAt = 0, ev_sourceSequence = Some 7, ev_sourceProtocolVersion = BootEpochV2,
        ev_sourceBootId = Some ''b1'', ev_sourceTransport = ''uart'', ev_receivedMonotonic = 0\<rparr>;
       r = e\<lparr>ev_sourceBootId := Some ''b2'', ev_sourceSequence := Some 1\<rparr>
   in snd (guard_accept [] e) = Inr () \<and>
      snd (guard_accept (final_state guard_accept (fst (guard_accept [] e)) [r]) (e\<lparr>ev_sourceSequence := Some 3\<rparr>)) \<noteq> Inr ()"
proof -
  let ?e = "\<lparr>ev_slotId = ''EV01'', ev_sensorId = ''HALL01'', ev_state = Occupied,
        ev_occurredAt = 0, ev_sourceSequence = Some 7, ev_sourceProtocolVersion = BootEpochV2,
        ev_sourceBootId = Some ''b1'', ev_sourceTransport = ''uart'', ev_receivedMonotonic = 0\<rparr>"
  have wf: "guard_wf []" by (simp add: guard_wf_def guard_state_def)
  have acc: "snd (guard_accept [] ?e) = Inr ()"
    by (simp add: guard_accept_Inr evaluate_defs event_fact_def guard_state_def
        initial_sequence_state_def)
  show ?thesis
    using versioned_frame_accepted_once [OF wf acc, of 7 "?e\<lparr>ev_sourceSequence := Some 3\<rparr>" 3] acc
    by (simp add: Let_def del: run_steps.simps)
qed

text \<open>
  the legacy rule in arithmetic. A sensor in legacy mode with watermark \<open>l\<close> accepts a frame
  with sequence \<open>s\<close> exactly when \<open>s\<close> is larger, or smaller by more than 1000 (a reboot); the
  64-bit subtraction never wraps there.
\<close>

theorem legacy_sequence_rule:
  assumes "fact_protocolVersion f = LegacyV1" and "fact_bootId f = None"
    and "seq_mode st = Legacy" and "seq_lastSequence st = Some l" and "fact_sequence f = Some s"
  shows "accepted (evaluateSensorSequence st f) \<longleftrightarrow> unat l < unat s \<or> unat s + 1000 < unat l"
  using assms legacy_step [of s l] word_less_nat_alt [of s l] word_less_nat_alt [of l s]
  by (cases s l rule: linorder_cases)
    (auto simp: evaluate_defs kLegacySequenceRebootDropThreshold_def)

theorem legacy_sequence_rule_witness:
  "accepted (evaluateSensorSequence
      \<lparr>seq_mode = Legacy, seq_activeBootId = None, seq_lastSequence = Some 1002, seq_retiredBootIds = {}\<rparr>
      \<lparr>fact_protocolVersion = LegacyV1, fact_bootId = None, fact_sequence = Some 1\<rparr>)"
  using legacy_sequence_rule [of
      "\<lparr>fact_protocolVersion = LegacyV1, fact_bootId = None, fact_sequence = Some 1\<rparr>"
      "\<lparr>seq_mode = Legacy, seq_activeBootId = None, seq_lastSequence = Some 1002, seq_retiredBootIds = {}\<rparr>"
      1002 1] by simp

end
