(* ===== verification/SlotConfig.thy ===== *)
theory SlotConfig
  imports SensorSequence
begin

text \<open>
  Slot configuration: the JSON loader of \<^verbatim>\<open>src/parking/ParkingSlotConfig.cpp\<close>, the sensor
  index of \<^verbatim>\<open>src/parking/SensorSlotIndex.cpp\<close> and the adapter of
  \<^verbatim>\<open>src/sensor/ParkingSensorEventAdapter.cpp\<close>, which gives a transport message its slot id.

  The JSON library is a parameter: a record of the queries the loader makes of a value of an
  arbitrary type \<open>'j\<close>. \<open>js_parse\<close> is \<open>Json::parse\<close>, with the exception text on the left. The
  theorems assume nothing of it. A thrown exception is the left summand of a result.
\<close>

section \<open>Data\<close>

record 'j json_api =
  js_parse :: "string \<Rightarrow> string + 'j"
  js_is_object :: "'j \<Rightarrow> bool"
  js_is_array :: "'j \<Rightarrow> bool"
  js_is_string :: "'j \<Rightarrow> bool"
  js_is_boolean :: "'j \<Rightarrow> bool"
  js_is_number_integer :: "'j \<Rightarrow> bool"
  js_is_null :: "'j \<Rightarrow> bool"
  js_find :: "'j \<Rightarrow> string \<Rightarrow> 'j option"
  js_elements :: "'j \<Rightarrow> 'j list"
  js_get_string :: "'j \<Rightarrow> string"
  js_get_bool :: "'j \<Rightarrow> bool"
  js_get_int :: "'j \<Rightarrow> int"

record SlotObservationBinding =
  bnd_cameraId :: string
  bnd_videoSourceToken :: string
  bnd_ruleName :: string
  bnd_enabled :: bool
  bnd_priority :: int

record ParkingSlotConfig =
  cfg_slotId :: string
  cfg_enabled :: bool
  cfg_zoneType :: string
  cfg_sensorId :: string
  cfg_cameraBindings :: "SlotObservationBinding list"

section \<open>Fields of an object\<close>

definition field_error :: "string \<Rightarrow> string \<Rightarrow> string \<Rightarrow> string" where
  "field_error ctx key msg = ctx @ '': field '' @ [CHR 0x27] @ key @ [CHR 0x27] @ msg"

definition requiredString :: "'j json_api \<Rightarrow> 'j \<Rightarrow> string \<Rightarrow> string \<Rightarrow> string + string" where
  "requiredString api obj key ctx =
     (case js_find api obj key of
        None \<Rightarrow> Inl (field_error ctx key '' must be a string'')
      | Some v \<Rightarrow>
          if \<not> js_is_string api v then Inl (field_error ctx key '' must be a string'')
          else if js_get_string api v = []
          then Inl (field_error ctx key '' must not be empty'')
          else Inr (js_get_string api v))"

definition optionalString ::
  "'j json_api \<Rightarrow> 'j \<Rightarrow> string \<Rightarrow> string \<Rightarrow> string \<Rightarrow> string + string" where
  "optionalString api obj key fallback ctx =
     (case js_find api obj key of
        None \<Rightarrow> Inr fallback
      | Some v \<Rightarrow>
          if js_is_null api v then Inr fallback
          else if \<not> js_is_string api v
          then Inl (field_error ctx key '' must be a string'')
          else Inr (js_get_string api v))"

definition optionalBool ::
  "'j json_api \<Rightarrow> 'j \<Rightarrow> string \<Rightarrow> bool \<Rightarrow> string \<Rightarrow> string + bool" where
  "optionalBool api obj key fallback ctx =
     (case js_find api obj key of
        None \<Rightarrow> Inr fallback
      | Some v \<Rightarrow>
          if js_is_null api v then Inr fallback
          else if \<not> js_is_boolean api v
          then Inl (field_error ctx key '' must be a boolean'')
          else Inr (js_get_bool api v))"

definition optionalInt ::
  "'j json_api \<Rightarrow> 'j \<Rightarrow> string \<Rightarrow> int \<Rightarrow> string \<Rightarrow> string + int" where
  "optionalInt api obj key fallback ctx =
     (case js_find api obj key of
        None \<Rightarrow> Inr fallback
      | Some v \<Rightarrow>
          if js_is_null api v then Inr fallback
          else if \<not> js_is_number_integer api v
          then Inl (field_error ctx key '' must be an integer'')
          else Inr (js_get_int api v))"

section \<open>Bindings and slots\<close>

definition parseBinding :: "'j json_api \<Rightarrow> 'j \<Rightarrow> string \<Rightarrow> string + SlotObservationBinding" where
  "parseBinding api obj ctx =
     (if \<not> js_is_object api obj then Inl (ctx @ '' must be an object'')
      else try_bind (requiredString api obj ''camera_id'' ctx) (\<lambda>camera.
        try_bind (requiredString api obj ''video_source_token'' ctx) (\<lambda>token.
        try_bind (requiredString api obj ''rule_name'' ctx) (\<lambda>rule.
        try_bind (optionalBool api obj ''enabled'' True ctx) (\<lambda>en.
        try_bind (optionalInt api obj ''priority'' 0 ctx) (\<lambda>prio.
          Inr \<lparr>bnd_cameraId = camera, bnd_videoSourceToken = token, bnd_ruleName = rule,
               bnd_enabled = en, bnd_priority = prio\<rparr>))))))"

definition binding_key :: "SlotObservationBinding \<Rightarrow> string" where
  "binding_key b = bnd_cameraId b @ [CHR 0x0A] @ bnd_videoSourceToken b @ [CHR 0x0A] @ bnd_ruleName b"

fun parse_bindings ::
  "'j json_api \<Rightarrow> string \<Rightarrow> nat \<Rightarrow> string set \<Rightarrow> 'j list \<Rightarrow> string + SlotObservationBinding list" where
  "parse_bindings api ctx i bindingKeys [] = Inr []"
| "parse_bindings api ctx i bindingKeys (v # vs) =
     (let bindingContext = ctx @ ''.camera_bindings['' @ dec_of_nat i @ '']'' in
      try_bind (parseBinding api v bindingContext) (\<lambda>binding.
        if binding_key binding \<in> bindingKeys
        then Inl (bindingContext @ '': duplicate camera/token/rule binding'')
        else try_bind (parse_bindings api ctx (Suc i) (insert (binding_key binding) bindingKeys) vs)
               (\<lambda>rest. Inr (binding # rest))))"

definition parseSlot :: "'j json_api \<Rightarrow> 'j \<Rightarrow> nat \<Rightarrow> string + ParkingSlotConfig" where
  "parseSlot api obj index =
     (let ctx = ''slots['' @ dec_of_nat index @ '']'' in
      if \<not> js_is_object api obj then Inl (ctx @ '' must be an object'')
      else try_bind (requiredString api obj ''slot_id'' ctx) (\<lambda>slotId.
        try_bind (optionalBool api obj ''enabled'' False ctx) (\<lambda>en.
        try_bind (optionalString api obj ''zone_type'' ''unassigned'' ctx) (\<lambda>zone.
        try_bind (optionalString api obj ''sensor_id'' [] ctx) (\<lambda>sensorId.
        try_bind
          (case js_find api obj ''camera_bindings'' of
             None \<Rightarrow> Inr []
           | Some v \<Rightarrow>
               if js_is_null api v then Inr []
               else if \<not> js_is_array api v
               then Inl (field_error ctx ''camera_bindings'' '' must be an array'')
               else parse_bindings api ctx 0 {} (js_elements api v)) (\<lambda>bindings.
          if en \<and> sensorId = [] then Inl (ctx @ '': enabled slot requires non-empty sensor_id'')
          else Inr \<lparr>cfg_slotId = slotId, cfg_enabled = en, cfg_zoneType = zone,
                    cfg_sensorId = sensorId, cfg_cameraBindings = bindings\<rparr>))))))"

fun parse_slots ::
  "'j json_api \<Rightarrow> nat \<Rightarrow> string set \<Rightarrow> string set \<Rightarrow> 'j list \<Rightarrow> string + ParkingSlotConfig list" where
  "parse_slots api index slotIds enabledSensorIds [] = Inr []"
| "parse_slots api index slotIds enabledSensorIds (v # vs) =
     try_bind (parseSlot api v index) (\<lambda>config.
       if cfg_slotId config \<in> slotIds then Inl (''duplicate slot_id: '' @ cfg_slotId config)
       else if cfg_enabled config \<and> cfg_sensorId config \<in> enabledSensorIds
       then Inl (''duplicate sensor_id among enabled slots: '' @ cfg_sensorId config)
       else try_bind (parse_slots api (Suc index) (insert (cfg_slotId config) slotIds)
              (if cfg_enabled config then insert (cfg_sensorId config) enabledSensorIds
               else enabledSensorIds) vs)
              (\<lambda>rest. Inr (config # rest)))"

definition slots_error :: string where
  "slots_error = ''parking slot config field '' @ [CHR 0x27] @ ''slots'' @ [CHR 0x27] @ '' must be an array''"

definition config_parse :: "'j json_api \<Rightarrow> string \<Rightarrow> string + ParkingSlotConfig list" where
  "config_parse api jsonText =
     (if jsonText = [] then Inl ''parking slot config is empty''
      else try_bind (js_parse api jsonText) (\<lambda>root.
        if \<not> js_is_object api root then Inl ''parking slot config root must be an object''
        else case js_find api root ''slots'' of
            None \<Rightarrow> Inl slots_error
          | Some v \<Rightarrow>
              if \<not> js_is_array api v
              then Inl slots_error
              else if js_elements api v = []
              then Inl ''parking slot config must contain at least one slot''
              else parse_slots api 0 {} {} (js_elements api v)))"

section \<open>Sensor index and adapter\<close>

type_synonym SensorSlotIndex = "(string, string \<times> string) umap"

text \<open>A match is the pair of slot id and sensor id.\<close>

fun build_index :: "SensorSlotIndex \<Rightarrow> ParkingSlotConfig list \<Rightarrow> string + SensorSlotIndex" where
  "build_index bySensorId [] = Inr bySensorId"
| "build_index bySensorId (config # configs) =
     (if \<not> cfg_enabled config then build_index bySensorId configs
      else if cfg_sensorId config = []
      then Inl (''enabled slot has an empty sensor id: '' @ cfg_slotId config)
      else if um_contains bySensorId (cfg_sensorId config)
      then Inl (''duplicate enabled sensor id: '' @ cfg_sensorId config)
      else build_index (um_emplace (cfg_sensorId config)
             (cfg_slotId config, cfg_sensorId config) bySensorId) configs)"

definition newSensorSlotIndex :: "ParkingSlotConfig list \<Rightarrow> string + SensorSlotIndex" where
  "newSensorSlotIndex configs = build_index [] configs"

definition findBySensorId :: "SensorSlotIndex \<Rightarrow> string \<Rightarrow> (string \<times> string) option" where
  "findBySensorId ix sensorId = um_find ix sensorId"

definition index_size :: "SensorSlotIndex \<Rightarrow> nat" where
  "index_size ix = length ix"

definition adapt :: "SensorSlotIndex \<Rightarrow> SensorProtocolMessage \<Rightarrow> string + ParkingSensorEvent" where
  "adapt ix message =
     (case findBySensorId ix (msg_sensorId message) of
        None \<Rightarrow> Inl ''sensor id is not mapped to an enabled slot''
      | Some (slotId, _) \<Rightarrow>
          Inr \<lparr>ev_slotId = slotId, ev_sensorId = msg_sensorId message,
               ev_state = msg_state message, ev_occurredAt = msg_occurredAt message,
               ev_sourceSequence = msg_sequence message,
               ev_sourceProtocolVersion = msg_protocolVersion message,
               ev_sourceBootId = msg_bootId message,
               ev_sourceTransport = msg_transport message,
               ev_receivedMonotonic = msg_receivedMonotonic message\<rparr>)"

section \<open>What the loader guarantees\<close>

definition enabled_sensors :: "ParkingSlotConfig list \<Rightarrow> string list" where
  "enabled_sensors configs = map cfg_sensorId (filter cfg_enabled configs)"

definition configs_ok :: "ParkingSlotConfig list \<Rightarrow> bool" where
  "configs_ok configs \<longleftrightarrow> configs \<noteq> [] \<and> distinct (map cfg_slotId configs) \<and>
     [] \<notin> set (map cfg_slotId configs) \<and>
     distinct (enabled_sensors configs) \<and> [] \<notin> set (enabled_sensors configs)"

lemma requiredString_nonempty: "requiredString api obj key ctx = Inr v \<Longrightarrow> v \<noteq> []"
  by (auto simp: requiredString_def split: option.splits if_splits)

lemma parseSlot_ok:
  assumes "parseSlot api obj i = Inr c"
  shows "cfg_slotId c \<noteq> []" and "cfg_enabled c \<Longrightarrow> cfg_sensorId c \<noteq> []"
  using assms by (auto simp: parseSlot_def Let_def dest: requiredString_nonempty split: if_splits)

lemma parse_slots_ok:
  assumes "parse_slots api i ids sensors vs = Inr cs"
  shows "length cs = length vs \<and> distinct (map cfg_slotId cs) \<and> [] \<notin> set (map cfg_slotId cs) \<and>
    set (map cfg_slotId cs) \<inter> ids = {} \<and> distinct (enabled_sensors cs) \<and>
    [] \<notin> set (enabled_sensors cs) \<and> set (enabled_sensors cs) \<inter> sensors = {}"
  using assms
proof (induction api i ids sensors vs arbitrary: cs rule: parse_slots.induct)
  case (2 api i ids sensors v vs)
  from "2.prems" obtain c rest where c: "parseSlot api v i = Inr c"
    and new: "cfg_slotId c \<notin> ids" "cfg_enabled c \<longrightarrow> cfg_sensorId c \<notin> sensors"
    and rest: "parse_slots api (Suc i) (insert (cfg_slotId c) ids)
       (if cfg_enabled c then insert (cfg_sensorId c) sensors else sensors) vs = Inr rest"
    and cs: "cs = c # rest"
    by (auto split: if_splits)
  have IH: "length rest = length vs \<and> distinct (map cfg_slotId rest) \<and>
    [] \<notin> set (map cfg_slotId rest) \<and>
    set (map cfg_slotId rest) \<inter> insert (cfg_slotId c) ids = {} \<and> distinct (enabled_sensors rest) \<and>
    [] \<notin> set (enabled_sensors rest) \<and> set (enabled_sensors rest) \<inter>
      (if cfg_enabled c then insert (cfg_sensorId c) sensors else sensors) = {}"
    using "2.IH" [of c rest] new rest by auto
  show ?case
    using IH new parseSlot_ok [OF c] unfolding cs enabled_sensors_def
    by (cases "cfg_enabled c") auto
qed (simp add: enabled_sensors_def)

lemma config_parse_ok:
  assumes "config_parse api text = Inr cs"
  shows "configs_ok cs"
  using assms parse_slots_ok
  by (fastforce simp: config_parse_def configs_ok_def split: if_splits option.splits)

section \<open>The index finds the configured slot\<close>

lemma build_index_ok:
  assumes "distinct (enabled_sensors cs)" and "[] \<notin> set (enabled_sensors cs)"
    and "\<forall>x \<in> set (enabled_sensors cs). um_find m x = None"
  shows "\<exists>ix. build_index m cs = Inr ix \<and>
    (\<forall>x. um_find ix x = (case find (\<lambda>c. cfg_enabled c \<and> cfg_sensorId c = x) cs of
       Some c \<Rightarrow> Some (cfg_slotId c, x) | None \<Rightarrow> um_find m x))"
  using assms
proof (induction m cs rule: build_index.induct)
  case (2 m c cs)
  show ?case
  proof (cases "cfg_enabled c")
    case True
    let ?m = "um_emplace (cfg_sensorId c) (cfg_slotId c, cfg_sensorId c) m"
    have fresh: "um_find m (cfg_sensorId c) = None" "cfg_sensorId c \<noteq> []"
      using "2.prems" True by (auto simp: enabled_sensors_def)
    have notin: "cfg_sensorId c \<notin> set (enabled_sensors cs)"
      using "2.prems"(1) True by (simp add: enabled_sensors_def)
    have "\<exists>ix. build_index ?m cs = Inr ix \<and>
      (\<forall>x. um_find ix x = (case find (\<lambda>c. cfg_enabled c \<and> cfg_sensorId c = x) cs of
         Some c \<Rightarrow> Some (cfg_slotId c, x) | None \<Rightarrow> um_find ?m x))"
    proof (rule "2.IH"(2))
      show "\<not> um_contains m (cfg_sensorId c)" using fresh by (simp add: um_contains_iff)
      show "\<forall>x \<in> set (enabled_sensors cs). um_find ?m x = None"
        using "2.prems"(3) notin True
        by (simp add: um_find_emplace enabled_sensors_def image_iff) metis
    qed (use True fresh "2.prems" in \<open>auto simp: enabled_sensors_def\<close>)
    then obtain ix where ix: "build_index ?m cs = Inr ix"
      "\<forall>x. um_find ix x = (case find (\<lambda>c. cfg_enabled c \<and> cfg_sensorId c = x) cs of
         Some c \<Rightarrow> Some (cfg_slotId c, x) | None \<Rightarrow> um_find ?m x)"
      by auto
    have none: "find (\<lambda>d. cfg_enabled d \<and> cfg_sensorId d = cfg_sensorId c) cs = None"
      using notin by (simp add: find_None_iff enabled_sensors_def image_iff) metis
    show ?thesis
      using True fresh ix none by (auto simp: um_contains_iff um_find_emplace cong: option.case_cong)
  next
    case False
    then show ?thesis
      using "2.IH"(1) "2.prems" by (simp add: enabled_sensors_def)
  qed
qed simp

lemma newSensorSlotIndex_ok:
  assumes "configs_ok cs"
  obtains ix where "newSensorSlotIndex cs = Inr ix"
    and "\<And>x. findBySensorId ix x =
      map_option (\<lambda>c. (cfg_slotId c, x)) (find (\<lambda>c. cfg_enabled c \<and> cfg_sensorId c = x) cs)"
proof -
  have "\<exists>ix. build_index [] cs = Inr ix \<and>
    (\<forall>x. um_find ix x = (case find (\<lambda>c. cfg_enabled c \<and> cfg_sensorId c = x) cs of
       Some c \<Rightarrow> Some (cfg_slotId c, x) | None \<Rightarrow> um_find [] x))"
    using assms by (intro build_index_ok) (auto simp: configs_ok_def)
  then show thesis
    using that by (auto simp: newSensorSlotIndex_def findBySensorId_def map_option_case
        cong: option.case_cong)
qed

end
