(* ===== verification/SlotManager.thy ===== *)
theory SlotManager
  imports SlotConfig
begin

text \<open>
  The in-memory slot state machine: \<^verbatim>\<open>src/parking/ParkingOccupancySession.cpp\<close>,
  \<^verbatim>\<open>src/parking/ParkingSlotManager.cpp\<close> and the read model
  \<^verbatim>\<open>src/parking/ActiveParkingSessionIndex.cpp\<close>, which follows the manager's transitions.

  The process-wide counter \<open>gSessionSequence\<close> is a field of the manager's state. An operation
  that can throw returns the new state and either the exception text or the result.
\<close>

section \<open>Sessions\<close>

datatype ParkingSessionState = Active | Completed

record ParkingOccupancySession =
  ses_sessionId :: string
  ses_slotId :: string
  ses_sensorId :: string
  ses_state :: ParkingSessionState
  ses_startedAt :: int
  ses_startedAtMonotonic :: int
  ses_endedAt :: "int option"

definition newParkingOccupancySession ::
  "string \<Rightarrow> string \<Rightarrow> string \<Rightarrow> int \<Rightarrow> int \<Rightarrow> string + ParkingOccupancySession" where
  "newParkingOccupancySession sessionId slotId sensorId startedAt startedAtMonotonic =
     (if sessionId = [] then Inl ''parking session id is empty''
      else if slotId = [] then Inl ''parking session slot id is empty''
      else if sensorId = [] then Inl ''parking session sensor id is empty''
      else Inr \<lparr>ses_sessionId = sessionId, ses_slotId = slotId, ses_sensorId = sensorId,
             ses_state = Active, ses_startedAt = startedAt,
             ses_startedAtMonotonic = startedAtMonotonic, ses_endedAt = None\<rparr>)"

definition session_active :: "ParkingOccupancySession \<Rightarrow> bool" where
  "session_active s \<longleftrightarrow> ses_state s = Active"

definition session_complete :: "ParkingOccupancySession \<Rightarrow> int \<Rightarrow> string + ParkingOccupancySession" where
  "session_complete s endedAt =
     (if \<not> session_active s then Inl ''parking session is already completed''
      else if endedAt < ses_startedAt s
      then Inl ''parking session end time precedes start time''
      else Inr (s\<lparr>ses_endedAt := Some endedAt, ses_state := Completed\<rparr>))"

section \<open>Slots and transitions\<close>

record ParkingSlot =
  slot_config :: ParkingSlotConfig
  slot_activeSession :: "ParkingOccupancySession option"

definition slot_occupied :: "ParkingSlot \<Rightarrow> bool" where
  "slot_occupied s \<longleftrightarrow> slot_activeSession s \<noteq> None"

datatype ParkingTransitionCode =
  SessionStarted | SessionCompleted | DuplicateOccupiedIgnored | DuplicateVacantIgnored
  | UnknownSlot | DisabledSlot | SensorMismatch | InvalidTimestamp

fun transition_toString :: "ParkingTransitionCode \<Rightarrow> string" where
  "transition_toString SessionStarted = ''session_started''"
| "transition_toString SessionCompleted = ''session_completed''"
| "transition_toString DuplicateOccupiedIgnored = ''duplicate_occupied_ignored''"
| "transition_toString DuplicateVacantIgnored = ''duplicate_vacant_ignored''"
| "transition_toString UnknownSlot = ''unknown_slot''"
| "transition_toString DisabledSlot = ''disabled_slot''"
| "transition_toString SensorMismatch = ''sensor_mismatch''"
| "transition_toString InvalidTimestamp = ''invalid_timestamp''"

record ParkingTransitionResult =
  tr_code :: ParkingTransitionCode
  tr_slotId :: string
  tr_sessionId :: string
  tr_message :: string
  tr_session :: "ParkingOccupancySession option"

definition tr_changed :: "ParkingTransitionResult \<Rightarrow> bool" where
  "tr_changed r \<longleftrightarrow> tr_code r = SessionStarted \<or> tr_code r = SessionCompleted"

definition makeResult ::
  "ParkingTransitionCode \<Rightarrow> string \<Rightarrow> string \<Rightarrow> string \<Rightarrow> ParkingTransitionResult" where
  "makeResult code slotId sessionId message =
     \<lparr>tr_code = code, tr_slotId = slotId, tr_sessionId = sessionId, tr_message = message,
      tr_session = None\<rparr>"

section \<open>The manager\<close>

record ParkingSlotManager =
  mgr_slots :: "(string, ParkingSlot) umap"
  mgr_gSessionSequence :: "64 word"

fun add_slots ::
  "(string, ParkingSlot) umap \<Rightarrow> ParkingSlotConfig list \<Rightarrow> string + (string, ParkingSlot) umap" where
  "add_slots slots [] = Inr slots"
| "add_slots slots (config # configs) =
     (if cfg_slotId config = [] then Inl ''ParkingSlotManager received empty slot id''
      else if um_contains slots (cfg_slotId config)
      then Inl (''ParkingSlotManager received duplicate slot id: '' @ cfg_slotId config)
      else add_slots (um_emplace (cfg_slotId config)
             \<lparr>slot_config = config, slot_activeSession = None\<rparr> slots) configs)"

definition newParkingSlotManager ::
  "64 word \<Rightarrow> ParkingSlotConfig list \<Rightarrow> string + ParkingSlotManager" where
  "newParkingSlotManager counter configs =
     (if configs = [] then Inl ''ParkingSlotManager requires at least one slot''
      else try_bind (add_slots [] configs) (\<lambda>slots.
        Inr \<lparr>mgr_slots = slots, mgr_gSessionSequence = counter\<rparr>))"

text \<open>\<open>duration_cast\<close> from nanoseconds to milliseconds truncates towards zero.\<close>

definition millis_of_time_point :: "int \<Rightarrow> int" where
  "millis_of_time_point t = sgn t * (\<bar>t\<bar> div 1000000)"

definition createSessionId :: "string \<Rightarrow> int \<Rightarrow> 64 word \<Rightarrow> string" where
  "createSessionId slotId startedAt seqno =
     ''park_'' @ slotId @ ''_'' @ to_string (millis_of_time_point startedAt) @ ''_'' @
     to_string (uint seqno)"

definition handle_occupied ::
  "ParkingSlotManager \<Rightarrow> ParkingSlot \<Rightarrow> ParkingSensorEvent \<Rightarrow>
     ParkingSlotManager \<times> (string + ParkingTransitionResult)" where
  "handle_occupied m slot event =
     (case slot_activeSession slot of
        Some active \<Rightarrow>
          (m, Inr ((makeResult DuplicateOccupiedIgnored (cfg_slotId (slot_config slot))
                 (ses_sessionId active) ''slot is already occupied'')\<lparr>tr_session := Some active\<rparr>))
      | None \<Rightarrow>
          let sessionId = createSessionId (cfg_slotId (slot_config slot)) (ev_occurredAt event)
                (mgr_gSessionSequence m);
              m1 = m\<lparr>mgr_gSessionSequence := mgr_gSessionSequence m + 1\<rparr> in
          (case newParkingOccupancySession sessionId (cfg_slotId (slot_config slot))
                  (ev_sensorId event) (ev_occurredAt event) (ev_receivedMonotonic event) of
             Inl e \<Rightarrow> (m1, Inl e)
           | Inr session \<Rightarrow>
               (m1\<lparr>mgr_slots := um_put (ev_slotId event)
                     (slot\<lparr>slot_activeSession := Some session\<rparr>) (mgr_slots m)\<rparr>,
                Inr ((makeResult SessionStarted (cfg_slotId (slot_config slot)) sessionId
                   ''parking occupancy session started'')\<lparr>tr_session := Some session\<rparr>))))"

definition handle_vacant ::
  "ParkingSlotManager \<Rightarrow> ParkingSlot \<Rightarrow> ParkingSensorEvent \<Rightarrow>
     ParkingSlotManager \<times> (string + ParkingTransitionResult)" where
  "handle_vacant m slot event =
     (case slot_activeSession slot of
        None \<Rightarrow> (m, Inr (makeResult DuplicateVacantIgnored (cfg_slotId (slot_config slot)) []
                     ''slot is already vacant''))
      | Some active \<Rightarrow>
          if ev_occurredAt event < ses_startedAt active then
            (m, Inr ((makeResult InvalidTimestamp (cfg_slotId (slot_config slot))
                   (ses_sessionId active) ''vacant event time precedes session start'')
                     \<lparr>tr_session := Some active\<rparr>))
          else (case session_complete active (ev_occurredAt event) of
              Inl e \<Rightarrow> (m, Inl e)
            | Inr completed \<Rightarrow>
                (m\<lparr>mgr_slots := um_put (ev_slotId event)
                     (slot\<lparr>slot_activeSession := None\<rparr>) (mgr_slots m)\<rparr>,
                 Inr ((makeResult SessionCompleted (cfg_slotId (slot_config slot))
                    (ses_sessionId completed) ''parking occupancy session completed'')
                      \<lparr>tr_session := Some completed\<rparr>))))"

definition manager_handle ::
  "ParkingSlotManager \<Rightarrow> ParkingSensorEvent \<Rightarrow>
     ParkingSlotManager \<times> (string + ParkingTransitionResult)" where
  "manager_handle m event =
     (case um_find (mgr_slots m) (ev_slotId event) of
        None \<Rightarrow> (m, Inr (makeResult UnknownSlot (ev_slotId event) [] ''unknown slot''))
      | Some slot \<Rightarrow>
          if \<not> cfg_enabled (slot_config slot) then
            (m, Inr (makeResult DisabledSlot (cfg_slotId (slot_config slot)) [] ''slot is disabled''))
          else if ev_sensorId event = [] \<or> ev_sensorId event \<noteq> cfg_sensorId (slot_config slot) then
            (m, Inr (makeResult SensorMismatch (cfg_slotId (slot_config slot)) []
                   ''sensor id does not match slot configuration''))
          else if ev_state event = Occupied then handle_occupied m slot event
          else handle_vacant m slot event)"

definition findSlot :: "ParkingSlotManager \<Rightarrow> string \<Rightarrow> ParkingSlot option" where
  "findSlot m slotId = um_find (mgr_slots m) slotId"

definition slotCount :: "ParkingSlotManager \<Rightarrow> nat" where
  "slotCount m = length (mgr_slots m)"

definition activeSlotCount :: "ParkingSlotManager \<Rightarrow> nat" where
  "activeSlotCount m = length (filter (\<lambda>p. cfg_enabled (slot_config (snd p))) (mgr_slots m))"

section \<open>The read model of active sessions\<close>

type_synonym ActiveParkingSessionIndex = "(string, string) umap"

definition setActive ::
  "ActiveParkingSessionIndex \<Rightarrow> string \<Rightarrow> string \<Rightarrow> ActiveParkingSessionIndex" where
  "setActive ix slotId parkingSessionId =
     (if slotId = [] \<or> parkingSessionId = [] then ix else um_put slotId parkingSessionId ix)"

definition clearActive ::
  "ActiveParkingSessionIndex \<Rightarrow> string \<Rightarrow> string \<Rightarrow> ActiveParkingSessionIndex" where
  "clearActive ix slotId expectedParkingSessionId =
     (case um_find ix slotId of
        None \<Rightarrow> ix
      | Some current \<Rightarrow>
          if expectedParkingSessionId \<noteq> [] \<and> current \<noteq> expectedParkingSessionId then ix
          else um_erase slotId ix)"

definition index_apply ::
  "ActiveParkingSessionIndex \<Rightarrow> ParkingTransitionResult \<Rightarrow> ActiveParkingSessionIndex" where
  "index_apply ix transition =
     (case tr_code transition of
        SessionStarted \<Rightarrow>
          if tr_slotId transition \<noteq> [] \<and> tr_sessionId transition \<noteq> []
          then setActive ix (tr_slotId transition) (tr_sessionId transition) else ix
      | SessionCompleted \<Rightarrow>
          if tr_slotId transition \<noteq> []
          then clearActive ix (tr_slotId transition) (tr_sessionId transition) else ix
      | _ \<Rightarrow> ix)"

definition findActiveSessionId :: "ActiveParkingSessionIndex \<Rightarrow> string \<Rightarrow> string option" where
  "findActiveSessionId ix slotId = um_find ix slotId"

definition active_index_size :: "ActiveParkingSessionIndex \<Rightarrow> nat" where
  "active_index_size ix = length ix"

definition active_index_clear :: "ActiveParkingSessionIndex \<Rightarrow> ActiveParkingSessionIndex" where
  "active_index_clear ix = []"

section \<open>Invariant\<close>

definition session_ok :: "ParkingSlotConfig \<Rightarrow> ParkingOccupancySession \<Rightarrow> bool" where
  "session_ok c a \<longleftrightarrow> ses_state a = Active \<and> ses_endedAt a = None \<and> ses_sessionId a \<noteq> [] \<and>
     ses_slotId a = cfg_slotId c \<and> ses_sensorId a = cfg_sensorId c \<and> ses_sensorId a \<noteq> []"

definition slot_wf :: "string \<Rightarrow> ParkingSlot \<Rightarrow> bool" where
  "slot_wf k s \<longleftrightarrow> cfg_slotId (slot_config s) = k \<and> k \<noteq> [] \<and>
     (case slot_activeSession s of None \<Rightarrow> True | Some a \<Rightarrow> session_ok (slot_config s) a)"

definition mgr_wf :: "ParkingSlotManager \<Rightarrow> bool" where
  "mgr_wf m \<longleftrightarrow> um_wf (mgr_slots m) \<and> (\<forall>k s. um_find (mgr_slots m) k = Some s \<longrightarrow> slot_wf k s)"

lemmas handle_defs = manager_handle_def handle_occupied_def handle_vacant_def makeResult_def
  session_complete_def newParkingOccupancySession_def session_active_def

lemma createSessionId_nonempty [simp]: "createSessionId a b c \<noteq> []"
  by (simp add: createSessionId_def)

lemma mgr_wf_put:
  assumes "mgr_wf m" and "slot_wf k s"
  shows "mgr_wf (m\<lparr>mgr_slots := um_put k s (mgr_slots m)\<rparr>)"
    and "mgr_wf (m\<lparr>mgr_gSessionSequence := n, mgr_slots := um_put k s (mgr_slots m)\<rparr>)"
  using assms by (auto simp: mgr_wf_def um_find_put intro: um_wf_put)

lemma mgr_wf_counter [simp]: "mgr_wf (m\<lparr>mgr_gSessionSequence := n\<rparr>) = mgr_wf m"
  by (simp add: mgr_wf_def)

lemma mgr_wf_slot: "mgr_wf m \<Longrightarrow> um_find (mgr_slots m) k = Some s \<Longrightarrow> slot_wf k s"
  by (auto simp: mgr_wf_def)

lemma mgr_wf_handle [inv_intros]: "mgr_wf m \<Longrightarrow> mgr_wf (fst (manager_handle m e))"
  by (auto simp: handle_defs Let_def split: option.splits intro!: mgr_wf_put dest: mgr_wf_slot)
    (auto simp: slot_wf_def session_ok_def dest!: mgr_wf_slot)

interpretation slot_manager: invariant_machine manager_handle mgr_wf
  by unfold_locales (rule mgr_wf_handle)

lemma handle_returns:
  "mgr_wf m \<Longrightarrow> \<exists>r. snd (manager_handle m e) = Inr r"
  by (auto simp: handle_defs slot_wf_def session_ok_def Let_def dest!: mgr_wf_slot
      split: option.splits)

lemma add_slots_ok:
  assumes "distinct (map cfg_slotId cs)" and "[] \<notin> set (map cfg_slotId cs)"
    and "\<forall>c \<in> set cs. um_find m (cfg_slotId c) = None"
  shows "\<exists>ss. add_slots m cs = Inr ss \<and> (um_wf m \<longrightarrow> um_wf ss) \<and>
    (\<forall>k. um_find ss k = (case find (\<lambda>c. cfg_slotId c = k) cs of
       Some c \<Rightarrow> Some \<lparr>slot_config = c, slot_activeSession = None\<rparr> | None \<Rightarrow> um_find m k))"
  using assms
proof (induction m cs rule: add_slots.induct)
  case (2 m c cs)
  let ?m = "um_emplace (cfg_slotId c) \<lparr>slot_config = c, slot_activeSession = None\<rparr> m"
  have fresh: "um_find m (cfg_slotId c) = None" "cfg_slotId c \<noteq> []"
    and notin: "cfg_slotId c \<notin> cfg_slotId ` set cs"
    using "2.prems" by auto
  have "\<exists>ss. add_slots ?m cs = Inr ss \<and> (um_wf ?m \<longrightarrow> um_wf ss) \<and>
    (\<forall>k. um_find ss k = (case find (\<lambda>c. cfg_slotId c = k) cs of
       Some c \<Rightarrow> Some \<lparr>slot_config = c, slot_activeSession = None\<rparr> | None \<Rightarrow> um_find ?m k))"
  proof (rule "2.IH")
    show "\<not> um_contains m (cfg_slotId c)" using fresh by (simp add: um_contains_iff)
    show "\<forall>c \<in> set cs. um_find ?m (cfg_slotId c) = None"
      using "2.prems"(3) notin by (auto simp: um_find_emplace image_iff)
  qed (use fresh "2.prems" in auto)
  moreover have "find (\<lambda>d. cfg_slotId d = cfg_slotId c) cs = None"
    using notin by (simp add: find_None_iff image_iff) metis
  ultimately show ?case
    using fresh um_wf_emplace [of m]
    by (auto simp: um_contains_iff um_find_emplace cong: option.case_cong)
qed simp

lemma newParkingSlotManager_ok:
  assumes "configs_ok cs"
  obtains m where "newParkingSlotManager n cs = Inr m" and "mgr_wf m"
    and "\<And>k. findSlot m k = map_option (\<lambda>c. \<lparr>slot_config = c, slot_activeSession = None\<rparr>)
           (find (\<lambda>c. cfg_slotId c = k) cs)"
    and "mgr_gSessionSequence m = n"
proof -
  obtain ss where ss: "add_slots [] cs = Inr ss" "um_wf ss"
    "\<And>k. um_find ss k = (case find (\<lambda>c. cfg_slotId c = k) cs of
       Some c \<Rightarrow> Some \<lparr>slot_config = c, slot_activeSession = None\<rparr> | None \<Rightarrow> um_find [] k)"
    using add_slots_ok [of cs "[]"] assms by (auto simp: configs_ok_def)
  let ?m = "\<lparr>mgr_slots = ss, mgr_gSessionSequence = n\<rparr>"
  have "\<And>k. findSlot ?m k = map_option (\<lambda>c. \<lparr>slot_config = c, slot_activeSession = None\<rparr>)
           (find (\<lambda>c. cfg_slotId c = k) cs)"
    by (simp add: findSlot_def ss map_option_case cong: option.case_cong)
  moreover have "mgr_wf ?m"
    using ss assms
    by (auto simp: mgr_wf_def slot_wf_def configs_ok_def image_iff find_Some_iff split: option.splits)
      (metis nth_mem)
  ultimately show thesis
    using that [of ?m] ss assms by (simp add: newParkingSlotManager_def configs_ok_def)
qed

section \<open>Abstract specification\<close>

text \<open>
  What the manager promises: a partial map from slots to the id and start time of the session
  that occupies them, changed only by an event of the slot's own sensor.
\<close>

type_synonym occupancy = "string \<rightharpoonup> string \<times> int"

definition occupancy_of :: "ParkingSlotManager \<Rightarrow> occupancy" where
  "occupancy_of m k = (case um_find (mgr_slots m) k of
     None \<Rightarrow> None
   | Some s \<Rightarrow> map_option (\<lambda>a. (ses_sessionId a, ses_startedAt a)) (slot_activeSession s))"

definition eligible :: "ParkingSlotManager \<Rightarrow> ParkingSensorEvent \<Rightarrow> bool" where
  "eligible m e \<longleftrightarrow> (case um_find (mgr_slots m) (ev_slotId e) of
     None \<Rightarrow> False
   | Some s \<Rightarrow> cfg_enabled (slot_config s) \<and> ev_sensorId e \<noteq> [] \<and>
       ev_sensorId e = cfg_sensorId (slot_config s))"

definition occupancy_step ::
  "bool \<Rightarrow> string \<Rightarrow> occupancy \<Rightarrow> ParkingSensorEvent \<Rightarrow> occupancy" where
  "occupancy_step ok freshId occ e =
     (if \<not> ok then occ
      else case (ev_state e, occ (ev_slotId e)) of
          (Occupied, None) \<Rightarrow> occ(ev_slotId e \<mapsto> (freshId, ev_occurredAt e))
        | (Vacant, Some (_, started)) \<Rightarrow>
            if ev_occurredAt e < started then occ else occ(ev_slotId e := None)
        | _ \<Rightarrow> occ)"

lemma occupancy_of_put:
  "occupancy_of (m\<lparr>mgr_slots := um_put k s (mgr_slots m)\<rparr>) =
     (occupancy_of m)(k := map_option (\<lambda>a. (ses_sessionId a, ses_startedAt a)) (slot_activeSession s))"
  by (auto simp: occupancy_of_def um_find_put)

lemma occupancy_of_counter [simp]: "occupancy_of (m\<lparr>mgr_gSessionSequence := n\<rparr>) = occupancy_of m"
  by (simp add: occupancy_of_def fun_eq_iff)

lemma occupancy_of_counter_put [simp]:
  "occupancy_of (m\<lparr>mgr_gSessionSequence := n, mgr_slots := x\<rparr>) = occupancy_of (m\<lparr>mgr_slots := x\<rparr>)"
  by (simp add: occupancy_of_def fun_eq_iff)

lemma handle_refines:
  assumes wf: "mgr_wf m"
  shows "occupancy_of (fst (manager_handle m e)) =
    occupancy_step (eligible m e)
      (createSessionId (ev_slotId e) (ev_occurredAt e) (mgr_gSessionSequence m)) (occupancy_of m) e"
proof (cases "um_find (mgr_slots m) (ev_slotId e)")
  case None
  then show ?thesis by (simp add: manager_handle_def occupancy_step_def eligible_def)
next
  case (Some s)
  then have swf: "slot_wf (ev_slotId e) s" using wf by (rule mgr_wf_slot [rotated])
  have occ: "occupancy_of m (ev_slotId e) =
      map_option (\<lambda>a. (ses_sessionId a, ses_startedAt a)) (slot_activeSession s)"
    using Some by (simp add: occupancy_of_def)
  show ?thesis
    using Some swf occ
    by (auto simp: handle_defs Let_def occupancy_of_put occupancy_step_def eligible_def slot_wf_def
        session_ok_def split: option.splits ParkingSensorState.splits)
qed

section \<open>Session ids\<close>

lemma createSessionId_inject:
  assumes "createSessionId a t n = createSessionId a' t' n'"
  shows "n = n'"
proof -
  have tail: "takeWhile c_isdigit (rev (createSessionId x y k)) = rev (dec_of_nat (nat (uint k)))"
    for x y k
  proof -
    have "\<not> c_isdigit (CHR ''_'')" by (simp add: c_isdigit_def)
    moreover have "takeWhile c_isdigit (rev (dec_of_nat (unat k)) @ ys) =
        rev (dec_of_nat (unat k)) @ takeWhile c_isdigit ys" for ys
      by (rule takeWhile_append2) (simp add: dec_of_nat_digits)
    ultimately show ?thesis
      by (simp add: createSessionId_def to_string_def not_less)
  qed
  have "dec_of_nat (nat (uint n)) = dec_of_nat (nat (uint n'))"
    using tail [of a t n] tail [of a' t' n'] assms by simp
  then show ?thesis by (simp add: unsigned_word_eqI)
qed

fun started_ids :: "(string + ParkingTransitionResult) list \<Rightarrow> string list" where
  "started_ids [] = []"
| "started_ids (Inl _ # rs) = started_ids rs"
| "started_ids (Inr r # rs) =
     (if tr_code r = SessionStarted then tr_sessionId r # started_ids rs else started_ids rs)"

lemma handle_counter:
  assumes "manager_handle m e = (m', Inr r)"
  shows "tr_code r = SessionStarted \<Longrightarrow> mgr_gSessionSequence m' = mgr_gSessionSequence m + 1 \<and>
           (\<exists>a t. tr_sessionId r = createSessionId a t (mgr_gSessionSequence m))"
    and "tr_code r \<noteq> SessionStarted \<Longrightarrow> mgr_gSessionSequence m' = mgr_gSessionSequence m"
  using assms by (auto simp: handle_defs Let_def split: option.splits if_splits) blast

lemma started_ids_numbered:
  assumes "mgr_wf m" and "run_steps manager_handle m es = (m', rs)"
  shows "\<forall>i < length (started_ids rs). \<exists>a t.
    started_ids rs ! i = createSessionId a t (mgr_gSessionSequence m + of_nat i)"
  using assms
proof (induction es arbitrary: m rs)
  case (Cons e es)
  obtain m1 r where step: "manager_handle m e = (m1, Inr r)"
    using handle_returns [OF Cons.prems(1), of e] by (metis surjective_pairing)
  obtain rs1 where rs: "rs = Inr r # rs1" and run: "run_steps manager_handle m1 es = (m', rs1)"
    using Cons.prems(2) step by (auto simp: split_beta)
  have wf1: "mgr_wf m1" using mgr_wf_handle [OF Cons.prems(1), of e] step by simp
  note IH = Cons.IH [OF wf1 run]
  show ?case
  proof (cases "tr_code r = SessionStarted")
    case True
    with handle_counter(1) [OF step] IH show ?thesis
      by (auto simp: rs nth_Cons add.assoc split: nat.splits)
  next
    case False
    with handle_counter(2) [OF step] IH show ?thesis by (simp add: rs)
  qed
qed simp

section \<open>The read model follows the manager\<close>

definition index_follows :: "ParkingSlotManager \<Rightarrow> ActiveParkingSessionIndex \<Rightarrow> bool" where
  "index_follows m ix \<longleftrightarrow> (\<forall>k. findActiveSessionId ix k = map_option fst (occupancy_of m k))"

fun apply_results ::
  "ActiveParkingSessionIndex \<Rightarrow> (string + ParkingTransitionResult) list \<Rightarrow> ActiveParkingSessionIndex" where
  "apply_results ix [] = ix"
| "apply_results ix (Inl _ # rs) = apply_results ix rs"
| "apply_results ix (Inr r # rs) = apply_results (index_apply ix r) rs"

lemma handle_result_codes:
  assumes wf: "mgr_wf m" and step: "manager_handle m e = (m', Inr r)"
  shows "tr_code r = SessionStarted \<Longrightarrow> tr_slotId r = ev_slotId e \<and> tr_slotId r \<noteq> [] \<and>
           tr_sessionId r \<noteq> [] \<and> occupancy_of m (ev_slotId e) = None \<and>
           occupancy_of m' = (occupancy_of m)(ev_slotId e \<mapsto> (tr_sessionId r, ev_occurredAt e))"
    and "tr_code r = SessionCompleted \<Longrightarrow> tr_slotId r = ev_slotId e \<and> tr_slotId r \<noteq> [] \<and>
           (\<exists>t. occupancy_of m (ev_slotId e) = Some (tr_sessionId r, t)) \<and>
           occupancy_of m' = (occupancy_of m)(ev_slotId e := None)"
    and "\<not> tr_changed r \<Longrightarrow> m' = m"
  using step mgr_wf_slot [OF wf, of "ev_slotId e"]
  by (auto simp: handle_defs Let_def occupancy_of_put slot_wf_def session_ok_def tr_changed_def
      occupancy_of_def [of m "ev_slotId e"] split: option.splits if_splits)

lemma index_follows_step:
  assumes wf: "mgr_wf m" and step: "manager_handle m e = (m', Inr r)" and R: "index_follows m ix"
  shows "index_follows m' (index_apply ix r)"
proof (cases "tr_changed r")
  case True
  then consider "tr_code r = SessionStarted" | "tr_code r = SessionCompleted"
    by (auto simp: tr_changed_def)
  then show ?thesis
  proof cases
    case 1
    with handle_result_codes(1) [OF wf step] R show ?thesis
      by (auto simp: index_follows_def index_apply_def setActive_def findActiveSessionId_def um_find_put)
  next
    case 2
    with handle_result_codes(2) [OF wf step] R show ?thesis
      by (auto simp: index_follows_def index_apply_def clearActive_def findActiveSessionId_def
          um_find_erase split: option.splits)
  qed
next
  case False
  with handle_result_codes(3) [OF wf step] R show ?thesis
    by (auto simp: tr_changed_def index_apply_def split: ParkingTransitionCode.splits)
qed

lemma index_follows_run:
  assumes "mgr_wf m" and "index_follows m ix" and "run_steps manager_handle m es = (m', rs)"
  shows "index_follows m' (apply_results ix rs)"
  using assms
proof (induction es arbitrary: m ix rs)
  case (Cons e es)
  obtain m1 r where step: "manager_handle m e = (m1, Inr r)"
    using handle_returns [OF Cons.prems(1), of e] by (metis surjective_pairing)
  obtain rs1 where rs: "rs = Inr r # rs1" and run: "run_steps manager_handle m1 es = (m', rs1)"
    using Cons.prems(3) step by (auto simp: split_beta)
  have wf1: "mgr_wf m1" using mgr_wf_handle [OF Cons.prems(1), of e] step by simp
  show ?case
    using Cons.IH [OF wf1 index_follows_step [OF Cons.prems(1) step Cons.prems(2)] run]
    by (simp add: rs)
qed simp


section \<open>Properties\<close>

text \<open>
  C20: on a well-formed manager every event is handled without an exception, the manager stays
  well-formed, and its occupancy changes exactly as the abstract specification says.
\<close>

theorem manager_refines_occupancy:
  assumes "mgr_wf m"
  shows "(\<exists>r. snd (manager_handle m e) = Inr r) \<and> mgr_wf (fst (manager_handle m e)) \<and>
    occupancy_of (fst (manager_handle m e)) =
      occupancy_step (eligible m e)
        (createSessionId (ev_slotId e) (ev_occurredAt e) (mgr_gSessionSequence m)) (occupancy_of m) e"
  using assms handle_returns mgr_wf_handle handle_refines by blast

definition sample_config :: "string \<Rightarrow> string \<Rightarrow> ParkingSlotConfig" where
  "sample_config slot sensor = \<lparr>cfg_slotId = slot, cfg_enabled = True, cfg_zoneType = ''ev'',
     cfg_sensorId = sensor, cfg_cameraBindings = []\<rparr>"

definition sample_manager :: ParkingSlotManager where
  "sample_manager = \<lparr>mgr_slots = [(''EV01'', \<lparr>slot_config = sample_config ''EV01'' ''HALL01'',
     slot_activeSession = None\<rparr>)], mgr_gSessionSequence = 0\<rparr>"

definition sample_event :: "ParkingSensorState \<Rightarrow> int \<Rightarrow> ParkingSensorEvent" where
  "sample_event st t = \<lparr>ev_slotId = ''EV01'', ev_sensorId = ''HALL01'', ev_state = st,
     ev_occurredAt = t, ev_sourceSequence = None, ev_sourceProtocolVersion = LegacyV1,
     ev_sourceBootId = None, ev_sourceTransport = ''uart'', ev_receivedMonotonic = t\<rparr>"

lemma sample_manager_wf: "mgr_wf sample_manager"
  by (simp add: mgr_wf_def sample_manager_def sample_config_def slot_wf_def um_wf_def um_find_def)

theorem manager_refines_occupancy_witness:
  "mgr_wf sample_manager \<and>
   occupancy_of (fst (manager_handle sample_manager (sample_event Occupied 5000000))) ''EV01'' =
     Some (''park_EV01_5_0'', 5000000)"
proof -
  have "occupancy_of sample_manager ''EV01'' = None" "eligible sample_manager (sample_event Occupied 5000000)"
    by code_simp+
  moreover have "createSessionId ''EV01'' 5000000 0 = ''park_EV01_5_0''"
    by code_simp
  ultimately show ?thesis
    using manager_refines_occupancy [OF sample_manager_wf, of "sample_event Occupied 5000000"]
    by (simp add: sample_manager_wf occupancy_step_def)
      (simp add: sample_event_def sample_manager_def)
qed

text \<open>
  C27: the session ids of a run are pairwise distinct, as long as the run has at most
  \<open>2 ^ 64\<close> events (the counter does not come round).
\<close>

theorem session_ids_distinct:
  assumes "mgr_wf m" and "run_steps manager_handle m es = (m', rs)" and "length es \<le> 2 ^ 64"
  shows "distinct (started_ids rs)"
proof -
  have "length (started_ids rs) \<le> length rs"
    by (induction rs rule: started_ids.induct) auto
  moreover have "length rs = length es"
    using assms(2) by (induction es arbitrary: m rs) (auto simp: split_beta)
  ultimately have len: "length (started_ids rs) \<le> 2 ^ 64" using assms(3) by simp
  have "i = j" if "i < length (started_ids rs)" "j < length (started_ids rs)"
    "started_ids rs ! i = started_ids rs ! j" for i j
  proof -
    have "mgr_gSessionSequence m + of_nat i = mgr_gSessionSequence m + of_nat j"
      using started_ids_numbered [OF assms(1,2)] that createSessionId_inject by metis
    then have "(of_nat i :: 64 word) = of_nat j" by simp
    moreover have "unat (of_nat k :: 64 word) = k" if "k < length (started_ids rs)" for k
      using that len by (simp add: unsigned_of_nat take_bit_nat_eq_self_iff)
    ultimately show ?thesis using that(1,2) by metis
  qed
  then show ?thesis by (auto simp: distinct_conv_nth)
qed

theorem session_ids_distinct_witness:
  "mgr_wf sample_manager \<and> length [sample_event Occupied 1, sample_event Vacant 2, sample_event Occupied 3] \<le> 2 ^ 64 \<and>
   distinct (started_ids (snd (run_steps manager_handle sample_manager
     [sample_event Occupied 1, sample_event Vacant 2, sample_event Occupied 3])))"
  using session_ids_distinct [OF sample_manager_wf surjective_pairing,
      of "[sample_event Occupied 1, sample_event Vacant 2, sample_event Occupied 3]"]
  by (simp add: sample_manager_wf del: run_steps.simps)

text \<open>
  C28: the thread-safe read model that IVA workers query agrees with the manager: applied to the
  results of any run, it gives for every slot the id of the manager's active session.
\<close>

theorem active_index_follows_manager:
  assumes "mgr_wf m" and "index_follows m ix" and "run_steps manager_handle m es = (m', rs)"
  shows "findActiveSessionId (apply_results ix rs) slotId = map_option fst (occupancy_of m' slotId)"
  using index_follows_run [OF assms] by (simp add: index_follows_def)

theorem active_index_follows_manager_witness:
  "index_follows sample_manager [] \<and>
   findActiveSessionId (apply_results [] (snd (run_steps manager_handle sample_manager
     [sample_event Occupied 1, sample_event Vacant 2, sample_event Occupied 3]))) ''EV01'' =
   map_option fst (occupancy_of (final_state manager_handle sample_manager
     [sample_event Occupied 1, sample_event Vacant 2, sample_event Occupied 3]) ''EV01'')"
proof -
  have "index_follows sample_manager []"
    by (simp add: index_follows_def findActiveSessionId_def occupancy_of_def sample_manager_def um_find_def)
  with active_index_follows_manager [OF sample_manager_wf this surjective_pairing]
  show ?thesis by blast
qed

text \<open>
  C29: whatever the loader accepts, the constructors of the sensor index and of the slot
  manager accept too, and an adapted sensor message always reaches the state machine: it is
  never an unknown slot, a disabled slot or a sensor mismatch.
\<close>

theorem loaded_config_never_misroutes:
  assumes "config_parse api text = Inr configs"
  shows "\<exists>ix m. newSensorSlotIndex configs = Inr ix \<and> newParkingSlotManager counter configs = Inr m \<and>
    mgr_wf m \<and> (\<forall>msg e. msg_sensorId msg \<noteq> [] \<longrightarrow> adapt ix msg = Inr e \<longrightarrow> eligible m e)"
proof -
  have ok: "configs_ok configs" using assms by (rule config_parse_ok)
  obtain ix where ix: "newSensorSlotIndex configs = Inr ix"
    "\<And>x. findBySensorId ix x = map_option (\<lambda>c. (cfg_slotId c, x))
       (find (\<lambda>c. cfg_enabled c \<and> cfg_sensorId c = x) configs)"
    using newSensorSlotIndex_ok [OF ok] by metis
  obtain m where m: "newParkingSlotManager counter configs = Inr m" "mgr_wf m"
    "\<And>k. findSlot m k = map_option (\<lambda>c. \<lparr>slot_config = c, slot_activeSession = None\<rparr>)
       (find (\<lambda>c. cfg_slotId c = k) configs)"
    using newParkingSlotManager_ok [OF ok] by metis
  have "eligible m e" if ne: "msg_sensorId msg \<noteq> []" and ad: "adapt ix msg = Inr e" for msg e
  proof -
    obtain c where c: "find (\<lambda>c. cfg_enabled c \<and> cfg_sensorId c = msg_sensorId msg) configs = Some c"
      and e: "ev_slotId e = cfg_slotId c" "ev_sensorId e = msg_sensorId msg"
      using ad ix(2) by (auto simp: adapt_def split: option.splits)
    then have mem: "c \<in> set configs" "cfg_enabled c" "cfg_sensorId c = msg_sensorId msg"
      by (auto simp: find_Some_iff)
    have "find (\<lambda>d. cfg_slotId d = cfg_slotId c) configs = Some c"
      using mem(1) ok by (auto simp: configs_ok_def find_Some_iff in_set_conv_nth distinct_conv_nth)
    then show ?thesis
      using m(3) [of "cfg_slotId c"] e mem ne by (simp add: eligible_def findSlot_def)
  qed
  with ix(1) m(1,2) show ?thesis by blast
qed


text \<open>A JSON value for concrete runs, with the queries the loader makes of it.\<close>

datatype sample_json = JString string | JBoolean bool | JArray "sample_json list"
  | JObject "(string \<times> sample_json) list"

definition sample_json_api :: "sample_json \<Rightarrow> sample_json json_api" where
  "sample_json_api doc = \<lparr>js_parse = (\<lambda>_. Inr doc),
     js_is_object = (\<lambda>j. case j of JObject _ \<Rightarrow> True | _ \<Rightarrow> False),
     js_is_array = (\<lambda>j. case j of JArray _ \<Rightarrow> True | _ \<Rightarrow> False),
     js_is_string = (\<lambda>j. case j of JString _ \<Rightarrow> True | _ \<Rightarrow> False),
     js_is_boolean = (\<lambda>j. case j of JBoolean _ \<Rightarrow> True | _ \<Rightarrow> False),
     js_is_number_integer = (\<lambda>_. False), js_is_null = (\<lambda>_. False),
     js_find = (\<lambda>j k. case j of JObject fs \<Rightarrow> map_of fs k | _ \<Rightarrow> None),
     js_elements = (\<lambda>j. case j of JArray vs \<Rightarrow> vs | _ \<Rightarrow> []),
     js_get_string = (\<lambda>j. case j of JString t \<Rightarrow> t | _ \<Rightarrow> []),
     js_get_bool = (\<lambda>j. case j of JBoolean b \<Rightarrow> b | _ \<Rightarrow> False),
     js_get_int = (\<lambda>_. 0)\<rparr>"

definition sample_document :: sample_json where
  "sample_document = JObject [(''slots'', JArray [JObject [(''slot_id'', JString ''EV01''),
     (''enabled'', JBoolean True), (''sensor_id'', JString ''HALL01'')]])]"

theorem loaded_config_never_misroutes_witness:
  "\<exists>configs ix m. config_parse (sample_json_api sample_document) ''{}'' = Inr configs \<and>
     newSensorSlotIndex configs = Inr ix \<and> newParkingSlotManager 7 configs = Inr m \<and>
     mgr_wf m \<and> map cfg_slotId configs = [''EV01'']"
proof -
  have parsed: "config_parse (sample_json_api sample_document) ''{}'' = Inr
      [\<lparr>cfg_slotId = ''EV01'', cfg_enabled = True, cfg_zoneType = ''unassigned'',
        cfg_sensorId = ''HALL01'', cfg_cameraBindings = []\<rparr>]"
    by (simp add: config_parse_def sample_json_api_def sample_document_def parseSlot_def
        requiredString_def optionalBool_def optionalString_def)
  show ?thesis
    using loaded_config_never_misroutes [OF parsed, of 7] parsed by fastforce
qed

end
