(* ===== verification/SessionWorker.thy ===== *)
theory SessionWorker
  imports SlotManager
begin

text \<open>
  The hall-sensor worker: the confirmation gate of
  \<^verbatim>\<open>src/parking/ParkingOccupancyConfirmationGate.cpp\<close>, which holds back an OCCUPIED reading until
  it has lasted a threshold, and \<^verbatim>\<open>src/parking/ParkingSessionWorker.cpp\<close>, which composes the
  sequence guard, the gate and the slot manager and calls its sinks with every result.

  A sink is a function on the state \<open>'w\<close> of whatever it writes to. The gate's map holds the
  first event of a slot with its deadline. Monotonic times are nanoseconds and the threshold is
  in milliseconds, as in the sources.
\<close>

section \<open>Confirmation gate\<close>

record Pending =
  pend_firstEvent :: ParkingSensorEvent
  pend_deadline :: int

record ConfirmationGate =
  gate_confirmThreshold :: int
  gate_pendingBySlot :: "(string, Pending) umap"

datatype GateDecision = Forward | Suppress

definition newConfirmationGate :: "int \<Rightarrow> ConfirmationGate" where
  "newConfirmationGate thresholdMs =
     \<lparr>gate_confirmThreshold = thresholdMs, gate_pendingBySlot = []\<rparr>"

definition gate_evaluate ::
  "ConfirmationGate \<Rightarrow> ParkingSensorEvent \<Rightarrow> bool \<Rightarrow> ConfirmationGate \<times> GateDecision" where
  "gate_evaluate g event slotAlreadyOccupied =
     (if ev_state event = Occupied then
        if slotAlreadyOccupied then (g, Forward)
        else case um_find (gate_pendingBySlot g) (ev_slotId event) of
            None \<Rightarrow>
              (g\<lparr>gate_pendingBySlot := um_emplace (ev_slotId event)
                   \<lparr>pend_firstEvent = event,
                    pend_deadline = ev_receivedMonotonic event + gate_confirmThreshold g * 1000000\<rparr>
                   (gate_pendingBySlot g)\<rparr>, Suppress)
          | Some p \<Rightarrow>
              if ev_receivedMonotonic event \<ge> pend_deadline p
              then (g\<lparr>gate_pendingBySlot := um_erase (ev_slotId event) (gate_pendingBySlot g)\<rparr>, Forward)
              else (g, Suppress)
      else if \<not> slotAlreadyOccupied
      then (g\<lparr>gate_pendingBySlot := um_erase (ev_slotId event) (gate_pendingBySlot g)\<rparr>, Suppress)
      else (g, Forward))"

definition gate_nextDeadline :: "ConfirmationGate \<Rightarrow> int option" where
  "gate_nextDeadline g = earliest_of (map (pend_deadline \<circ> snd) (gate_pendingBySlot g))"

fun take_due_entries ::
  "int \<Rightarrow> int \<Rightarrow> (string, Pending) umap \<Rightarrow> ParkingSensorEvent list \<times> (string, Pending) umap" where
  "take_due_entries monotonicNow wallNow [] = ([], [])"
| "take_due_entries monotonicNow wallNow ((k, p) # rest) =
     (let (due, kept) = take_due_entries monotonicNow wallNow rest in
      if pend_deadline p > monotonicNow then (due, (k, p) # kept)
      else ((pend_firstEvent p)\<lparr>ev_occurredAt := wallNow,
              ev_receivedMonotonic := monotonicNow\<rparr> # due, kept))"

definition gate_takeDue ::
  "int \<Rightarrow> int \<Rightarrow> ConfirmationGate \<Rightarrow> ParkingSensorEvent list \<times> ConfirmationGate" where
  "gate_takeDue monotonicNow wallNow g =
     (let (due, kept) = take_due_entries monotonicNow wallNow (gate_pendingBySlot g) in
      (due, g\<lparr>gate_pendingBySlot := kept\<rparr>))"

section \<open>Worker\<close>

type_synonym 'w TransitionSink = "ParkingTransitionResult \<Rightarrow> 'w \<Rightarrow> 'w"

record 'w ParkingSessionWorker =
  wk_sequenceGuard :: SequenceGuard
  wk_slotManager :: ParkingSlotManager
  wk_confirmationGate :: "ConfirmationGate option"
  wk_sinks :: "'w TransitionSink list"

definition newParkingSessionWorker ::
  "64 word \<Rightarrow> ParkingSlotConfig list \<Rightarrow> int \<Rightarrow> string + 'w ParkingSessionWorker" where
  "newParkingSessionWorker counter slotConfigs confirmThreshold =
     try_bind (newParkingSlotManager counter slotConfigs) (\<lambda>m.
       Inr \<lparr>wk_sequenceGuard = [], wk_slotManager = m,
            wk_confirmationGate =
              (if confirmThreshold > 0 then Some (newConfirmationGate confirmThreshold) else None),
            wk_sinks = []\<rparr>)"

definition addSink ::
  "'w ParkingSessionWorker \<Rightarrow> 'w TransitionSink option \<Rightarrow> 'w ParkingSessionWorker" where
  "addSink w sink =
     (case sink of None \<Rightarrow> w | Some f \<Rightarrow> w\<lparr>wk_sinks := wk_sinks w @ [f]\<rparr>)"

text \<open>The gate is asked only about an event that the state machine would take for its slot.\<close>

definition gate_stage ::
  "'w ParkingSessionWorker \<Rightarrow> ParkingSensorEvent \<Rightarrow> ConfirmationGate option \<times> GateDecision" where
  "gate_stage w event =
     (case wk_confirmationGate w of
        None \<Rightarrow> (None, Forward)
      | Some g \<Rightarrow>
          (case findSlot (wk_slotManager w) (ev_slotId event) of
             None \<Rightarrow> (Some g, Forward)
           | Some slot \<Rightarrow>
               if cfg_enabled (slot_config slot) \<and> ev_sensorId event \<noteq> [] \<and>
                  ev_sensorId event = cfg_sensorId (slot_config slot)
               then (let (g', d) = gate_evaluate g event (slot_occupied slot) in (Some g', d))
               else (Some g, Forward)))"

definition onSensorEvent ::
  "'w ParkingSessionWorker \<times> 'w \<Rightarrow> ParkingSensorEvent \<Rightarrow>
     ('w ParkingSessionWorker \<times> 'w) \<times> (string + ParkingTransitionResult option)" where
  "onSensorEvent ww event =
     (let (w, world) = ww; (guard', verdict) = guard_accept (wk_sequenceGuard w) event;
          w1 = w\<lparr>wk_sequenceGuard := guard'\<rparr> in
      case verdict of
        Inl _ \<Rightarrow> ((w1, world), Inr None)
      | Inr _ \<Rightarrow>
          (let (gate', decision) = gate_stage w1 event;
               w2 = w1\<lparr>wk_confirmationGate := gate'\<rparr> in
           if decision = Suppress then ((w2, world), Inr None)
           else (let (m', result) = manager_handle (wk_slotManager w2) event;
                     w3 = w2\<lparr>wk_slotManager := m'\<rparr> in
                 case result of
                   Inl e \<Rightarrow> ((w3, world), Inl e)
                 | Inr r \<Rightarrow> ((w3, fold (\<lambda>sink. sink r) (wk_sinks w3) world), Inr (Some r)))))"

definition worker_slotCount :: "'w ParkingSessionWorker \<Rightarrow> nat" where
  "worker_slotCount w = slotCount (wk_slotManager w)"

section \<open>The gate as a deadline source\<close>

lemma take_due_entries_eq:
  "take_due_entries now wall m =
     (map (\<lambda>(k, p). (pend_firstEvent p)\<lparr>ev_occurredAt := wall, ev_receivedMonotonic := now\<rparr>)
        (filter (\<lambda>(k, p). pend_deadline p \<le> now) m),
      filter (\<lambda>(k, p). pend_deadline p > now) m)"
  by (induction m) auto

interpretation confirmation_gate: deadline_source
  gate_nextDeadline "\<lambda>now. gate_takeDue now wall" "\<lambda>_. True" for wall
proof
  fix s now
  show "fst (gate_takeDue now wall s) \<noteq> [] \<longleftrightarrow> (\<exists>d. gate_nextDeadline s = Some d \<and> d \<le> now)"
    by (auto simp: gate_takeDue_def take_due_entries_eq gate_nextDeadline_def earliest_of_le
        filter_empty_conv Bex_def)
next
  fix s now d
  assume "gate_nextDeadline (snd (gate_takeDue now wall s)) = Some d"
  then show "now < d"
    by (auto simp: gate_takeDue_def take_due_entries_eq gate_nextDeadline_def dest!: earliest_of_mem)
qed simp

section \<open>Histories of the gate\<close>

datatype gate_call =
  Evaluate ParkingSensorEvent bool
| TakeDue int int

fun gate_call_step :: "ConfirmationGate \<Rightarrow> gate_call \<Rightarrow> ConfirmationGate \<times> ParkingSensorEvent list" where
  "gate_call_step g (Evaluate e occ) =
     (let (g', d) = gate_evaluate g e occ in (g', if d = Forward then [e] else []))"
| "gate_call_step g (TakeDue now wall) =
     (let (due, g') = gate_takeDue now wall g in (g', due))"

text \<open>
  A reading that breaks a pending confirmation of slot \<open>k\<close>: VACANT, given while the slot is free.
\<close>

fun breaks :: "string \<Rightarrow> gate_call \<Rightarrow> bool" where
  "breaks k (Evaluate e occ) \<longleftrightarrow> ev_slotId e = k \<and> ev_state e = Vacant \<and> \<not> occ"
| "breaks k (TakeDue now wall) \<longleftrightarrow> False"

text \<open>\<open>f\<close> opened a confirmation of slot \<open>k\<close> in the history and nothing broke it since.\<close>

definition held_since :: "gate_call list \<Rightarrow> string \<Rightarrow> ParkingSensorEvent \<Rightarrow> bool" where
  "held_since h k f \<longleftrightarrow> (\<exists>pre mid. h = pre @ Evaluate f False # mid \<and>
     ev_slotId f = k \<and> ev_state f = Occupied \<and> (\<forall>c \<in> set mid. \<not> breaks k c))"

definition gate_justified :: "int \<Rightarrow> gate_call list \<Rightarrow> ConfirmationGate \<Rightarrow> bool" where
  "gate_justified thr h g \<longleftrightarrow> gate_confirmThreshold g = thr \<and> um_wf (gate_pendingBySlot g) \<and>
     (\<forall>k p. um_find (gate_pendingBySlot g) k = Some p \<longrightarrow>
        held_since h k (pend_firstEvent p) \<and>
        pend_deadline p = ev_receivedMonotonic (pend_firstEvent p) + thr * 1000000)"

lemma held_since_snoc: "held_since h k f \<Longrightarrow> \<not> breaks k c \<Longrightarrow> held_since (h @ [c]) k f"
  by (force simp: held_since_def intro: exI [where x = "_ @ [c]"])

lemma held_since_open:
  "ev_slotId e = k \<Longrightarrow> ev_state e = Occupied \<Longrightarrow> held_since (h @ [Evaluate e False]) k e"
  unfolding held_since_def by fastforce

lemma filter_find:
  "um_find (filter P m) k = Some v \<Longrightarrow> um_wf m \<Longrightarrow> um_find m k = Some v"
  by (simp add: um_find_mem um_wf_filter)

lemma gate_justified_step:
  assumes J: "gate_justified thr h g"
  shows "gate_justified thr (h @ [c]) (fst (gate_call_step g c))"
proof (cases c)
  case (TakeDue now wall)
  have "\<not> breaks k c" for k by (simp add: TakeDue)
  with J show ?thesis
    by (auto simp: TakeDue gate_justified_def gate_takeDue_def take_due_entries_eq
        intro!: um_wf_filter held_since_snoc dest!: filter_find)
next
  case (Evaluate e occ)
  have keep: "held_since (h @ [c]) k f" if "held_since h k f" "\<not> breaks k c" for k f
    using that by (rule held_since_snoc)
  show ?thesis
  proof (cases "ev_state e")
    case Occupied
    then have "\<not> breaks k c" for k by (simp add: Evaluate)
    with J Occupied show ?thesis
      by (auto simp: gate_justified_def Evaluate gate_evaluate_def um_find_emplace um_find_erase
          intro: um_wf_emplace um_wf_erase held_since_open held_since_snoc split: option.splits)
  next
    case Vacant
    then have "\<not> breaks k c \<longleftrightarrow> k \<noteq> ev_slotId e \<or> occ" for k by (auto simp: Evaluate)
    with J Vacant keep show ?thesis
      by (auto simp: gate_justified_def Evaluate gate_evaluate_def um_find_erase
          intro: um_wf_erase split: if_splits)
  qed
qed

lemma gate_justified_run:
  "gate_justified thr h g \<Longrightarrow> gate_justified thr (h @ cs) (final_state gate_call_step g cs)"
proof (induction cs arbitrary: h g)
  case (Cons c cs)
  from Cons.IH [OF gate_justified_step [OF Cons.prems, of c]] show ?case
    by (simp add: split_beta)
qed simp

lemma gate_justified_new: "gate_justified thr [] (newConfirmationGate thr)"
  by (simp add: gate_justified_def newConfirmationGate_def)

lemma gate_output_justified:
  assumes J: "gate_justified thr h g" and out: "e \<in> set (snd (gate_call_step g c))"
    and occ: "ev_state e = Occupied" and free: "\<forall>e'. c \<noteq> Evaluate e' True"
  shows "\<exists>f. held_since h (ev_slotId e) f \<and>
    ev_receivedMonotonic f + thr * 1000000 \<le> ev_receivedMonotonic e"
proof (cases c)
  case (TakeDue now wall)
  from out obtain k p where p: "(k, p) \<in> set (gate_pendingBySlot g)" "pend_deadline p \<le> now"
    "e = (pend_firstEvent p)\<lparr>ev_occurredAt := wall, ev_receivedMonotonic := now\<rparr>"
    by (auto simp: TakeDue gate_takeDue_def take_due_entries_eq)
  with J have "um_find (gate_pendingBySlot g) k = Some p"
    by (simp add: gate_justified_def um_find_mem)
  with J have h: "held_since h k (pend_firstEvent p)"
    "pend_deadline p = ev_receivedMonotonic (pend_firstEvent p) + thr * 1000000"
    by (auto simp: gate_justified_def)
  then have "ev_slotId e = k" by (auto simp: p(3) held_since_def)
  with h p show ?thesis by auto
next
  case (Evaluate e' o')
  with out occ free J show ?thesis
    by (auto simp: gate_evaluate_def gate_justified_def split: option.splits if_splits)
qed

section \<open>Invariant of the worker\<close>

definition worker_wf :: "'w ParkingSessionWorker \<Rightarrow> bool" where
  "worker_wf w \<longleftrightarrow> mgr_wf (wk_slotManager w) \<and> um_wf (wk_sequenceGuard w)"

lemma guard_accept_wf: "um_wf g \<Longrightarrow> um_wf (fst (guard_accept g e))"
  by (auto simp: guard_accept_def Let_def intro: um_wf_put)

text \<open>
  The four ways a call can end: refused by the guard, held back by the gate, or handled by the
  manager (which cannot throw on a well-formed worker), with every sink called on the result.
\<close>

lemma onSensorEvent_cases:
  assumes "worker_wf w"
  obtains (quiet) w' where "onSensorEvent (w, world) e = ((w', world), Inr None)"
      and "wk_slotManager w' = wk_slotManager w" and "wk_sinks w' = wk_sinks w" and "worker_wf w'"
  | (handled) w' r where
      "onSensorEvent (w, world) e = ((w', fold (\<lambda>sink. sink r) (wk_sinks w) world), Inr (Some r))"
      and "manager_handle (wk_slotManager w) e = (wk_slotManager w', Inr r)"
      and "wk_sinks w' = wk_sinks w" and "worker_wf w'"
      and "snd (gate_stage (w\<lparr>wk_sequenceGuard := fst (guard_accept (wk_sequenceGuard w) e)\<rparr>) e) = Forward"
proof -
  let ?g = "guard_accept (wk_sequenceGuard w) e"
  let ?w1 = "w\<lparr>wk_sequenceGuard := fst ?g\<rparr>"
  let ?s = "gate_stage ?w1 e"
  let ?w2 = "?w1\<lparr>wk_confirmationGate := fst ?s\<rparr>"
  have gwf: "um_wf (fst ?g)" and mwf: "mgr_wf (wk_slotManager w)"
    using assms by (auto simp: worker_wf_def intro: guard_accept_wf)
  obtain r where r: "snd (manager_handle (wk_slotManager w) e) = Inr r"
    using handle_returns [OF mwf] by blast
  have mwf': "mgr_wf (fst (manager_handle (wk_slotManager w) e))" using mwf by (rule mgr_wf_handle)
  show thesis
  proof (cases "snd ?g")
    case (Inl x)
    then show thesis
      using quiet [of ?w1] gwf mwf by (simp add: onSensorEvent_def split_beta Let_def worker_wf_def)
  next
    case (Inr u)
    note acc = this
    show thesis
    proof (cases "snd ?s")
      case Suppress
      then show thesis
        using quiet [of ?w2] gwf mwf acc
        by (simp add: onSensorEvent_def split_beta Let_def worker_wf_def)
    next
      case Forward
      then show thesis
        using handled [of _ r]
          gwf mwf' acc r
        by (fastforce simp: onSensorEvent_def split_beta Let_def worker_wf_def prod_eq_iff)
    qed
  qed
qed

interpretation session_worker: invariant_machine onSensorEvent "\<lambda>(w, _). worker_wf w"
proof
  fix s :: "'w ParkingSessionWorker \<times> 'w" and e
  assume "case s of (w, _) \<Rightarrow> worker_wf w"
  then have "worker_wf (fst s)" by (simp add: split_beta)
  then show "case fst (onSensorEvent s e) of (w, _) \<Rightarrow> worker_wf w"
    by (cases s; cases rule: onSensorEvent_cases [of "fst s" "snd s" e]) simp_all
qed


section \<open>The active-session index as a sink\<close>

lemma worker_run_follows:
  assumes "worker_wf w" and "wk_sinks w = [\<lambda>r ix. index_apply ix r]"
    and "index_follows (wk_slotManager w) ix"
    and "run_steps onSensorEvent (w, ix) es = ((w', ix'), rs)"
  shows "index_follows (wk_slotManager w') ix' \<and> (\<forall>r \<in> set rs. \<exists>x. r = Inr x)"
  using assms
proof (induction es arbitrary: w ix rs)
  case (Cons e es)
  from Cons.prems(1) show ?case
  proof (cases rule: onSensorEvent_cases [of w ix e])
    case (quiet w1)
    then show ?thesis using Cons.IH [of w1 ix] Cons.prems by (auto split: prod.splits)
  next
    case (handled w1 r)
    have "index_follows (wk_slotManager w1) (index_apply ix r)"
      using Cons.prems(1,3) handled(2) by (auto simp: worker_wf_def intro: index_follows_step)
    then show ?thesis
      using Cons.IH [of w1 "index_apply ix r"] Cons.prems handled by (auto split: prod.splits)
  qed
qed simp

section \<open>Properties\<close>

text \<open>
  C21: the gate lets a reading start a session only if it was earned: for any history of calls
  on a fresh gate, an OCCUPIED event it releases for a free slot has an earlier OCCUPIED reading
  of the same slot, received at least the threshold before and evaluated while the slot was free,
  and between the two the gate was never given a VACANT reading of that slot while the slot was
  free. A VACANT reading evaluated while the slot counts as occupied ends a session; the gate
  forwards it and leaves a pending confirmation alone, so it does not count as contrary here.
\<close>

theorem gate_confirms_only_settled:
  assumes "e \<in> set (snd (gate_call_step (final_state gate_call_step (newConfirmationGate thr) calls) c))"
    and "ev_state e = Occupied" and "\<forall>e'. c \<noteq> Evaluate e' True"
  shows "\<exists>pre f mid. calls = pre @ Evaluate f False # mid \<and> ev_slotId f = ev_slotId e \<and>
    ev_state f = Occupied \<and> (\<forall>x \<in> set mid. \<not> breaks (ev_slotId e) x) \<and>
    ev_receivedMonotonic f + thr * 1000000 \<le> ev_receivedMonotonic e"
proof -
  have "gate_justified thr calls (final_state gate_call_step (newConfirmationGate thr) calls)"
    using gate_justified_run [OF gate_justified_new] by simp
  from gate_output_justified [OF this assms] show ?thesis
    unfolding held_since_def by blast
qed

theorem gate_confirms_only_settled_witness:
  "\<exists>pre f mid. [Evaluate (sample_event Occupied 0) False] = pre @ Evaluate f False # mid \<and>
     ev_receivedMonotonic f + 3 * 1000000 \<le> 4000000"
  using gate_confirms_only_settled
    [of "sample_event Occupied 4000000" 3 "[Evaluate (sample_event Occupied 0) False]" "TakeDue 4000000 4000000"]
  by (fastforce simp: sample_event_def gate_evaluate_def gate_takeDue_def newConfirmationGate_def
      um_emplace_def um_contains_def)

text \<open>
  polling the gate by its deadline loses nothing and repeats nothing: before the deadline it
  reports there is nothing to take, at the deadline there is, and a second poll is empty.
\<close>

theorem gate_poll_exact:
  "(gate_nextDeadline g = Some d \<and> now < d \<longrightarrow> fst (gate_takeDue now wall g) = []) \<and>
   (gate_nextDeadline g = Some d \<longrightarrow> fst (gate_takeDue d wall g) \<noteq> []) \<and>
   fst (gate_takeDue now wall (snd (gate_takeDue now wall g))) = []"
  using confirmation_gate.sleeping_misses_nothing [where s = g and d = d and now = now]
    confirmation_gate.waking_finds_work [where s = g and d = d]
    confirmation_gate.second_poll_empty [where s = g and now = now and t = now]
  by blast

theorem gate_poll_exact_witness:
  "fst (gate_takeDue 3000000 7 (fst (gate_evaluate (newConfirmationGate 3) (sample_event Occupied 0) False))) \<noteq> []"
proof -
  let ?g = "fst (gate_evaluate (newConfirmationGate 3) (sample_event Occupied 0) False)"
  have "gate_nextDeadline ?g = Some 3000000" by code_simp
  then show ?thesis using gate_poll_exact [of ?g 3000000 0 7] by blast
qed

text \<open>
  C30: a worker whose only sink is the active-session index keeps that index equal to the slot
  manager's occupancy over every run of sensor events, gated or not, and never throws.
\<close>

theorem worker_keeps_index:
  assumes "worker_wf w" and "wk_sinks w = [\<lambda>r ix. index_apply ix r]"
    and "index_follows (wk_slotManager w) ix"
    and "run_steps onSensorEvent (w, ix) es = ((w', ix'), rs)"
  shows "(\<forall>slotId. findActiveSessionId ix' slotId = map_option fst (occupancy_of (wk_slotManager w') slotId)) \<and>
    (\<forall>r \<in> set rs. \<exists>x. r = Inr x)"
  using worker_run_follows [OF assms] by (simp add: index_follows_def)

definition sample_worker :: "ActiveParkingSessionIndex ParkingSessionWorker" where
  "sample_worker = \<lparr>wk_sequenceGuard = [], wk_slotManager = sample_manager,
     wk_confirmationGate = Some (newConfirmationGate 3),
     wk_sinks = [\<lambda>r ix. index_apply ix r]\<rparr>"

theorem worker_keeps_index_witness:
  "worker_wf sample_worker \<and>
   list_all (\<lambda>r. \<exists>x. r = Inr x) (snd (run_steps onSensorEvent (sample_worker, [])
      [sample_event Occupied 0, sample_event Occupied 5000000]))"
proof -
  have wf: "worker_wf sample_worker"
    by (simp add: worker_wf_def sample_worker_def sample_manager_wf)
  moreover have "wk_sinks sample_worker = [\<lambda>r ix. index_apply ix r]"
    by (simp add: sample_worker_def)
  moreover have "index_follows (wk_slotManager sample_worker) []"
    by (simp add: index_follows_def findActiveSessionId_def occupancy_of_def sample_manager_def
        sample_worker_def um_find_def)
  ultimately show ?thesis
    using worker_keeps_index [of sample_worker "[]"] unfolding list_all_iff by (metis prod.collapse)
qed

end
