(* ===== verification/CaptureSched.thy ===== *)
theory CaptureSched
  imports SessionWorker
begin

text \<open>
  The capture scheduler of \<^verbatim>\<open>src/parking/CaptureScheduler.cpp\<close>: for every started session it plans
  the T0+30s and T0+60s captures, hands out those that are due, retries a failed dispatch a bounded
  number of times and drops the plan when the session completes; and one turn of the thread in
  \<^verbatim>\<open>src/parking/CaptureSchedulerRuntime.cpp\<close> that drives it.

  Each call holds the scheduler's mutex, so a schedule of several threads is a sequence of calls.
  A \<open>double\<close> of a capture target is only copied: its type is the parameter \<open>'d\<close>. The target
  resolver and the publisher are arguments. Delays are milliseconds, \<open>steady_clock\<close> times are
  nanoseconds.
\<close>

section \<open>Requests\<close>

datatype CaptureReason = HallOccupied30s | HallOccupied60s

fun toReasonString :: "CaptureReason \<Rightarrow> string" where
  "toReasonString HallOccupied30s = ''HALL_OCCUPIED_30S''"
| "toReasonString HallOccupied60s = ''HALL_OCCUPIED_60S''"

record 'd CaptureTarget =
  tgt_cameraId :: string
  tgt_channelId :: string
  tgt_areaName :: string
  tgt_roiX :: 'd
  tgt_roiY :: 'd
  tgt_roiWidth :: 'd
  tgt_roiHeight :: 'd
  tgt_snapshotApiChannel :: int
  tgt_roiRevision :: "64 word"

record 'd CaptureRequest =
  req_sessionId :: string
  req_slotId :: string
  req_sensorId :: string
  req_target :: "'d CaptureTarget"
  req_reason :: CaptureReason
  req_attempt :: int
  req_sessionStartedAt :: int
  req_scheduledFor :: int
  req_responseTimeout :: int

section \<open>Scheduler state\<close>

record CaptureOffset =
  off_reason :: CaptureReason
  off_delay :: int

record CaptureSchedulerConfig =
  scf_offsets :: "CaptureOffset list"
  scf_responseTimeout :: int
  scf_retryInterval :: int
  scf_maxRetries :: int

definition default_scheduler_config :: CaptureSchedulerConfig where
  "default_scheduler_config = \<lparr>scf_offsets =
     [\<lparr>off_reason = HallOccupied30s, off_delay = 30000\<rparr>,
      \<lparr>off_reason = HallOccupied60s, off_delay = 60000\<rparr>],
     scf_responseTimeout = 3000, scf_retryInterval = 2000, scf_maxRetries = 2\<rparr>"

datatype DispatchOutcome = DispatchDone | WillRetry | GaveUp | DispatchUnknown

datatype CapturePhase = PhasePending | PhaseDispatching | PhaseDone

record CaptureState =
  cap_reason :: CaptureReason
  cap_phase :: CapturePhase
  cap_attempt :: int
  cap_scheduledFor :: int

record 'd SessionState =
  ss_slotId :: string
  ss_sensorId :: string
  ss_startedAt :: int
  ss_startedAtMonotonic :: int
  ss_target :: "'d CaptureTarget"
  ss_captures :: "CaptureState list"

record 'd CaptureScheduler =
  sch_config :: CaptureSchedulerConfig
  sch_resolver :: "(string \<Rightarrow> 'd CaptureTarget option) option"
  sch_sessions :: "(string, 'd SessionState) umap"

record ScheduleReport =
  rep_scheduled :: int
  rep_unmappedSlot :: bool
  rep_duplicate :: bool

definition no_report :: ScheduleReport where
  "no_report = \<lparr>rep_scheduled = 0, rep_unmappedSlot = False, rep_duplicate = False\<rparr>"

definition newCaptureScheduler ::
  "CaptureSchedulerConfig \<Rightarrow> (string \<Rightarrow> 'd CaptureTarget option) option \<Rightarrow> 'd CaptureScheduler" where
  "newCaptureScheduler config resolver =
     \<lparr>sch_config = config, sch_resolver = resolver, sch_sessions = []\<rparr>"

section \<open>Operations\<close>

definition plan_captures :: "CaptureSchedulerConfig \<Rightarrow> int \<Rightarrow> CaptureState list" where
  "plan_captures config startedAtMonotonic =
     map (\<lambda>o'. \<lparr>cap_reason = off_reason o', cap_phase = PhasePending, cap_attempt = 1,
        cap_scheduledFor = startedAtMonotonic + off_delay o' * 1000000\<rparr>) (scf_offsets config)"

definition sched_onTransition ::
  "'d CaptureScheduler \<Rightarrow> ParkingTransitionResult \<Rightarrow> 'd CaptureScheduler \<times> ScheduleReport" where
  "sched_onTransition s transition =
     (if tr_code transition = SessionCompleted
      then (s\<lparr>sch_sessions := um_erase (tr_sessionId transition) (sch_sessions s)\<rparr>, no_report)
      else if tr_code transition \<noteq> SessionStarted then (s, no_report)
      else case tr_session transition of
          None \<Rightarrow> (s, no_report)
        | Some occupancy \<Rightarrow>
            if um_contains (sch_sessions s) (tr_sessionId transition)
            then (s, no_report\<lparr>rep_duplicate := True\<rparr>)
            else (case (case sch_resolver s of None \<Rightarrow> None | Some f \<Rightarrow> f (tr_slotId transition)) of
                None \<Rightarrow> (s, no_report\<lparr>rep_unmappedSlot := True\<rparr>)
              | Some target \<Rightarrow>
                  let state = \<lparr>ss_slotId = tr_slotId transition,
                        ss_sensorId = ses_sensorId occupancy,
                        ss_startedAt = ses_startedAt occupancy,
                        ss_startedAtMonotonic = ses_startedAtMonotonic occupancy,
                        ss_target = target,
                        ss_captures = plan_captures (sch_config s) (ses_startedAtMonotonic occupancy)\<rparr> in
                  (s\<lparr>sch_sessions := um_emplace (tr_sessionId transition) state (sch_sessions s)\<rparr>,
                   no_report\<lparr>rep_scheduled := int (length (ss_captures state))\<rparr>)))"

definition buildRequest ::
  "CaptureSchedulerConfig \<Rightarrow> string \<Rightarrow> 'd SessionState \<Rightarrow> CaptureState \<Rightarrow> 'd CaptureRequest" where
  "buildRequest config sessionId session capture =
     \<lparr>req_sessionId = sessionId, req_slotId = ss_slotId session, req_sensorId = ss_sensorId session,
      req_target = ss_target session, req_reason = cap_reason capture,
      req_attempt = cap_attempt capture, req_sessionStartedAt = ss_startedAt session,
      req_scheduledFor = cap_scheduledFor capture,
      req_responseTimeout = scf_responseTimeout config\<rparr>"

fun due_captures ::
  "CaptureSchedulerConfig \<Rightarrow> int \<Rightarrow> string \<Rightarrow> 'd SessionState \<Rightarrow> CaptureState list \<Rightarrow>
     CaptureState list \<times> 'd CaptureRequest list" where
  "due_captures config now sessionId session [] = ([], [])"
| "due_captures config now sessionId session (capture # rest) =
     (let (captures, ready) = due_captures config now sessionId session rest in
      if cap_phase capture \<noteq> PhasePending \<or> cap_scheduledFor capture > now
      then (capture # captures, ready)
      else (let c = capture\<lparr>cap_phase := PhaseDispatching\<rparr> in
            (c # captures, buildRequest config sessionId session c # ready)))"

fun due_sessions ::
  "CaptureSchedulerConfig \<Rightarrow> int \<Rightarrow> (string, 'd SessionState) umap \<Rightarrow>
     (string, 'd SessionState) umap \<times> 'd CaptureRequest list" where
  "due_sessions config now [] = ([], [])"
| "due_sessions config now ((sessionId, session) # rest) =
     (let (captures, ready) = due_captures config now sessionId session (ss_captures session);
          (sessions, more) = due_sessions config now rest in
      ((sessionId, session\<lparr>ss_captures := captures\<rparr>) # sessions, ready @ more))"

definition sched_due ::
  "int \<Rightarrow> 'd CaptureScheduler \<Rightarrow> 'd CaptureRequest list \<times> 'd CaptureScheduler" where
  "sched_due now s =
     (let (sessions, ready) = due_sessions (sch_config s) now (sch_sessions s) in
      (ready, s\<lparr>sch_sessions := sessions\<rparr>))"

fun update_first :: "('a \<Rightarrow> bool) \<Rightarrow> 'a \<Rightarrow> 'a list \<Rightarrow> 'a list" where
  "update_first P y [] = []"
| "update_first P y (x # xs) = (if P x then y # xs else x # update_first P y xs)"

definition settle_capture ::
  "CaptureSchedulerConfig \<Rightarrow> CaptureState \<Rightarrow> bool \<Rightarrow> int \<Rightarrow> CaptureState \<times> DispatchOutcome" where
  "settle_capture config capture published now =
     (if published then (capture\<lparr>cap_phase := PhaseDone\<rparr>, DispatchDone)
      else if cap_attempt capture < 1 + scf_maxRetries config
      then (capture\<lparr>cap_attempt := cap_attempt capture + 1, cap_phase := PhasePending,
              cap_scheduledFor := now + scf_retryInterval config * 1000000\<rparr>, WillRetry)
      else (capture\<lparr>cap_phase := PhaseDone\<rparr>, GaveUp))"

definition sched_onDispatchResult ::
  "'d CaptureScheduler \<Rightarrow> 'd CaptureRequest \<Rightarrow> bool \<Rightarrow> int \<Rightarrow> 'd CaptureScheduler \<times> DispatchOutcome" where
  "sched_onDispatchResult s request published now =
     (case um_find (sch_sessions s) (req_sessionId request) of
        None \<Rightarrow> (s, DispatchUnknown)
      | Some session \<Rightarrow>
          (case find (\<lambda>c. cap_reason c = req_reason request) (ss_captures session) of
             None \<Rightarrow> (s, DispatchUnknown)
           | Some capture \<Rightarrow>
               if cap_phase capture \<noteq> PhaseDispatching then (s, DispatchUnknown)
               else (let (capture', outcome) = settle_capture (sch_config s) capture published now;
                         captures = update_first (\<lambda>c. cap_reason c = req_reason request) capture'
                           (ss_captures session) in
                     if list_all (\<lambda>c. cap_phase c = PhaseDone) captures
                     then (s\<lparr>sch_sessions := um_erase (req_sessionId request) (sch_sessions s)\<rparr>, outcome)
                     else (s\<lparr>sch_sessions := um_put (req_sessionId request)
                              (session\<lparr>ss_captures := captures\<rparr>) (sch_sessions s)\<rparr>, outcome))))"

definition pending_deadlines :: "'d CaptureScheduler \<Rightarrow> int list" where
  "pending_deadlines s = concat (map (\<lambda>(_, session).
     map cap_scheduledFor (filter (\<lambda>c. cap_phase c = PhasePending) (ss_captures session))) (sch_sessions s))"

definition sched_nextDeadline :: "'d CaptureScheduler \<Rightarrow> int option" where
  "sched_nextDeadline s = earliest_of (pending_deadlines s)"

definition trackedSessions :: "'d CaptureScheduler \<Rightarrow> nat" where
  "trackedSessions s = length (sch_sessions s)"

section \<open>One turn of the runtime thread\<close>

text \<open>
  After its wait the thread takes what is due and publishes each request; a publisher that
  is absent, refuses or throws (\<open>None\<close>) counts as not accepted. The clock is read again for
  every report.
\<close>

fun publish_all ::
  "('d CaptureRequest \<Rightarrow> 'w \<Rightarrow> bool option \<times> 'w) option \<Rightarrow> ('w \<Rightarrow> int) \<Rightarrow>
     'd CaptureRequest list \<Rightarrow> 'd CaptureScheduler \<times> 'w \<Rightarrow>
     ('d CaptureScheduler \<times> 'w) \<times> DispatchOutcome list" where
  "publish_all publisher clock [] (s, world) = ((s, world), [])"
| "publish_all publisher clock (request # requests) (s, world) =
     (let (answer, world1) = (case publisher of None \<Rightarrow> (Some False, world) | Some p \<Rightarrow> p request world);
          (s1, outcome) = sched_onDispatchResult s request (answer = Some True) (clock world1);
          (sw, outcomes) = publish_all publisher clock requests (s1, world1) in
      (sw, outcome # outcomes))"

definition runtime_turn ::
  "('d CaptureRequest \<Rightarrow> 'w \<Rightarrow> bool option \<times> 'w) option \<Rightarrow> ('w \<Rightarrow> int) \<Rightarrow>
     'd CaptureScheduler \<times> 'w \<Rightarrow> ('d CaptureScheduler \<times> 'w) \<times> DispatchOutcome list" where
  "runtime_turn publisher clock sw =
     (let (s, world) = sw; (requests, s1) = sched_due (clock world) s in
      publish_all publisher clock requests (s1, world))"

section \<open>Characterisation of the loops\<close>

definition capture_ready :: "int \<Rightarrow> CaptureState \<Rightarrow> bool" where
  "capture_ready now c \<longleftrightarrow> cap_phase c = PhasePending \<and> cap_scheduledFor c \<le> now"

definition mark :: "int \<Rightarrow> CaptureState \<Rightarrow> CaptureState" where
  "mark now c = (if capture_ready now c then c\<lparr>cap_phase := PhaseDispatching\<rparr> else c)"

lemma due_captures_eq:
  "due_captures config now sid ses cs =
     (map (mark now) cs, map (buildRequest config sid ses \<circ> mark now) (filter (capture_ready now) cs))"
  by (induction cs) (auto simp: mark_def capture_ready_def Let_def)

lemma due_sessions_eq:
  "due_sessions config now m =
     (map (\<lambda>(sid, ses). (sid, ses\<lparr>ss_captures := map (mark now) (ss_captures ses)\<rparr>)) m,
      concat (map (\<lambda>(sid, ses). map (buildRequest config sid ses \<circ> mark now)
        (filter (capture_ready now) (ss_captures ses))) m))"
  by (induction m) (auto simp: due_captures_eq)

lemma sched_due_eq:
  "sched_due now s =
     (concat (map (\<lambda>(sid, ses). map (buildRequest (sch_config s) sid ses \<circ> mark now)
        (filter (capture_ready now) (ss_captures ses))) (sch_sessions s)),
      s\<lparr>sch_sessions := map (\<lambda>(sid, ses). (sid, ses\<lparr>ss_captures := map (mark now) (ss_captures ses)\<rparr>))
          (sch_sessions s)\<rparr>)"
  by (simp add: sched_due_def due_sessions_eq)

lemma mark_pending: "cap_phase (mark now c) = PhasePending \<longleftrightarrow> cap_phase c = PhasePending \<and> now < cap_scheduledFor c"
  by (auto simp: mark_def capture_ready_def)

lemma mark_fields [simp]:
  "cap_reason (mark now c) = cap_reason c" "cap_attempt (mark now c) = cap_attempt c"
  "cap_scheduledFor (mark now c) = cap_scheduledFor c"
  by (simp_all add: mark_def)

interpretation capture_scheduler: deadline_source sched_nextDeadline sched_due "\<lambda>_. True"
proof
  fix s :: "'d CaptureScheduler" and now
  show "fst (sched_due now s) \<noteq> [] \<longleftrightarrow> (\<exists>d. sched_nextDeadline s = Some d \<and> d \<le> now)"
    by (auto simp: sched_nextDeadline_def earliest_of_le sched_due_eq pending_deadlines_def
        filter_empty_conv capture_ready_def Bex_def)
next
  fix s :: "'d CaptureScheduler" and now d
  assume "sched_nextDeadline (snd (sched_due now s)) = Some d"
  then show "now < d"
    by (auto simp: sched_nextDeadline_def sched_due_eq pending_deadlines_def mark_pending
        dest!: earliest_of_mem)
qed simp

section \<open>Runs\<close>

datatype 'd sched_call =
  Transition ParkingTransitionResult
| Due int
| DispatchResult "'d CaptureRequest" bool int

fun sched_step :: "'d CaptureScheduler \<Rightarrow> 'd sched_call \<Rightarrow> 'd CaptureScheduler \<times> 'd CaptureRequest list" where
  "sched_step s (Transition t) = (fst (sched_onTransition s t), [])"
| "sched_step s (Due now) = (let (ready, s') = sched_due now s in (s', ready))"
| "sched_step s (DispatchResult r ok now) = (fst (sched_onDispatchResult s r ok now), [])"

fun starts :: "'d sched_call \<Rightarrow> string list" where
  "starts (Transition t) = (if tr_code t = SessionStarted then [tr_sessionId t] else [])"
| "starts _ = []"

definition request_key :: "'d CaptureRequest \<Rightarrow> string \<times> CaptureReason \<times> int" where
  "request_key r = (req_sessionId r, req_reason r, req_attempt r)"

section \<open>Invariant\<close>

definition capture_ok :: "CaptureSchedulerConfig \<Rightarrow> CaptureState \<Rightarrow> bool" where
  "capture_ok config c \<longleftrightarrow> 1 \<le> cap_attempt c \<and> cap_attempt c \<le> 1 + max 0 (scf_maxRetries config)"

definition sched_wf :: "'d CaptureScheduler \<Rightarrow> bool" where
  "sched_wf s \<longleftrightarrow> um_wf (sch_sessions s) \<and>
     distinct (map off_reason (scf_offsets (sch_config s))) \<and>
     (\<forall>sid ses. um_find (sch_sessions s) sid = Some ses \<longrightarrow>
        distinct (map cap_reason (ss_captures ses)) \<and> (\<forall>c \<in> set (ss_captures ses). capture_ok (sch_config s) c))"

lemma config_kept [simp]:
  "sch_config (fst (sched_step s c)) = sch_config s"
  by (cases c) (auto simp: sched_onTransition_def sched_due_eq sched_onDispatchResult_def Let_def
      split_beta split: option.splits)

lemma update_first_reasons:
  "cap_reason y = r \<Longrightarrow> map cap_reason (update_first (\<lambda>c. cap_reason c = r) y cs) = map cap_reason cs"
  by (induction cs) auto

lemma set_update_first: "set (update_first P y cs) \<subseteq> insert y (set cs)"
  by (induction cs) auto

lemma update_first_distinct:
  assumes "distinct (map cap_reason cs)" and "c \<in> set (update_first (\<lambda>c. cap_reason c = r) y cs)"
    and "cap_reason y = r"
  shows "c = y \<or> (c \<in> set cs \<and> cap_reason c \<noteq> r)"
  using assms by (induction cs) (auto simp: image_iff split: if_splits)

lemma settle_capture_fields:
  assumes "capture_ok config c"
  shows "cap_reason (fst (settle_capture config c ok now)) = cap_reason c"
    and "capture_ok config (fst (settle_capture config c ok now))"
  using assms by (auto simp: settle_capture_def capture_ok_def)

lemma um_find_map_val:
  "um_find (map (\<lambda>(k, v). (k, f v)) m) x = map_option f (um_find m x)"
  by (induction m) (auto simp: um_find_def)

lemma um_wf_map_val: "um_wf (map (\<lambda>(k, v). (k, f v)) m) = um_wf m"
  by (simp add: um_wf_def comp_def case_prod_beta)

lemma find_after_due:
  "um_find (sch_sessions (snd (sched_due now s))) sid =
     map_option (\<lambda>ses. ses\<lparr>ss_captures := map (mark now) (ss_captures ses)\<rparr>) (um_find (sch_sessions s) sid)"
  by (simp add: sched_due_eq um_find_map_val)

lemma find_after_transition:
  assumes "um_find (sch_sessions (fst (sched_onTransition s t))) sid = Some ses"
  shows "um_find (sch_sessions s) sid = Some ses \<or>
    (tr_code t = SessionStarted \<and> tr_sessionId t = sid \<and> um_find (sch_sessions s) sid = None \<and>
     (\<exists>t0. ss_captures ses = plan_captures (sch_config s) t0))"
  using assms
  by (auto simp: sched_onTransition_def um_simps Let_def split: if_splits option.splits)

text \<open>A dispatch result does nothing, drops a settled session, or updates one capture.\<close>

lemma result_cases:
  obtains (same) "fst (sched_onDispatchResult s r ok now) = s"
  | (settled) "sch_sessions (fst (sched_onDispatchResult s r ok now)) =
        um_erase (req_sessionId r) (sch_sessions s)"
  | (updated) ses c where "um_find (sch_sessions s) (req_sessionId r) = Some ses"
      and "c \<in> set (ss_captures ses)" and "cap_reason c = req_reason r"
      and "cap_phase c = PhaseDispatching"
      and "sch_sessions (fst (sched_onDispatchResult s r ok now)) = um_put (req_sessionId r)
        (ses\<lparr>ss_captures := update_first (\<lambda>c. cap_reason c = req_reason r)
          (fst (settle_capture (sch_config s) c ok now)) (ss_captures ses)\<rparr>) (sch_sessions s)"
proof (cases "um_find (sch_sessions s) (req_sessionId r)")
  case None
  then show thesis by (intro same) (simp add: sched_onDispatchResult_def)
next
  case (Some ses)
  note ses = this
  show thesis
  proof (cases "find (\<lambda>c. cap_reason c = req_reason r) (ss_captures ses)")
    case None
    with ses show thesis by (intro same) (simp add: sched_onDispatchResult_def)
  next
    case (Some c)
    then have c: "c \<in> set (ss_captures ses)" "cap_reason c = req_reason r"
      by (auto simp: find_Some_iff)
    show thesis
    proof (cases "cap_phase c = PhaseDispatching")
      case False
      with ses Some show thesis by (intro same) (simp add: sched_onDispatchResult_def)
    next
      case True
      let ?cs = "update_first (\<lambda>c. cap_reason c = req_reason r)
          (fst (settle_capture (sch_config s) c ok now)) (ss_captures ses)"
      show thesis
      proof (cases "list_all (\<lambda>c. cap_phase c = PhaseDone) ?cs")
        case all: True
        with ses Some True show thesis
          by (intro settled) (simp add: sched_onDispatchResult_def Let_def split_beta)
      next
        case False
        with ses Some True show thesis
          by (intro updated [OF ses c True]) (simp add: sched_onDispatchResult_def Let_def split_beta)
      qed
    qed
  qed
qed

text \<open>After a dispatch result a capture is an old one, or the reported one with its new phase.\<close>

lemma find_after_result:
  assumes wf: "sched_wf s"
    and after: "um_find (sch_sessions (fst (sched_onDispatchResult s r ok now))) sid = Some ses'"
  shows "\<exists>ses. um_find (sch_sessions s) sid = Some ses \<and>
    map cap_reason (ss_captures ses') = map cap_reason (ss_captures ses) \<and>
    (\<forall>c' \<in> set (ss_captures ses'). \<exists>c \<in> set (ss_captures ses).
       c' = c \<or> (cap_phase c = PhaseDispatching \<and> c' = fst (settle_capture (sch_config s) c ok now)))"
proof (cases rule: result_cases [of s r ok now])
  case same
  with after show ?thesis by auto
next
  case settled
  with after show ?thesis by (auto simp: um_find_erase split: if_splits)
next
  case (updated ses c)
  have "capture_ok (sch_config s) c"
    using wf updated(1,2) by (auto simp: sched_wf_def)
  with updated after show ?thesis
    using set_update_first
    by (fastforce simp: um_find_put settle_capture_fields update_first_reasons split: if_splits)
qed

lemma sched_wf_step [inv_intros]:
  assumes wf: "sched_wf s"
  shows "sched_wf (fst (sched_step s call))"
proof (cases call)
  case (Transition t)
  have "um_wf (sch_sessions (fst (sched_onTransition s t)))"
    using wf by (auto simp: sched_wf_def sched_onTransition_def Let_def
        intro: um_wf_erase um_wf_emplace split: option.splits)
  with wf config_kept [of s call] show ?thesis
    by (auto simp: Transition sched_wf_def plan_captures_def capture_ok_def comp_def
        dest!: find_after_transition)
next
  case (Due now)
  with wf show ?thesis
    by (auto simp: sched_wf_def split_beta find_after_due comp_def capture_ok_def)
      (simp_all add: sched_due_eq um_wf_map_val)
next
  case (DispatchResult r ok now)
  have "um_wf (sch_sessions (fst (sched_onDispatchResult s r ok now)))"
    using wf by (cases rule: result_cases [of s r ok now])
      (auto simp: sched_wf_def intro: um_wf_erase um_wf_put)
  with wf config_kept [of s call] show ?thesis
    by (fastforce simp: DispatchResult sched_wf_def settle_capture_fields
        dest!: find_after_result [OF wf])
qed

interpretation capture_schedule: invariant_machine sched_step sched_wf
  by unfold_locales (rule sched_wf_step)


section \<open>What has been dispatched\<close>

definition behind :: "CaptureState \<Rightarrow> 'd CaptureRequest \<Rightarrow> bool" where
  "behind c r \<longleftrightarrow> (if cap_phase c = PhasePending then req_attempt r < cap_attempt c
     else req_attempt r \<le> cap_attempt c)"

text \<open>
  \<open>h\<close> are the sessions started so far and \<open>out\<close> the requests handed out: every request of a
  tracked capture lies behind the capture's own attempt counter.
\<close>

definition dispatch_inv ::
  "string list \<Rightarrow> 'd CaptureRequest list \<Rightarrow> 'd CaptureScheduler \<Rightarrow> bool" where
  "dispatch_inv h out s \<longleftrightarrow> sched_wf s \<and> distinct (map request_key out) \<and>
     (\<forall>r \<in> set out. req_sessionId r \<in> set h \<and> 1 \<le> req_attempt r \<and>
        req_attempt r \<le> 1 + max 0 (scf_maxRetries (sch_config s))) \<and>
     (\<forall>sid ses. um_find (sch_sessions s) sid = Some ses \<longrightarrow> sid \<in> set h \<and>
        (\<forall>c \<in> set (ss_captures ses). \<forall>r \<in> set out.
           req_sessionId r = sid \<longrightarrow> req_reason r = cap_reason c \<longrightarrow> behind c r))"

lemma dispatch_transition:
  assumes I: "dispatch_inv h out s" and fresh: "distinct (h @ starts (Transition t :: 'd sched_call))"
  shows "dispatch_inv (h @ starts (Transition t :: 'd sched_call)) out
    (fst (sched_onTransition (s :: 'd CaptureScheduler) t))"
proof -
  have "sched_wf (fst (sched_onTransition s t))" "sch_config (fst (sched_onTransition s t)) = sch_config s"
    using sched_wf_step [of s "Transition t"] config_kept [of s "Transition t"] I
    by (auto simp: dispatch_inv_def)
  with I fresh show ?thesis
    by (auto simp: dispatch_inv_def dest!: find_after_transition split: if_splits)
qed

lemma behind_settle:
  "behind c r \<Longrightarrow> cap_phase c = PhaseDispatching \<Longrightarrow> behind (fst (settle_capture config c ok now)) r"
  by (auto simp: behind_def settle_capture_def)

lemma dispatch_result:
  assumes I: "dispatch_inv h out s"
  shows "dispatch_inv h out (fst (sched_onDispatchResult s r ok now))"
proof -
  have wf: "sched_wf s" using I by (simp add: dispatch_inv_def)
  have "sched_wf (fst (sched_onDispatchResult s r ok now))"
    "sch_config (fst (sched_onDispatchResult s r ok now)) = sch_config s"
    using sched_wf_step [OF wf, of "DispatchResult r ok now"] config_kept [of s "DispatchResult r ok now"]
    by auto
  moreover have "sid \<in> set h \<and> (\<forall>c \<in> set (ss_captures ses'). \<forall>q \<in> set out.
      req_sessionId q = sid \<longrightarrow> req_reason q = cap_reason c \<longrightarrow> behind c q)"
    if after: "um_find (sch_sessions (fst (sched_onDispatchResult s r ok now))) sid = Some ses'"
    for sid ses'
  proof -
    from find_after_result [OF wf after] obtain ses where ses: "um_find (sch_sessions s) sid = Some ses"
      "\<forall>c' \<in> set (ss_captures ses'). \<exists>c \<in> set (ss_captures ses).
       c' = c \<or> (cap_phase c = PhaseDispatching \<and> c' = fst (settle_capture (sch_config s) c ok now))"
      by blast
    have old: "sid \<in> set h" "\<forall>c \<in> set (ss_captures ses). capture_ok (sch_config s) c \<and> (\<forall>q \<in> set out.
      req_sessionId q = sid \<longrightarrow> req_reason q = cap_reason c \<longrightarrow> behind c q)"
      using I ses(1) by (auto simp: dispatch_inv_def sched_wf_def)
    with ses(2) show ?thesis
      by (metis behind_settle settle_capture_fields(1))
  qed
  ultimately show ?thesis using I by (auto simp: dispatch_inv_def)
qed

text \<open>The requests of one poll: one per ready capture, each with the capture's own attempt.\<close>

lemma due_request:
  assumes "sched_wf s" and "r \<in> set (fst (sched_due now s))"
  obtains ses c where "um_find (sch_sessions s) (req_sessionId r) = Some ses"
    and "c \<in> set (ss_captures ses)" and "capture_ready now c"
    and "req_reason r = cap_reason c" and "req_attempt r = cap_attempt c"
  using assms by (fastforce simp: sched_due_eq buildRequest_def sched_wf_def um_find_mem)

definition session_requests ::
  "CaptureSchedulerConfig \<Rightarrow> int \<Rightarrow> string \<times> 'd SessionState \<Rightarrow> 'd CaptureRequest list" where
  "session_requests cf now p = map (buildRequest cf (fst p) (snd p) \<circ> mark now)
     (filter (capture_ready now) (ss_captures (snd p)))"

lemma sched_due_requests:
  "fst (sched_due now s) = concat (map (session_requests (sch_config s) now) (sch_sessions s))"
  by (simp add: sched_due_eq) (auto simp: session_requests_def intro!: arg_cong [where f = concat])

lemma session_requests_keys:
  assumes "distinct (map cap_reason (ss_captures (snd p)))"
  shows "distinct (map request_key (session_requests cf now p))"
    and "k \<in> request_key ` set (session_requests cf now p) \<Longrightarrow> fst k = fst p"
  using assms
  by (auto simp: session_requests_def distinct_map inj_on_def request_key_def buildRequest_def)

lemma all_requests_keys:
  assumes "distinct (map fst m)" and "\<forall>p \<in> set m. distinct (map cap_reason (ss_captures (snd p)))"
  shows "distinct (map request_key (concat (map (session_requests cf now) m)))"
  using assms
proof (induction m)
  case (Cons p m)
  have "fst p \<noteq> fst q" if "q \<in> set m" for q using Cons.prems(1) that by auto
  then have "request_key ` set (session_requests cf now p) \<inter> request_key ` set (session_requests cf now q) = {}"
    if "q \<in> set m" for q
    using that Cons.prems(2) session_requests_keys(2) [of p] session_requests_keys(2) [of q]
    by (metis disjoint_iff list.set_intros)
  then have "request_key ` set (session_requests cf now p) \<inter>
      request_key ` set (concat (map (session_requests cf now) m)) = {}"
    by (simp add: image_UN Int_UN_distrib)
  with Cons session_requests_keys(1) [of p] show ?case by simp
qed simp

lemma due_keys_distinct:
  "sched_wf s \<Longrightarrow> distinct (map request_key (fst (sched_due now s)))"
  unfolding sched_due_requests
  by (rule all_requests_keys) (auto simp: sched_wf_def um_wf_def um_find_mem)

lemma dispatch_due:
  assumes I: "dispatch_inv h out s"
  shows "dispatch_inv h (out @ fst (sched_due now s)) (snd (sched_due now s))"
proof -
  have wf: "sched_wf s" using I by (simp add: dispatch_inv_def)
  have new: "\<exists>ses c. um_find (sch_sessions s) (req_sessionId r) = Some ses \<and> c \<in> set (ss_captures ses) \<and>
      capture_ready now c \<and> req_reason r = cap_reason c \<and> req_attempt r = cap_attempt c"
    if "r \<in> set (fst (sched_due now s))" for r
    using due_request [OF wf that] by metis
  have wf': "sched_wf (snd (sched_due now s))" "sch_config (snd (sched_due now s)) = sch_config s"
    using sched_wf_step [OF wf, of "Due now"] config_kept [of s "Due now"]
    by (auto simp: split_beta)
  have "request_key r \<noteq> request_key q" if "r \<in> set (fst (sched_due now s))" "q \<in> set out" for r q
    using new [OF that(1)] I that(2)
    by (fastforce simp: dispatch_inv_def request_key_def behind_def capture_ready_def)
  then have "distinct (map request_key (out @ fst (sched_due now s)))"
    using I due_keys_distinct [OF wf, of now] by (auto simp: dispatch_inv_def)
  moreover have "req_sessionId r \<in> set h \<and> 1 \<le> req_attempt r \<and>
      req_attempt r \<le> 1 + max 0 (scf_maxRetries (sch_config s))"
    if "r \<in> set (out @ fst (sched_due now s))" for r
    using that I new [of r] by (fastforce simp: dispatch_inv_def sched_wf_def capture_ok_def)
  moreover have "behind (mark now c) r"
    if "um_find (sch_sessions s) (req_sessionId r) = Some ses" "c \<in> set (ss_captures ses)"
      "req_reason r = cap_reason c" "r \<in> set (out @ fst (sched_due now s))" for ses c r
  proof (cases "r \<in> set out")
    case True
    with I that have "behind c r" by (auto simp: dispatch_inv_def)
    then show ?thesis by (auto simp: behind_def mark_def split: if_splits)
  next
    case False
    with that new obtain c' where c': "c' \<in> set (ss_captures ses)" "capture_ready now c'"
      "cap_reason c' = cap_reason c" "req_attempt r = cap_attempt c'"
      by fastforce
    with that(1,2) wf have "c' = c"
      by (auto simp: sched_wf_def distinct_map inj_on_def)
    with c' show ?thesis by (simp add: behind_def mark_def)
  qed
  ultimately show ?thesis
    using I wf' by (auto simp: dispatch_inv_def find_after_due)
qed


lemma dispatch_step:
  assumes "dispatch_inv h out s" and "distinct (h @ starts call)"
  shows "dispatch_inv (h @ starts call) (out @ snd (sched_step s call)) (fst (sched_step s call))"
  using assms dispatch_transition [of h out s] dispatch_due [of h out s] dispatch_result [of h out s]
  by (cases call) (simp_all add: split_beta)

lemma dispatch_run:
  assumes "dispatch_inv h out s" and "distinct (h @ concat (map starts calls))"
    and "run_steps sched_step s calls = (s', outs)"
  shows "dispatch_inv (h @ concat (map starts calls)) (out @ concat outs) s'"
  using assms
proof (induction calls arbitrary: h out s outs)
  case (Cons c cs)
  obtain s1 o1 where step: "sched_step s c = (s1, o1)" by fastforce
  obtain outs1 where rest: "run_steps sched_step s1 cs = (s', outs1)" and outs: "outs = o1 # outs1"
    using Cons.prems(3) step by (auto split: prod.splits)
  have "distinct (h @ starts c)" using Cons.prems(2) by auto
  with dispatch_step [OF Cons.prems(1), of c] step
  have "dispatch_inv (h @ starts c) (out @ o1) s1" by simp
  from Cons.IH [OF this _ rest] Cons.prems(2) show ?case by (simp add: outs)
qed simp

lemma dispatch_inv_new:
  "distinct (map off_reason (scf_offsets config)) \<Longrightarrow> dispatch_inv [] [] (newCaptureScheduler config resolver)"
  by (simp add: dispatch_inv_def newCaptureScheduler_def sched_wf_def)

section \<open>Retries\<close>

lemma run_steps_snoc:
  "run_steps step s (es @ [e]) =
     (let (s1, outs) = run_steps step s es; (s2, out) = step s1 e in (s2, outs @ [out]))"
  by (induction es arbitrary: s) (auto simp: split_beta Let_def)

text \<open>The requests that a fresh scheduler has handed out after the calls.\<close>

definition handed_out ::
  "CaptureSchedulerConfig \<Rightarrow> (string \<Rightarrow> 'd CaptureTarget option) option \<Rightarrow> 'd sched_call list \<Rightarrow>
     'd CaptureRequest list" where
  "handed_out config resolver calls =
     concat (snd (run_steps sched_step (newCaptureScheduler config resolver) calls))"

text \<open>
  The attempt \<open>n\<close> of a capture has been earned: at some call of the history a dispatch of the capture was
  reported as not accepted, after the attempt \<open>n - 1\<close> had been handed out and before the attempt \<open>n\<close> was.
\<close>

definition retry_earned ::
  "CaptureSchedulerConfig \<Rightarrow> (string \<Rightarrow> 'd CaptureTarget option) option \<Rightarrow> 'd sched_call list \<Rightarrow>
     string \<Rightarrow> CaptureReason \<Rightarrow> int \<Rightarrow> bool" where
  "retry_earned config resolver calls sid reason n \<longleftrightarrow>
     (\<exists>pre report now post. calls = pre @ DispatchResult report False now # post \<and>
        req_sessionId report = sid \<and> req_reason report = reason \<and>
        (sid, reason, n - 1) \<in> request_key ` set (handed_out config resolver pre) \<and>
        (sid, reason, n) \<notin> request_key ` set (handed_out config resolver pre))"

lemma retry_earned_snoc:
  "retry_earned config resolver calls sid reason n \<Longrightarrow>
     retry_earned config resolver (calls @ [c]) sid reason n"
  unfolding retry_earned_def by (metis append_Cons append_assoc)

text \<open>
  Every capture under way has been handed out with its present attempt, and every attempt after the
  first, of a tracked capture or of a request, has been earned.
\<close>

definition earn_inv ::
  "CaptureSchedulerConfig \<Rightarrow> (string \<Rightarrow> 'd CaptureTarget option) option \<Rightarrow> 'd sched_call list \<Rightarrow>
     'd CaptureScheduler \<Rightarrow> bool" where
  "earn_inv config resolver calls s \<longleftrightarrow>
     (\<forall>r \<in> set (handed_out config resolver calls). req_attempt r > 1 \<longrightarrow>
        retry_earned config resolver calls (req_sessionId r) (req_reason r) (req_attempt r)) \<and>
     (\<forall>sid ses. um_find (sch_sessions s) sid = Some ses \<longrightarrow>
        (\<forall>c \<in> set (ss_captures ses).
           (cap_attempt c > 1 \<longrightarrow> retry_earned config resolver calls sid (cap_reason c) (cap_attempt c)) \<and>
           (cap_phase c = PhaseDispatching \<longrightarrow>
              (sid, cap_reason c, cap_attempt c) \<in> request_key ` set (handed_out config resolver calls))))"

lemma handed_out_snoc:
  assumes "run_steps sched_step (newCaptureScheduler config resolver) calls = (s, outs)"
  shows "handed_out config resolver (calls @ [c]) = handed_out config resolver calls @ snd (sched_step s c)"
  using assms by (simp add: handed_out_def run_steps_snoc split_beta)

text \<open>After a dispatch result a capture is an old one, or the reported one with its new phase.\<close>

lemma reported_capture:
  assumes wf: "sched_wf s"
    and after: "um_find (sch_sessions (fst (sched_onDispatchResult s r ok now))) sid = Some ses'"
    and c': "c' \<in> set (ss_captures ses')"
  obtains ses where "um_find (sch_sessions s) sid = Some ses" and "c' \<in> set (ss_captures ses)"
  | ses c where "um_find (sch_sessions s) sid = Some ses" and "c \<in> set (ss_captures ses)"
      and "sid = req_sessionId r" and "cap_reason c = req_reason r" and "cap_phase c = PhaseDispatching"
      and "c' = fst (settle_capture (sch_config s) c ok now)"
proof (cases rule: result_cases [of s r ok now])
  case same
  with after c' show thesis by (auto intro: that(1))
next
  case settled
  with after c' show thesis by (auto simp: um_find_erase split: if_splits intro: that(1))
next
  case (updated ses c)
  show thesis
  proof (cases "sid = req_sessionId r")
    case True
    with updated(5) after have "ss_captures ses' = update_first (\<lambda>c. cap_reason c = req_reason r)
        (fst (settle_capture (sch_config s) c ok now)) (ss_captures ses)"
      by (auto simp: um_find_put)
    then have "c' = fst (settle_capture (sch_config s) c ok now) \<or> c' \<in> set (ss_captures ses)"
      using c' set_update_first by fastforce
    with updated(1-4) True show thesis by (auto intro: that)
  next
    case False
    with updated(5) after c' show thesis by (auto simp: um_find_put intro: that(1))
  qed
qed

lemma settle_capture_attempt:
  "cap_attempt (fst (settle_capture config c ok now)) = cap_attempt c \<and>
     cap_phase (fst (settle_capture config c ok now)) = PhaseDone \<or>
   \<not> ok \<and> cap_attempt (fst (settle_capture config c ok now)) = cap_attempt c + 1 \<and>
     cap_phase (fst (settle_capture config c ok now)) = PhasePending"
  by (auto simp: settle_capture_def)

lemma earn_step:
  fixes calls :: "'d sched_call list"
  assumes run: "run_steps sched_step (newCaptureScheduler config resolver) calls = (s, outs)"
    and D: "dispatch_inv h (handed_out config resolver calls) s" and E: "earn_inv config resolver calls s"
  shows "earn_inv config resolver (calls @ [call]) (fst (sched_step s call))"
proof -
  note out = handed_out_snoc [OF run]
  have wf: "sched_wf s" using D by (simp add: dispatch_inv_def)
  have requests: "retry_earned config resolver (calls @ [call]) (req_sessionId r) (req_reason r) (req_attempt r)"
    if r: "r \<in> set (handed_out config resolver (calls @ [call]))" and later: "req_attempt r > 1" for r
  proof (cases "r \<in> set (handed_out config resolver calls)")
    case True
    with E later show ?thesis by (auto simp: earn_inv_def intro: retry_earned_snoc)
  next
    case False
    with r obtain t where t: "call = Due t" "r \<in> set (fst (sched_due t s))"
      by (cases call) (auto simp: out split_beta)
    from due_request [OF wf t(2)] obtain ses c where "um_find (sch_sessions s) (req_sessionId r) = Some ses"
      "c \<in> set (ss_captures ses)" "req_reason r = cap_reason c" "req_attempt r = cap_attempt c" by metis
    with E later show ?thesis by (auto simp: earn_inv_def intro: retry_earned_snoc)
  qed
  have grown: "request_key ` set (handed_out config resolver calls) \<subseteq>
      request_key ` set (handed_out config resolver (calls @ [call]))" by (auto simp: out)
  have captures: "(cap_attempt c > 1 \<longrightarrow> retry_earned config resolver (calls @ [call]) sid (cap_reason c) (cap_attempt c)) \<and>
      (cap_phase c = PhaseDispatching \<longrightarrow>
         (sid, cap_reason c, cap_attempt c) \<in> request_key ` set (handed_out config resolver (calls @ [call])))"
    if ses: "um_find (sch_sessions (fst (sched_step s call))) sid = Some ses" and c: "c \<in> set (ss_captures ses)"
    for sid ses c
  proof -
    have keep: ?thesis if "um_find (sch_sessions s) sid = Some ses0" and "c \<in> set (ss_captures ses0)" for ses0
      using E that grown by (auto simp: earn_inv_def intro: retry_earned_snoc)
    show ?thesis
    proof (cases call)
      case (Transition t)
      with ses find_after_transition [of s t sid ses] c keep [of ses] show ?thesis
        by (auto simp: plan_captures_def)
    next
      case (Due t)
      with ses obtain ses0 where ses0: "um_find (sch_sessions s) sid = Some ses0"
        "ss_captures ses = map (mark t) (ss_captures ses0)" by (auto simp: split_beta find_after_due)
      with c obtain c0 where c0: "c0 \<in> set (ss_captures ses0)" "c = mark t c0" by auto
      have old: "cap_attempt c0 > 1 \<longrightarrow> retry_earned config resolver calls sid (cap_reason c0) (cap_attempt c0)"
        "cap_phase c0 = PhaseDispatching \<longrightarrow>
           (sid, cap_reason c0, cap_attempt c0) \<in> request_key ` set (handed_out config resolver calls)"
        using E ses0(1) c0(1) by (auto simp: earn_inv_def)
      have "(sid, cap_reason c0, cap_attempt c0) \<in> request_key ` set (fst (sched_due t s))" if "capture_ready t c0"
      proof -
        have "(sid, ses0) \<in> set (sch_sessions s)" using wf ses0(1) by (simp add: sched_wf_def um_find_mem)
        then have "buildRequest (sch_config s) sid ses0 (mark t c0) \<in> set (fst (sched_due t s))"
          using that c0(1) by (force simp: sched_due_eq)
        then show ?thesis by (force simp: request_key_def buildRequest_def)
      qed
      with old c0(2) grown out Due show ?thesis
        by (auto simp: mark_def split_beta image_Un intro: retry_earned_snoc split: if_splits)
    next
      case (DispatchResult r ok now)
      with ses have ses': "um_find (sch_sessions (fst (sched_onDispatchResult s r ok now))) sid = Some ses" by simp
      show ?thesis
      proof (cases rule: reported_capture [OF wf ses' c])
        case (1 ses0)
        then show ?thesis by (rule keep)
      next
        case (2 ses0 c0)
        have c0: "cap_attempt c0 > 1 \<longrightarrow> retry_earned config resolver calls sid (cap_reason c0) (cap_attempt c0)"
          "(sid, cap_reason c0, cap_attempt c0) \<in> request_key ` set (handed_out config resolver calls)"
          using E 2(1,2,5) by (auto simp: earn_inv_def)
        have ok: "capture_ok (sch_config s) c0" using wf 2(1,2) by (auto simp: sched_wf_def)
        have reason: "cap_reason c = cap_reason c0" using 2(6) settle_capture_fields(1) [OF ok] by simp
        have fresh: "(sid, cap_reason c0, cap_attempt c0 + 1) \<notin> request_key ` set (handed_out config resolver calls)"
          using D 2(1,2,5) by (fastforce simp: dispatch_inv_def behind_def request_key_def)
        have "retry_earned config resolver (calls @ [call]) sid (cap_reason c0) (cap_attempt c0 + 1)" if "\<not> ok"
        proof -
          have "calls @ [call] = calls @ DispatchResult r False now # []" using DispatchResult that by simp
          moreover have "req_sessionId r = sid" "req_reason r = cap_reason c0" using 2(3,4) by simp_all
          ultimately show ?thesis unfolding retry_earned_def using c0(2) fresh by (metis add_diff_cancel_right')
        qed
        with settle_capture_attempt [of "sch_config s" c0 ok now] c0(1) 2(6) reason show ?thesis
          by (auto intro: retry_earned_snoc)
      qed
    qed
  qed
  show ?thesis unfolding earn_inv_def using requests captures by blast
qed

lemma earn_run:
  fixes calls :: "'d sched_call list"
  assumes "distinct (map off_reason (scf_offsets config))" and "distinct (concat (map starts calls))"
  shows "dispatch_inv (concat (map starts calls)) (handed_out config resolver calls)
      (final_state sched_step (newCaptureScheduler config resolver) calls) \<and>
    earn_inv config resolver calls (final_state sched_step (newCaptureScheduler config resolver) calls)"
  using assms(2)
proof (induction calls rule: rev_induct)
  case Nil
  show ?case using dispatch_inv_new [OF assms(1)]
    by (simp add: handed_out_def earn_inv_def newCaptureScheduler_def)
next
  case (snoc c calls)
  obtain s outs where run: "run_steps sched_step (newCaptureScheduler config resolver) calls = (s, outs)" by fastforce
  have I: "dispatch_inv (concat (map starts calls)) (handed_out config resolver calls) s"
    "earn_inv config resolver calls s" using snoc run by simp_all
  have "dispatch_inv (concat (map starts (calls @ [c]))) (handed_out config resolver (calls @ [c])) (fst (sched_step s c))"
    using dispatch_step [OF I(1), of c] snoc.prems by (simp add: handed_out_snoc [OF run])
  with earn_step [OF run I, of c] run show ?case by (simp add: run_steps_snoc split_beta)
qed

section \<open>Cancelled sessions\<close>

lemma untracked_step:
  assumes "sched_wf s" and "um_find (sch_sessions s) sid = None" and "sid \<notin> set (starts call)"
  shows "um_find (sch_sessions (fst (sched_step s call))) sid = None"
    and "sid \<notin> req_sessionId ` set (snd (sched_step s call))"
proof -
  show "um_find (sch_sessions (fst (sched_step s call))) sid = None"
  proof (cases call)
    case (Transition t)
    with assms(2,3) show ?thesis
      by (cases "um_find (sch_sessions (fst (sched_onTransition s t))) sid")
        (auto dest!: find_after_transition)
  next
    case (DispatchResult r ok now)
    with assms(2) find_after_result [OF assms(1), of r ok now sid] show ?thesis
      by (cases "um_find (sch_sessions (fst (sched_onDispatchResult s r ok now))) sid") auto
  qed (use assms(2) in \<open>simp add: find_after_due split_beta\<close>)
  show "sid \<notin> req_sessionId ` set (snd (sched_step s call))"
    using assms(2) by (cases call) (auto simp: split_beta elim: due_request [OF assms(1)])
qed

lemma untracked_run:
  assumes "sched_wf s" and "um_find (sch_sessions s) sid = None"
    and "sid \<notin> set (concat (map starts calls))" and "run_steps sched_step s calls = (s', outs)"
  shows "sid \<notin> req_sessionId ` set (concat outs)"
  using assms
proof (induction calls arbitrary: s outs)
  case (Cons c cs)
  obtain s1 o1 where step: "sched_step s c = (s1, o1)" by fastforce
  obtain outs1 where rest: "run_steps sched_step s1 cs = (s', outs1)" and outs: "outs = o1 # outs1"
    using Cons.prems(4) step by (auto split: prod.splits)
  have "sid \<notin> set (starts c)" using Cons.prems(3) by simp
  from untracked_step [OF Cons.prems(1,2) this] sched_wf_step [OF Cons.prems(1), of c] step
  have "um_find (sch_sessions s1) sid = None" "sid \<notin> req_sessionId ` set o1" "sched_wf s1" by auto
  with Cons.IH [OF _ _ _ rest] Cons.prems(3) show ?case by (simp add: outs image_Un)
qed simp

section \<open>Properties\<close>

text \<open>
  C22: over any interleaving of transitions, polls and dispatch results on a fresh scheduler whose
  offsets have distinct reasons, and in which every session id starts at most once, a capture is handed
  out again only for a retry. No request is handed out twice with the same session, reason and attempt
  number; the attempt numbers lie between 1 and one more than the configured number of retries; and for
  every request with an attempt number above 1 a dispatch of its capture was reported as not accepted
  after the attempt before it had been handed out and before it was handed out itself.
\<close>

theorem captures_dispatched_once:
  assumes "distinct (map off_reason (scf_offsets config))"
    and "distinct (concat (map starts calls))"
    and "run_steps sched_step (newCaptureScheduler config resolver) calls = (s', outs)"
  shows "distinct (map request_key (concat outs)) \<and>
    (\<forall>r \<in> set (concat outs). 1 \<le> req_attempt r \<and> req_attempt r \<le> 1 + max 0 (scf_maxRetries config) \<and>
       (1 < req_attempt r \<longrightarrow>
          retry_earned config resolver calls (req_sessionId r) (req_reason r) (req_attempt r)))"
proof -
  have I: "dispatch_inv (concat (map starts calls)) (concat outs) s'" and E: "earn_inv config resolver calls s'"
    using earn_run [OF assms(1,2), of resolver] assms(3) by (simp_all add: handed_out_def)
  have "sch_config s' = config"
  proof -
    have "sch_config (final_state sched_step s calls) = sch_config s" for s :: "'a CaptureScheduler"
      by (induction calls arbitrary: s) (simp_all add: split_beta)
    from this [of "newCaptureScheduler config resolver"] assms(3) show ?thesis
      by (simp add: newCaptureScheduler_def)
  qed
  with I E assms(3) show ?thesis by (auto simp: dispatch_inv_def earn_inv_def handed_out_def)
qed

definition sample_target :: "nat CaptureTarget" where
  "sample_target = \<lparr>tgt_cameraId = ''cam1'', tgt_channelId = ''0'', tgt_areaName = ''EV01'',
     tgt_roiX = 0, tgt_roiY = 0, tgt_roiWidth = 1, tgt_roiHeight = 1,
     tgt_snapshotApiChannel = 0, tgt_roiRevision = 0\<rparr>"

definition sample_started :: ParkingTransitionResult where
  "sample_started = \<lparr>tr_code = SessionStarted, tr_slotId = ''EV01'', tr_sessionId = ''7'',
     tr_message = [], tr_session = Some \<lparr>ses_sessionId = ''7'', ses_slotId = ''EV01'',
     ses_sensorId = ''HALL01'', ses_state = Active, ses_startedAt = 0, ses_startedAtMonotonic = 0,
     ses_endedAt = None\<rparr>\<rparr>"

text \<open>The 30 second capture is due, its dispatch is refused, and it is due again two seconds later.\<close>

definition sample_request :: "nat CaptureRequest" where
  "sample_request = \<lparr>req_sessionId = ''7'', req_slotId = ''EV01'', req_sensorId = ''HALL01'',
     req_target = sample_target, req_reason = HallOccupied30s, req_attempt = 1, req_sessionStartedAt = 0,
     req_scheduledFor = 30000000000, req_responseTimeout = 3000\<rparr>"

definition sample_calls :: "nat sched_call list" where
  "sample_calls = [Transition sample_started, Due 30000000000,
     DispatchResult sample_request False 30000000000, Due 32000000000]"

definition sample_scheduler :: "nat CaptureScheduler" where
  "sample_scheduler = newCaptureScheduler default_scheduler_config (Some (\<lambda>_. Some sample_target))"

lemma sample_calls_keys:
  "map request_key (concat (snd (run_steps sched_step sample_scheduler sample_calls))) =
     [(''7'', HallOccupied30s, 1), (''7'', HallOccupied30s, 2)]"
  by code_simp

theorem captures_dispatched_once_witness:
  "distinct (map request_key (concat (snd (run_steps sched_step sample_scheduler sample_calls)))) \<and>
   retry_earned default_scheduler_config (Some (\<lambda>_. Some sample_target)) sample_calls ''7'' HallOccupied30s 2"
proof -
  obtain s' outs where run: "run_steps sched_step (newCaptureScheduler default_scheduler_config
      (Some (\<lambda>_. Some sample_target))) sample_calls = (s', outs)" by fastforce
  then have keys: "map request_key (concat outs) = [(''7'', HallOccupied30s, 1), (''7'', HallOccupied30s, 2)]"
    using sample_calls_keys by (simp add: sample_scheduler_def)
  then have "(''7'', HallOccupied30s, 2) \<in> request_key ` set (concat outs)"
    by (metis list.set_intros set_map)
  then obtain r where "r \<in> set (concat outs)" "request_key r = (''7'', HallOccupied30s, 2)" by (metis imageE)
  then have r: "r \<in> set (concat outs)" "req_sessionId r = ''7''" "req_reason r = HallOccupied30s" "req_attempt r = 2"
    by (simp_all add: request_key_def)
  have "distinct (map off_reason (scf_offsets default_scheduler_config))"
    by (simp add: default_scheduler_config_def)
  moreover have "distinct (concat (map starts sample_calls))" by code_simp
  ultimately have "distinct (map request_key (concat outs)) \<and> (1 < req_attempt r \<longrightarrow>
      retry_earned default_scheduler_config (Some (\<lambda>_. Some sample_target)) sample_calls
        (req_sessionId r) (req_reason r) (req_attempt r))"
    using captures_dispatched_once [OF _ _ run] r(1) by blast
  with r run show ?thesis by (simp add: sample_scheduler_def)
qed

text \<open>
  once a session has completed, no capture of it is handed out any more, whatever calls
  follow, unless a session with the same id starts again.
\<close>

theorem completed_session_is_silent:
  assumes "sched_wf s" and "tr_code t = SessionCompleted"
    and "tr_sessionId t \<notin> set (concat (map starts calls))"
    and "run_steps sched_step (fst (sched_onTransition s t)) calls = (s', outs)"
  shows "tr_sessionId t \<notin> req_sessionId ` set (concat outs)"
proof -
  have "um_find (sch_sessions (fst (sched_onTransition s t))) (tr_sessionId t) = None"
    using assms(2) by (simp add: sched_onTransition_def um_find_erase)
  moreover have "sched_wf (fst (sched_onTransition s t))"
    using sched_wf_step [OF assms(1), of "Transition t"] by simp
  ultimately show ?thesis using assms(3,4) by (intro untracked_run)
qed

theorem completed_session_is_silent_witness:
  "sched_wf sample_scheduler \<and>
   ''7'' \<notin> req_sessionId ` set (concat (snd (run_steps sched_step
     (fst (sched_onTransition sample_scheduler (sample_started\<lparr>tr_code := SessionCompleted\<rparr>)))
     [Due 30000000000, Due 60000000000])))"
proof -
  have wf: "sched_wf sample_scheduler"
    by (simp add: sample_scheduler_def sched_wf_def newCaptureScheduler_def default_scheduler_config_def)
  show ?thesis
    using completed_session_is_silent [OF wf, of "sample_started\<lparr>tr_code := SessionCompleted\<rparr>"
        "[Due 30000000000, Due 60000000000]"] wf
    by (simp add: sample_started_def del: run_steps.simps) (metis prod.collapse)
qed

text \<open>
  the scheduler's thread can sleep until the reported deadline: nothing is due before it,
  something is due at it, and with no deadline nothing ever becomes due by waiting.
\<close>

theorem scheduler_poll_exact:
  "(sched_nextDeadline s = Some d \<and> now < d \<longrightarrow> fst (sched_due now s) = []) \<and>
   (sched_nextDeadline s = Some d \<longrightarrow> fst (sched_due d s) \<noteq> []) \<and>
   (sched_nextDeadline s = None \<longrightarrow> fst (sched_due now s) = []) \<and>
   fst (sched_due now (snd (sched_due now s))) = []"
  using capture_scheduler.sleeping_misses_nothing [where s = s and d = d and now = now]
    capture_scheduler.waking_finds_work [where s = s and d = d]
    capture_scheduler.idle_without_deadline [where s = s and now = now]
    capture_scheduler.second_poll_empty [where s = s and now = now and t = now]
  by blast

theorem scheduler_poll_exact_witness:
  "fst (sched_due 30000000000 (fst (sched_onTransition sample_scheduler sample_started))) \<noteq> []"
proof -
  let ?s = "fst (sched_onTransition sample_scheduler sample_started)"
  have "sched_nextDeadline ?s = Some 30000000000" by code_simp
  then show ?thesis using scheduler_poll_exact [of ?s 30000000000 0] by blast
qed

end
