(* ===== verification/HallOcr.thy ===== *)
theory HallOcr
  imports CaptureSched
begin

text \<open>
  Plate recognition of a hall session: the policy of \<^verbatim>\<open>src/parking/HallOcrPolicy.cpp\<close>, which
  decides what to do with the 30 second and the 60 second image and folds the OCR results, and the
  coordinator of \<^verbatim>\<open>src/parking/HallCaptureCoordinator.cpp\<close>, which binds the policy to the SQLite
  session ids and to its ports.

  A port is an optional function on the state \<open>'w\<close> of the outside; a port that is not set is
  \<open>None\<close>, as an empty \<open>std::function\<close>. Calls are atomic: the coordinator's mutex covers the
  bindings and the policy together in every call but the start of a session, which only adds.
\<close>

section \<open>Capture types\<close>

datatype CaptureStage = First30s | Second60s

definition toStage :: "CaptureReason \<Rightarrow> CaptureStage" where
  "toStage reason = (if reason = HallOccupied60s then Second60s else First30s)"

definition toEnhancementType :: "CaptureStage \<Rightarrow> string" where
  "toEnhancementType stage = (if stage = Second60s then ''HALL_60S'' else ''HALL_30S'')"

record 'd NormalizedRoi =
  roi_x :: 'd
  roi_y :: 'd
  roi_width :: 'd
  roi_height :: 'd

record 'd CapturedImage =
  img_sessionId :: int
  img_slotId :: string
  img_stage :: CaptureStage
  img_originalPath :: string
  img_enhancedPath :: string
  img_roi :: "'d NormalizedRoi"
  img_roiRevision :: "64 word"

record 'd HallOcrOutcome =
  oco_sessionId :: int
  oco_stage :: CaptureStage
  oco_recognized :: bool
  oco_plateNumber :: string
  oco_confidence :: 'd
  oco_classification :: string

datatype ImageStoreResult = ImageInserted | ImageDuplicate | ImageInactiveSession | ImageFailed

datatype CaptureImageResult = CaptureStored | CaptureDuplicate | CaptureInactiveSession | CaptureFailed

section \<open>Policy\<close>

datatype ImageAction = RunOcr | StoreEvidenceOnly | HoldForPendingOcr | Drop

datatype OcrSessionState = OcrPending | OcrResolved | OcrFailed

fun action_toString :: "ImageAction \<Rightarrow> string" where
  "action_toString RunOcr = ''RUN_OCR''"
| "action_toString StoreEvidenceOnly = ''EVIDENCE_ONLY''"
| "action_toString HoldForPendingOcr = ''HELD''"
| "action_toString Drop = ''DROP''"

fun ocr_state_toString :: "OcrSessionState \<Rightarrow> string" where
  "ocr_state_toString OcrPending = ''PENDING''"
| "ocr_state_toString OcrResolved = ''RESOLVED''"
| "ocr_state_toString OcrFailed = ''FAILED''"

datatype StageState = NotArrived | Held | Running | StageDone

record OcrSession =
  ocr_result :: OcrSessionState
  ocr_stage30 :: StageState
  ocr_stage60 :: StageState
  ocr_attempts :: int

definition new_ocr_session :: OcrSession where
  "new_ocr_session = \<lparr>ocr_result = OcrPending, ocr_stage30 = NotArrived, ocr_stage60 = NotArrived,
     ocr_attempts = 0\<rparr>"

record HallOcrPolicy =
  pol_maxAttempts :: int
  pol_sessions :: "(string, OcrSession) umap"

record OcrFold =
  fold_tracked :: bool
  fold_resolved :: bool
  fold_exhausted :: bool
  fold_releaseHeldImage :: bool
  fold_attempts :: int

definition no_fold :: OcrFold where
  "no_fold = \<lparr>fold_tracked = False, fold_resolved = False, fold_exhausted = False,
     fold_releaseHeldImage = False, fold_attempts = 0\<rparr>"

record CloseReport =
  close_tracked :: bool
  close_state :: OcrSessionState
  close_attempts :: int
  close_settledAtClose :: bool

definition no_close_report :: CloseReport where
  "no_close_report = \<lparr>close_tracked = False, close_state = OcrPending, close_attempts = 0,
     close_settledAtClose = False\<rparr>"

definition newHallOcrPolicy :: "int \<Rightarrow> HallOcrPolicy" where
  "newHallOcrPolicy maxAttempts = \<lparr>pol_maxAttempts = max 1 maxAttempts, pol_sessions = []\<rparr>"

definition openSession :: "HallOcrPolicy \<Rightarrow> string \<Rightarrow> HallOcrPolicy" where
  "openSession p sessionId = p\<lparr>pol_sessions := um_emplace sessionId new_ocr_session (pol_sessions p)\<rparr>"

definition closeSession :: "HallOcrPolicy \<Rightarrow> string \<Rightarrow> HallOcrPolicy \<times> CloseReport" where
  "closeSession p sessionId =
     (case um_find (pol_sessions p) sessionId of
        None \<Rightarrow> (p, no_close_report)
      | Some session \<Rightarrow>
          let settled = ocr_result session = OcrPending \<and> ocr_attempts session > 0 in
          (p\<lparr>pol_sessions := um_erase sessionId (pol_sessions p)\<rparr>,
           \<lparr>close_tracked = True,
            close_state = (if settled then OcrFailed else ocr_result session),
            close_attempts = ocr_attempts session, close_settledAtClose = settled\<rparr>))"

definition stageRef :: "OcrSession \<Rightarrow> CaptureStage \<Rightarrow> StageState" where
  "stageRef session stage = (if stage = Second60s then ocr_stage60 session else ocr_stage30 session)"

definition set_stage :: "CaptureStage \<Rightarrow> StageState \<Rightarrow> OcrSession \<Rightarrow> OcrSession" where
  "set_stage stage v session =
     (if stage = Second60s then session\<lparr>ocr_stage60 := v\<rparr> else session\<lparr>ocr_stage30 := v\<rparr>)"

definition put_session :: "HallOcrPolicy \<Rightarrow> string \<Rightarrow> OcrSession \<Rightarrow> HallOcrPolicy" where
  "put_session p sessionId session = p\<lparr>pol_sessions := um_put sessionId session (pol_sessions p)\<rparr>"

definition arrive :: "OcrSession \<Rightarrow> CaptureStage \<Rightarrow> OcrSession \<times> ImageAction" where
  "arrive session stage =
     (if ocr_result session \<noteq> OcrPending then (session, StoreEvidenceOnly)
      else if stageRef session stage \<noteq> NotArrived then (session, StoreEvidenceOnly)
      else if stage = Second60s \<and> ocr_stage30 session = Running
      then (set_stage stage Held session, HoldForPendingOcr)
      else (set_stage stage Running session, RunOcr))"

definition onImageArrived ::
  "HallOcrPolicy \<Rightarrow> string \<Rightarrow> CaptureStage \<Rightarrow> HallOcrPolicy \<times> ImageAction" where
  "onImageArrived p sessionId stage =
     (case um_find (pol_sessions p) sessionId of
        None \<Rightarrow> (p, Drop)
      | Some session \<Rightarrow>
          let (session', action) = arrive session stage in (put_session p sessionId session', action))"

definition fold_result :: "int \<Rightarrow> OcrSession \<Rightarrow> CaptureStage \<Rightarrow> bool \<Rightarrow> OcrSession \<times> OcrFold" where
  "fold_result maxAttempts session stage recognized =
     (if stageRef session stage \<noteq> Running then (session, no_fold)
      else
        let s1 = set_stage stage StageDone session in
        if recognized then
          (let s2 = s1\<lparr>ocr_result := OcrResolved\<rparr>;
               s3 = (if ocr_stage60 s2 = Held then s2\<lparr>ocr_stage60 := StageDone\<rparr> else s2) in
           (s3, no_fold\<lparr>fold_tracked := True, fold_resolved := True, fold_attempts := ocr_attempts s3\<rparr>))
        else
          (let s2 = s1\<lparr>ocr_attempts := ocr_attempts s1 + 1\<rparr> in
           if ocr_attempts s2 \<ge> maxAttempts then
             (let s3 = s2\<lparr>ocr_result := OcrFailed\<rparr>;
                  s4 = (if ocr_stage60 s3 = Held then s3\<lparr>ocr_stage60 := StageDone\<rparr> else s3) in
              (s4, no_fold\<lparr>fold_tracked := True, fold_exhausted := True, fold_attempts := ocr_attempts s4\<rparr>))
           else if ocr_stage60 s2 = Held then
             (s2\<lparr>ocr_stage60 := Running\<rparr>,
              no_fold\<lparr>fold_tracked := True, fold_releaseHeldImage := True, fold_attempts := ocr_attempts s2\<rparr>)
           else (s2, no_fold\<lparr>fold_tracked := True, fold_attempts := ocr_attempts s2\<rparr>)))"

definition onOcrResult ::
  "HallOcrPolicy \<Rightarrow> string \<Rightarrow> CaptureStage \<Rightarrow> bool \<Rightarrow> HallOcrPolicy \<times> OcrFold" where
  "onOcrResult p sessionId stage recognized =
     (case um_find (pol_sessions p) sessionId of
        None \<Rightarrow> (p, no_fold)
      | Some session \<Rightarrow>
          let (session', fld) = fold_result (pol_maxAttempts p) session stage recognized in
          (put_session p sessionId session', fld))"

definition policy_state :: "HallOcrPolicy \<Rightarrow> string \<Rightarrow> OcrSessionState" where
  "policy_state p sessionId =
     (case um_find (pol_sessions p) sessionId of None \<Rightarrow> OcrPending | Some s \<Rightarrow> ocr_result s)"

definition policy_trackedSessions :: "HallOcrPolicy \<Rightarrow> nat" where
  "policy_trackedSessions p = length (pol_sessions p)"

section \<open>Session ids\<close>

text \<open>\<open>std::from_chars\<close> into a 64-bit signed integer: the value and the unread rest.\<close>

definition from_chars_int64 :: "string \<Rightarrow> (int \<times> string) option" where
  "from_chars_int64 text =
     (let (negative, body) = (case text of c # rest \<Rightarrow> if c = CHR ''-'' then (True, rest) else (False, text)
                                          | [] \<Rightarrow> (False, []));
          digits = takeWhile c_isdigit body;
          v = (if negative then - int (nat_of_dec digits) else int (nat_of_dec digits)) in
      if digits = [] \<or> v < - (2 ^ 63) \<or> v \<ge> 2 ^ 63 then None
      else Some (v, dropWhile c_isdigit body))"

definition parseSessionId :: "string \<Rightarrow> int option" where
  "parseSessionId value' =
     (case from_chars_int64 value' of
        None \<Rightarrow> None
      | Some (parsed, rest) \<Rightarrow> if rest \<noteq> [] \<or> parsed < 0 then None else Some parsed)"

section \<open>Coordinator\<close>

record ('d, 'w) HallCapturePorts =
  port_writeImageLog :: "('d CapturedImage \<Rightarrow> 'w \<Rightarrow> ImageStoreResult \<times> 'w) option"
  port_submitOcr :: "('d CapturedImage \<Rightarrow> 'w \<Rightarrow> 'w) option"
  port_writeOcrFailure :: "(int \<Rightarrow> string \<Rightarrow> int \<Rightarrow> 'w \<Rightarrow> 'w) option"
  port_handleRecognizedSession :: "(int \<Rightarrow> string \<Rightarrow> string \<Rightarrow> 'w \<Rightarrow> 'w) option"

record 'd HallBinding =
  hb_sessionId :: int
  hb_slotId :: string
  hb_heldImage :: "'d CapturedImage option"

record 'd HallCaptureCoordinator =
  co_policy :: HallOcrPolicy
  co_bindings :: "(string, 'd HallBinding) umap"

definition keyFor :: "int \<Rightarrow> string" where
  "keyFor sessionId = to_string sessionId"

definition newHallCaptureCoordinator :: "int \<Rightarrow> 'd HallCaptureCoordinator" where
  "newHallCaptureCoordinator maxOcrAttempts =
     \<lparr>co_policy = newHallOcrPolicy maxOcrAttempts, co_bindings = []\<rparr>"

definition coord_onTransition ::
  "('d, 'w) HallCapturePorts \<Rightarrow> 'd HallCaptureCoordinator \<times> 'w \<Rightarrow> ParkingTransitionResult \<Rightarrow>
     'd HallCaptureCoordinator \<times> 'w" where
  "coord_onTransition ports cw transition =
     (let (c, world) = cw in
      if tr_code transition = SessionStarted then
        (case parseSessionId (tr_sessionId transition) of
           None \<Rightarrow> (c, world)
         | Some sessionId \<Rightarrow>
             (c\<lparr>co_policy := openSession (co_policy c) (keyFor sessionId),
                co_bindings := um_emplace (keyFor sessionId)
                  \<lparr>hb_sessionId = sessionId, hb_slotId = tr_slotId transition, hb_heldImage = None\<rparr>
                  (co_bindings c)\<rparr>, world))
      else if tr_code transition \<noteq> SessionCompleted then (c, world)
      else
        (case parseSessionId (tr_sessionId transition) of
           None \<Rightarrow> (c, world)
         | Some sessionId \<Rightarrow>
             (case um_find (co_bindings c) (keyFor sessionId) of
                None \<Rightarrow> (c, world)
              | Some binding \<Rightarrow>
                  let (policy, report) = closeSession (co_policy c) (keyFor sessionId);
                      c' = c\<lparr>co_policy := policy, co_bindings := um_erase (keyFor sessionId) (co_bindings c)\<rparr> in
                  (c', if close_settledAtClose report
                       then (case port_writeOcrFailure ports of
                           None \<Rightarrow> world
                         | Some f \<Rightarrow> f (hb_sessionId binding) (hb_slotId binding) (close_attempts report) world)
                       else world))))"

definition onCaptureImage ::
  "('d, 'w) HallCapturePorts \<Rightarrow> 'd HallCaptureCoordinator \<times> 'w \<Rightarrow> 'd CapturedImage \<Rightarrow>
     ('d HallCaptureCoordinator \<times> 'w) \<times> CaptureImageResult" where
  "onCaptureImage ports cw captured =
     (let (c, world) = cw; key = keyFor (img_sessionId captured) in
      case um_find (co_bindings c) key of
        None \<Rightarrow> ((c, world), CaptureInactiveSession)
      | Some binding \<Rightarrow>
          (case port_writeImageLog ports of
             None \<Rightarrow> ((c, world), CaptureFailed)
           | Some writeImageLog \<Rightarrow>
               let (stored, world1) = writeImageLog captured world in
               (case stored of
                  ImageDuplicate \<Rightarrow> ((c, world1), CaptureDuplicate)
                | ImageInactiveSession \<Rightarrow> ((c, world1), CaptureInactiveSession)
                | ImageFailed \<Rightarrow> ((c, world1), CaptureFailed)
                | ImageInserted \<Rightarrow>
                    let (policy, action) = onImageArrived (co_policy c) key (img_stage captured);
                        c1 = c\<lparr>co_policy := policy\<rparr> in
                    if action = Drop then ((c1, world1), CaptureInactiveSession)
                    else
                      let c2 = (if action = HoldForPendingOcr
                            then c1\<lparr>co_bindings := um_put key (binding\<lparr>hb_heldImage := Some captured\<rparr>)
                                   (co_bindings c1)\<rparr>
                            else c1);
                          world2 = (case port_submitOcr ports of
                              Some submit \<Rightarrow> if action = RunOcr then submit captured world1 else world1
                            | None \<Rightarrow> world1) in
                      ((c2, world2), CaptureStored))))"

definition onOcrOutcome ::
  "('d, 'w) HallCapturePorts \<Rightarrow> 'd HallCaptureCoordinator \<times> 'w \<Rightarrow> 'd HallOcrOutcome \<Rightarrow>
     'd HallCaptureCoordinator \<times> 'w" where
  "onOcrOutcome ports cw outcome =
     (let (c, world) = cw; key = keyFor (oco_sessionId outcome) in
      case um_find (co_bindings c) key of
        None \<Rightarrow> (c, world)
      | Some binding \<Rightarrow>
          let (policy, fld) = onOcrResult (co_policy c) key (oco_stage outcome) (oco_recognized outcome);
              c1 = c\<lparr>co_policy := policy\<rparr> in
          if \<not> fold_tracked fld then (c1, world)
          else
            let slotId = hb_slotId binding;
                releasedImage = (if fold_releaseHeldImage fld then hb_heldImage binding else None);
                c2 = c1\<lparr>co_bindings := um_put key (binding\<lparr>hb_heldImage := None\<rparr>) (co_bindings c1)\<rparr> in
            if fold_resolved fld then
              (c2, case port_handleRecognizedSession ports of
                     None \<Rightarrow> world
                   | Some f \<Rightarrow> f (oco_sessionId outcome) slotId (oco_plateNumber outcome) world)
            else
              (case (releasedImage, port_submitOcr ports) of
                 (Some captured, Some submit) \<Rightarrow> (c2, submit captured world)
               | _ \<Rightarrow>
                   if fold_exhausted fld then
                     (c2, case port_writeOcrFailure ports of
                            None \<Rightarrow> world
                          | Some f \<Rightarrow> f (oco_sessionId outcome) slotId (fold_attempts fld) world)
                   else (c2, world)))"

definition coord_trackedSessions :: "'d HallCaptureCoordinator \<Rightarrow> nat" where
  "coord_trackedSessions c = length (co_bindings c)"

section \<open>Invariant of an OCR session\<close>

definition done_count :: "OcrSession \<Rightarrow> int" where
  "done_count s = (if ocr_stage30 s = StageDone then 1 else 0) + (if ocr_stage60 s = StageDone then 1 else 0)"

definition ocr_ok :: "int \<Rightarrow> OcrSession \<Rightarrow> bool" where
  "ocr_ok maxAttempts s \<longleftrightarrow> ocr_stage30 s \<noteq> Held \<and>
     (ocr_stage60 s = Held \<longrightarrow> ocr_stage30 s = Running \<and> ocr_result s = OcrPending) \<and>
     0 \<le> ocr_attempts s \<and> ocr_attempts s \<le> done_count s \<and>
     (ocr_result s = OcrPending \<longrightarrow> ocr_attempts s < maxAttempts) \<and>
     (ocr_result s = OcrResolved \<longrightarrow> ocr_attempts s < done_count s) \<and>
     (ocr_result s = OcrFailed \<longrightarrow> maxAttempts \<le> ocr_attempts s)"

lemmas ocr_step_defs = arrive_def fold_result_def stageRef_def set_stage_def Let_def

lemma ocr_ok_new: "1 \<le> m \<Longrightarrow> ocr_ok m new_ocr_session"
  by (simp add: ocr_ok_def new_ocr_session_def done_count_def)

lemma ocr_ok_arrive: "ocr_ok m s \<Longrightarrow> ocr_ok m (fst (arrive s stage))"
  by (cases stage) (auto simp: ocr_step_defs ocr_ok_def done_count_def split: if_splits)

lemma ocr_ok_fold: "ocr_ok m s \<Longrightarrow> ocr_ok m (fst (fold_result m s stage recognized))"
  by (cases stage; cases recognized) (auto simp: ocr_step_defs ocr_ok_def done_count_def split: if_splits)

lemma settled_arrive: "ocr_result s \<noteq> OcrPending \<Longrightarrow> ocr_result (fst (arrive s stage)) = ocr_result s"
  by (simp add: arrive_def)

text \<open>With two attempts a session that is settled has no run left that could change its result.\<close>

lemma settled_fold:
  assumes "ocr_ok m s" and "2 \<le> m" and "ocr_result s \<noteq> OcrPending"
    and "recognized \<longrightarrow> ocr_result s \<noteq> OcrFailed"
  shows "ocr_result (fst (fold_result m s stage recognized)) = ocr_result s"
  using assms
  by (cases "ocr_result s"; cases stage; cases recognized)
    (auto simp: ocr_step_defs ocr_ok_def done_count_def split: if_splits)

lemma failed_has_no_run:
  assumes "ocr_ok m s" and "2 \<le> m" and "ocr_result s = OcrFailed"
  shows "stageRef s stage \<noteq> Running"
  using assms by (auto simp: stageRef_def ocr_ok_def done_count_def split: if_splits)

lemma settled_result_kept:
  assumes "ocr_ok m s" and "2 \<le> m" and "ocr_result s \<noteq> OcrPending"
  shows "ocr_result (fst (fold_result m s stage recognized)) = ocr_result s"
proof (cases "ocr_result s = OcrFailed")
  case True
  with failed_has_no_run [OF assms(1,2)] show ?thesis by (simp add: fold_result_def)
next
  case False
  with assms show ?thesis by (intro settled_fold) auto
qed

section \<open>Runs of the policy\<close>

datatype policy_call =
  Open string
| Close string
| Image string CaptureStage
| Result string CaptureStage bool

fun policy_step :: "HallOcrPolicy \<Rightarrow> policy_call \<Rightarrow> HallOcrPolicy \<times> unit" where
  "policy_step p (Open k) = (openSession p k, ())"
| "policy_step p (Close k) = (fst (closeSession p k), ())"
| "policy_step p (Image k stage) = (fst (onImageArrived p k stage), ())"
| "policy_step p (Result k stage ok) = (fst (onOcrResult p k stage ok), ())"

definition policy_ok :: "HallOcrPolicy \<Rightarrow> bool" where
  "policy_ok p \<longleftrightarrow> 1 \<le> pol_maxAttempts p \<and>
     (\<forall>k s. um_find (pol_sessions p) k = Some s \<longrightarrow> ocr_ok (pol_maxAttempts p) s)"

lemmas policy_defs = openSession_def closeSession_def onImageArrived_def onOcrResult_def put_session_def

lemma policy_max [simp]: "pol_maxAttempts (fst (policy_step p c)) = pol_maxAttempts p"
  by (cases c) (auto simp: policy_defs Let_def split_beta split: option.splits)

lemma policy_ok_step [inv_intros]: "policy_ok p \<Longrightarrow> policy_ok (fst (policy_step p c))"
  unfolding policy_ok_def policy_max
  by (cases c) (auto simp: policy_defs um_simps Let_def split_beta ocr_ok_new ocr_ok_arrive ocr_ok_fold
      split: option.splits if_splits)

interpretation ocr_policy: invariant_machine policy_step policy_ok
  by unfold_locales (rule policy_ok_step)

lemma policy_step_settled:
  assumes "policy_ok p" and "2 \<le> pol_maxAttempts p" and "c \<noteq> Close k"
    and "um_find (pol_sessions p) k = Some s" and "ocr_result s \<noteq> OcrPending"
  shows "\<exists>s'. um_find (pol_sessions (fst (policy_step p c))) k = Some s' \<and> ocr_result s' = ocr_result s"
proof -
  have "ocr_ok (pol_maxAttempts p) s" using assms(1,4) by (auto simp: policy_ok_def)
  note kept = settled_result_kept [OF this assms(2,5)]
  show ?thesis
    using assms(3,4,5) kept
    by (cases c) (auto simp: policy_defs um_simps Let_def split_beta settled_arrive split: option.splits)
qed

lemma policy_run_settled:
  assumes "policy_ok p" and "2 \<le> pol_maxAttempts p" and "Close k \<notin> set cs"
    and "um_find (pol_sessions p) k = Some s" and "ocr_result s \<noteq> OcrPending"
  shows "policy_state (final_state policy_step p cs) k = ocr_result s"
  using assms
proof (induction cs arbitrary: p s)
  case (Cons c cs)
  then obtain s' where "um_find (pol_sessions (fst (policy_step p c))) k = Some s'"
    "ocr_result s' = ocr_result s"
    using policy_step_settled [of p c k s] by auto
  with Cons.IH [of "fst (policy_step p c)" s'] Cons.prems policy_ok_step [of p c] show ?case
    by (simp add: split_beta)
qed (simp add: policy_state_def)

section \<open>Invariant of the coordinator\<close>

definition binding_ok :: "string \<Rightarrow> 'd HallBinding \<Rightarrow> OcrSession \<Rightarrow> bool" where
  "binding_ok k b s \<longleftrightarrow> keyFor (hb_sessionId b) = k \<and>
     (hb_heldImage b \<noteq> None \<longleftrightarrow> ocr_stage60 s = Held) \<and>
     (\<forall>i. hb_heldImage b = Some i \<longrightarrow> img_stage i = Second60s \<and> keyFor (img_sessionId i) = k)"

definition coord_ok :: "'d HallCaptureCoordinator \<Rightarrow> bool" where
  "coord_ok c \<longleftrightarrow> policy_ok (co_policy c) \<and>
     (\<forall>k. case (um_find (co_bindings c) k, um_find (pol_sessions (co_policy c)) k) of
        (None, None) \<Rightarrow> True
      | (Some b, Some s) \<Rightarrow> binding_ok k b s
      | _ \<Rightarrow> False)"

lemma coord_ok_find:
  assumes "coord_ok c" and "um_find (co_bindings c) k = Some b"
  obtains s where "um_find (pol_sessions (co_policy c)) k = Some s" and "binding_ok k b s"
    and "ocr_ok (pol_maxAttempts (co_policy c)) s"
  using assms(1)
proof (cases "um_find (pol_sessions (co_policy c)) k")
  case None
  then show thesis using assms by (auto simp: coord_ok_def dest: spec [of _ k])
next
  case (Some s)
  moreover have "binding_ok k b s"
    using assms Some by (auto simp: coord_ok_def dest: spec [of _ k])
  moreover have "ocr_ok (pol_maxAttempts (co_policy c)) s"
    using assms(1) Some by (auto simp: coord_ok_def policy_ok_def)
  ultimately show thesis by (rule that)
qed

text \<open>Replacing the binding and the session of one key by a matching pair keeps the invariant.\<close>

lemma coord_ok_update:
  assumes "coord_ok c" and "policy_ok p'"
    and "\<And>x. x \<noteq> k \<Longrightarrow> um_find (co_bindings c') x = um_find (co_bindings c) x"
    and "\<And>x. x \<noteq> k \<Longrightarrow> um_find (pol_sessions p') x = um_find (pol_sessions (co_policy c)) x"
    and "co_policy c' = p'"
    and "case (um_find (co_bindings c') k, um_find (pol_sessions p') k) of
        (None, None) \<Rightarrow> True | (Some b, Some s) \<Rightarrow> binding_ok k b s | _ \<Rightarrow> False"
  shows "coord_ok c'"
  unfolding coord_ok_def
proof (intro conjI allI)
  show "policy_ok (co_policy c')" using assms(2,5) by simp
  fix x
  show "case (um_find (co_bindings c') x, um_find (pol_sessions (co_policy c')) x) of
        (None, None) \<Rightarrow> True | (Some b, Some s) \<Rightarrow> binding_ok x b s | _ \<Rightarrow> False"
    using assms(1,3,4,5,6) by (cases "x = k") (auto simp: coord_ok_def)
qed

lemma coord_ok_transition [inv_intros]:
  assumes ok: "coord_ok c"
  shows "coord_ok (fst (coord_onTransition ports (c, world) t))"
proof -
  have pol: "policy_ok (openSession (co_policy c) k)" "policy_ok (fst (closeSession (co_policy c) k))" for k
    using policy_ok_step [of "co_policy c" "Open k"] policy_ok_step [of "co_policy c" "Close k"] ok
    by (auto simp: coord_ok_def)
  have opened: "coord_ok (c\<lparr>co_policy := openSession (co_policy c) (keyFor n),
      co_bindings := um_emplace (keyFor n) \<lparr>hb_sessionId = n, hb_slotId = sl, hb_heldImage = None\<rparr> (co_bindings c)\<rparr>)"
    for n sl
    using ok spec [OF conjunct2 [OF ok [unfolded coord_ok_def]], of "keyFor n"]
    by (intro coord_ok_update [OF ok pol(1) [of "keyFor n"], where k = "keyFor n"])
      (auto simp: openSession_def um_find_emplace binding_ok_def new_ocr_session_def split: option.splits)
  have closed: "coord_ok (c\<lparr>co_policy := fst (closeSession (co_policy c) k),
      co_bindings := um_erase k (co_bindings c)\<rparr>)" for k
    by (intro coord_ok_update [OF ok pol(2) [of k], where k = k])
      (auto simp: closeSession_def um_find_erase Let_def split: option.splits)
  show ?thesis
    using ok opened closed by (simp add: coord_onTransition_def Let_def split_beta split: option.splits)
qed


lemma coord_ok_capture [inv_intros]:
  assumes ok: "coord_ok c"
  shows "coord_ok (fst (fst (onCaptureImage ports (c, world) i)))"
proof (cases "um_find (co_bindings c) (keyFor (img_sessionId i))")
  case None
  with ok show ?thesis by (simp add: onCaptureImage_def Let_def)
next
  case (Some b)
  let ?k = "keyFor (img_sessionId i)"
  obtain s where s: "um_find (pol_sessions (co_policy c)) ?k = Some s" "binding_ok ?k b s"
    using coord_ok_find [OF ok Some] by blast
  let ?p = "fst (onImageArrived (co_policy c) ?k (img_stage i))"
  have pol: "policy_ok ?p"
    using policy_ok_step [of "co_policy c" "Image ?k (img_stage i)"] ok by (simp add: coord_ok_def)
  have plain: "coord_ok (c\<lparr>co_policy := ?p\<rparr>)"
    if "snd (onImageArrived (co_policy c) ?k (img_stage i)) \<noteq> HoldForPendingOcr"
    using that s Some
    by (intro coord_ok_update [OF ok pol, where k = ?k])
      (auto simp: onImageArrived_def arrive_def put_session_def um_find_put binding_ok_def set_stage_def
        stageRef_def split: if_splits)
  have held: "coord_ok (c\<lparr>co_policy := ?p,
      co_bindings := um_put ?k (b\<lparr>hb_heldImage := Some i\<rparr>) (co_bindings c)\<rparr>)"
    if "snd (onImageArrived (co_policy c) ?k (img_stage i)) = HoldForPendingOcr"
    using that s Some
    by (intro coord_ok_update [OF ok pol, where k = ?k])
      (auto simp: onImageArrived_def arrive_def put_session_def um_find_put binding_ok_def set_stage_def
        stageRef_def split: if_splits)
  show ?thesis
    using ok plain held Some
    by (simp add: onCaptureImage_def Let_def split_beta split: option.splits ImageStoreResult.splits)
qed

lemma fold_keeps_hold:
  assumes "ocr_ok m s" and "fold_tracked (snd (fold_result m s stage r))"
  shows "ocr_stage60 (fst (fold_result m s stage r)) \<noteq> Held"
  using assms by (cases stage) (auto simp: ocr_step_defs ocr_ok_def no_fold_def split: if_splits)

lemma fold_untracked:
  "\<not> fold_tracked (snd (fold_result m s stage r)) \<Longrightarrow> fst (fold_result m s stage r) = s"
  by (auto simp: fold_result_def Let_def no_fold_def split: if_splits)

lemma coord_ok_outcome [inv_intros]:
  assumes ok: "coord_ok c"
  shows "coord_ok (fst (onOcrOutcome ports (c, world) out))"
proof (cases "um_find (co_bindings c) (keyFor (oco_sessionId out))")
  case None
  with ok show ?thesis by (simp add: onOcrOutcome_def Let_def)
next
  case (Some b)
  let ?k = "keyFor (oco_sessionId out)"
  let ?r = "onOcrResult (co_policy c) ?k (oco_stage out) (oco_recognized out)"
  obtain s where s: "um_find (pol_sessions (co_policy c)) ?k = Some s" "binding_ok ?k b s"
    "ocr_ok (pol_maxAttempts (co_policy c)) s"
    using coord_ok_find [OF ok Some] by blast
  have pol: "policy_ok (fst ?r)"
    using policy_ok_step [of "co_policy c" "Result ?k (oco_stage out) (oco_recognized out)"] ok
    by (simp add: coord_ok_def)
  have untracked: "coord_ok (c\<lparr>co_policy := fst ?r\<rparr>)" if "\<not> fold_tracked (snd ?r)"
    using that s Some fold_untracked
    by (intro coord_ok_update [OF ok pol, where k = ?k])
      (auto simp: onOcrResult_def put_session_def um_find_put split_beta Let_def)
  have tracked: "coord_ok (c\<lparr>co_policy := fst ?r,
      co_bindings := um_put ?k (b\<lparr>hb_heldImage := None\<rparr>) (co_bindings c)\<rparr>)" if "fold_tracked (snd ?r)"
    using that s Some fold_keeps_hold [OF s(3)]
    by (intro coord_ok_update [OF ok pol, where k = ?k])
      (auto simp: onOcrResult_def put_session_def um_find_put split_beta Let_def binding_ok_def)
  show ?thesis
    using ok untracked tracked Some
    by (simp add: onOcrOutcome_def Let_def split_beta split: option.splits)
qed

datatype 'd coord_call =
  OnTransition ParkingTransitionResult
| OnCaptureImage "'d CapturedImage"
| OnOcrOutcome "'d HallOcrOutcome"

fun coord_step ::
  "('d, 'w) HallCapturePorts \<Rightarrow> 'd HallCaptureCoordinator \<times> 'w \<Rightarrow> 'd coord_call \<Rightarrow>
     ('d HallCaptureCoordinator \<times> 'w) \<times> unit" where
  "coord_step ports cw (OnTransition t) = (coord_onTransition ports cw t, ())"
| "coord_step ports cw (OnCaptureImage i) = (fst (onCaptureImage ports cw i), ())"
| "coord_step ports cw (OnOcrOutcome out) = (onOcrOutcome ports cw out, ())"

interpretation hall_coordinator: invariant_machine "coord_step ports" "\<lambda>cw. coord_ok (fst cw)" for ports
proof
  show "coord_ok (fst (fst (coord_step ports s e)))" if "coord_ok (fst s)"
    for s :: "'a HallCaptureCoordinator \<times> 'b" and e
    using that coord_ok_transition [of "fst s" ports "snd s"] coord_ok_capture [of "fst s" ports "snd s"]
      coord_ok_outcome [of "fst s" ports "snd s"]
    by (cases e) simp_all
qed

lemma coord_ok_new: "coord_ok (newHallCaptureCoordinator n)"
  by (simp add: coord_ok_def newHallCaptureCoordinator_def newHallOcrPolicy_def policy_ok_def)

section \<open>Session ids\<close>

lemma takeWhile_digits [simp]:
  "takeWhile c_isdigit (dec_of_nat n) = dec_of_nat n" "dropWhile c_isdigit (dec_of_nat n) = []"
  using dec_of_nat_digits by (auto simp: takeWhile_eq_all_conv dropWhile_eq_Nil_conv)

lemma dec_of_nat_head: "dec_of_nat n = c # rest \<Longrightarrow> c \<noteq> CHR ''-''"
  using minus_not_in_dec by metis

lemma from_chars_to_string:
  "from_chars_int64 (to_string i) = (if - (2 ^ 63) \<le> i \<and> i < 2 ^ 63 then Some (i, []) else None)"
proof (cases "i < 0")
  case True
  then show ?thesis by (simp add: from_chars_int64_def to_string_def Let_def) arith
next
  case False
  moreover obtain c rest where "dec_of_nat (nat i) = c # rest" by (cases "dec_of_nat (nat i)") auto
  moreover have "c \<noteq> CHR ''-''" using calculation dec_of_nat_head by blast
  ultimately have "from_chars_int64 (dec_of_nat (nat i)) = (if - (2 ^ 63) \<le> i \<and> i < 2 ^ 63 then Some (i, []) else None)"
    using takeWhile_digits [of "nat i"] nat_of_dec_of_nat [of "nat i"]
    by (simp add: from_chars_int64_def Let_def del: takeWhile_digits nat_of_dec_of_nat) arith
  with False show ?thesis by (simp add: to_string_def)
qed


lemma createSessionId_not_numeric: "parseSessionId (createSessionId a t n) = None"
  by (simp add: parseSessionId_def from_chars_int64_def createSessionId_def c_isdigit_def)

lemma held_session:
  assumes "ocr_ok m s" and "ocr_stage60 s = Held" and "2 \<le> m"
  shows "fold_result m s First30s False =
    (s\<lparr>ocr_stage30 := StageDone, ocr_attempts := 1, ocr_stage60 := Running\<rparr>,
     \<lparr>fold_tracked = True, fold_resolved = False, fold_exhausted = False,
      fold_releaseHeldImage = True, fold_attempts = 1\<rparr>)"
  using assms by (auto simp: ocr_step_defs ocr_ok_def done_count_def no_fold_def split: if_splits)

lemma coord_max_kept:
  "pol_maxAttempts (co_policy (fst (final_state (coord_step ports) cw calls))) =
     pol_maxAttempts (co_policy (fst cw))"
proof (induction calls arbitrary: cw)
  case (Cons e es)
  have "pol_maxAttempts (co_policy (fst (fst (coord_step ports cw e)))) = pol_maxAttempts (co_policy (fst cw))"
    by (cases e; cases cw)
      (auto simp: coord_onTransition_def onCaptureImage_def onOcrOutcome_def policy_defs Let_def
        split_beta split: option.splits ImageStoreResult.splits)
  with Cons show ?case by (simp add: split_beta)
qed simp

section \<open>Properties\<close>

text \<open>
  C31: with the default of two attempts a settled OCR result is final: whatever images and OCR
  results arrive, in whatever order and for both stages, the state of the session does not change
  until the session is closed.
\<close>

theorem settled_result_is_final:
  assumes "policy_ok p" and "2 \<le> pol_maxAttempts p" and "um_find (pol_sessions p) k = Some s"
    and "ocr_result s \<noteq> OcrPending" and "Close k \<notin> set calls"
  shows "policy_state (final_state policy_step p calls) k = ocr_result s"
  using assms by (intro policy_run_settled)

definition sample_policy :: HallOcrPolicy where
  "sample_policy = final_state policy_step (newHallOcrPolicy 2)
     [Open ''7'', Image ''7'' Second60s, Image ''7'' First30s, Result ''7'' First30s True]"

theorem settled_result_is_final_witness:
  "policy_state (final_state policy_step sample_policy [Result ''7'' Second60s False]) ''7'' = OcrResolved"
proof -
  have "policy_ok (newHallOcrPolicy 2)" by (simp add: policy_ok_def newHallOcrPolicy_def)
  then have "policy_ok sample_policy" unfolding sample_policy_def by (rule ocr_policy.inv_run)
  moreover have "pol_maxAttempts sample_policy = 2" by code_simp
  moreover have "um_find (pol_sessions sample_policy) ''7'' =
      Some \<lparr>ocr_result = OcrResolved, ocr_stage30 = StageDone, ocr_stage60 = Running, ocr_attempts = 0\<rparr>"
    by code_simp
  ultimately show ?thesis
    using settled_result_is_final [of sample_policy "''7''" _ "[Result ''7'' Second60s False]"] by simp
qed

text \<open>
  With one attempt, which the configuration also allows, a settled result is not final. When
  the 60 second image arrives before the 30 second one both are recognised at once, and a plate
  that the first of them resolved is reported as a failure when the second one fails.
\<close>

theorem single_attempt_downgrades_resolved:
  "let p = final_state policy_step (newHallOcrPolicy 1)
         [Open ''7'', Image ''7'' Second60s, Image ''7'' First30s, Result ''7'' First30s True];
       (p', fld) = onOcrResult p ''7'' Second60s False
   in policy_state p ''7'' = OcrResolved \<and> policy_state p' ''7'' = OcrFailed \<and> fold_exhausted fld"
  by code_simp

text \<open>
  C32: with at least two configured OCR attempts and an OCR port, a held 60 second image is not lost
  when the 30 second recognition fails: in every state the coordinator can reach, that failure makes it
  submit exactly the held image, of the same session, and hold it no longer. With a single attempt,
  which the configuration also allows, the failure exhausts the session and the held image is dropped.
\<close>

theorem held_image_is_submitted:
  assumes "final_state (coord_step ports) (newHallCaptureCoordinator n, w0) calls = (c, world)"
    and "2 \<le> n" and "um_find (co_bindings c) (keyFor (oco_sessionId out)) = Some b"
    and "hb_heldImage b = Some i" and "oco_stage out = First30s" and "\<not> oco_recognized out"
    and "port_submitOcr ports = Some submit"
  shows "\<exists>c'. onOcrOutcome ports (c, world) out = (c', submit i world) \<and>
    um_find (co_bindings c') (keyFor (oco_sessionId out)) = Some (b\<lparr>hb_heldImage := None\<rparr>) \<and>
    img_stage i = Second60s \<and> keyFor (img_sessionId i) = keyFor (oco_sessionId out)"
proof -
  have ok: "coord_ok c"
    using hall_coordinator.inv_run [of "(newHallCaptureCoordinator n, w0)" ports calls] assms(1)
    by (simp add: coord_ok_new)
  have m: "pol_maxAttempts (co_policy c) = n"
    using coord_max_kept [of ports "(newHallCaptureCoordinator n, w0)" calls] assms(1,2)
    by (simp add: newHallCaptureCoordinator_def newHallOcrPolicy_def)
  obtain s where s: "um_find (pol_sessions (co_policy c)) (keyFor (oco_sessionId out)) = Some s"
    "binding_ok (keyFor (oco_sessionId out)) b s" "ocr_ok n s"
    using coord_ok_find [OF ok assms(3)] m by blast
  then have "ocr_stage60 s = Held" using assms(4) by (simp add: binding_ok_def)
  from held_session [OF s(3) this assms(2)] s m assms(3-7) show ?thesis
    by (simp add: onOcrOutcome_def onOcrResult_def um_find_put binding_ok_def Let_def)
qed

definition sample_image :: "CaptureStage \<Rightarrow> nat CapturedImage" where
  "sample_image stage = \<lparr>img_sessionId = 7, img_slotId = ''EV01'', img_stage = stage,
     img_originalPath = ''a.jpg'', img_enhancedPath = [],
     img_roi = \<lparr>roi_x = 0, roi_y = 0, roi_width = 1, roi_height = 1\<rparr>, img_roiRevision = 0\<rparr>"

definition sample_ports :: "(nat, CaptureStage list) HallCapturePorts" where
  "sample_ports = \<lparr>port_writeImageLog = Some (\<lambda>_ w. (ImageInserted, w)),
     port_submitOcr = Some (\<lambda>i w. w @ [img_stage i]), port_writeOcrFailure = None,
     port_handleRecognizedSession = None\<rparr>"

definition sample_outcome :: "nat HallOcrOutcome" where
  "sample_outcome = \<lparr>oco_sessionId = 7, oco_stage = First30s, oco_recognized = False,
     oco_plateNumber = [], oco_confidence = 0, oco_classification = []\<rparr>"

definition sample_coord_calls :: "nat coord_call list" where
  "sample_coord_calls = [OnTransition sample_started, OnCaptureImage (sample_image First30s),
     OnCaptureImage (sample_image Second60s)]"

theorem held_image_is_submitted_witness:
  "snd (onOcrOutcome sample_ports (final_state (coord_step sample_ports)
     (newHallCaptureCoordinator 2, []) sample_coord_calls) sample_outcome) = [First30s, Second60s]"
proof -
  let ?cw = "final_state (coord_step sample_ports) (newHallCaptureCoordinator 2, []) sample_coord_calls"
  let ?b = "\<lparr>hb_sessionId = 7, hb_slotId = ''EV01'', hb_heldImage = Some (sample_image Second60s)\<rparr>"
  have b: "um_find (co_bindings (fst ?cw)) (keyFor (oco_sessionId sample_outcome)) = Some ?b"
    by code_simp
  have w: "snd ?cw = [First30s]" by code_simp
  have fields: "port_submitOcr sample_ports = Some (\<lambda>i w. w @ [img_stage i])"
    "oco_stage sample_outcome = First30s" "\<not> oco_recognized sample_outcome"
    by (simp_all add: sample_outcome_def sample_ports_def)
  have "\<exists>c'. onOcrOutcome sample_ports (fst ?cw, snd ?cw) sample_outcome =
      (c', snd ?cw @ [img_stage (sample_image Second60s)])"
    using held_image_is_submitted [of sample_ports 2 "[]" sample_coord_calls "fst ?cw" "snd ?cw"
        sample_outcome ?b "sample_image Second60s" "\<lambda>i w. w @ [img_stage i]"] b fields
    by auto
  moreover have "(fst ?cw, snd ?cw) = ?cw" by (rule prod.collapse)
  ultimately show ?thesis by (auto simp only: w sample_image_def)
      (simp_all add: w)
qed

text \<open>
  a session id survives the trip through text exactly when it is a non-negative 64-bit
  integer, and the textual ids that the slot manager makes are never taken for one.
\<close>

theorem session_id_roundtrip:
  "parseSessionId (keyFor n) = (if 0 \<le> n \<and> n < 2 ^ 63 then Some n else None) \<and>
   parseSessionId (createSessionId slot t counter) = None"
  by (simp add: parseSessionId_def keyFor_def from_chars_to_string)
    (simp add: createSessionId_not_numeric [unfolded parseSessionId_def])

end
