(* ===== verification/LoRaLink.thy ===== *)
theory LoRaLink
  imports Pi_Prelude
begin

unbundle bit_operations_syntax

text \<open>
  LoRa framing, \<^verbatim>\<open>src/device/LoRaDriver.cpp\<close>: start marker, header, payload and CRC-16, and the
  receiver that recovers frame boundaries from a byte stream. Bytes are \<open>8 word\<close>, the multi-byte
  fields are words of their width. The message type is an \<open>enum class\<close> over one byte that is cast
  from any byte received, so it is a byte. The UART write is an argument.
\<close>

section \<open>Frames\<close>

type_synonym bytes = "8 word list"

record LoRaFrame =
  frm_version :: "8 word"
  frm_type :: "8 word"
  frm_sequence :: "32 word"
  frm_payload :: bytes

record LoRaDestination =
  dst_addressHigh :: "8 word"
  dst_addressLow :: "8 word"
  dst_channel :: "8 word"

definition kSof0 :: "8 word" where "kSof0 = 0xAA"

definition kSof1 :: "8 word" where "kSof1 = 0x55"

definition kVersionLegacy :: "8 word" where "kVersionLegacy = 1"

definition kVersionNodeAware :: "8 word" where "kVersionNodeAware = 2"

definition kMaxPayload :: nat where "kMaxPayload = 512"

definition appendU16 :: "bytes \<Rightarrow> 16 word \<Rightarrow> bytes" where
  "appendU16 output v = output @ [ucast (drop_bit 8 v AND 0xFF), ucast (v AND 0xFF)]"

definition appendU32 :: "bytes \<Rightarrow> 32 word \<Rightarrow> bytes" where
  "appendU32 output v = output @ [ucast (drop_bit 24 v AND 0xFF), ucast (drop_bit 16 v AND 0xFF),
     ucast (drop_bit 8 v AND 0xFF), ucast (v AND 0xFF)]"

definition readU16 :: "bytes \<Rightarrow> 16 word" where
  "readU16 input = push_bit 8 (ucast (input ! 0)) OR ucast (input ! 1)"

definition readU32 :: "bytes \<Rightarrow> 32 word" where
  "readU32 input = push_bit 24 (ucast (input ! 0)) OR push_bit 16 (ucast (input ! 1)) OR
     push_bit 8 (ucast (input ! 2)) OR ucast (input ! 3)"

section \<open>Checksum\<close>

fun crc_bits :: "nat \<Rightarrow> 16 word \<Rightarrow> 16 word" where
  "crc_bits 0 crc = crc"
| "crc_bits (Suc k) crc =
     crc_bits k (if crc AND 0x8000 \<noteq> 0 then push_bit 1 crc XOR 0x1021 else push_bit 1 crc)"

definition crc16Ccitt :: "bytes \<Rightarrow> 16 word" where
  "crc16Ccitt input = foldl (\<lambda>crc byte. crc_bits 8 (crc XOR push_bit 8 (ucast byte))) 0xFFFF input"

section \<open>Sending\<close>

definition encode :: "LoRaFrame \<Rightarrow> string + bytes" where
  "encode frame =
     (if length (frm_payload frame) > kMaxPayload then Inl ''LoRa payload exceeds 512 bytes''
      else
        let header = [kSof0, kSof1, kVersionLegacy, frm_type frame];
            body = appendU16 (appendU32 header (frm_sequence frame))
                     (of_nat (length (frm_payload frame))) @ frm_payload frame in
        Inr (appendU16 body (crc16Ccitt (drop 2 body))))"

definition send :: "(bytes \<Rightarrow> string + unit) \<Rightarrow> LoRaFrame \<Rightarrow> string + unit" where
  "send writeAll frame = try_bind (encode frame) writeAll"

definition sendTo :: "(bytes \<Rightarrow> string + unit) \<Rightarrow> LoRaDestination \<Rightarrow> LoRaFrame \<Rightarrow> string + unit" where
  "sendTo writeAll destination frame =
     try_bind (encode frame) (\<lambda>encoded.
       writeAll ([dst_addressHigh destination, dst_addressLow destination, dst_channel destination] @ encoded))"

section \<open>Receiving\<close>

text \<open>The suffix that starts at the first start marker.\<close>

fun find_sof :: "bytes \<Rightarrow> bytes option" where
  "find_sof [] = None"
| "find_sof [a] = None"
| "find_sof (a # b # rest) = (if a = kSof0 \<and> b = kSof1 then Some (a # b # rest) else find_sof (b # rest))"

record LoRaReceiver =
  rx_buffer :: bytes
  rx_rejected_frames :: "64 word"

definition keep_marker_byte :: "bytes \<Rightarrow> bytes" where
  "keep_marker_byte buffer = (if buffer \<noteq> [] \<and> last buffer = kSof0 then [last buffer] else [])"

lemma find_sof_length: "find_sof b = Some c \<Longrightarrow> length c \<le> length b"
  by (induction b rule: find_sof.induct) (auto split: if_splits)

function consume_loop :: "bytes \<Rightarrow> 64 word \<Rightarrow> LoRaFrame list \<times> LoRaReceiver" where
  "consume_loop buffer rejected =
     (case find_sof buffer of
        None \<Rightarrow> ([], \<lparr>rx_buffer = keep_marker_byte buffer, rx_rejected_frames = rejected\<rparr>)
      | Some buf \<Rightarrow>
          if length buf < 10 then ([], \<lparr>rx_buffer = buf, rx_rejected_frames = rejected\<rparr>)
          else if buf ! 2 \<noteq> kVersionLegacy \<and> buf ! 2 \<noteq> kVersionNodeAware
          then consume_loop (tl buf) (rejected + 1)
          else
            let payload_size = unat (readU16 (drop 8 buf)) in
            if payload_size > kMaxPayload then consume_loop (tl buf) (rejected + 1)
            else if length buf < 12 + payload_size
            then ([], \<lparr>rx_buffer = buf, rx_rejected_frames = rejected\<rparr>)
            else if readU16 (drop (10 + payload_size) buf) \<noteq> crc16Ccitt (take (8 + payload_size) (drop 2 buf))
            then consume_loop (tl buf) (rejected + 1)
            else
              let frame = \<lparr>frm_version = buf ! 2, frm_type = buf ! 3, frm_sequence = readU32 (drop 4 buf),
                    frm_payload = take payload_size (drop 10 buf)\<rparr>;
                  (frames, rx) = consume_loop (drop (12 + payload_size) buf) rejected in
              (frame # frames, rx))"
  by pat_completeness auto

termination consume_loop
  by (relation "measure (length \<circ> fst)") (auto dest!: find_sof_length)

declare consume_loop.simps [simp del]

definition consume :: "LoRaReceiver \<Rightarrow> bytes \<Rightarrow> LoRaFrame list \<times> LoRaReceiver" where
  "consume rx input = consume_loop (rx_buffer rx @ input) (rx_rejected_frames rx)"

definition rejectedFrames :: "LoRaReceiver \<Rightarrow> 64 word" where
  "rejectedFrames rx = rx_rejected_frames rx"

section \<open>Byte order round trips\<close>

lemma low_byte: "(ucast (w AND 0xFF) :: 8 word) = ucast w" for w :: "'a::len word"
proof -
  have "(0xFF :: 'a word) = mask 8" by (simp add: mask_eq_exp_minus_1)
  then have "w AND 0xFF = take_bit 8 w" by (simp only: take_bit_eq_mask)
  then show ?thesis by (simp only:) (rule bit_word_eqI, auto simp: bit_simps)
qed

lemma readU16_append [simp]: "readU16 (appendU16 [] v @ rest) = v"
  unfolding readU16_def appendU16_def low_byte
  by (rule bit_word_eqI) (auto simp: bit_simps)

lemma word32_of_bytes:
  "push_bit 24 (ucast (ucast (drop_bit 24 v) :: 8 word)) OR push_bit 16 (ucast (ucast (drop_bit 16 v) :: 8 word)) OR
     push_bit 8 (ucast (ucast (drop_bit 8 v) :: 8 word)) OR ucast (ucast v :: 8 word) = v"
  for v :: "32 word"
proof (rule bit_word_eqI, goal_cases)
  case (1 n)
  then consider "n < 8" | "8 \<le> n" "n < 16" | "16 \<le> n" "n < 24" | "24 \<le> n" "n < 32"
    by fastforce
  then show ?case by cases (auto simp: bit_simps)
qed

lemma readU32_append [simp]: "readU32 (appendU32 [] v @ rest) = v"
  using word32_of_bytes [of v] by (simp add: readU32_def appendU32_def low_byte)

lemma append_length [simp]:
  "length (appendU16 out v) = length out + 2" "length (appendU32 out w) = length out + 4"
  by (simp_all add: appendU16_def appendU32_def)

lemma append_front: "appendU16 out v = out @ appendU16 [] v" "appendU32 out w = out @ appendU32 [] w"
  by (simp_all add: appendU16_def appendU32_def)

lemma readU16_prefix:
  "2 \<le> length x \<Longrightarrow> readU16 (x @ y) = readU16 x"
  by (auto simp: readU16_def nth_append)

lemma readU32_prefix:
  "4 \<le> length x \<Longrightarrow> readU32 (x @ y) = readU32 x"
  by (auto simp: readU32_def nth_append)

section \<open>Chunks\<close>

lemma find_sof_append: "find_sof a = Some a' \<Longrightarrow> find_sof (a @ b) = Some (a' @ b)"
  by (induction a rule: find_sof.induct) (auto split: if_splits)

lemma find_sof_head: "find_sof a = Some a' \<Longrightarrow> find_sof a' = Some a' \<and> 2 \<le> length a'"
  by (induction a rule: find_sof.induct) (auto split: if_splits)

lemma sof_bytes_differ: "kSof0 \<noteq> kSof1"
  by (simp add: kSof0_def kSof1_def)

lemma keep_marker_Cons [simp]: "keep_marker_byte (x # y # ys) = keep_marker_byte (y # ys)"
  by (simp add: keep_marker_byte_def)

lemma find_sof_keep: "find_sof (keep_marker_byte a) = None"
  by (simp add: keep_marker_byte_def)

lemma find_sof_none_append:
  "find_sof a = None \<Longrightarrow> find_sof (a @ b) = find_sof (keep_marker_byte a @ b)"
proof (induction a rule: find_sof.induct)
  case (2 a)
  then show ?case by (cases b) (auto simp: keep_marker_byte_def)
qed (auto simp: keep_marker_byte_def split: if_splits)

lemma keep_marker_append: "keep_marker_byte (a @ b) = keep_marker_byte (keep_marker_byte a @ b)"
  by (cases b rule: rev_cases) (auto simp: keep_marker_byte_def)

lemma consume_loop_cong:
  assumes "find_sof x = find_sof y" and "find_sof x = None \<Longrightarrow> keep_marker_byte x = keep_marker_byte y"
  shows "consume_loop x r = consume_loop y r"
  using assms by (auto simp: consume_loop.simps [of x] consume_loop.simps [of y] split: option.splits)

text \<open>What the receiver reads of the front of its buffer does not depend on what follows it.\<close>

lemma front_reads:
  assumes "10 \<le> length buf"
  shows "(buf @ b) ! 2 = buf ! 2" and "(buf @ b) ! 3 = buf ! 3"
    and "readU16 (drop 8 (buf @ b)) = readU16 (drop 8 buf)"
    and "readU32 (drop 4 (buf @ b)) = readU32 (drop 4 buf)"
  using assms by (simp_all add: nth_append readU16_prefix readU32_prefix)

lemma frame_reads:
  assumes "12 + n \<le> length buf"
  shows "readU16 (drop (10 + n) (buf @ b)) = readU16 (drop (10 + n) buf)"
    and "take (8 + n) (drop 2 (buf @ b)) = take (8 + n) (drop 2 buf)"
    and "take n (drop 10 (buf @ b)) = take n (drop 10 buf)"
    and "drop (12 + n) (buf @ b) = drop (12 + n) buf @ b"
  using assms by (simp_all add: readU16_prefix)

lemma consume_loop_append:
  "consume_loop (a @ b) r =
     (let (f1, rx) = consume_loop a r;
          (f2, rx') = consume_loop (rx_buffer rx @ b) (rx_rejected_frames rx) in (f1 @ f2, rx'))"
proof (induction a r rule: consume_loop.induct)
  case (1 a r)
  show ?case
  proof (cases "find_sof a")
    case None
    have "consume_loop (a @ b) r = consume_loop (keep_marker_byte a @ b) r"
      using find_sof_none_append [OF None] keep_marker_append by (rule consume_loop_cong)
    with None show ?thesis by (simp add: consume_loop.simps [of a])
  next
    case (Some buf)
    note sof = this
    have buf: "find_sof (a @ b) = Some (buf @ b)" "find_sof (buf @ b) = Some (buf @ b)" "buf \<noteq> []"
      using find_sof_append find_sof_head [OF Some] Some by (auto dest: find_sof_append)
    have same: "consume_loop (a @ b) r = consume_loop (buf @ b) r"
      using buf by (intro consume_loop_cong) simp_all
    let ?n = "unat (readU16 (drop 8 buf))"
    consider (short) "length buf < 10"
      | (version) "10 \<le> length buf" "buf ! 2 \<noteq> kVersionLegacy" "buf ! 2 \<noteq> kVersionNodeAware"
      | (header) "10 \<le> length buf" "buf ! 2 = kVersionLegacy \<or> buf ! 2 = kVersionNodeAware"
      by linarith
    then show ?thesis
    proof cases
      case short
      then show ?thesis using sof same by (simp add: consume_loop.simps [of a])
    next
      case version
      then show ?thesis
        using "1.IH"(1) [OF sof] sof buf front_reads [OF version(1), of b]
        by (simp add: consume_loop.simps [of a] consume_loop.simps [of "a @ b"])
    next
      case header
      note front = front_reads [OF header(1), of b]
      have ver: "(buf ! 2 \<noteq> kVersionLegacy \<and> buf ! 2 \<noteq> kVersionNodeAware) = False"
        using header(2) by blast
      consider (long) "kMaxPayload < ?n" | (partial) "?n \<le> kMaxPayload" "length buf < 12 + ?n"
        | (full) "?n \<le> kMaxPayload" "12 + ?n \<le> length buf"
        by linarith
      then show ?thesis
      proof cases
        case long
        then show ?thesis
          using "1.IH"(2) [OF sof _ _ refl] sof buf header(1) front
          by (simp add: ver consume_loop.simps [of a] consume_loop.simps [of "a @ b"])
      next
        case partial
        with header have "consume_loop a r = ([], \<lparr>rx_buffer = buf, rx_rejected_frames = r\<rparr>)"
          using sof by (auto simp: consume_loop.simps [of a])
        with same show ?thesis by simp
      next
        case full
        note reads = frame_reads [OF full(2), of b]
        show ?thesis
        proof (cases "readU16 (drop (10 + ?n) buf) = crc16Ccitt (take (8 + ?n) (drop 2 buf))")
          case True
          then show ?thesis
            using "1.IH"(4) [OF sof _ _ refl] sof buf header(1) front full reads
            by (simp add: ver consume_loop.simps [of a] consume_loop.simps [of "a @ b"] split_beta Let_def)
        next
          case False
          then show ?thesis
            using "1.IH"(3) [OF sof _ _ refl] sof buf header(1) front full reads
            by (simp add: ver consume_loop.simps [of a] consume_loop.simps [of "a @ b"] Let_def)
        qed
      qed
    qed
  qed
qed


section \<open>Decoding an encoded frame\<close>

definition wire_body :: "LoRaFrame \<Rightarrow> bytes" where
  "wire_body f = [kSof0, kSof1, kVersionLegacy, frm_type f] @ appendU32 [] (frm_sequence f) @
     appendU16 [] (of_nat (length (frm_payload f))) @ frm_payload f"

lemma encode_eq:
  "length (frm_payload f) \<le> kMaxPayload \<Longrightarrow>
     encode f = Inr (wire_body f @ appendU16 [] (crc16Ccitt (drop 2 (wire_body f))))"
  by (simp add: encode_def wire_body_def Let_def appendU16_def appendU32_def)

lemma payload_length_word:
  "n \<le> kMaxPayload \<Longrightarrow> unat (of_nat n :: 16 word) = n"
  by (simp add: kMaxPayload_def unsigned_of_nat take_bit_nat_eq_self_iff)

lemma decode_frame:
  assumes size: "length (frm_payload f) \<le> kMaxPayload" and enc: "encode f = Inr wire"
  shows "consume_loop (wire @ rest) r =
    (let (fs, rx) = consume_loop rest r in (f\<lparr>frm_version := kVersionLegacy\<rparr> # fs, rx))"
proof -
  let ?n = "length (frm_payload f)"
  let ?b = "wire_body f @ appendU16 [] (crc16Ccitt (drop 2 (wire_body f))) @ rest"
  have wire: "wire @ rest = ?b" using encode_eq [OF size] enc by simp
  have len: "length (wire_body f) = 10 + ?n" by (simp add: wire_body_def)
  have sof: "find_sof ?b = Some ?b" by (simp add: wire_body_def)
  have head: "?b ! 2 = kVersionLegacy" "?b ! 3 = frm_type f" "readU32 (drop 4 ?b) = frm_sequence f"
    by (simp_all add: wire_body_def numeral_2_eq_2 numeral_3_eq_3)
  have "drop 8 ?b = appendU16 [] (of_nat ?n) @ frm_payload f @
      appendU16 [] (crc16Ccitt (drop 2 (wire_body f))) @ rest"
    by (simp add: wire_body_def)
  then have n: "unat (readU16 (drop 8 ?b)) = ?n"
    by (simp only: readU16_append payload_length_word [OF size])
  have pay: "take ?n (drop 10 ?b) = frm_payload f" by (simp add: wire_body_def)
  have crc: "readU16 (drop (10 + ?n) ?b) = crc16Ccitt (take (8 + ?n) (drop 2 ?b))"
    by (simp add: len)
  have tail: "drop (12 + ?n) ?b = rest" by (simp add: len)
  show ?thesis
    unfolding wire
    using sof head n pay crc tail size len
    by (subst consume_loop.simps) (simp add: Let_def split_beta)
qed

lemma decode_frames:
  assumes "\<forall>f \<in> set fs. length (frm_payload f) \<le> kMaxPayload"
    and "map encode fs = map Inr wires"
  shows "consume_loop (concat wires @ rest) r =
    (let (gs, rx) = consume_loop rest r in (map (\<lambda>f. f\<lparr>frm_version := kVersionLegacy\<rparr>) fs @ gs, rx))"
  using assms
proof (induction fs arbitrary: wires)
  case (Cons f fs)
  then obtain w ws where "wires = w # ws" "encode f = Inr w" "map encode fs = map Inr ws"
    by (cases wires) auto
  with Cons.IH [of ws] Cons.prems(1) decode_frame [of f w] show ?case by (simp add: split_beta Let_def)
qed simp

section \<open>Bounded buffer\<close>

text \<open>One turn of the receive loop: it stops, skips a byte of a bad frame, or delivers a frame.\<close>

lemma consume_loop_turn:
  obtains (stop) "fst (consume_loop b r) = []"
      and "length (rx_buffer (snd (consume_loop b r))) < 12 + kMaxPayload"
  | (skip) buf where "length buf < length b" and "consume_loop b r = consume_loop buf (r + 1)"
  | (deliver) f buf where "length buf < length b" and "length (frm_payload f) \<le> kMaxPayload"
      and "frm_version f = kVersionLegacy \<or> frm_version f = kVersionNodeAware"
      and "consume_loop b r = (f # fst (consume_loop buf r), snd (consume_loop buf r))"
proof (cases "find_sof b")
  case None
  then show thesis
    by (intro stop) (simp_all add: consume_loop.simps [of b] keep_marker_byte_def kMaxPayload_def)
next
  case (Some buf)
  have buf: "length buf \<le> length b" "2 \<le> length buf"
    using find_sof_length [OF Some] find_sof_head [OF Some] by auto
  let ?n = "unat (readU16 (drop 8 buf))"
  let ?bad = "buf ! 2 \<noteq> kVersionLegacy \<and> buf ! 2 \<noteq> kVersionNodeAware"
  let ?ok = "readU16 (drop (10 + ?n) buf) = crc16Ccitt (take (8 + ?n) (drop 2 buf))"
  consider "length buf < 10" | "10 \<le> length buf" "?bad"
    | "10 \<le> length buf" "?bad = False" "kMaxPayload < ?n"
    | "10 \<le> length buf" "?bad = False" "?n \<le> kMaxPayload" "length buf < 12 + ?n"
    | "10 \<le> length buf" "?bad = False" "?n \<le> kMaxPayload" "12 + ?n \<le> length buf" "\<not> ?ok"
    | "10 \<le> length buf" "?bad = False" "?n \<le> kMaxPayload" "12 + ?n \<le> length buf" "?ok"
    by (meson not_less)
  then show thesis
  proof cases
    case 1
    then show thesis using Some by (intro stop) (simp_all add: consume_loop.simps [of b])
  next
    case 2
    then show thesis using Some buf by (intro skip [of "tl buf"]) (simp_all add: consume_loop.simps [of b])
  next
    case 3
    then show thesis using Some buf by (intro skip [of "tl buf"]) (simp_all add: 3(2) consume_loop.simps [of b])
  next
    case 4
    then show thesis using Some by (intro stop) (simp_all add: 4(2) consume_loop.simps [of b])
  next
    case 5
    then show thesis
      using Some buf by (intro skip [of "tl buf"]) (simp_all add: 5(2) consume_loop.simps [of b] Let_def)
  next
    case 6
    let ?f = "\<lparr>frm_version = buf ! 2, frm_type = buf ! 3, frm_sequence = readU32 (drop 4 buf),
      frm_payload = take ?n (drop 10 buf)\<rparr>"
    from 6 show thesis
      using Some buf
      by (intro deliver [of "drop (12 + ?n) buf" ?f])
        (simp_all add: 6(2) consume_loop.simps [of b] Let_def split_beta, use 6(2) in blast)
  qed
qed

lemma consume_loop_bounded: "length (rx_buffer (snd (consume_loop b r))) < 12 + kMaxPayload"
proof (induction "length b" arbitrary: b r rule: less_induct)
  case less
  show ?case
    by (cases rule: consume_loop_turn [of b r]) (use less in auto)
qed

text \<open>Every delivered frame has a known version and a payload of at most 512 bytes.\<close>

lemma consume_loop_frames:
  "f \<in> set (fst (consume_loop b r)) \<Longrightarrow> length (frm_payload f) \<le> kMaxPayload \<and>
     (frm_version f = kVersionLegacy \<or> frm_version f = kVersionNodeAware)"
proof (induction "length b" arbitrary: b r rule: less_induct)
  case less
  show ?case
    by (cases rule: consume_loop_turn [of b r]) (use less in \<open>auto\<close>)
qed


section \<open>Properties\<close>

text \<open>
  C24: the receiver does not care how the byte stream is cut into reads: receiving two chunks one
  after the other delivers the same frames, leaves the same buffer and counts the same rejections
  as receiving them at once.
\<close>

theorem consume_chunks:
  "consume rx (a @ b) =
     (let (frames1, rx1) = consume rx a; (frames2, rx2) = consume rx1 b in (frames1 @ frames2, rx2))"
  unfolding consume_def append_assoc [symmetric] by (rule consume_loop_append)

text \<open>
  C23: whatever is sent is received. The concatenated encodings of any frames are decoded by an
  idle receiver into the same frames, in order, with the version the encoder writes, nothing
  rejected and nothing left in the buffer.
\<close>

theorem encode_consume_roundtrip:
  assumes "\<forall>f \<in> set frames. length (frm_payload f) \<le> kMaxPayload"
    and "map encode frames = map Inr wires"
  shows "consume \<lparr>rx_buffer = [], rx_rejected_frames = n\<rparr> (concat wires) =
    (map (\<lambda>f. f\<lparr>frm_version := kVersionLegacy\<rparr>) frames, \<lparr>rx_buffer = [], rx_rejected_frames = n\<rparr>)"
  using decode_frames [OF assms, of "[]" n]
  by (simp add: consume_def consume_loop.simps [of "[]"] keep_marker_byte_def)

definition sample_frame :: LoRaFrame where
  "sample_frame = \<lparr>frm_version = 2, frm_type = 1, frm_sequence = 0x01020304, frm_payload = [0xAA, 0x55, 7]\<rparr>"

theorem encode_consume_roundtrip_witness:
  "\<exists>wire. encode sample_frame = Inr wire \<and> length wire = 15 \<and>
     consume \<lparr>rx_buffer = [], rx_rejected_frames = 0\<rparr> wire =
       ([sample_frame\<lparr>frm_version := 1\<rparr>], \<lparr>rx_buffer = [], rx_rejected_frames = 0\<rparr>)"
proof -
  have size: "length (frm_payload sample_frame) \<le> kMaxPayload"
    by (simp add: sample_frame_def kMaxPayload_def)
  from encode_eq [OF this] obtain wire where w: "encode sample_frame = Inr wire" "length wire = 15"
    by (simp add: wire_body_def) (simp add: sample_frame_def)
  then show ?thesis
    using encode_consume_roundtrip [of "[sample_frame]" "[wire]" 0] size
    by (simp add: kVersionLegacy_def)
qed

text \<open>
  the receiver is safe on any input. Its buffer never holds more than an incomplete frame
  (523 bytes), and every frame it delivers has a known version and a payload within the limit.
\<close>

theorem receiver_bounded:
  "length (rx_buffer (snd (consume rx input))) \<le> 523 \<and>
   list_all (\<lambda>f. length (frm_payload f) \<le> 512 \<and> (frm_version f = 1 \<or> frm_version f = 2))
     (fst (consume rx input))"
  using consume_loop_bounded [of "rx_buffer rx @ input" "rx_rejected_frames rx"]
    consume_loop_frames [of _ "rx_buffer rx @ input" "rx_rejected_frames rx"]
  by (auto simp: consume_def list_all_iff kMaxPayload_def kVersionLegacy_def kVersionNodeAware_def)

end
