(* ===== verification/Tables.thy ===== *)
theory Tables
  imports Pi_Prelude "HOL-Library.Multiset"
begin

text \<open>
  Tables of the database as lists of rows: \<open>UPDATE\<close>, \<open>COUNT\<close>, \<open>ORDER BY\<close> with and without \<open>LIMIT 1\<close>, and
  their laws. Every database component uses them.
\<close>

section \<open>Operations\<close>

text \<open>\<open>UPDATE ... WHERE p\<close> and the number of rows it changed.\<close>

definition update_rows :: "('r \<Rightarrow> bool) \<Rightarrow> ('r \<Rightarrow> 'r) \<Rightarrow> 'r list \<Rightarrow> 'r list" where
  "update_rows p f rows = map (\<lambda>r. if p r then f r else r) rows"

definition count_rows :: "('r \<Rightarrow> bool) \<Rightarrow> 'r list \<Rightarrow> nat" where
  "count_rows p rows = length (filter p rows)"

text \<open>The row with the least key, the first of equals: \<open>ORDER BY key LIMIT 1\<close>.\<close>

fun least_by :: "('r \<Rightarrow> int) \<Rightarrow> 'r list \<Rightarrow> 'r option" where
  "least_by key [] = None"
| "least_by key (r # rs) =
     (case least_by key rs of None \<Rightarrow> Some r | Some s \<Rightarrow> if key s < key r then Some s else Some r)"

fun insert_by :: "('r \<Rightarrow> 'r \<Rightarrow> bool) \<Rightarrow> 'r \<Rightarrow> 'r list \<Rightarrow> 'r list" where
  "insert_by le x [] = [x]"
| "insert_by le x (y # ys) = (if le x y then x # y # ys else y # insert_by le x ys)"

definition sort_by :: "('r \<Rightarrow> 'r \<Rightarrow> bool) \<Rightarrow> 'r list \<Rightarrow> 'r list" where
  "sort_by le rows = foldr (insert_by le) rows []"

fun text_le :: "string \<Rightarrow> string \<Rightarrow> bool" where
  "text_le [] ys = True"
| "text_le (x # xs) [] = False"
| "text_le (x # xs) (y # ys) =
     ((of_char x :: nat) < of_char y \<or> (x = y \<and> text_le xs ys))"

section \<open>Laws\<close>

lemma update_rows_map:
  "(\<And>r. p r \<Longrightarrow> g (f r) = g r) \<Longrightarrow> map g (update_rows p f rows) = map g rows"
  by (simp add: update_rows_def)

lemma update_rows_filter:
  assumes "\<And>r. p r \<Longrightarrow> q (f r) = q r"
  shows "filter q (update_rows p f rows) = update_rows p f (filter q rows)"
  using assms by (induction rows) (auto simp: update_rows_def)

lemma set_update_rows: "r \<in> set (update_rows p f rows) \<Longrightarrow> \<exists>s \<in> set rows. r = (if p s then f s else s)"
  by (auto simp: update_rows_def)

lemma length_update_rows [simp]: "length (update_rows p f rows) = length rows"
  by (simp add: update_rows_def)

lemma find_in_append: "find p (xs @ ys) = (case find p xs of None \<Rightarrow> find p ys | Some x \<Rightarrow> Some x)"
  by (induction xs) auto

lemma least_by_mem: "least_by key rs = Some r \<Longrightarrow> r \<in> set rs"
  by (induction rs arbitrary: r) (auto split: option.splits if_splits)

lemma least_by_None [simp]: "least_by key rs = None \<longleftrightarrow> rs = []"
  by (cases rs) (auto split: option.splits if_splits)

lemma insert_by_set [simp]: "set (insert_by le x xs) = insert x (set xs)"
  by (induction xs) auto

lemma sort_by_set [simp]: "set (sort_by le xs) = set xs"
  by (induction xs) (auto simp: sort_by_def)

lemma insert_by_mset [simp]: "mset (insert_by le x xs) = add_mset x (mset xs)"
  by (induction xs) auto

lemma sort_by_mset [simp]: "mset (sort_by le xs) = mset xs"
  by (induction xs) (auto simp: sort_by_def)

lemma insert_by_sorted:
  "sorted (map f xs) \<Longrightarrow> sorted (map f (insert_by (\<lambda>a b. f a \<le> f b) x xs))" for f :: "'r \<Rightarrow> int"
  by (induction xs) auto

lemma sort_by_sorted: "sorted (map f (sort_by (\<lambda>a b. f a \<le> f b) xs))" for f :: "'r \<Rightarrow> int"
  by (induction xs) (auto simp: sort_by_def intro: insert_by_sorted)

lemma sort_by_distinct: "distinct (map g (sort_by le xs)) = distinct (map g xs)"
  by (metis mset_map sort_by_mset mset_eq_imp_distinct_iff)

lemma count_rows_append [simp]: "count_rows p (xs @ ys) = count_rows p xs + count_rows p ys"
  by (simp add: count_rows_def)

lemma count_rows_update:
  assumes "\<And>r. p r \<Longrightarrow> q (f r) \<Longrightarrow> q r"
  shows "count_rows q (update_rows p f rows) \<le> count_rows q rows"
  using assms by (induction rows) (auto simp: count_rows_def update_rows_def)

lemma filter_key_le1:
  assumes "distinct (map f xs)"
  shows "length (filter (\<lambda>x. f x = k) xs) \<le> 1"
  using assms
proof (induction xs)
  case (Cons x xs)
  show ?case
  proof (cases "k \<in> f ` set xs")
    case True
    then show ?thesis using Cons by auto
  next
    case False
    then have "filter (\<lambda>x. f x = k) xs = []" by (auto simp: filter_empty_conv)
    then show ?thesis by simp
  qed
qed simp

text \<open>With a key column at most one row has a given key.\<close>

lemma count_key:
  assumes "distinct (map key rows)" and "\<And>r. p r \<Longrightarrow> key r = k"
  shows "count_rows p rows = (if list_ex p rows then 1 else 0)"
proof -
  have "filter p rows = filter p (filter (\<lambda>r. key r = k) rows)"
    using assms(2) by (simp add: conj_commute) (metis (mono_tags, lifting) filter_cong)
  then have "count_rows p rows \<le> length (filter (\<lambda>r. key r = k) rows)"
    unfolding count_rows_def by (metis length_filter_le)
  also have "\<dots> \<le> 1" using assms(1) by (rule filter_key_le1)
  finally show ?thesis by (auto simp: list_ex_iff count_rows_def filter_empty_conv le_Suc_eq)
qed

end
