(* ===== verification/OccupancyStore.thy ===== *)
theory OccupancyStore
  imports SlotManager Tables
begin

text \<open>
  The durable occupancy store of \<^verbatim>\<open>src/database/EventDatabaseOccupancy.cpp\<close>: the command inbox, the
  parking sessions, the IVA observation state, the exit deadlines and the correlation bindings, and
  the transactions on them. The types are those of \<^verbatim>\<open>src/parking/SlotTransitionTypes.cpp\<close>.

  A table is a list of rows, or a map where the key is the whole access path. A transaction is a
  function on the database: it gives the next database, or an error, and then the database is the
  one before it (the ROLLBACK). The constraints of \<^verbatim>\<open>db/schema.sql\<close> that an INSERT or UPDATE can
  violate are checked where the statement runs. A call takes a flag that says whether SQLite itself
  works during the call; when it does not, the statement that fails throws.

  Not in the model: the \<open>updated_at\<close> columns, which nothing reads, and the statement cache. The JSON
  library and SQLite's date functions are the fields of the record \<open>payload_api\<close>.
\<close>

section \<open>Commands\<close>

datatype SlotCommandKind = HallObservation | CameraObservation | ExitDeadline

datatype SlotCommandStatus = PendingUnprepared | PendingPrepared | Applied | RejectedInvalid

fun kind_toString :: "SlotCommandKind \<Rightarrow> string" where
  "kind_toString HallObservation = ''HALL_OBSERVATION''"
| "kind_toString CameraObservation = ''CAMERA_OBSERVATION''"
| "kind_toString ExitDeadline = ''EXIT_DEADLINE''"

fun status_toString :: "SlotCommandStatus \<Rightarrow> string" where
  "status_toString PendingUnprepared = ''PENDING_UNPREPARED''"
| "status_toString PendingPrepared = ''PENDING_PREPARED''"
| "status_toString Applied = ''APPLIED''"
| "status_toString RejectedInvalid = ''REJECTED_INVALID''"

definition slotCommandKindFromString :: "string \<Rightarrow> SlotCommandKind option" where
  "slotCommandKindFromString v =
     (if v = ''HALL_OBSERVATION'' then Some HallObservation
      else if v = ''CAMERA_OBSERVATION'' then Some CameraObservation
      else if v = ''EXIT_DEADLINE'' then Some ExitDeadline
      else None)"

definition slotCommandStatusFromString :: "string \<Rightarrow> SlotCommandStatus option" where
  "slotCommandStatusFromString v =
     (if v = ''PENDING_UNPREPARED'' then Some PendingUnprepared
      else if v = ''PENDING_PREPARED'' then Some PendingPrepared
      else if v = ''APPLIED'' then Some Applied
      else if v = ''REJECTED_INVALID'' then Some RejectedInvalid
      else None)"

record SlotTransitionCommand =
  sc_commandId :: string
  sc_kind :: SlotCommandKind
  sc_slotId :: string
  sc_sensorId :: string
  sc_sourceIdentity :: string
  sc_sourceSequence :: "64 word option"
  sc_occurredAt :: string
  sc_payloadJson :: string
  sc_dueAtEpochMs :: int

datatype SlotAdmissionCode = AdmAdmitted | AdmExisting | AdmAlreadyTerminal | AdmRejectedStale
  | AdmConflict | AdmCapacityFull | AdmRetryableFailure

record SlotAdmissionResult =
  adm_code :: SlotAdmissionCode
  adm_commandId :: string
  adm_message :: string

definition adm_accepted :: "SlotAdmissionResult \<Rightarrow> bool" where
  "adm_accepted r \<longleftrightarrow>
     adm_code r = AdmAdmitted \<or> adm_code r = AdmExisting \<or> adm_code r = AdmAlreadyTerminal"

datatype CommittedOccupancyCode = CSessionStarted | CSessionEnded | CNoChange | CExitScheduled
  | CAlreadyApplied | CRejectedInvalidTimestamp | CStaleGeneration | CRetryableFailure

fun resultCodeName :: "CommittedOccupancyCode \<Rightarrow> string" where
  "resultCodeName CSessionStarted = ''SESSION_STARTED''"
| "resultCodeName CSessionEnded = ''SESSION_ENDED''"
| "resultCodeName CNoChange = ''NO_CHANGE''"
| "resultCodeName CExitScheduled = ''EXIT_SCHEDULED''"
| "resultCodeName CAlreadyApplied = ''ALREADY_APPLIED''"
| "resultCodeName CRejectedInvalidTimestamp = ''REJECTED_INVALID_TIMESTAMP''"
| "resultCodeName CStaleGeneration = ''STALE_GENERATION''"
| "resultCodeName CRetryableFailure = ''RETRYABLE_FAILURE''"

definition resultCodeFromName :: "string \<Rightarrow> CommittedOccupancyCode" where
  "resultCodeFromName v =
     (if v = ''SESSION_STARTED'' then CSessionStarted
      else if v = ''SESSION_ENDED'' then CSessionEnded
      else if v = ''NO_CHANGE'' then CNoChange
      else if v = ''EXIT_SCHEDULED'' then CExitScheduled
      else if v = ''ALREADY_APPLIED'' then CAlreadyApplied
      else if v = ''REJECTED_INVALID_TIMESTAMP'' then CRejectedInvalidTimestamp
      else if v = ''STALE_GENERATION'' then CStaleGeneration
      else CRetryableFailure)"

record CommittedOccupancyTransition =
  cot_code :: CommittedOccupancyCode
  cot_commandId :: string
  cot_sourceKind :: SlotCommandKind
  cot_slotId :: string
  cot_sensorId :: string
  cot_sessionId :: int
  cot_occupancyAttemptId :: string
  cot_correlationId :: string
  cot_observationGeneration :: int
  cot_occurredAt :: string
  cot_occurredAtEpochMs :: int
  cot_sourceTransport :: string
  cot_message :: string

definition cot_terminal :: "CommittedOccupancyTransition \<Rightarrow> bool" where
  "cot_terminal r \<longleftrightarrow> cot_code r \<noteq> CRetryableFailure"

definition blank_outcome :: "string \<Rightarrow> CommittedOccupancyTransition" where
  "blank_outcome commandId = \<lparr>cot_code = CRetryableFailure, cot_commandId = commandId,
     cot_sourceKind = HallObservation, cot_slotId = [], cot_sensorId = [], cot_sessionId = -1,
     cot_occupancyAttemptId = [], cot_correlationId = [], cot_observationGeneration = 0,
     cot_occurredAt = [], cot_occurredAtEpochMs = 0, cot_sourceTransport = [], cot_message = []\<rparr>"

section \<open>Libraries\<close>

text \<open>
  The JSON queries: \<open>pj_string v k d\<close> is \<open>v.value(k, d)\<close>, which throws (left) on a value of another
  type; the same for integers and booleans. \<open>pj_boot_id\<close> is the field \<open>source_boot_id\<close> when it is a
  string. \<open>pj_areas\<close> is the field \<open>configured_areas\<close>: \<open>None\<close> when it is no array, else its elements,
  \<open>None\<close> for one that is no string. \<open>pj_deadline_dump\<close> prints the payload of a deadline command.
  The \<open>sql_\<close> fields are SQLite's \<open>json_extract(payload, '$.state')\<close>, \<open>strftime\<close> and the
  \<open>julianday\<close> expression of the active-session query.
\<close>

record 'j payload_api =
  pj_parse :: "string \<Rightarrow> string + 'j"
  pj_erase :: "string \<Rightarrow> 'j \<Rightarrow> string + 'j"
  pj_string :: "'j \<Rightarrow> string \<Rightarrow> string \<Rightarrow> string + string"
  pj_int :: "'j \<Rightarrow> string \<Rightarrow> int \<Rightarrow> string + int"
  pj_bool :: "'j \<Rightarrow> string \<Rightarrow> bool \<Rightarrow> string + bool"
  pj_boot_id :: "'j \<Rightarrow> string option"
  pj_areas :: "'j \<Rightarrow> string + string option list option"
  pj_deadline_dump :: "string \<Rightarrow> int \<Rightarrow> int \<Rightarrow> string \<Rightarrow> string \<Rightarrow> string"
  sql_state :: "string \<Rightarrow> string option"
  sql_iso_time :: "int \<Rightarrow> string"
  sql_julian_ms :: "string \<Rightarrow> int"

definition sameSlotSourceFact ::
  "'j payload_api \<Rightarrow> SlotTransitionCommand \<Rightarrow> SlotTransitionCommand \<Rightarrow> bool" where
  "sameSlotSourceFact api lhs rhs =
     (if sc_commandId lhs \<noteq> sc_commandId rhs \<or> sc_kind lhs \<noteq> sc_kind rhs \<or>
         sc_slotId lhs \<noteq> sc_slotId rhs \<or> sc_sensorId lhs \<noteq> sc_sensorId rhs \<or>
         sc_sourceIdentity lhs \<noteq> sc_sourceIdentity rhs \<or>
         sc_sourceSequence lhs \<noteq> sc_sourceSequence rhs then False
      else
        (case try_bind (pj_parse api (sc_payloadJson lhs)) (\<lambda>left.
           try_bind (pj_parse api (sc_payloadJson rhs)) (\<lambda>right.
             case sc_kind lhs of
               HallObservation \<Rightarrow>
                 try_bind (pj_erase api ''occurred_at_epoch_ms'' left) (\<lambda>l.
                 try_bind (pj_erase api ''occurred_at_epoch_ms'' right) (\<lambda>r. Inr (l = r)))
             | CameraObservation \<Rightarrow>
                 try_bind (pj_erase api ''deadline_due_at_epoch_ms'' left) (\<lambda>l.
                 try_bind (pj_erase api ''deadline_due_at_epoch_ms'' right) (\<lambda>r.
                   Inr (sc_occurredAt lhs = sc_occurredAt rhs \<and> l = r)))
             | ExitDeadline \<Rightarrow>
                 Inr (sc_occurredAt lhs = sc_occurredAt rhs \<and>
                      sc_dueAtEpochMs lhs = sc_dueAtEpochMs rhs \<and> left = right))) of
           Inl _ \<Rightarrow> False
         | Inr b \<Rightarrow> b))"

section \<open>Tables\<close>

datatype EffectState = EffectNone | EffectPending | EffectApplied

record InboxRow =
  in_command :: SlotTransitionCommand
  in_ordinal :: int
  in_status :: SlotCommandStatus
  in_attemptId :: string
  in_correlationId :: string
  in_generation :: int
  in_deadlineId :: string
  in_expectedSession :: "int option"
  in_attemptCount :: int
  in_nextAttempt :: int
  in_lastError :: string
  in_resultCode :: "CommittedOccupancyCode option"
  in_resultSession :: "int option"
  in_effectState :: EffectState
  in_effectAttemptCount :: int
  in_effectNextAttempt :: int
  in_effectLastError :: string
  in_createdAt :: int

datatype SessionStatus = SesActive | SesViolation | SesEnded | SesUnknown

record SessionRow =
  ps_sessionId :: int
  ps_slotId :: string
  ps_entryTime :: string
  ps_entryEpochMs :: "int option"
  ps_status :: SessionStatus
  ps_attemptId :: "string option"
  ps_entryCommand :: "string option"
  ps_exitTime :: "string option"
  ps_exitEpochMs :: "int option"
  ps_durationSec :: int
  ps_exitCommand :: "string option"
  ps_hallConfirmed :: bool
  ps_ivaConfirmed :: bool
  ps_hallOccupied :: bool
  ps_ivaOccupied :: bool

datatype AreaState = AreaNull | AreaBool bool | AreaArray nat | AreaOther

datatype ObservedState = ObsUnknown | ObsOccupied | ObsVacantPending | ObsVacant

record IvaRow =
  iva_attemptId :: string
  iva_activeSession :: "int option"
  iva_generation :: int
  iva_observed :: ObservedState
  iva_configured :: "string option list"
  iva_areas :: "(string, AreaState) umap"
  iva_lastSource :: string

datatype DeadlineState = DlScheduled | DlAdmitted | DlSuperseded | DlApplied

record DeadlineRow =
  dl_deadlineId :: string
  dl_slotId :: string
  dl_attemptId :: string
  dl_expectedSession :: int
  dl_generation :: int
  dl_dueAt :: int
  dl_policy :: string
  dl_state :: DeadlineState
  dl_admittedCommand :: "string option"

datatype BindingState = BsPending | BsCommitted | BsEnded | BsFailed | BsExpired | BsQuarantined

record BindingRow =
  bd_correlationId :: string
  bd_sourceCommand :: string
  bd_attemptId :: string
  bd_sessionId :: int
  bd_slotId :: string
  bd_cameraId :: string
  bd_videoSourceToken :: string
  bd_ruleName :: string
  bd_objectId :: string
  bd_channelId :: string
  bd_revision :: int
  bd_state :: BindingState
  bd_createdAt :: int
  bd_expiresAt :: int
  bd_updatedAt :: int
  bd_endedAt :: "int option"

record SeqRow =
  sq_versioned :: bool
  sq_activeBoot :: "string option"
  sq_lastSequence :: "64 word"
  sq_lastCommand :: string

record SlotDb =
  db_opened :: bool
  db_inbox :: "InboxRow list"
  db_sessions :: "SessionRow list"
  db_nextSession :: int
  db_slots :: "(string, string \<times> string) umap"
  db_iva :: "(string, IvaRow) umap"
  db_deadlines :: "DeadlineRow list"
  db_bindings :: "BindingRow list"
  db_sequences :: "(string, SeqRow) umap"
  db_retired :: "(string \<times> string) list"
  db_eventLog :: "(int \<times> string \<times> string \<times> string) list"

text \<open>An error that is an \<open>std::invalid_argument\<close>, and any other exception.\<close>

datatype db_error = InvalidArgument string | Failure string

definition json_result :: "string + 'a \<Rightarrow> db_error + 'a" where
  "json_result r = (case r of Inl e \<Rightarrow> Inl (Failure e) | Inr x \<Rightarrow> Inr x)"

definition constraint_failed :: "db_error" where
  "constraint_failed = Failure ''SQLite occupancy statement failed: constraint failed''"

definition is_pending :: "InboxRow \<Rightarrow> bool" where
  "is_pending r \<longleftrightarrow> in_status r = PendingUnprepared"

definition max_ordinal :: "InboxRow list \<Rightarrow> int" where
  "max_ordinal rows = (case map in_ordinal rows of [] \<Rightarrow> 0 | n # ns \<Rightarrow> fold max ns n)"

section \<open>Hall sequence cursor\<close>

definition hallSequenceFact ::
  "'j payload_api \<Rightarrow> SlotTransitionCommand \<Rightarrow> 'j \<Rightarrow> db_error + SensorSequenceFact" where
  "hallSequenceFact api command payload =
     try_bind (json_result (pj_string api payload ''source_protocol'' ''LEGACY_V1'')) (\<lambda>encoded.
       case sensorProtocolVersionFromString encoded of
         None \<Rightarrow> Inl (InvalidArgument ''unsupported Hall source protocol'')
       | Some protocol \<Rightarrow>
           Inr \<lparr>fact_protocolVersion = protocol, fact_bootId = pj_boot_id api payload,
                fact_sequence = sc_sourceSequence command\<rparr>)"

definition loadHallSequenceState :: "SlotDb \<Rightarrow> string \<Rightarrow> SensorSequenceState" where
  "loadHallSequenceState db sensorId =
     (let retired = set (map snd (filter (\<lambda>p. fst p = sensorId) (db_retired db))) in
      case um_find (db_sequences db) sensorId of
        None \<Rightarrow> initial_sequence_state\<lparr>seq_retiredBootIds := retired\<rparr>
      | Some row \<Rightarrow>
          \<lparr>seq_mode = (if sq_versioned row then Versioned else Legacy),
           seq_activeBootId = (case sq_activeBoot row of
              None \<Rightarrow> None | Some b \<Rightarrow> if b = [] then None else Some b),
           seq_lastSequence = Some (sq_lastSequence row),
           seq_retiredBootIds = retired\<rparr>)"

section \<open>Admission\<close>

definition adm_result :: "SlotAdmissionCode \<Rightarrow> string \<Rightarrow> string \<Rightarrow> SlotAdmissionResult" where
  "adm_result code commandId message =
     \<lparr>adm_code = code, adm_commandId = commandId, adm_message = message\<rparr>"

fun error_message :: "db_error \<Rightarrow> string" where
  "error_message (InvalidArgument e) = e"
| "error_message (Failure e) = e"

definition new_inbox_row :: "SlotTransitionCommand \<Rightarrow> int \<Rightarrow> string \<Rightarrow> int \<Rightarrow> InboxRow" where
  "new_inbox_row command ordinal correlationId createdAt =
     \<lparr>in_command = command, in_ordinal = ordinal, in_status = PendingUnprepared, in_attemptId = [],
      in_correlationId = correlationId, in_generation = 0, in_deadlineId = [],
      in_expectedSession = None, in_attemptCount = 0, in_nextAttempt = 0, in_lastError = [],
      in_resultCode = None, in_resultSession = None, in_effectState = EffectNone,
      in_effectAttemptCount = 0, in_effectNextAttempt = 0, in_effectLastError = [],
      in_createdAt = createdAt\<rparr>"

text \<open>The primary key, the unique indexes and the foreign key of the inbox.\<close>

definition inbox_insertable :: "SlotDb \<Rightarrow> InboxRow \<Rightarrow> bool" where
  "inbox_insertable db row \<longleftrightarrow>
     um_contains (db_slots db) (sc_slotId (in_command row)) \<and>
     list_all (\<lambda>r. sc_commandId (in_command r) \<noteq> sc_commandId (in_command row) \<and>
       (sc_kind (in_command r), sc_sourceIdentity (in_command r)) \<noteq>
         (sc_kind (in_command row), sc_sourceIdentity (in_command row)) \<and>
       in_ordinal r \<noteq> in_ordinal row) (db_inbox db)"

definition find_identity :: "SlotDb \<Rightarrow> SlotTransitionCommand \<Rightarrow> InboxRow option" where
  "find_identity db command =
     find (\<lambda>r. sc_kind (in_command r) = sc_kind command \<and>
       sc_sourceIdentity (in_command r) = sc_sourceIdentity command) (db_inbox db)"

definition existing_result ::
  "'j payload_api \<Rightarrow> InboxRow \<Rightarrow> SlotTransitionCommand \<Rightarrow> SlotAdmissionResult" where
  "existing_result api stored command =
     (let matches = sameSlotSourceFact api (in_command stored) command in
      adm_result
        (if matches then (if in_status stored = Applied \<or> in_status stored = RejectedInvalid
                          then AdmAlreadyTerminal else AdmExisting)
         else AdmConflict)
        (sc_commandId (in_command stored))
        (if matches then ''command already admitted'' else ''source identity payload conflict''))"

text \<open>The sequence check of a Hall command: \<open>Some\<close> the refusal, \<open>None\<close> to go on.\<close>

definition hall_sequence_refusal ::
  "'j payload_api \<Rightarrow> SlotDb \<Rightarrow> SlotTransitionCommand \<Rightarrow> db_error + SlotAdmissionResult option" where
  "hall_sequence_refusal api db command =
     try_bind (json_result (pj_parse api (sc_payloadJson command))) (\<lambda>payload.
       case hallSequenceFact api command payload of
         Inl (InvalidArgument e) \<Rightarrow> Inr (Some (adm_result AdmConflict (sc_commandId command) e))
       | Inl (Failure e) \<Rightarrow> Inl (Failure e)
       | Inr fct \<Rightarrow>
           let decision = evaluateSensorSequence (loadHallSequenceState db (sc_sensorId command)) fct in
           Inr (if accepted decision then None
                else Some (adm_result (if fst decision = Invalid then AdmConflict else AdmRejectedStale)
                       (sc_commandId command) (snd decision))))"

definition confirmation_candidate :: "'j payload_api \<Rightarrow> SlotDb \<Rightarrow> string \<Rightarrow> InboxRow option" where
  "confirmation_candidate api db slotId =
     least_by in_ordinal (filter (\<lambda>r. sc_slotId (in_command r) = slotId \<and>
       sc_kind (in_command r) = HallObservation \<and> is_pending r \<and>
       sql_state api (sc_payloadJson (in_command r)) = Some ''OCCUPIED'' \<and>
       sc_dueAtEpochMs (in_command r) > 0) (db_inbox db))"

definition cancel_candidate :: "string \<Rightarrow> SlotDb \<Rightarrow> SlotDb" where
  "cancel_candidate commandId db = db\<lparr>db_inbox := update_rows
     (\<lambda>r. sc_commandId (in_command r) = commandId \<and> is_pending r)
     (\<lambda>r. r\<lparr>in_status := Applied, in_resultCode := Some CNoChange,
        in_lastError := ''canceled by VACANT before confirmation''\<rparr>) (db_inbox db)\<rparr>"

text \<open>
  The confirmation rule of a Hall command: a refusal that leaves the database alone (left
  component), or the database with the candidate cancelled.
\<close>

definition hall_confirmation ::
  "'j payload_api \<Rightarrow> SlotDb \<Rightarrow> SlotTransitionCommand \<Rightarrow> db_error + (SlotAdmissionResult option \<times> SlotDb)" where
  "hall_confirmation api db command =
     try_bind (json_result (pj_parse api (sc_payloadJson command))) (\<lambda>payload.
     try_bind (json_result (pj_string api payload ''state'' [])) (\<lambda>state.
       if state \<noteq> ''OCCUPIED'' \<and> state \<noteq> ''VACANT''
       then Inr (Some (adm_result AdmConflict (sc_commandId command) ''hall command state is invalid''), db)
       else case confirmation_candidate api db (sc_slotId command) of
           None \<Rightarrow> Inr (None, db)
         | Some candidate \<Rightarrow>
             if state = ''OCCUPIED''
             then Inr (Some (adm_result AdmExisting (sc_commandId (in_command candidate))
                    ''hall confirmation already durable''), db)
             else try_bind (json_result (pj_int api payload ''occurred_at_epoch_ms'' (sc_dueAtEpochMs command)))
               (\<lambda>vacant_observed.
                  if vacant_observed < sc_dueAtEpochMs (in_command candidate)
                  then Inr (None, cancel_candidate (sc_commandId (in_command candidate)) db)
                  else Inr (None, db))))"

definition insert_command ::
  "SlotDb \<Rightarrow> SlotTransitionCommand \<Rightarrow> nat \<Rightarrow> string \<Rightarrow> int \<Rightarrow> SlotDb \<Rightarrow>
     db_error + (SlotDb \<times> SlotAdmissionResult)" where
  "insert_command prior command capacity correlationId createdAt db =
     (if count_rows is_pending (db_inbox db) \<ge> capacity
      then Inr (prior, adm_result AdmCapacityFull (sc_commandId command) ''durable occupancy inbox is full'')
      else
        let row = new_inbox_row command (max_ordinal (db_inbox db) + 1) correlationId createdAt in
        if \<not> inbox_insertable db row then Inl constraint_failed
        else Inr (db\<lparr>db_inbox := db_inbox db @ [row]\<rparr>,
               adm_result AdmAdmitted (sc_commandId command) ''command durably admitted''))"

definition admit_transaction ::
  "'j payload_api \<Rightarrow> SlotDb \<Rightarrow> SlotTransitionCommand \<Rightarrow> nat \<Rightarrow> string \<Rightarrow> int \<Rightarrow>
     db_error + (SlotDb \<times> SlotAdmissionResult)" where
  "admit_transaction api db command capacity correlationId createdAt =
     (case find_identity db command of
        Some stored \<Rightarrow> Inr (db, existing_result api stored command)
      | None \<Rightarrow>
          if sc_kind command \<noteq> HallObservation
          then insert_command db command capacity correlationId createdAt db
          else if sc_sensorId command = []
          then Inr (db, adm_result AdmConflict (sc_commandId command) ''Hall command sensor ID is empty'')
          else try_bind (hall_sequence_refusal api db command) (\<lambda>refusal.
            case refusal of
              Some r \<Rightarrow> Inr (db, r)
            | None \<Rightarrow>
                try_bind (hall_confirmation api db command) (\<lambda>(refusal', db').
                  case refusal' of
                    Some r \<Rightarrow> Inr (db, r)
                  | None \<Rightarrow> insert_command db command capacity correlationId createdAt db')))"

definition admitSlotTransitionCommand ::
  "'j payload_api \<Rightarrow> bool \<Rightarrow> int \<Rightarrow> SlotDb \<Rightarrow> SlotTransitionCommand \<Rightarrow> nat \<Rightarrow>
     SlotDb \<times> SlotAdmissionResult" where
  "admitSlotTransitionCommand api sqlite_ok createdAt db command capacity =
     (if sc_commandId command = [] \<or> sc_slotId command = [] \<or> sc_sourceIdentity command = [] \<or>
         sc_occurredAt command = [] \<or> sc_payloadJson command = [] \<or> capacity = 0
      then (db, adm_result AdmConflict (sc_commandId command) ''invalid slot command fields'')
      else
        (case (if sc_kind command = CameraObservation
               then try_bind (pj_parse api (sc_payloadJson command)) (\<lambda>payload.
                      pj_string api payload ''correlation_id'' [])
               else Inr []) of
           Inl e \<Rightarrow> (db, adm_result AdmConflict (sc_commandId command) (''invalid camera command JSON: '' @ e))
         | Inr correlationId \<Rightarrow>
             if \<not> db_opened db
             then (db, adm_result AdmRetryableFailure (sc_commandId command) ''occupancy database is closed'')
             else if \<not> sqlite_ok
             then (db, adm_result AdmRetryableFailure (sc_commandId command) ''SQLite occupancy statement failed'')
             else
               (case admit_transaction api db command capacity correlationId createdAt of
                  Inl e \<Rightarrow> (db, adm_result AdmRetryableFailure (sc_commandId command) (error_message e))
                | Inr r \<Rightarrow> r)))"

section \<open>Due deadlines\<close>

definition deadline_le :: "DeadlineRow \<Rightarrow> DeadlineRow \<Rightarrow> bool" where
  "deadline_le a b \<longleftrightarrow> dl_dueAt a < dl_dueAt b \<or>
     (dl_dueAt a = dl_dueAt b \<and> text_le (dl_deadlineId a) (dl_deadlineId b))"

definition deadline_due :: "int \<Rightarrow> DeadlineRow \<Rightarrow> bool" where
  "deadline_due now d \<longleftrightarrow> dl_state d = DlScheduled \<and> dl_dueAt d \<le> now"

definition deadline_row ::
  "'j payload_api \<Rightarrow> DeadlineRow \<Rightarrow> int \<Rightarrow> int \<Rightarrow> InboxRow" where
  "deadline_row api d ordinal createdAt =
     (new_inbox_row
       \<lparr>sc_commandId = ''deadline-command:'' @ dl_deadlineId d, sc_kind = ExitDeadline,
        sc_slotId = dl_slotId d, sc_sensorId = [], sc_sourceIdentity = dl_deadlineId d,
        sc_sourceSequence = None, sc_occurredAt = sql_iso_time api (dl_dueAt d),
        sc_payloadJson = pj_deadline_dump api (dl_deadlineId d) (dl_expectedSession d)
          (dl_generation d) (dl_attemptId d) (dl_policy d),
        sc_dueAtEpochMs = dl_dueAt d\<rparr> ordinal [] createdAt)
     \<lparr>in_attemptId := dl_attemptId d, in_generation := dl_generation d,
      in_deadlineId := dl_deadlineId d, in_expectedSession := Some (dl_expectedSession d)\<rparr>"

definition admit_deadline ::
  "'j payload_api \<Rightarrow> int \<Rightarrow> DeadlineRow \<Rightarrow> SlotDb \<times> int \<times> nat \<Rightarrow> SlotDb \<times> int \<times> nat" where
  "admit_deadline api createdAt d acc =
     (let (db, ordinal, admitted) = acc;
          row = deadline_row api d (ordinal + 1) createdAt;
          db1 = (if inbox_insertable db row then db\<lparr>db_inbox := db_inbox db @ [row]\<rparr> else db);
          owned = (\<lambda>r. dl_deadlineId r = dl_deadlineId d \<and> dl_state r = DlScheduled);
          db2 = db1\<lparr>db_deadlines := update_rows owned (\<lambda>r. r\<lparr>dl_state := DlAdmitted,
                   dl_admittedCommand := Some (''deadline-command:'' @ dl_deadlineId d)\<rparr>)
                   (db_deadlines db1)\<rparr> in
      (db2, ordinal + 1,
       if count_rows owned (db_deadlines db1) = 1 then admitted + 1 else admitted))"

definition admitDueSlotDeadlines ::
  "'j payload_api \<Rightarrow> int \<Rightarrow> SlotDb \<Rightarrow> int \<Rightarrow> nat \<Rightarrow> string list \<Rightarrow> SlotDb \<times> nat" where
  "admitDueSlotDeadlines api createdAt db now capacity blocked =
     (if capacity = 0 \<or> \<not> db_opened db \<or> \<not> list_ex (deadline_due now) (db_deadlines db) then (db, 0)
      else
        let pending = count_rows is_pending (db_inbox db) in
        if pending \<ge> capacity then (db, 0)
        else
          let due = take (capacity - pending)
                (filter (\<lambda>d. dl_slotId d \<notin> set blocked)
                  (sort_by deadline_le (filter (deadline_due now) (db_deadlines db))));
              (db', _, admitted) = fold (admit_deadline api createdAt) due
                (db, max_ordinal (db_inbox db), 0) in
          (db', admitted))"

section \<open>Queries of the inbox\<close>

definition runnable :: "SlotDb \<Rightarrow> int \<Rightarrow> InboxRow \<Rightarrow> bool" where
  "runnable db now c \<longleftrightarrow> is_pending c \<and> sc_dueAtEpochMs (in_command c) \<le> now \<and> in_nextAttempt c \<le> now \<and>
     \<not> list_ex (\<lambda>e. sc_slotId (in_command e) = sc_slotId (in_command c) \<and> is_pending e \<and>
          in_ordinal e < in_ordinal c) (db_inbox db)"

definition listRunnableSlotTransitionCommands :: "SlotDb \<Rightarrow> int \<Rightarrow> InboxRow list" where
  "listRunnableSlotTransitionCommands db now =
     (if \<not> db_opened db then []
      else sort_by (\<lambda>a b. in_ordinal a \<le> in_ordinal b) (filter (runnable db now) (db_inbox db)))"

definition deferSlotTransitionCommand ::
  "bool \<Rightarrow> SlotDb \<Rightarrow> string \<Rightarrow> int \<Rightarrow> string \<Rightarrow> SlotDb \<times> bool" where
  "deferSlotTransitionCommand sqlite_ok db commandId nextAttempt err =
     (if \<not> db_opened db \<or> commandId = [] \<or> \<not> sqlite_ok then (db, False)
      else
        let p = (\<lambda>r. sc_commandId (in_command r) = commandId \<and> is_pending r) in
        (db\<lparr>db_inbox := update_rows p (\<lambda>r. r\<lparr>in_attemptCount := in_attemptCount r + 1,
             in_nextAttempt := nextAttempt, in_lastError := err\<rparr>) (db_inbox db)\<rparr>,
         count_rows p (db_inbox db) = 1))"

definition nextScheduledSlotDeadlineEpochMs :: "SlotDb \<Rightarrow> int option" where
  "nextScheduledSlotDeadlineEpochMs db =
     (if \<not> db_opened db then None
      else earliest_of (map dl_dueAt (filter (\<lambda>d. dl_state d = DlScheduled) (db_deadlines db))))"

definition pendingSlotTransitionCommandCount :: "SlotDb \<Rightarrow> nat" where
  "pendingSlotTransitionCommandCount db =
     (if \<not> db_opened db then 0 else count_rows is_pending (db_inbox db))"

section \<open>Building blocks of a transition\<close>

record ActiveSession =
  as_id :: int
  as_attemptId :: string
  as_entryEpochMs :: int
  as_entryTime :: string
  as_hallConfirmed :: bool
  as_ivaConfirmed :: bool
  as_hallOccupied :: bool
  as_ivaOccupied :: bool

definition session_open :: "SessionRow \<Rightarrow> bool" where
  "session_open r \<longleftrightarrow> ps_exitTime r = None \<and> (ps_status r = SesActive \<or> ps_status r = SesViolation)"

definition find_active :: "'j payload_api \<Rightarrow> SlotDb \<Rightarrow> string \<Rightarrow> ActiveSession option" where
  "find_active api db slotId =
     map_option (\<lambda>r. \<lparr>as_id = ps_sessionId r,
        as_attemptId = (case ps_attemptId r of None \<Rightarrow> [] | Some a \<Rightarrow> a),
        as_entryEpochMs = (case ps_entryEpochMs r of
           None \<Rightarrow> sql_julian_ms api (ps_entryTime r) | Some t \<Rightarrow> t),
        as_entryTime = ps_entryTime r, as_hallConfirmed = ps_hallConfirmed r,
        as_ivaConfirmed = ps_ivaConfirmed r, as_hallOccupied = ps_hallOccupied r,
        as_ivaOccupied = ps_ivaOccupied r\<rparr>)
       (least_by (\<lambda>r. - ps_sessionId r)
         (filter (\<lambda>r. ps_slotId r = slotId \<and> session_open r) (db_sessions db)))"

text \<open>The status column of \<open>PARKING_SLOT\<close>; \<open>None\<close> when no row has the slot id.\<close>

definition set_slot_status :: "string \<Rightarrow> string \<Rightarrow> string \<Rightarrow> SlotDb \<Rightarrow> SlotDb option" where
  "set_slot_status slotId status time db =
     (if um_contains (db_slots db) slotId
      then Some (db\<lparr>db_slots := um_put slotId (status, time) (db_slots db)\<rparr>) else None)"

definition log_event :: "int \<Rightarrow> string \<Rightarrow> string \<Rightarrow> string \<Rightarrow> SlotDb \<Rightarrow> SlotDb" where
  "log_event sessionId slotId eventType message db =
     db\<lparr>db_eventLog := db_eventLog db @ [(sessionId, slotId, eventType, message)]\<rparr>"

definition create_session ::
  "SlotTransitionCommand \<Rightarrow> int \<Rightarrow> string \<Rightarrow> string \<Rightarrow> string \<Rightarrow> SlotDb \<Rightarrow> db_error + (SlotDb \<times> int)" where
  "create_session command occurredMs attemptId eventType message db =
     (case set_slot_status (sc_slotId command) ''OCCUPIED'' (sc_occurredAt command) db of
        None \<Rightarrow> Inl (Failure ''occupancy slot does not exist'')
      | Some db1 \<Rightarrow>
          if list_ex (\<lambda>r. (ps_slotId r = sc_slotId command \<and> session_open r) \<or>
               ps_entryCommand r = Some (sc_commandId command)) (db_sessions db1)
          then Inl constraint_failed
          else
            let sessionId = db_nextSession db1;
                from_hall = (sc_kind command = HallObservation);
                from_camera = (sc_kind command = CameraObservation);
                row = \<lparr>ps_sessionId = sessionId, ps_slotId = sc_slotId command,
                  ps_entryTime = sc_occurredAt command, ps_entryEpochMs = Some occurredMs,
                  ps_status = SesActive, ps_attemptId = Some attemptId,
                  ps_entryCommand = Some (sc_commandId command), ps_exitTime = None,
                  ps_exitEpochMs = None, ps_durationSec = 0, ps_exitCommand = None,
                  ps_hallConfirmed = from_hall, ps_ivaConfirmed = from_camera,
                  ps_hallOccupied = from_hall, ps_ivaOccupied = from_camera\<rparr> in
            Inr (log_event sessionId (sc_slotId command) eventType message
                   (db1\<lparr>db_sessions := db_sessions db1 @ [row], db_nextSession := sessionId + 1\<rparr>),
                 sessionId))"

definition close_owned :: "string \<Rightarrow> ActiveSession \<Rightarrow> SessionRow \<Rightarrow> bool" where
  "close_owned slotId active r \<longleftrightarrow> ps_sessionId r = as_id active \<and> ps_slotId r = slotId \<and>
     (case ps_attemptId r of None \<Rightarrow> [] | Some a \<Rightarrow> a) = as_attemptId active \<and> session_open r"

definition end_session_row :: "SlotTransitionCommand \<Rightarrow> int \<Rightarrow> ActiveSession \<Rightarrow> SessionRow \<Rightarrow> SessionRow" where
  "end_session_row command occurredMs active r =
     r\<lparr>ps_status := SesEnded, ps_exitTime := Some (sc_occurredAt command),
       ps_exitEpochMs := Some occurredMs,
       ps_durationSec := max 0 ((occurredMs - (case ps_entryEpochMs r of
          None \<Rightarrow> as_entryEpochMs active | Some t \<Rightarrow> t)) div 1000),
       ps_exitCommand := Some (sc_commandId command), ps_hallOccupied := False,
       ps_ivaOccupied := False\<rparr>"

text \<open>The result is false when the closing time precedes the entry; then nothing is changed.\<close>

definition close_session ::
  "SlotTransitionCommand \<Rightarrow> int \<Rightarrow> ActiveSession \<Rightarrow> string \<Rightarrow> string \<Rightarrow> SlotDb \<Rightarrow>
     db_error + (SlotDb \<times> bool)" where
  "close_session command occurredMs active eventType message db =
     (if occurredMs < as_entryEpochMs active then Inr (db, False)
      else
        let slotId = sc_slotId command; owned = close_owned slotId active in
        if count_rows owned (db_sessions db) \<noteq> 1
        then Inl (Failure ''exact occupancy close lost ownership'')
        else if list_ex (\<lambda>r. ps_exitCommand r = Some (sc_commandId command)) (db_sessions db)
        then Inl constraint_failed
        else
          let db1 = db\<lparr>db_sessions := update_rows owned (end_session_row command occurredMs active)
                (db_sessions db)\<rparr> in
          case set_slot_status slotId ''VACANT'' (sc_occurredAt command) db1 of
            None \<Rightarrow> Inl (Failure ''occupancy slot projection update lost ownership'')
          | Some db2 \<Rightarrow>
              let db3 = db2\<lparr>db_bindings := update_rows (\<lambda>b. bd_sessionId b = as_id active \<and>
                      bd_slotId b = slotId \<and> bd_attemptId b = as_attemptId active \<and>
                      bd_state b = BsCommitted)
                    (\<lambda>b. b\<lparr>bd_state := BsEnded, bd_endedAt := Some occurredMs,
                       bd_updatedAt := occurredMs\<rparr>) (db_bindings db2)\<rparr>;
                  db4 = (case um_find (db_iva db3) slotId of
                      None \<Rightarrow> db3
                    | Some v \<Rightarrow>
                        if iva_activeSession v = Some (as_id active)
                        then db3\<lparr>db_iva := um_put slotId (v\<lparr>iva_attemptId := [], iva_activeSession := None,
                               iva_observed := ObsVacant\<rparr>) (db_iva db3)\<rparr>
                        else db3) in
              Inr (log_event (as_id active) slotId eventType message db4, True))"

definition update_hall_state :: "int \<Rightarrow> bool \<Rightarrow> bool \<Rightarrow> SlotDb \<Rightarrow> db_error + SlotDb" where
  "update_hall_state sessionId confirmed occupied db =
     (let p = (\<lambda>r. ps_sessionId r = sessionId \<and> session_open r) in
      if count_rows p (db_sessions db) \<noteq> 1
      then Inl (Failure ''Hall source state update lost active session'')
      else Inr (db\<lparr>db_sessions := update_rows p (\<lambda>r. r\<lparr>ps_hallConfirmed := ps_hallConfirmed r \<or> confirmed,
             ps_hallOccupied := occupied\<rparr>) (db_sessions db)\<rparr>))"

definition update_iva_state :: "int \<Rightarrow> bool \<Rightarrow> bool \<Rightarrow> SlotDb \<Rightarrow> db_error + SlotDb" where
  "update_iva_state sessionId confirmed occupied db =
     (let p = (\<lambda>r. ps_sessionId r = sessionId \<and> session_open r) in
      if count_rows p (db_sessions db) \<noteq> 1
      then Inl (Failure ''IVA source state update lost active session'')
      else Inr (db\<lparr>db_sessions := update_rows p (\<lambda>r. r\<lparr>ps_ivaConfirmed := ps_ivaConfirmed r \<or> confirmed,
             ps_ivaOccupied := occupied\<rparr>) (db_sessions db)\<rparr>))"

definition commit_sequence ::
  "'j payload_api \<Rightarrow> SlotTransitionCommand \<Rightarrow> 'j \<Rightarrow> SlotDb \<Rightarrow> db_error + SlotDb" where
  "commit_sequence api command payload db =
     try_bind (hallSequenceFact api command payload) (\<lambda>fct.
       case fact_sequence fct of
         None \<Rightarrow> Inr db
       | Some seqno \<Rightarrow>
           if sc_sensorId command = [] then Inr db
           else
             let cursor = loadHallSequenceState db (sc_sensorId command);
                 decision = evaluateSensorSequence cursor fct in
             if \<not> accepted decision
             then Inl (Failure (''Hall sequence commit lost ownership: '' @ snd decision))
             else
               let versioned = (fact_protocolVersion fct = BootEpochV2);
                   db1 = (case (seq_activeBootId cursor, fact_bootId fct) of
                       (Some active, Some boot) \<Rightarrow>
                         if versioned \<and> seq_mode cursor = Versioned \<and> active \<noteq> boot \<and>
                            (sc_sensorId command, active) \<notin> set (db_retired db)
                         then db\<lparr>db_retired := db_retired db @ [(sc_sensorId command, active)]\<rparr>
                         else db
                     | _ \<Rightarrow> db) in
               Inr (db1\<lparr>db_sequences := um_put (sc_sensorId command)
                      \<lparr>sq_versioned = versioned,
                       sq_activeBoot = (if versioned then fact_bootId fct else None),
                       sq_lastSequence = seqno, sq_lastCommand = sc_commandId command\<rparr>
                      (db_sequences db1)\<rparr>))"

definition persist_iva ::
  "SlotTransitionCommand \<Rightarrow> string \<Rightarrow> int option \<Rightarrow> int \<Rightarrow> ObservedState \<Rightarrow> string option list \<Rightarrow>
     (string, AreaState) umap \<Rightarrow> SlotDb \<Rightarrow> db_error + SlotDb" where
  "persist_iva command attemptId sessionId generation state configured areas db =
     (if \<not> um_contains (db_slots db) (sc_slotId command) then Inl constraint_failed
      else Inr (db\<lparr>db_iva := um_put (sc_slotId command)
             \<lparr>iva_attemptId = attemptId, iva_activeSession = sessionId, iva_generation = generation,
              iva_observed = state, iva_configured = configured, iva_areas = areas,
              iva_lastSource = sc_commandId command\<rparr> (db_iva db)\<rparr>))"

section \<open>Correlation\<close>

record correlation_fields =
  cf_proposed :: string
  cf_cameraId :: string
  cf_channelId :: string
  cf_videoSourceToken :: string
  cf_ruleName :: string
  cf_objectId :: string
  cf_expiresAt :: int

definition read_correlation :: "'j payload_api \<Rightarrow> 'j \<Rightarrow> db_error + correlation_fields" where
  "read_correlation api payload =
     try_bind (json_result (pj_string api payload ''correlation_id'' [])) (\<lambda>proposed.
     try_bind (json_result (pj_string api payload ''camera_id'' [])) (\<lambda>camera.
     try_bind (json_result (pj_string api payload ''channel_id'' [])) (\<lambda>channel.
     try_bind (json_result (pj_string api payload ''video_source_token'' [])) (\<lambda>token.
     try_bind (json_result (pj_string api payload ''rule_name'' [])) (\<lambda>rule.
     try_bind (json_result (pj_string api payload ''object_id'' [])) (\<lambda>objectId.
     try_bind (json_result (pj_int api payload ''correlation_expires_at_epoch_ms'' 0)) (\<lambda>expires.
       Inr \<lparr>cf_proposed = proposed, cf_cameraId = camera, cf_channelId = channel,
            cf_videoSourceToken = token, cf_ruleName = rule, cf_objectId = objectId,
            cf_expiresAt = expires\<rparr>)))))))"

definition same_track :: "string \<Rightarrow> correlation_fields \<Rightarrow> BindingRow \<Rightarrow> bool" where
  "same_track attemptId f b \<longleftrightarrow> bd_attemptId b = attemptId \<and> bd_cameraId b = cf_cameraId f \<and>
     bd_videoSourceToken b = cf_videoSourceToken f \<and> bd_ruleName b = cf_ruleName f \<and>
     bd_objectId b = cf_objectId f"

definition refresh_binding ::
  "BindingRow \<Rightarrow> correlation_fields \<Rightarrow> int \<Rightarrow> SlotDb \<Rightarrow> db_error + SlotDb" where
  "refresh_binding b f occurredMs db =
     (let revision = max 1 (bd_revision b) in
      if cf_expiresAt f \<le> bd_expiresAt b then Inr db
      else
        let p = (\<lambda>r. bd_correlationId r = bd_correlationId b \<and> bd_revision r = revision \<and>
              bd_state r = BsCommitted) in
        if count_rows p (db_bindings db) \<noteq> 1 then Inl (Failure ''correlation refresh lost ownership'')
        else Inr (db\<lparr>db_bindings := update_rows p (\<lambda>r. r\<lparr>bd_expiresAt := cf_expiresAt f,
               bd_revision := bd_revision r + 1, bd_updatedAt := occurredMs\<rparr>) (db_bindings db)\<rparr>))"

definition insert_binding ::
  "SlotTransitionCommand \<Rightarrow> correlation_fields \<Rightarrow> string \<Rightarrow> int \<Rightarrow> int \<Rightarrow> SlotDb \<Rightarrow> db_error + SlotDb" where
  "insert_binding command f attemptId sessionId occurredMs db =
     (if list_ex (\<lambda>b. bd_correlationId b = cf_proposed f \<or> bd_sourceCommand b = sc_commandId command \<or>
           same_track attemptId f b) (db_bindings db)
         \<or> \<not> um_contains (db_slots db) (sc_slotId command)
         \<or> \<not> list_ex (\<lambda>r. ps_sessionId r = sessionId) (db_sessions db)
      then Inl constraint_failed
      else Inr (db\<lparr>db_bindings := db_bindings db @
        [\<lparr>bd_correlationId = cf_proposed f, bd_sourceCommand = sc_commandId command,
          bd_attemptId = attemptId, bd_sessionId = sessionId, bd_slotId = sc_slotId command,
          bd_cameraId = cf_cameraId f, bd_videoSourceToken = cf_videoSourceToken f,
          bd_ruleName = cf_ruleName f, bd_objectId = cf_objectId f, bd_channelId = cf_channelId f,
          bd_revision = 1, bd_state = BsCommitted, bd_createdAt = occurredMs,
          bd_expiresAt = cf_expiresAt f, bd_updatedAt = occurredMs, bd_endedAt = None\<rparr>]\<rparr>))"

definition commit_correlation ::
  "'j payload_api \<Rightarrow> SlotTransitionCommand \<Rightarrow> 'j \<Rightarrow> int \<Rightarrow> string \<Rightarrow> int \<Rightarrow> SlotDb \<Rightarrow>
     db_error + (SlotDb \<times> string)" where
  "commit_correlation api command payload occurredMs attemptId sessionId db =
     try_bind (read_correlation api payload) (\<lambda>f.
       if cf_proposed f = [] \<or> attemptId = [] \<or> sessionId < 0 \<or> cf_cameraId f = [] \<or>
          cf_channelId f = [] \<or> cf_videoSourceToken f = [] \<or> cf_ruleName f = [] \<or>
          cf_objectId f = [] \<or> cf_expiresAt f \<le> 0
       then Inr (db, [])
       else case find (same_track attemptId f) (db_bindings db) of
           Some b \<Rightarrow>
             if bd_state b \<noteq> BsCommitted \<or> bd_sessionId b \<noteq> sessionId \<or>
                bd_slotId b \<noteq> sc_slotId command \<or> bd_channelId b \<noteq> cf_channelId f
             then Inl (Failure ''correlation track is already owned by another session or channel'')
             else try_bind (refresh_binding b f occurredMs db) (\<lambda>db'. Inr (db', bd_correlationId b))
         | None \<Rightarrow>
             try_bind (insert_binding command f attemptId sessionId occurredMs db) (\<lambda>db'.
               Inr (db', cf_proposed f)))"

section \<open>The three kinds of transition\<close>

text \<open>What a branch of the reducer decides: the next database and the fields of the outcome.\<close>

record Decision =
  de_db :: SlotDb
  de_code :: CommittedOccupancyCode
  de_sessionId :: int
  de_attemptId :: string
  de_generation :: int
  de_correlationId :: string
  de_message :: string

definition hall_occupied ::
  "'j payload_api \<Rightarrow> InboxRow \<Rightarrow> 'j \<Rightarrow> int \<Rightarrow> bool \<Rightarrow> Decision \<Rightarrow> db_error + Decision" where
  "hall_occupied api row payload occurredMs hybrid_or d =
     (let command = in_command row; db = de_db d in
      case find_active api db (sc_slotId command) of
        Some active \<Rightarrow>
          try_bind (update_hall_state (as_id active) True True db) (\<lambda>db1.
          try_bind (commit_sequence api command payload db1) (\<lambda>db2.
            Inr (d\<lparr>de_db := db2, de_code := CNoChange, de_sessionId := as_id active,
                  de_attemptId := as_attemptId active,
                  de_message := (if hybrid_or then ''active session confirmed by Hall sensor''
                                 else ''slot already has an active session'')\<rparr>)))
      | None \<Rightarrow>
          let attemptId = ''occupancy:'' @ sc_commandId command in
          try_bind (create_session command occurredMs attemptId ''HALL_OCCUPIED''
              (''hall sensor='' @ sc_sensorId command @ '' command='' @ sc_commandId command) db) (\<lambda>(db1, sessionId).
          try_bind (commit_sequence api command payload db1) (\<lambda>db2.
            Inr (d\<lparr>de_db := db2, de_code := CSessionStarted, de_sessionId := sessionId,
                  de_attemptId := attemptId, de_message := ''Hall session committed''\<rparr>))))"

definition hall_vacant ::
  "'j payload_api \<Rightarrow> InboxRow \<Rightarrow> 'j \<Rightarrow> int \<Rightarrow> bool \<Rightarrow> Decision \<Rightarrow> db_error + Decision" where
  "hall_vacant api row payload occurredMs hybrid_or d =
     (let command = in_command row; db = de_db d in
      case find_active api db (sc_slotId command) of
        None \<Rightarrow>
          let db1 = (case set_slot_status (sc_slotId command) ''VACANT'' (sc_occurredAt command) db of
                None \<Rightarrow> db | Some x \<Rightarrow> x) in
          try_bind (commit_sequence api command payload db1) (\<lambda>db2.
            Inr (d\<lparr>de_db := db2, de_code := CNoChange, de_message := ''slot already vacant''\<rparr>))
      | Some active \<Rightarrow>
          let d1 = d\<lparr>de_sessionId := as_id active, de_attemptId := as_attemptId active\<rparr> in
          if occurredMs < as_entryEpochMs active
          then Inr (d1\<lparr>de_code := CRejectedInvalidTimestamp,
                      de_message := ''VACANT timestamp precedes session entry''\<rparr>)
          else if hybrid_or \<and> \<not> as_hallConfirmed active
          then try_bind (commit_sequence api command payload db) (\<lambda>db1.
                 Inr (d1\<lparr>de_db := db1, de_code := CNoChange,
                       de_message := ''Hall VACANT ignored because Hall never confirmed this session''\<rparr>))
          else try_bind (update_hall_state (as_id active) (as_hallConfirmed active) False db) (\<lambda>db1.
            if hybrid_or \<and> as_ivaConfirmed active \<and> as_ivaOccupied active
            then try_bind (commit_sequence api command payload db1) (\<lambda>db2.
                   Inr (d1\<lparr>de_db := db2, de_code := CNoChange,
                         de_message := ''Hall VACANT recorded; active IVA still holds the session''\<rparr>))
            else try_bind (close_session command occurredMs active ''HALL_VACANT''
                   (''hall sensor='' @ sc_sensorId command @ '' command='' @ sc_commandId command) db1)
                   (\<lambda>(db2, closed).
                      if \<not> closed then Inl (Failure ''Hall close timestamp rejected'')
                      else try_bind (commit_sequence api command payload db2) (\<lambda>db3.
                        Inr (d1\<lparr>de_db := db3, de_code := CSessionEnded,
                              de_message := ''Hall session ended''\<rparr>)))))"

definition hall_transition ::
  "'j payload_api \<Rightarrow> InboxRow \<Rightarrow> 'j \<Rightarrow> int \<Rightarrow> bool \<Rightarrow> Decision \<Rightarrow> db_error + Decision" where
  "hall_transition api row payload occurredMs hybrid_or d =
     try_bind (json_result (pj_string api payload ''state'' [])) (\<lambda>state.
       if state \<noteq> ''OCCUPIED'' \<and> state \<noteq> ''VACANT''
       then Inl (InvalidArgument ''unsupported Hall state'')
       else try_bind (hallSequenceFact api (in_command row) payload) (\<lambda>fct.
         let decision = evaluateSensorSequence
               (loadHallSequenceState (de_db d) (sc_sensorId (in_command row))) fct in
         if \<not> accepted decision
         then Inr (d\<lparr>de_code := CNoChange,
                de_message := ''Hall command rejected before apply: '' @ snd decision\<rparr>)
         else if state = ''OCCUPIED'' then hall_occupied api row payload occurredMs hybrid_or d
         else hall_vacant api row payload occurredMs hybrid_or d))"

text \<open>
  \<open>areas[key]\<close> as an activity flag; an absent or null entry is stored as false and an array of
  object ids of an earlier version is reduced to whether it is empty.
\<close>

definition area_is_active ::
  "(string, AreaState) umap \<Rightarrow> string \<Rightarrow> db_error + ((string, AreaState) umap \<times> bool)" where
  "area_is_active areas key =
     (case um_find areas key of
        None \<Rightarrow> Inr (um_put key (AreaBool False) areas, False)
      | Some AreaNull \<Rightarrow> Inr (um_put key (AreaBool False) areas, False)
      | Some (AreaBool b) \<Rightarrow> Inr (areas, b)
      | Some (AreaArray n) \<Rightarrow> Inr (um_put key (AreaBool (n \<noteq> 0)) areas, n \<noteq> 0)
      | Some AreaOther \<Rightarrow> Inl (Failure ''camera area state has an invalid shape''))"

definition camera_intrusion ::
  "'j payload_api \<Rightarrow> InboxRow \<Rightarrow> 'j \<Rightarrow> int \<Rightarrow> bool \<Rightarrow> string \<Rightarrow> string option list \<Rightarrow>
     (string, AreaState) umap \<Rightarrow> ObservedState \<Rightarrow> Decision \<Rightarrow> db_error + Decision" where
  "camera_intrusion api row payload occurredMs hybrid_or area_key configured areas observed d =
     (let command = in_command row in
      try_bind (area_is_active areas area_key) (\<lambda>(areas1, was_active).
        let changed = (\<not> was_active);
            areas2 = um_put area_key (AreaBool True) areas1;
            generation = (if changed \<or> observed \<noteq> ObsOccupied then de_generation d + 1 else de_generation d);
            db1 = (de_db d)\<lparr>db_deadlines := update_rows
                (\<lambda>r. dl_slotId r = sc_slotId command \<and> dl_state r = DlScheduled)
                (\<lambda>r. r\<lparr>dl_state := DlSuperseded\<rparr>) (db_deadlines (de_db d))\<rparr> in
        try_bind
          (case find_active api db1 (sc_slotId command) of
             Some active \<Rightarrow>
               try_bind (update_iva_state (as_id active) True True db1) (\<lambda>db2.
                 Inr (db2, CNoChange, as_id active, as_attemptId active,
                   (if hybrid_or \<and> \<not> as_ivaConfirmed active
                    then ''active session confirmed by IVA intrusion''
                    else if changed then ''camera occupancy refreshed''
                    else ''duplicate camera intrusion'')))
           | None \<Rightarrow>
               let attemptId = ''occupancy:'' @ sc_commandId command in
               try_bind (create_session command occurredMs attemptId ''CAMERA_IVA_OCCUPIED''
                   (''area='' @ area_key @ '' command='' @ sc_commandId command) db1) (\<lambda>(db2, sessionId).
                 Inr (db2, CSessionStarted, sessionId, attemptId, ''camera occupancy session committed'')))
          (\<lambda>(db3, code, sessionId, attemptId, message).
            try_bind (persist_iva command attemptId (Some sessionId) generation ObsOccupied configured areas2 db3) (\<lambda>db4.
            try_bind (commit_correlation api command payload occurredMs attemptId sessionId db4) (\<lambda>(db5, correlationId).
              Inr (d\<lparr>de_db := db5, de_code := code, de_sessionId := sessionId, de_attemptId := attemptId,
                    de_generation := generation, de_correlationId := correlationId, de_message := message\<rparr>))))))"

text \<open>The scan of the configured areas after an exit: whether all are known, whether any is active.\<close>

fun scan_areas ::
  "string option list \<Rightarrow> (string, AreaState) umap \<Rightarrow> bool \<Rightarrow> bool \<Rightarrow>
     db_error + ((string, AreaState) umap \<times> bool \<times> bool)" where
  "scan_areas [] areas all_known any_active = Inr (areas, all_known, any_active)"
| "scan_areas (None # rest) areas all_known any_active = Inl (Failure ''configured area is not a string'')"
| "scan_areas (Some key # rest) areas all_known any_active =
     (if \<not> um_contains areas key then scan_areas rest areas False any_active
      else if any_active then scan_areas rest areas all_known True
      else try_bind (area_is_active areas key) (\<lambda>(areas', active).
             scan_areas rest areas' all_known active))"

definition exit_deadline_id :: "string \<Rightarrow> int \<Rightarrow> int \<Rightarrow> string" where
  "exit_deadline_id slotId generation sessionId =
     ''iva-exit:'' @ slotId @ '':'' @ to_string generation @ '':'' @ to_string sessionId"

definition deadline_live :: "string \<Rightarrow> DeadlineRow \<Rightarrow> bool" where
  "deadline_live slotId r \<longleftrightarrow> dl_slotId r = slotId \<and> (dl_state r = DlScheduled \<or> dl_state r = DlAdmitted)"

text \<open>The exit deadline of a slot: kept if one is live, else inserted under its own id.\<close>

definition schedule_exit ::
  "SlotTransitionCommand \<Rightarrow> ActiveSession \<Rightarrow> int \<Rightarrow> int \<Rightarrow> bool \<Rightarrow> SlotDb \<Rightarrow> db_error + SlotDb" where
  "schedule_exit command active generation dueAt hybrid_or db =
     (if list_ex (deadline_live (sc_slotId command)) (db_deadlines db) then Inr db
      else
        let deadlineId = exit_deadline_id (sc_slotId command) generation (as_id active) in
        if list_ex (\<lambda>r. dl_deadlineId r = deadlineId) (db_deadlines db) \<or>
           \<not> um_contains (db_slots db) (sc_slotId command)
        then Inl constraint_failed
        else Inr (db\<lparr>db_deadlines := db_deadlines db @
          [\<lparr>dl_deadlineId = deadlineId, dl_slotId = sc_slotId command, dl_attemptId = as_attemptId active,
            dl_expectedSession = as_id active, dl_generation = generation, dl_dueAt = dueAt,
            dl_policy = (if hybrid_or then ''HYBRID_OR'' else ''CAMERA_IVA''),
            dl_state = DlScheduled, dl_admittedCommand = None\<rparr>]\<rparr>))"

definition exit_wait_message :: "bool \<Rightarrow> bool \<Rightarrow> string" where
  "exit_wait_message all_known any_active =
     (if \<not> all_known then ''camera exit waits for all configured areas''
      else if any_active then ''another camera area remains active''
      else ''camera exit has no active session'')"

definition camera_exit ::
  "'j payload_api \<Rightarrow> InboxRow \<Rightarrow> 'j \<Rightarrow> bool \<Rightarrow> string \<Rightarrow> string option list \<Rightarrow>
     (string, AreaState) umap \<Rightarrow> ActiveSession option \<Rightarrow> Decision \<Rightarrow> db_error + Decision" where
  "camera_exit api row payload hybrid_or area_key configured areas active d =
     (let command = in_command row in
      try_bind (area_is_active areas area_key) (\<lambda>(areas1, changed).
        let areas2 = um_put area_key (AreaBool False) areas1;
            generation = (if changed then de_generation d + 1 else de_generation d) in
        try_bind (scan_areas configured areas2 True False) (\<lambda>(areas3, all_known, any_active).
          let waiting = exit_wait_message all_known any_active in
          case active of
            None \<Rightarrow>
              try_bind (persist_iva command [] None generation ObsVacant configured areas3 (de_db d)) (\<lambda>db1.
                Inr (d\<lparr>de_db := db1, de_code := CNoChange, de_sessionId := -1, de_attemptId := [],
                      de_generation := generation, de_message := waiting\<rparr>))
          | Some a \<Rightarrow>
              let d1 = d\<lparr>de_sessionId := as_id a, de_attemptId := as_attemptId a,
                    de_generation := generation\<rparr> in
              if \<not> all_known \<or> any_active
              then try_bind (persist_iva command (as_attemptId a) (Some (as_id a)) generation ObsOccupied
                       configured areas3 (de_db d)) (\<lambda>db1.
                     Inr (d1\<lparr>de_db := db1, de_code := CNoChange, de_message := waiting\<rparr>))
              else
                try_bind (if list_ex (deadline_live (sc_slotId command)) (db_deadlines (de_db d)) then Inr 0
                    else json_result (pj_int api payload ''deadline_due_at_epoch_ms'' (sc_dueAtEpochMs command))) (\<lambda>dueAt.
                try_bind (schedule_exit command a generation dueAt hybrid_or (de_db d)) (\<lambda>db1.
                try_bind (persist_iva command (as_attemptId a) (Some (as_id a)) generation ObsVacantPending
                     configured areas3 db1) (\<lambda>db2.
                  Inr (d1\<lparr>de_db := db2, de_code := CExitScheduled,
                        de_message := ''camera exit deadline committed''\<rparr>)))))))"

text \<open>A camera that has no occupancy authority only binds its track to an active Hall session.\<close>

definition camera_bind_only ::
  "'j payload_api \<Rightarrow> InboxRow \<Rightarrow> 'j \<Rightarrow> int \<Rightarrow> string \<Rightarrow> string \<Rightarrow> Decision \<Rightarrow> db_error + Decision" where
  "camera_bind_only api row payload occurredMs action objectId d =
     (if action \<noteq> ''INTRUSION'' \<or> objectId = []
      then Inl (InvalidArgument ''Hall correlation accepts exact INTRUSION only'')
      else case find_active api (de_db d) (sc_slotId (in_command row)) of
          None \<Rightarrow> Inr (d\<lparr>de_code := CNoChange,
                    de_message := ''camera observation has no active Hall occupancy''\<rparr>)
        | Some active \<Rightarrow>
            try_bind (commit_correlation api (in_command row) payload occurredMs (as_attemptId active)
                (as_id active) (de_db d)) (\<lambda>(db1, correlationId).
              Inr (d\<lparr>de_db := db1, de_code := CNoChange, de_sessionId := as_id active,
                    de_attemptId := as_attemptId active, de_correlationId := correlationId,
                    de_message := (if correlationId = [] then ''Hall correlation payload is incomplete''
                      else ''camera observation bound to active Hall occupancy'')\<rparr>)))"

definition load_iva ::
  "string \<Rightarrow> string option list \<Rightarrow> Decision \<Rightarrow> db_error + (Decision \<times> (string, AreaState) umap \<times> ObservedState)" where
  "load_iva slotId configured d =
     (case um_find (db_iva (de_db d)) slotId of
        None \<Rightarrow> Inr (d, [], ObsUnknown)
      | Some v \<Rightarrow>
          if iva_configured v \<noteq> configured
          then Inl (Failure ''camera area topology changed without migration'')
          else Inr (d\<lparr>de_attemptId := iva_attemptId v, de_generation := max 0 (iva_generation v)\<rparr>,
                    iva_areas v, iva_observed v))"

definition camera_dispatch ::
  "'j payload_api \<Rightarrow> InboxRow \<Rightarrow> 'j \<Rightarrow> int \<Rightarrow> bool \<Rightarrow> string \<Rightarrow> bool \<Rightarrow> string \<Rightarrow> string option list \<Rightarrow>
     (string, AreaState) umap \<Rightarrow> ObservedState \<Rightarrow> Decision \<Rightarrow> db_error + Decision" where
  "camera_dispatch api row payload occurredMs hybrid_or action authoritative_exit area_key configured
       areas observed d =
     (case (if action = ''EXIT'' then find_active api (de_db d) (sc_slotId (in_command row)) else None) of
        Some a \<Rightarrow>
          if occurredMs < as_entryEpochMs a
          then Inr (d\<lparr>de_code := CRejectedInvalidTimestamp, de_sessionId := as_id a,
                 de_attemptId := as_attemptId a,
                 de_message := ''camera EXIT timestamp precedes active session entry''\<rparr>)
          else if \<not> authoritative_exit
          then Inr (d\<lparr>de_code := CNoChange, de_message := ''camera action ignored by occupancy policy''\<rparr>)
          else camera_exit api row payload hybrid_or area_key configured areas (Some a) d
      | None \<Rightarrow>
          if action = ''ENTER'' \<or> (action = ''EXIT'' \<and> \<not> authoritative_exit)
          then Inr (d\<lparr>de_code := CNoChange, de_message := ''camera action ignored by occupancy policy''\<rparr>)
          else if action = ''INTRUSION''
          then camera_intrusion api row payload occurredMs hybrid_or area_key configured areas observed d
          else if action = ''EXIT''
          then camera_exit api row payload hybrid_or area_key configured areas None d
          else Inl (InvalidArgument ''unsupported camera action''))"

definition camera_transition ::
  "'j payload_api \<Rightarrow> InboxRow \<Rightarrow> 'j \<Rightarrow> int \<Rightarrow> bool \<Rightarrow> Decision \<Rightarrow> db_error + Decision" where
  "camera_transition api row payload occurredMs hybrid_or d =
     try_bind (json_result (pj_string api payload ''action'' [])) (\<lambda>action.
     try_bind (json_result (pj_bool api payload ''authoritative_exit'' True)) (\<lambda>authoritative_exit.
     try_bind (json_result (pj_bool api payload ''occupancy_authority'' True)) (\<lambda>occupancy_authority.
     try_bind (json_result (pj_string api payload ''area_key'' [])) (\<lambda>area_key.
     try_bind (json_result (pj_string api payload ''object_id'' [])) (\<lambda>objectId.
     try_bind (json_result (pj_areas api payload)) (\<lambda>areas.
       case areas of
         None \<Rightarrow> Inl (InvalidArgument ''camera area topology is missing'')
       | Some configured \<Rightarrow>
           if configured = [] \<or> area_key = []
           then Inl (InvalidArgument ''camera area topology is missing'')
           else if \<not> occupancy_authority
           then camera_bind_only api row payload occurredMs action objectId d
           else try_bind (load_iva (sc_slotId (in_command row)) configured d) (\<lambda>(d1, areas, observed).
                  camera_dispatch api row payload occurredMs hybrid_or action authoritative_exit
                    area_key configured areas observed d1)))))))"

definition deadline_apply ::
  "InboxRow \<Rightarrow> int \<Rightarrow> bool \<Rightarrow> string \<Rightarrow> ActiveSession \<Rightarrow> IvaRow \<Rightarrow> int \<Rightarrow> Decision \<Rightarrow> db_error + Decision" where
  "deadline_apply row occurredMs hybrid_or deadlineId active v generation d =
     (let command = in_command row in
      try_bind (update_iva_state (as_id active) (as_ivaConfirmed active) False (de_db d)) (\<lambda>db1.
        let db2 = db1\<lparr>db_deadlines := update_rows
                (\<lambda>r. dl_deadlineId r = deadlineId \<and> dl_state r = DlAdmitted)
                (\<lambda>r. r\<lparr>dl_state := DlApplied\<rparr>) (db_deadlines db1)\<rparr>;
            d1 = d\<lparr>de_sessionId := as_id active, de_attemptId := as_attemptId active,
                 de_generation := generation\<rparr> in
        if hybrid_or \<and> as_hallConfirmed active \<and> as_hallOccupied active
        then try_bind (persist_iva command (as_attemptId active) (Some (as_id active)) generation ObsVacant
                 (iva_configured v) (iva_areas v) db2) (\<lambda>db3.
               Inr (d1\<lparr>de_db := db3, de_code := CNoChange,
                     de_message := ''IVA VACANT recorded; active Hall sensor still holds the session''\<rparr>))
        else try_bind (close_session command occurredMs active ''CAMERA_IVA_VACANT''
                 (''deadline='' @ deadlineId @ '' command='' @ sc_commandId command) db2) (\<lambda>(db3, closed).
               if \<not> closed then Inl (Failure ''camera deadline timestamp rejected'')
               else try_bind (persist_iva command [] None generation ObsVacant
                      (iva_configured v) (iva_areas v) db3) (\<lambda>db4.
                 Inr (d1\<lparr>de_db := db4, de_code := CSessionEnded,
                       de_message := ''camera exit deadline applied''\<rparr>)))))"

definition deadline_stale :: "string \<Rightarrow> Decision \<Rightarrow> Decision" where
  "deadline_stale deadlineId d =
     d\<lparr>de_db := (de_db d)\<lparr>db_deadlines := update_rows
         (\<lambda>r. dl_deadlineId r = deadlineId \<and> dl_state r = DlAdmitted)
         (\<lambda>r. r\<lparr>dl_state := DlSuperseded\<rparr>) (db_deadlines (de_db d))\<rparr>,
       de_code := CStaleGeneration, de_message := ''exit deadline generation is stale''\<rparr>"

definition deadline_decide ::
  "'j payload_api \<Rightarrow> InboxRow \<Rightarrow> int \<Rightarrow> bool \<Rightarrow> string \<Rightarrow> int \<Rightarrow> int \<Rightarrow> string \<Rightarrow> Decision \<Rightarrow> db_error + Decision" where
  "deadline_decide api row occurredMs hybrid_or deadlineId expected_session expected_generation
       expected_attempt d =
     (let slotId = sc_slotId (in_command row); db = de_db d in
      if \<not> list_ex (\<lambda>r. dl_deadlineId r = deadlineId \<and> dl_state r = DlAdmitted \<and> dl_slotId r = slotId \<and>
            dl_attemptId r = expected_attempt \<and> dl_expectedSession r = expected_session \<and>
            dl_generation r = expected_generation) (db_deadlines db)
      then Inr (d\<lparr>de_code := CStaleGeneration, de_message := ''exit deadline no longer owns the slot''\<rparr>)
      else
        (case (um_find (db_iva db) slotId, find_active api db slotId) of
           (Some v, Some active) \<Rightarrow>
             if iva_attemptId v = expected_attempt \<and> iva_activeSession v = Some expected_session \<and>
                iva_generation v = expected_generation \<and> iva_observed v = ObsVacantPending \<and>
                as_id active = expected_session \<and> as_attemptId active = expected_attempt
             then deadline_apply row occurredMs hybrid_or deadlineId active v expected_generation d
             else Inr (deadline_stale deadlineId d)
         | _ \<Rightarrow> Inr (deadline_stale deadlineId d)))"

definition deadline_transition ::
  "'j payload_api \<Rightarrow> InboxRow \<Rightarrow> 'j \<Rightarrow> int \<Rightarrow> bool \<Rightarrow> Decision \<Rightarrow> db_error + Decision" where
  "deadline_transition api row payload occurredMs hybrid_or d =
     try_bind (json_result (pj_string api payload ''deadline_id'' [])) (\<lambda>deadlineId.
     try_bind (json_result (pj_int api payload ''expected_session_id'' (-1))) (\<lambda>expected_session.
     try_bind (json_result (pj_int api payload ''observation_generation'' 0)) (\<lambda>expected_generation.
     try_bind (json_result (pj_string api payload ''occupancy_attempt_id'' [])) (\<lambda>expected_attempt.
       deadline_decide api row occurredMs hybrid_or deadlineId expected_session expected_generation
         expected_attempt d))))"

section \<open>Applying a command\<close>

definition has_effect :: "CommittedOccupancyCode \<Rightarrow> bool" where
  "has_effect code \<longleftrightarrow> code = CSessionStarted \<or> code = CSessionEnded"

definition finish_row :: "Decision \<Rightarrow> InboxRow \<Rightarrow> InboxRow" where
  "finish_row d r =
     (let rejected = (de_code d = CRejectedInvalidTimestamp) in
      r\<lparr>in_status := (if rejected then RejectedInvalid else Applied),
        in_attemptId := de_attemptId d, in_correlationId := de_correlationId d,
        in_generation := de_generation d, in_resultCode := Some (de_code d),
        in_resultSession := (if de_sessionId d \<ge> 0 then Some (de_sessionId d) else None),
        in_lastError := (if rejected then de_message d else []),
        in_effectState := (if has_effect (de_code d) then EffectPending else EffectNone),
        in_effectAttemptCount := 0, in_effectNextAttempt := 0, in_effectLastError := []\<rparr>)"

definition finish_command :: "string \<Rightarrow> Decision \<Rightarrow> db_error + SlotDb" where
  "finish_command commandId d =
     (let p = (\<lambda>r. sc_commandId (in_command r) = commandId \<and> is_pending r) in
      if count_rows p (db_inbox (de_db d)) \<noteq> 1 then Inl (Failure ''occupancy inbox ownership changed'')
      else Inr ((de_db d)\<lparr>db_inbox := update_rows p (finish_row d) (db_inbox (de_db d))\<rparr>))"

definition reject_row :: "string \<Rightarrow> InboxRow \<Rightarrow> InboxRow" where
  "reject_row err r = r\<lparr>in_status := RejectedInvalid, in_resultCode := Some CRejectedInvalidTimestamp,
     in_lastError := err\<rparr>"

definition reduce_command ::
  "'j payload_api \<Rightarrow> InboxRow \<Rightarrow> 'j \<Rightarrow> SlotDb \<Rightarrow> db_error + Decision" where
  "reduce_command api row payload db =
     try_bind (json_result (pj_int api payload ''occurred_at_epoch_ms'' (sc_dueAtEpochMs (in_command row)))) (\<lambda>occurredMs.
     try_bind (json_result (pj_string api payload ''occupancy_policy'' [])) (\<lambda>policy.
       let hybrid_or = (policy = ''HYBRID_OR'');
           d = \<lparr>de_db = db, de_code = CRetryableFailure,
                de_sessionId = (case in_resultSession row of None \<Rightarrow> -1 | Some s \<Rightarrow> s),
                de_attemptId = in_attemptId row, de_generation = max 0 (in_generation row),
                de_correlationId = in_correlationId row, de_message = []\<rparr> in
       (case sc_kind (in_command row) of
          HallObservation \<Rightarrow> hall_transition api row payload occurredMs hybrid_or d
        | CameraObservation \<Rightarrow> camera_transition api row payload occurredMs hybrid_or d
        | ExitDeadline \<Rightarrow> deadline_transition api row payload occurredMs hybrid_or d)))"

definition row_outcome :: "InboxRow \<Rightarrow> CommittedOccupancyTransition" where
  "row_outcome row =
     (blank_outcome (sc_commandId (in_command row)))
     \<lparr>cot_code := (case in_resultCode row of None \<Rightarrow> CRetryableFailure | Some c \<Rightarrow> c),
      cot_sourceKind := sc_kind (in_command row), cot_slotId := sc_slotId (in_command row),
      cot_sensorId := sc_sensorId (in_command row), cot_occurredAt := sc_occurredAt (in_command row),
      cot_sessionId := (case in_resultSession row of None \<Rightarrow> -1 | Some s \<Rightarrow> s),
      cot_occupancyAttemptId := in_attemptId row, cot_correlationId := in_correlationId row,
      cot_observationGeneration := max 0 (in_generation row)\<rparr>"

text \<open>
  The fields of the outcome other than code and message that a failed transition leaves half-set
  are those of the row.
\<close>

definition apply_pending ::
  "'j payload_api \<Rightarrow> InboxRow \<Rightarrow> 'j \<Rightarrow> CommittedOccupancyTransition \<Rightarrow> SlotDb \<Rightarrow>
     SlotDb \<times> CommittedOccupancyTransition" where
  "apply_pending api row payload outcome db =
     (let commandId = sc_commandId (in_command row) in
      case try_bind (reduce_command api row payload db) (\<lambda>d.
             try_bind (finish_command commandId d) (\<lambda>db'. Inr (db', d))) of
        Inr (db', d) \<Rightarrow>
          (db', outcome\<lparr>cot_code := de_code d, cot_sessionId := de_sessionId d,
                 cot_occupancyAttemptId := de_attemptId d, cot_correlationId := de_correlationId d,
                 cot_observationGeneration := de_generation d, cot_message := de_message d\<rparr>)
      | Inl (InvalidArgument e) \<Rightarrow>
          (db\<lparr>db_inbox := update_rows (\<lambda>r. sc_commandId (in_command r) = commandId \<and> is_pending r)
                (reject_row e) (db_inbox db)\<rparr>,
           outcome\<lparr>cot_code := CRejectedInvalidTimestamp, cot_message := e\<rparr>)
      | Inl (Failure e) \<Rightarrow> (db, outcome\<lparr>cot_code := CRetryableFailure, cot_message := e\<rparr>))"

definition find_command :: "SlotDb \<Rightarrow> string \<Rightarrow> InboxRow option" where
  "find_command db commandId = find (\<lambda>r. sc_commandId (in_command r) = commandId) (db_inbox db)"

text \<open>The payload of a row with its transport and its time of occurrence.\<close>

definition read_payload ::
  "'j payload_api \<Rightarrow> InboxRow \<Rightarrow> int \<Rightarrow> string + ('j \<times> string \<times> int)" where
  "read_payload api row fallbackMs =
     try_bind (pj_parse api (sc_payloadJson (in_command row))) (\<lambda>payload.
     try_bind (pj_string api payload ''transport'' ''unknown'') (\<lambda>transport.
     try_bind (pj_int api payload ''occurred_at_epoch_ms'' fallbackMs) (\<lambda>ms.
       Inr (payload, transport, ms))))"

definition apply_row ::
  "'j payload_api \<Rightarrow> InboxRow \<Rightarrow> SlotDb \<Rightarrow> SlotDb \<times> CommittedOccupancyTransition" where
  "apply_row api row db =
     (case read_payload api row (sc_dueAtEpochMs (in_command row)) of
        Inl e \<Rightarrow>
          (db\<lparr>db_inbox := update_rows (\<lambda>r. sc_commandId (in_command r) = sc_commandId (in_command row))
                (reject_row (''invalid command JSON: '' @ e)) (db_inbox db)\<rparr>,
           (row_outcome row)\<lparr>cot_code := CRejectedInvalidTimestamp,
              cot_message := ''invalid command payload''\<rparr>)
      | Inr (payload, transport, ms) \<Rightarrow>
          let outcome = (row_outcome row)\<lparr>cot_sourceTransport := transport, cot_occurredAtEpochMs := ms\<rparr>;
              settled = outcome\<lparr>cot_code := (case in_resultCode row of None \<Rightarrow> CAlreadyApplied | Some c \<Rightarrow> c),
                 cot_message := ''transition already terminal''\<rparr> in
          (case in_status row of
             PendingPrepared \<Rightarrow> (db, outcome\<lparr>cot_message := ''committed transition awaiting effects''\<rparr>)
           | Applied \<Rightarrow> (db, settled)
           | RejectedInvalid \<Rightarrow> (db, settled)
           | PendingUnprepared \<Rightarrow> apply_pending api row payload outcome db))"

definition applySlotTransitionCommand ::
  "'j payload_api \<Rightarrow> bool \<Rightarrow> SlotDb \<Rightarrow> string \<Rightarrow> SlotDb \<times> CommittedOccupancyTransition" where
  "applySlotTransitionCommand api sqlite_ok db commandId =
     (if commandId = [] then (db, (blank_outcome commandId)\<lparr>cot_message := ''empty occupancy command id''\<rparr>)
      else if \<not> db_opened db
      then (db, (blank_outcome commandId)\<lparr>cot_message := ''occupancy database is closed''\<rparr>)
      else if \<not> sqlite_ok
      then (db, (blank_outcome commandId)\<lparr>cot_message := ''SQLite occupancy statement failed''\<rparr>)
      else case find_command db commandId of
          None \<Rightarrow> (db, (blank_outcome commandId)\<lparr>cot_message := ''occupancy command does not exist''\<rparr>)
        | Some row \<Rightarrow> apply_row api row db)"

section \<open>Effects\<close>

definition effect_pending :: "InboxRow \<Rightarrow> bool" where
  "effect_pending r \<longleftrightarrow> in_status r = Applied \<and> in_effectState r = EffectPending"

definition effect_listed :: "SlotDb \<Rightarrow> int \<Rightarrow> InboxRow \<Rightarrow> bool" where
  "effect_listed db now c \<longleftrightarrow> effect_pending c \<and> in_effectNextAttempt c \<le> now \<and>
     \<not> list_ex (\<lambda>e. sc_slotId (in_command e) = sc_slotId (in_command c) \<and> effect_pending e \<and>
          in_ordinal e < in_ordinal c) (db_inbox db)"

definition row_effect :: "'j payload_api \<Rightarrow> InboxRow \<Rightarrow> string + CommittedOccupancyTransition" where
  "row_effect api row =
     (case read_payload api row 0 of
        Inl e \<Rightarrow> Inl (''persisted occupancy effect payload is invalid: '' @ e)
      | Inr (_, transport, ms) \<Rightarrow>
          let effect = (row_outcome row)\<lparr>cot_sourceTransport := transport, cot_occurredAtEpochMs := ms\<rparr> in
          if \<not> has_effect (cot_code effect)
          then Inl ''pending occupancy effect has a non-effect result''
          else Inr effect)"

fun all_results :: "('e + 'a) list \<Rightarrow> 'e + 'a list" where
  "all_results [] = Inr []"
| "all_results (r # rs) = try_bind r (\<lambda>x. try_bind (all_results rs) (\<lambda>xs. Inr (x # xs)))"

definition listPendingSlotTransitionEffects ::
  "'j payload_api \<Rightarrow> SlotDb \<Rightarrow> int \<Rightarrow> string + CommittedOccupancyTransition list" where
  "listPendingSlotTransitionEffects api db now =
     (if \<not> db_opened db then Inr []
      else all_results (map (row_effect api)
        (sort_by (\<lambda>a b. in_ordinal a \<le> in_ordinal b) (filter (effect_listed db now) (db_inbox db)))))"

definition completeSlotTransitionEffects :: "SlotDb \<Rightarrow> string \<Rightarrow> SlotDb \<times> bool" where
  "completeSlotTransitionEffects db commandId =
     (if commandId = [] \<or> \<not> db_opened db then (db, False)
      else
        let p = (\<lambda>r. sc_commandId (in_command r) = commandId \<and> effect_pending r) in
        (db\<lparr>db_inbox := update_rows p (\<lambda>r. r\<lparr>in_effectState := EffectApplied, in_effectNextAttempt := 0,
             in_effectLastError := []\<rparr>) (db_inbox db)\<rparr>, count_rows p (db_inbox db) = 1))"

definition deferSlotTransitionEffects ::
  "bool \<Rightarrow> SlotDb \<Rightarrow> string \<Rightarrow> int \<Rightarrow> string \<Rightarrow> SlotDb \<times> bool" where
  "deferSlotTransitionEffects sqlite_ok db commandId nextAttempt err =
     (if \<not> db_opened db \<or> commandId = [] \<or> \<not> sqlite_ok then (db, False)
      else
        let p = (\<lambda>r. sc_commandId (in_command r) = commandId \<and> effect_pending r) in
        (db\<lparr>db_inbox := update_rows p (\<lambda>r. r\<lparr>in_effectAttemptCount := in_effectAttemptCount r + 1,
             in_effectNextAttempt := nextAttempt, in_effectLastError := err\<rparr>) (db_inbox db)\<rparr>,
         count_rows p (db_inbox db) = 1))"

definition pendingSlotTransitionEffectCount :: "SlotDb \<Rightarrow> nat" where
  "pendingSlotTransitionEffectCount db =
     (if \<not> db_opened db then 0 else count_rows effect_pending (db_inbox db))"

definition pendingSlotTransitionDrainCount :: "SlotDb \<Rightarrow> int \<Rightarrow> string + nat" where
  "pendingSlotTransitionDrainCount db cutoff =
     (if \<not> db_opened db then Inl ''occupancy drain count requires an open DB''
      else Inr (count_rows (\<lambda>r. is_pending r \<and> sc_dueAtEpochMs (in_command r) \<le> cutoff) (db_inbox db) +
                count_rows effect_pending (db_inbox db) +
                count_rows (deadline_due cutoff) (db_deadlines db)))"

text \<open>\<open>created_at\<close> is in seconds; the batch is the settled rows of least ordinal.\<close>

definition settled_before :: "int \<Rightarrow> InboxRow \<Rightarrow> bool" where
  "settled_before createdBeforeMs r \<longleftrightarrow> in_status r = Applied \<and> in_effectState r \<noteq> EffectPending \<and>
     in_createdAt r <
       (if createdBeforeMs < 0 then - (- createdBeforeMs div 1000) else createdBeforeMs div 1000)"

definition purgeSettledSlotTransitionCommands ::
  "bool \<Rightarrow> SlotDb \<Rightarrow> int \<Rightarrow> nat \<Rightarrow> SlotDb \<times> nat" where
  "purgeSettledSlotTransitionCommands sqlite_ok db createdBeforeMs batchLimit =
     (if batchLimit = 0 \<or> \<not> db_opened db \<or> \<not> sqlite_ok then (db, 0)
      else
        let batch = take batchLimit (sort_by (\<lambda>a b. in_ordinal a \<le> in_ordinal b)
              (filter (settled_before createdBeforeMs) (db_inbox db)));
            ids = map (\<lambda>r. sc_commandId (in_command r)) batch;
            gone = (\<lambda>r. sc_commandId (in_command r) \<in> set ids) in
        (db\<lparr>db_inbox := filter (\<lambda>r. \<not> gone r) (db_inbox db)\<rparr>, count_rows gone (db_inbox db)))"

end
