(* ===== verification/OccupancyLaws.thy ===== *)
theory OccupancyLaws
  imports OccupancyStore
begin

text \<open>
  Laws of the occupancy store. The invariant \<open>store_ok\<close>: command ids, source identities and admission
  ordinals are unique, a slot has at most one open session, a slot has at most one live exit deadline.
  The predicate \<open>decides\<close> says for every branch of the reducer what its result code means for the
  occupancy of the slot; the properties of applying and admitting a command rest on it.
\<close>

section \<open>Invariant of the store\<close>

definition open_rows :: "SlotDb \<Rightarrow> string \<Rightarrow> SessionRow list" where
  "open_rows db slotId = filter (\<lambda>r. ps_slotId r = slotId \<and> session_open r) (db_sessions db)"

text \<open>The sessions that occupy a slot, as ids.\<close>

definition occ :: "SlotDb \<Rightarrow> string \<Rightarrow> int list" where
  "occ db slotId = map ps_sessionId (open_rows db slotId)"

definition session_ids :: "SlotDb \<Rightarrow> int list" where
  "session_ids db = map ps_sessionId (db_sessions db)"

definition sessions_ok :: "SlotDb \<Rightarrow> bool" where
  "sessions_ok db \<longleftrightarrow> distinct (session_ids db) \<and>
     (\<forall>n \<in> set (session_ids db). 0 \<le> n \<and> n < db_nextSession db) \<and> 0 \<le> db_nextSession db \<and>
     (\<forall>slotId. length (occ db slotId) \<le> 1)"

definition deadlines_ok :: "SlotDb \<Rightarrow> bool" where
  "deadlines_ok db \<longleftrightarrow> distinct (map dl_deadlineId (db_deadlines db)) \<and>
     (\<forall>slotId. length (filter (deadline_live slotId) (db_deadlines db)) \<le> 1)"

definition row_key :: "InboxRow \<Rightarrow> SlotCommandKind \<times> string" where
  "row_key r = (sc_kind (in_command r), sc_sourceIdentity (in_command r))"

definition row_id :: "InboxRow \<Rightarrow> string" where
  "row_id r = sc_commandId (in_command r)"

definition inbox_ok :: "InboxRow list \<Rightarrow> bool" where
  "inbox_ok rows \<longleftrightarrow> distinct (map row_id rows) \<and> distinct (map row_key rows) \<and>
     distinct (map in_ordinal rows)"

definition store_ok :: "SlotDb \<Rightarrow> bool" where
  "store_ok db \<longleftrightarrow> inbox_ok (db_inbox db) \<and> sessions_ok db \<and> deadlines_ok db"

section \<open>Steps that leave the occupancy alone\<close>

definition quiet :: "SlotDb \<Rightarrow> SlotDb \<Rightarrow> bool" where
  "quiet db db' \<longleftrightarrow> db_inbox db' = db_inbox db \<and> db_opened db' = db_opened db \<and>
     db_nextSession db' = db_nextSession db \<and> session_ids db' = session_ids db \<and>
     occ db' = occ db \<and> (deadlines_ok db \<longrightarrow> deadlines_ok db')"

lemma quiet_refl [simp, intro]: "quiet db db"
  by (simp add: quiet_def)

lemma quiet_trans [trans]: "quiet a b \<Longrightarrow> quiet b c \<Longrightarrow> quiet a c"
  by (simp add: quiet_def)

lemma quiet_sessions_ok: "quiet db db' \<Longrightarrow> sessions_ok db \<Longrightarrow> sessions_ok db'"
  by (simp add: quiet_def sessions_ok_def)

lemma quiet_other_tables [simp, intro]:
  "quiet db (db\<lparr>db_slots := a\<rparr>)" "quiet db (db\<lparr>db_iva := b\<rparr>)" "quiet db (db\<lparr>db_bindings := c\<rparr>)"
  "quiet db (db\<lparr>db_sequences := d\<rparr>)" "quiet db (db\<lparr>db_retired := e\<rparr>)" "quiet db (db\<lparr>db_eventLog := f\<rparr>)"
  by (simp_all add: quiet_def occ_def open_rows_def session_ids_def deadlines_ok_def fun_eq_iff)

lemma quiet_session_flags:
  assumes "\<And>r. ps_sessionId (f r) = ps_sessionId r \<and> ps_slotId (f r) = ps_slotId r \<and>
    session_open (f r) = session_open r"
  shows "quiet db (db\<lparr>db_sessions := update_rows p f (db_sessions db)\<rparr>)"
  using assms
  by (auto simp: quiet_def occ_def open_rows_def session_ids_def deadlines_ok_def fun_eq_iff
      update_rows_map update_rows_filter)

lemma quiet_update_hall: "update_hall_state n c q db = Inr db' \<Longrightarrow> quiet db db'"
  by (auto simp: update_hall_state_def Let_def session_open_def split: if_splits
      intro!: quiet_session_flags)

lemma quiet_update_iva: "update_iva_state n c q db = Inr db' \<Longrightarrow> quiet db db'"
  by (auto simp: update_iva_state_def Let_def session_open_def split: if_splits
      intro!: quiet_session_flags)

lemma quiet_slot_status: "set_slot_status s st t db = Some db' \<Longrightarrow> quiet db db'"
  by (auto simp: set_slot_status_def split: if_splits)

lemma quiet_log [simp, intro]: "quiet db (log_event n s e m db)"
  by (simp add: log_event_def)

lemma quiet_commit_sequence: "commit_sequence api c pl db = Inr db' \<Longrightarrow> quiet db db'"
  by (auto simp: commit_sequence_def Let_def split: option.splits if_splits
      intro: quiet_trans [OF quiet_other_tables(5) quiet_other_tables(4)])

lemma quiet_persist_iva: "persist_iva c a s g st cf ar db = Inr db' \<Longrightarrow> quiet db db'"
  by (auto simp: persist_iva_def split: if_splits)

lemma quiet_commit_correlation: "commit_correlation api c pl t a s db = Inr (db', i) \<Longrightarrow> quiet db db'"
  by (auto simp: commit_correlation_def refresh_binding_def insert_binding_def Let_def
      split: option.splits if_splits)

lemma deadlines_ok_supersede:
  assumes "deadlines_ok db"
    and "\<And>r. dl_deadlineId (f r) = dl_deadlineId r \<and> (\<forall>s. deadline_live s (f r) \<longrightarrow> deadline_live s r)"
  shows "deadlines_ok (db\<lparr>db_deadlines := update_rows p f (db_deadlines db)\<rparr>)"
proof -
  have "length (filter q (update_rows p f rows)) \<le> length (filter q rows)"
    if "\<And>r. q (f r) \<Longrightarrow> q r" for q rows
    using that by (induction rows) (auto simp: update_rows_def le_SucI)
  from this [of "deadline_live _" "db_deadlines db"] assms show ?thesis
    by (simp add: deadlines_ok_def update_rows_map) (meson le_trans)
qed

lemma quiet_deadline_update:
  assumes "\<And>r. dl_deadlineId (f r) = dl_deadlineId r \<and> (\<forall>s. deadline_live s (f r) \<longrightarrow> deadline_live s r)"
  shows "quiet db (db\<lparr>db_deadlines := update_rows p f (db_deadlines db)\<rparr>)"
  using deadlines_ok_supersede [OF _ assms, of db p]
  by (simp add: quiet_def occ_def open_rows_def session_ids_def fun_eq_iff)

lemma quiet_supersede [simp, intro]:
  "quiet db (db\<lparr>db_deadlines := update_rows p (\<lambda>r. r\<lparr>dl_state := DlSuperseded\<rparr>) (db_deadlines db)\<rparr>)"
  "quiet db (db\<lparr>db_deadlines := update_rows p (\<lambda>r. r\<lparr>dl_state := DlApplied\<rparr>) (db_deadlines db)\<rparr>)"
  by (rule quiet_deadline_update, simp add: deadline_live_def)+

lemma quiet_schedule_exit: "schedule_exit c a g t h db = Inr db' \<Longrightarrow> quiet db db'"
  by (auto simp: schedule_exit_def Let_def quiet_def occ_def open_rows_def session_ids_def fun_eq_iff
      deadlines_ok_def list_ex_iff filter_empty_conv deadline_live_def split: if_splits) blast+

section \<open>Sessions that start and end\<close>

lemma find_active_None: "find_active api db slotId = None \<longleftrightarrow> occ db slotId = []"
  by (simp add: find_active_def occ_def open_rows_def)

lemma find_active_Some:
  assumes "find_active api db slotId = Some a" and "sessions_ok db"
  shows "occ db slotId = [as_id a]"
proof -
  obtain r where r: "least_by (\<lambda>r. - ps_sessionId r) (open_rows db slotId) = Some r" "as_id a = ps_sessionId r"
    using assms(1) by (auto simp: find_active_def open_rows_def)
  from least_by_mem [OF r(1)] have "as_id a \<in> set (occ db slotId)"
    by (auto simp: occ_def r(2))
  moreover have "length (occ db slotId) \<le> 1" using assms(2) by (simp add: sessions_ok_def)
  ultimately show ?thesis by (cases "occ db slotId") auto
qed

lemma occ_ids: "n \<in> set (occ db slotId) \<Longrightarrow> n \<in> set (session_ids db)"
  by (auto simp: occ_def open_rows_def session_ids_def)

text \<open>\<open>started\<close> and \<open>ended\<close>: the change of the occupancy by a session that starts or ends in a slot.\<close>

definition started :: "string \<Rightarrow> int \<Rightarrow> SlotDb \<Rightarrow> SlotDb \<Rightarrow> bool" where
  "started slotId n db db' \<longleftrightarrow> db_inbox db' = db_inbox db \<and> db_opened db' = db_opened db \<and>
     n = db_nextSession db \<and> db_nextSession db' = n + 1 \<and> session_ids db' = session_ids db @ [n] \<and>
     occ db slotId = [] \<and> occ db' = (occ db)(slotId := [n]) \<and> (deadlines_ok db \<longrightarrow> deadlines_ok db')"

definition ended :: "string \<Rightarrow> int \<Rightarrow> SlotDb \<Rightarrow> SlotDb \<Rightarrow> bool" where
  "ended slotId n db db' \<longleftrightarrow> db_inbox db' = db_inbox db \<and> db_opened db' = db_opened db \<and>
     db_nextSession db' = db_nextSession db \<and> session_ids db' = session_ids db \<and>
     occ db slotId = [n] \<and> occ db' = (occ db)(slotId := []) \<and> (deadlines_ok db \<longrightarrow> deadlines_ok db')"

lemma started_quiet: "quiet a b \<Longrightarrow> started s n b c \<Longrightarrow> started s n a c"
  "started s n a b \<Longrightarrow> quiet b c \<Longrightarrow> started s n a c"
  by (simp_all add: quiet_def started_def)

lemma ended_quiet: "quiet a b \<Longrightarrow> ended s n b c \<Longrightarrow> ended s n a c"
  "ended s n a b \<Longrightarrow> quiet b c \<Longrightarrow> ended s n a c"
  by (simp_all add: quiet_def ended_def)

lemma started_sessions_ok: "started s n db db' \<Longrightarrow> sessions_ok db \<Longrightarrow> sessions_ok db'"
  by (fastforce simp: started_def sessions_ok_def)

lemma ended_sessions_ok: "ended s n db db' \<Longrightarrow> sessions_ok db \<Longrightarrow> sessions_ok db'"
  by (auto simp: ended_def sessions_ok_def)

lemma create_session_started:
  assumes "create_session c t a ev m db = Inr (db', n)"
  shows "started (sc_slotId c) n db db'"
proof -
  have "filter (\<lambda>r. ps_slotId r = sc_slotId c \<and> session_open r) (db_sessions db) = []"
    using assms
    by (auto simp: create_session_def set_slot_status_def Let_def list_ex_iff filter_empty_conv
        split: option.splits if_splits)
  then show ?thesis
    using assms
    by (auto simp: create_session_def set_slot_status_def Let_def log_event_def started_def
        session_ids_def occ_def open_rows_def deadlines_ok_def session_open_def fun_eq_iff
        split: option.splits if_splits)
qed

lemma close_session_ended:
  assumes close: "close_session c t a ev m db = Inr (db', True)" and ok: "sessions_ok db"
    and active: "occ db (sc_slotId c) = [as_id a]"
  shows "ended (sc_slotId c) (as_id a) db db'"
proof -
  let ?owned = "close_owned (sc_slotId c) a"
  let ?f = "end_session_row c t a"
  let ?db1 = "db\<lparr>db_sessions := update_rows ?owned ?f (db_sessions db)\<rparr>"
  have cnt: "count_rows ?owned (db_sessions db) = 1" and q: "quiet ?db1 db'"
    using close
    by (auto simp: close_session_def set_slot_status_def Let_def log_event_def quiet_def occ_def
        open_rows_def session_ids_def deadlines_ok_def fun_eq_iff split: option.splits if_splits)
  have ids: "session_ids ?db1 = session_ids db"
    by (simp add: session_ids_def update_rows_map end_session_row_def)
  have closed: "\<not> session_open (?f r)" for r by (simp add: end_session_row_def session_open_def)
  have other: "occ ?db1 s = occ db s" if "s \<noteq> sc_slotId c" for s
  proof -
    have "filter (\<lambda>r. ps_slotId r = s \<and> session_open r) (update_rows ?owned ?f rows) =
        filter (\<lambda>r. ps_slotId r = s \<and> session_open r) rows" for rows
      using that closed
      by (induction rows) (auto simp: update_rows_def close_owned_def end_session_row_def session_open_def)
    then show ?thesis by (simp add: occ_def open_rows_def)
  qed
  have "\<exists>r \<in> set (db_sessions db). ?owned r"
  proof (rule ccontr)
    assume "\<not> ?thesis"
    then have "filter ?owned (db_sessions db) = []" by (simp add: filter_empty_conv)
    with cnt show False by (simp add: count_rows_def)
  qed
  then obtain r where r: "r \<in> set (db_sessions db)" "?owned r" by blast
  obtain r0 where r0: "open_rows db (sc_slotId c) = [r0]" "ps_sessionId r0 = as_id a"
    using active by (auto simp: occ_def)
  have only: "?owned x" if "x \<in> set (db_sessions db)" "ps_slotId x = sc_slotId c" "session_open x" for x
  proof -
    have "x \<in> set (open_rows db (sc_slotId c))" "r \<in> set (open_rows db (sc_slotId c))"
      using that r by (auto simp: open_rows_def close_owned_def)
    with r0 r(2) show ?thesis by simp
  qed
  have "occ ?db1 (sc_slotId c) = []"
    using only closed by (auto simp: occ_def open_rows_def filter_empty_conv update_rows_def)
  with other have "occ ?db1 = (occ db)(sc_slotId c := [])" by auto
  moreover have "deadlines_ok ?db1 = deadlines_ok db" by (simp add: deadlines_ok_def)
  ultimately have "ended (sc_slotId c) (as_id a) db ?db1"
    using ids active by (simp add: ended_def)
  then show ?thesis using q by (rule ended_quiet(2))
qed


section \<open>What a transition decides\<close>

text \<open>
  The reported code says what happened to the slot: started and ended sessions are the ones
  reported, every other code leaves the occupancy as it was, and a rejection leaves all tables.
\<close>

definition decides :: "string \<Rightarrow> SlotDb \<Rightarrow> Decision \<Rightarrow> bool" where
  "decides slotId db d \<longleftrightarrow>
     (de_code d = CSessionStarted \<and> started slotId (de_sessionId d) db (de_db d)) \<or>
     (de_code d = CSessionEnded \<and> ended slotId (de_sessionId d) db (de_db d)) \<or>
     (\<not> has_effect (de_code d) \<and> de_code d \<noteq> CRetryableFailure \<and> quiet db (de_db d) \<and>
      (de_code d = CRejectedInvalidTimestamp \<longrightarrow> de_db d = db))"

lemma decides_quiet:
  "quiet db (de_db d) \<Longrightarrow> de_code d \<in> {CNoChange, CExitScheduled, CStaleGeneration} \<Longrightarrow> decides slotId db d"
  by (auto simp: decides_def has_effect_def)

lemma decides_hall_occupied:
  assumes "hall_occupied api row pl t h d = Inr d'"
  shows "decides (sc_slotId (in_command row)) (de_db d) d'"
proof (cases "find_active api (de_db d) (sc_slotId (in_command row))")
  case None
  with assms show ?thesis
    by (auto simp: hall_occupied_def Let_def decides_def dest!: create_session_started quiet_commit_sequence
        intro: started_quiet)
next
  case (Some a)
  with assms show ?thesis
    by (auto simp: hall_occupied_def Let_def intro!: decides_quiet
        dest!: quiet_update_hall quiet_commit_sequence intro: quiet_trans)
qed

lemma decides_hall_vacant:
  assumes "hall_vacant api row pl t h d = Inr d'" and ok: "sessions_ok (de_db d)"
  shows "decides (sc_slotId (in_command row)) (de_db d) d'"
proof (cases "find_active api (de_db d) (sc_slotId (in_command row))")
  case None
  with assms(1) show ?thesis
    by (auto simp: hall_vacant_def Let_def intro!: decides_quiet
        dest!: quiet_commit_sequence quiet_slot_status intro: quiet_trans split: option.splits)
next
  case (Some a)
  let ?c = "in_command row"
  have occ: "occ (de_db d) (sc_slotId ?c) = [as_id a]" using Some ok by (rule find_active_Some)
  consider (rejected) "t < as_entryEpochMs a" | (ignored) "\<not> t < as_entryEpochMs a" "h \<and> \<not> as_hallConfirmed a"
    | (held) "\<not> t < as_entryEpochMs a" "\<not> (h \<and> \<not> as_hallConfirmed a)" "h \<and> as_ivaConfirmed a \<and> as_ivaOccupied a"
    | (closing) "\<not> t < as_entryEpochMs a" "\<not> (h \<and> \<not> as_hallConfirmed a)" "\<not> (h \<and> as_ivaConfirmed a \<and> as_ivaOccupied a)"
    by blast
  then show ?thesis
  proof cases
    case rejected
    with Some assms(1) show ?thesis by (auto simp: hall_vacant_def Let_def decides_def has_effect_def)
  next
    case ignored
    with Some assms(1) show ?thesis
      by (auto simp: hall_vacant_def Let_def intro!: decides_quiet dest!: quiet_commit_sequence)
  next
    case held
    with Some assms(1) show ?thesis
      by (auto simp: hall_vacant_def Let_def intro!: decides_quiet
          dest!: quiet_update_hall quiet_commit_sequence intro: quiet_trans)
  next
    case closing
    with Some assms(1) obtain db1 db2 where
      u: "update_hall_state (as_id a) (as_hallConfirmed a) False (de_db d) = Inr db1"
      and c: "close_session ?c t a ''HALL_VACANT'' (''hall sensor='' @ sc_sensorId ?c @ '' command='' @ sc_commandId ?c) db1 = Inr (db2, True)"
      and s: "commit_sequence api ?c pl db2 = Inr (de_db d')"
      and code: "de_code d' = CSessionEnded" "de_sessionId d' = as_id a"
      by (auto simp: hall_vacant_def Let_def split: if_splits)
    have q: "quiet (de_db d) db1" using u by (rule quiet_update_hall)
    have "ended (sc_slotId ?c) (as_id a) db1 db2"
      using close_session_ended [OF c quiet_sessions_ok [OF q ok]] q occ by (simp add: quiet_def)
    with q quiet_commit_sequence [OF s] have "ended (sc_slotId ?c) (as_id a) (de_db d) (de_db d')"
      using ended_quiet by blast
    with code show ?thesis by (simp add: decides_def)
  qed
qed

lemma decides_hall:
  assumes "hall_transition api row pl t h d = Inr d'" and "sessions_ok (de_db d)"
  shows "decides (sc_slotId (in_command row)) (de_db d) d'"
proof -
  have "(de_code d' = CNoChange \<and> de_db d' = de_db d) \<or> hall_occupied api row pl t h d = Inr d' \<or>
      hall_vacant api row pl t h d = Inr d'"
    using assms(1) by (auto simp: hall_transition_def Let_def split: if_splits)
  then show ?thesis
    using decides_hall_occupied decides_hall_vacant [OF _ assms(2)] decides_quiet [of "de_db d" d']
    by (elim disjE) simp_all
qed

lemma decides_intrusion:
  assumes "camera_intrusion api row pl t h key cfg areas obs d = Inr d'"
  shows "decides (sc_slotId (in_command row)) (de_db d) d'"
proof -
  let ?c = "in_command row"
  let ?db1 = "(de_db d)\<lparr>db_deadlines := update_rows
                (\<lambda>r. dl_slotId r = sc_slotId ?c \<and> dl_state r = DlScheduled)
                (\<lambda>r. r\<lparr>dl_state := DlSuperseded\<rparr>) (db_deadlines (de_db d))\<rparr>"
  have q1: "quiet (de_db d) ?db1" by simp
  show ?thesis
  proof (cases "find_active api ?db1 (sc_slotId ?c)")
    case None
    with assms obtain ar db2 db3 n g ci m where
      "create_session ?c t (''occupancy:'' @ sc_commandId ?c) ''CAMERA_IVA_OCCUPIED'' m ?db1 = Inr (db2, n)"
      "persist_iva ?c (''occupancy:'' @ sc_commandId ?c) (Some n) g ObsOccupied cfg ar db2 = Inr db3"
      "commit_correlation api ?c pl t (''occupancy:'' @ sc_commandId ?c) n db3 = Inr (de_db d', ci)"
      "de_code d' = CSessionStarted" "de_sessionId d' = n"
      by (auto simp: camera_intrusion_def Let_def)
    then have "started (sc_slotId ?c) n (de_db d) (de_db d')"
      using create_session_started quiet_persist_iva quiet_commit_correlation q1 started_quiet by meson
    with \<open>de_code d' = _\<close> \<open>de_sessionId d' = _\<close> show ?thesis by (simp add: decides_def)
  next
    case (Some a)
    with assms obtain ar db2 db3 g ci where
      "update_iva_state (as_id a) True True ?db1 = Inr db2"
      "persist_iva ?c (as_attemptId a) (Some (as_id a)) g ObsOccupied cfg ar db2 = Inr db3"
      "commit_correlation api ?c pl t (as_attemptId a) (as_id a) db3 = Inr (de_db d', ci)"
      "de_code d' = CNoChange"
      by (auto simp: camera_intrusion_def Let_def)
    then have "quiet (de_db d) (de_db d')"
      using quiet_update_iva quiet_persist_iva quiet_commit_correlation q1 quiet_trans by meson
    with \<open>de_code d' = _\<close> show ?thesis by (auto intro: decides_quiet)
  qed
qed

lemma decides_exit:
  assumes "camera_exit api row pl h key cfg areas a d = Inr d'"
  shows "decides (sc_slotId (in_command row)) (de_db d) d'"
proof -
  have "(de_code d' = CNoChange \<or> de_code d' = CExitScheduled) \<and> quiet (de_db d) (de_db d')"
  proof (cases a)
    case None
    with assms show ?thesis
      by (auto simp: camera_exit_def Let_def dest!: quiet_persist_iva)
  next
    case (Some b)
    obtain areas1 changed where 1: "area_is_active areas key = Inr (areas1, changed)"
      using assms by (auto simp: camera_exit_def Let_def)
    obtain areas3 ak aa where 2: "scan_areas cfg (um_put key (AreaBool False) areas1) True False = Inr (areas3, ak, aa)"
      using assms 1 by (auto simp: camera_exit_def Let_def)
    let ?c = "in_command row"
    let ?g = "if changed then de_generation d + 1 else de_generation d"
    show ?thesis
    proof (cases "\<not> ak \<or> aa")
      case True
      then have "persist_iva ?c (as_attemptId b) (Some (as_id b)) ?g ObsOccupied cfg areas3 (de_db d) = Inr (de_db d')"
        and "de_code d' = CNoChange"
        using assms Some 1 2 by (auto simp: camera_exit_def Let_def)
      then show ?thesis using quiet_persist_iva by blast
    next
      case False
      then obtain due db1 where
        "schedule_exit ?c b ?g due h (de_db d) = Inr db1"
        "persist_iva ?c (as_attemptId b) (Some (as_id b)) ?g ObsVacantPending cfg areas3 db1 = Inr (de_db d')"
        "de_code d' = CExitScheduled"
        using assms Some 1 2 by (auto simp: camera_exit_def Let_def)
      then show ?thesis using quiet_persist_iva quiet_schedule_exit quiet_trans by blast
    qed
  qed
  then show ?thesis by (auto intro!: decides_quiet)
qed


lemma decides_unchanged:
  "de_db d = db \<Longrightarrow> de_code d \<in> {CNoChange, CStaleGeneration, CRejectedInvalidTimestamp} \<Longrightarrow> decides slotId db d"
  by (auto simp: decides_def has_effect_def)

lemma decides_bind_only:
  assumes "camera_bind_only api row pl t act obj d = Inr d'"
  shows "decides (sc_slotId (in_command row)) (de_db d) d'"
proof (cases "find_active api (de_db d) (sc_slotId (in_command row))")
  case None
  with assms show ?thesis
    by (auto simp: camera_bind_only_def intro!: decides_unchanged split: if_splits)
next
  case (Some a)
  with assms obtain db1 ci where
    "commit_correlation api (in_command row) pl t (as_attemptId a) (as_id a) (de_db d) = Inr (db1, ci)"
    "de_db d' = db1" "de_code d' = CNoChange"
    by (auto simp: camera_bind_only_def split: if_splits)
  then show ?thesis using quiet_commit_correlation by (auto intro!: decides_quiet)
qed

lemma load_iva_db: "load_iva s cfg d = Inr (d1, ar, ob) \<Longrightarrow> de_db d1 = de_db d"
  by (auto simp: load_iva_def split: option.splits if_splits)

lemma decides_dispatch:
  assumes "camera_dispatch api row pl t h act ae key cfg areas obs d = Inr d'"
  shows "decides (sc_slotId (in_command row)) (de_db d) d'"
proof (cases "if act = ''EXIT'' then find_active api (de_db d) (sc_slotId (in_command row)) else None")
  case None
  with assms consider "d' = d\<lparr>de_code := CNoChange, de_message := ''camera action ignored by occupancy policy''\<rparr>"
    | "camera_intrusion api row pl t h key cfg areas obs d = Inr d'"
    | "camera_exit api row pl h key cfg areas None d = Inr d'"
    unfolding camera_dispatch_def None option.case
    by (metis Inr_inject Inl_Inr_False)
  then show ?thesis
    by cases (simp_all add: decides_unchanged decides_intrusion decides_exit)
next
  case (Some a)
  with assms consider "de_db d' = de_db d" "de_code d' \<in> {CNoChange, CRejectedInvalidTimestamp}"
    | "camera_exit api row pl h key cfg areas (Some a) d = Inr d'"
    unfolding camera_dispatch_def Some option.case by (cases "t < as_entryEpochMs a"; cases ae) auto
  then show ?thesis
    by cases (auto simp: decides_unchanged decides_exit)
qed

lemma decides_camera:
  assumes "camera_transition api row pl t h d = Inr d'"
  shows "decides (sc_slotId (in_command row)) (de_db d) d'"
proof -
  obtain act ae oa key obj ar where rest: "(case ar of
         None \<Rightarrow> Inl (InvalidArgument ''camera area topology is missing'')
       | Some cfg \<Rightarrow>
           if cfg = [] \<or> key = [] then Inl (InvalidArgument ''camera area topology is missing'')
           else if \<not> oa then camera_bind_only api row pl t act obj d
           else try_bind (load_iva (sc_slotId (in_command row)) cfg d) (\<lambda>(d1, areas, observed).
                  camera_dispatch api row pl t h act ae key cfg areas observed d1)) = Inr d'"
    using assms unfolding camera_transition_def by (auto simp only: try_bind_Inr)
  then consider "camera_bind_only api row pl t act obj d = Inr d'"
    | cfg d1 areas obs where "load_iva (sc_slotId (in_command row)) cfg d = Inr (d1, areas, obs)"
      "camera_dispatch api row pl t h act ae key cfg areas obs d1 = Inr d'"
    by (cases ar) (auto split: if_splits)
  then show ?thesis
  proof cases
    case 1
    then show ?thesis by (rule decides_bind_only)
  next
    case 2
    from decides_dispatch [OF 2(2)] load_iva_db [OF 2(1)] show ?thesis by simp
  qed
qed

lemma decides_deadline_apply:
  assumes "deadline_apply row t h did a v g d = Inr d'" and ok: "sessions_ok (de_db d)"
    and occ: "occ (de_db d) (sc_slotId (in_command row)) = [as_id a]"
  shows "decides (sc_slotId (in_command row)) (de_db d) d'"
proof -
  let ?c = "in_command row"
  obtain db1 where u: "update_iva_state (as_id a) (as_ivaConfirmed a) False (de_db d) = Inr db1"
    using assms(1) by (auto simp: deadline_apply_def Let_def)
  let ?db2 = "db1\<lparr>db_deadlines := update_rows (\<lambda>r. dl_deadlineId r = did \<and> dl_state r = DlAdmitted)
     (\<lambda>r. r\<lparr>dl_state := DlApplied\<rparr>) (db_deadlines db1)\<rparr>"
  have q: "quiet (de_db d) ?db2"
    using quiet_update_iva [OF u] quiet_supersede(2) quiet_trans by blast
  show ?thesis
  proof (cases "h \<and> as_hallConfirmed a \<and> as_hallOccupied a")
    case True
    then obtain db3 where "persist_iva ?c (as_attemptId a) (Some (as_id a)) g ObsVacant
        (iva_configured v) (iva_areas v) ?db2 = Inr db3" "de_db d' = db3" "de_code d' = CNoChange"
      using assms(1) u by (auto simp: deadline_apply_def Let_def)
    then show ?thesis using quiet_persist_iva q quiet_trans by (auto intro!: decides_quiet)
  next
    case False
    then obtain db3 m where c: "close_session ?c t a ''CAMERA_IVA_VACANT'' m ?db2 = Inr (db3, True)"
      and p: "persist_iva ?c [] None g ObsVacant (iva_configured v) (iva_areas v) db3 = Inr (de_db d')"
      and code: "de_code d' = CSessionEnded" "de_sessionId d' = as_id a"
      using assms(1) u by (auto simp: deadline_apply_def Let_def split: if_splits)
    have "ended (sc_slotId ?c) (as_id a) ?db2 db3"
      using close_session_ended [OF c quiet_sessions_ok [OF q ok]] q occ by (simp add: quiet_def)
    then have "ended (sc_slotId ?c) (as_id a) (de_db d) (de_db d')"
      using q quiet_persist_iva [OF p] ended_quiet by blast
    with code show ?thesis by (simp add: decides_def)
  qed
qed

lemma decides_stale: "decides slotId (de_db d) (deadline_stale x d)"
  by (rule decides_quiet) (simp_all add: deadline_stale_def)

lemma decides_deadline_decide:
  assumes "deadline_decide api row t h did n g at d = Inr d'" and ok: "sessions_ok (de_db d)"
  shows "decides (sc_slotId (in_command row)) (de_db d) d'"
proof -
  let ?s = "sc_slotId (in_command row)"
  let ?live = "list_ex (\<lambda>r. dl_deadlineId r = did \<and> dl_state r = DlAdmitted \<and> dl_slotId r = ?s \<and>
     dl_attemptId r = at \<and> dl_expectedSession r = n \<and> dl_generation r = g) (db_deadlines (de_db d))"
  note unf = deadline_decide_def Let_def
  show ?thesis
  proof (cases "?live \<and> um_find (db_iva (de_db d)) ?s \<noteq> None \<and> find_active api (de_db d) ?s \<noteq> None")
    case False
    then have "d' = d\<lparr>de_code := CStaleGeneration, de_message := ''exit deadline no longer owns the slot''\<rparr> \<or>
        d' = deadline_stale did d"
      using assms(1) unfolding unf by (cases ?live) (auto split: option.splits)
    then show ?thesis using decides_stale by (auto intro: decides_unchanged)
  next
    case True
    then obtain v a where va: "?live" "um_find (db_iva (de_db d)) ?s = Some v" "find_active api (de_db d) ?s = Some a"
      by blast
    let ?owns = "iva_attemptId v = at \<and> iva_activeSession v = Some n \<and> iva_generation v = g \<and>
      iva_observed v = ObsVacantPending \<and> as_id a = n \<and> as_attemptId a = at"
    have "(if ?owns then deadline_apply row t h did a v g d else Inr (deadline_stale did d)) = Inr d'"
      using assms(1) va unfolding unf by (simp only: option.case prod.case simp_thms if_False)
    then have "deadline_apply row t h did a v g d = Inr d' \<or> d' = deadline_stale did d"
      by (metis Inr_inject)
    then show ?thesis
      using decides_deadline_apply [OF _ ok find_active_Some [OF va(3) ok]] decides_stale by blast
  qed
qed

lemma decides_deadline:
  assumes "deadline_transition api row pl t h d = Inr d'" and "sessions_ok (de_db d)"
  shows "decides (sc_slotId (in_command row)) (de_db d) d'"
proof -
  obtain did n g at where "deadline_decide api row t h did n g at d = Inr d'"
    using assms(1) unfolding deadline_transition_def by (auto simp only: try_bind_Inr)
  then show ?thesis using assms(2) by (rule decides_deadline_decide)
qed

lemma decides_reduce:
  assumes "reduce_command api row pl db = Inr d" and "sessions_ok db"
  shows "decides (sc_slotId (in_command row)) db d"
proof (cases "sc_kind (in_command row)")
  case HallObservation
  with assms show ?thesis by (auto simp: reduce_command_def Let_def dest!: decides_hall)
next
  case CameraObservation
  with assms show ?thesis by (auto simp: reduce_command_def Let_def dest!: decides_camera)
next
  case ExitDeadline
  with assms show ?thesis by (auto simp: reduce_command_def Let_def dest!: decides_deadline)
qed


section \<open>Applying a command\<close>

lemma inbox_ok_update:
  assumes "\<And>r. row_id (f r) = row_id r \<and> row_key (f r) = row_key r \<and> in_ordinal (f r) = in_ordinal r"
  shows "inbox_ok (update_rows p f rows) = inbox_ok rows"
  using assms by (simp add: inbox_ok_def update_rows_map)

lemma finish_row_keys:
  "row_id (finish_row d r) = row_id r \<and> row_key (finish_row d r) = row_key r \<and>
   in_ordinal (finish_row d r) = in_ordinal r"
  "row_id (reject_row e r) = row_id r \<and> row_key (reject_row e r) = row_key r \<and>
   in_ordinal (reject_row e r) = in_ordinal r"
  by (simp_all add: finish_row_def reject_row_def row_id_def row_key_def Let_def)

lemma inbox_only [simp]:
  "occ (db\<lparr>db_inbox := x\<rparr>) = occ db" "session_ids (db\<lparr>db_inbox := x\<rparr>) = session_ids db"
  "sessions_ok (db\<lparr>db_inbox := x\<rparr>) = sessions_ok db" "deadlines_ok (db\<lparr>db_inbox := x\<rparr>) = deadlines_ok db"
  by (simp_all add: occ_def open_rows_def session_ids_def sessions_ok_def deadlines_ok_def fun_eq_iff)

lemma store_ok_inbox: "inbox_ok rows \<Longrightarrow> store_ok db \<Longrightarrow> store_ok (db\<lparr>db_inbox := rows\<rparr>)"
  by (simp add: store_ok_def)

lemma decides_store_ok:
  assumes "decides slotId db d" and "store_ok db"
  shows "store_ok (de_db d)" and "db_inbox (de_db d) = db_inbox db" and "db_opened (de_db d) = db_opened db"
  using assms started_sessions_ok [of slotId _ db "de_db d"] ended_sessions_ok [of slotId _ db "de_db d"]
    quiet_sessions_ok [of db "de_db d"]
  by (auto simp: decides_def store_ok_def started_def ended_def quiet_def)

text \<open>The change of the occupancy that a result code stands for.\<close>

definition occupancy_effect ::
  "string \<Rightarrow> CommittedOccupancyCode \<Rightarrow> int \<Rightarrow> (string \<Rightarrow> int list) \<Rightarrow> (string \<Rightarrow> int list) \<Rightarrow> bool" where
  "occupancy_effect slotId code n before after \<longleftrightarrow>
     (if code = CSessionStarted then before slotId = [] \<and> after = before(slotId := [n])
      else if code = CSessionEnded then before slotId = [n] \<and> after = before(slotId := [])
      else after = before)"

lemma decides_effect:
  "decides slotId db d \<Longrightarrow> occupancy_effect slotId (de_code d) (de_sessionId d) (occ db) (occ (de_db d))"
  by (auto simp: decides_def occupancy_effect_def started_def ended_def quiet_def has_effect_def)

lemma find_command_row:
  "find_command db cid = Some row \<Longrightarrow> row \<in> set (db_inbox db) \<and> sc_commandId (in_command row) = cid"
  by (auto simp: find_command_def find_Some_iff)

text \<open>The four ways a pending command can end.\<close>

lemma apply_pending_cases:
  assumes ok: "store_ok db" and "apply_pending api row pl outc db = (db', out)"
  obtains (committed) d where "decides (sc_slotId (in_command row)) db d"
      and "db' = (de_db d)\<lparr>db_inbox := update_rows (\<lambda>r. sc_commandId (in_command r) =
             sc_commandId (in_command row) \<and> is_pending r) (finish_row d) (db_inbox db)\<rparr>"
      and "cot_code out = de_code d" and "cot_sessionId out = de_sessionId d"
  | (invalid) e where "db' = db\<lparr>db_inbox := update_rows (\<lambda>r. sc_commandId (in_command r) =
             sc_commandId (in_command row) \<and> is_pending r) (reject_row e) (db_inbox db)\<rparr>"
      and "cot_code out = CRejectedInvalidTimestamp" and "cot_sessionId out = cot_sessionId outc"
  | (failed) "db' = db" and "cot_code out = CRetryableFailure"
proof (cases "try_bind (reduce_command api row pl db) (\<lambda>d.
     try_bind (finish_command (sc_commandId (in_command row)) d) (\<lambda>db'. Inr (db', d)))")
  case (Inl e)
  then show thesis
    using assms(2) invalid failed by (cases e) (auto simp: apply_pending_def Let_def)
next
  case (Inr p)
  then obtain d where red: "reduce_command api row pl db = Inr d"
    and fin: "finish_command (sc_commandId (in_command row)) d = Inr (fst p)" and p: "snd p = d"
    by auto
  have dec: "decides (sc_slotId (in_command row)) db d"
    using red ok by (auto simp: store_ok_def intro: decides_reduce)
  have "db_inbox (de_db d) = db_inbox db" using dec ok by (rule decides_store_ok)
  with fin have "fst p = (de_db d)\<lparr>db_inbox := update_rows (\<lambda>r. sc_commandId (in_command r) =
             sc_commandId (in_command row) \<and> is_pending r) (finish_row d) (db_inbox db)\<rparr>"
    by (auto simp: finish_command_def Let_def split: if_splits)
  with dec Inr assms(2) p show thesis
    by (intro committed [OF dec]) (auto simp: apply_pending_def Let_def)
qed

lemma apply_pending_sound:
  assumes ok: "store_ok db" and app: "apply_pending api row pl outc db = (db', out)"
  shows "store_ok db'" and "cot_code out = CRetryableFailure \<Longrightarrow> db' = db"
    and "occupancy_effect (sc_slotId (in_command row)) (cot_code out) (cot_sessionId out) (occ db) (occ db')"
proof -
  have "store_ok db' \<and> (cot_code out = CRetryableFailure \<longrightarrow> db' = db) \<and>
    occupancy_effect (sc_slotId (in_command row)) (cot_code out) (cot_sessionId out) (occ db) (occ db')"
    using ok app
  proof (cases rule: apply_pending_cases)
    case (committed d)
    have "de_code d \<noteq> CRetryableFailure" using committed(1) by (auto simp: decides_def)
    moreover have "store_ok db'"
      using decides_store_ok [OF committed(1) ok]
      by (simp add: committed(2) store_ok_def inbox_ok_update finish_row_keys)
    ultimately show ?thesis
      using decides_effect [OF committed(1)] by (simp add: committed(2,3,4))
  next
    case (invalid e)
    have "store_ok db'"
      using ok by (simp add: invalid(1) store_ok_def inbox_ok_update finish_row_keys)
    then show ?thesis by (simp add: invalid occupancy_effect_def)
  next
    case failed
    then show ?thesis using ok by (simp add: occupancy_effect_def)
  qed
  then show "store_ok db'" and "cot_code out = CRetryableFailure \<Longrightarrow> db' = db"
    and "occupancy_effect (sc_slotId (in_command row)) (cot_code out) (cot_sessionId out) (occ db) (occ db')"
    by auto
qed

text \<open>What applying a row can do, in all: nothing, a rejection of the row, or a reduction.\<close>

lemma apply_row_cases:
  assumes "apply_row api row db = (db', out)"
  obtains (malformed) e where "db' = db\<lparr>db_inbox := update_rows
        (\<lambda>r. sc_commandId (in_command r) = sc_commandId (in_command row)) (reject_row e) (db_inbox db)\<rparr>"
      and "cot_code out = CRejectedInvalidTimestamp" and "\<exists>e. read_payload api row (sc_dueAtEpochMs (in_command row)) = Inl e"
  | (settled) "db' = db" and "in_status row \<noteq> PendingUnprepared"
  | (reduced) pl outc where "apply_pending api row pl outc db = (db', out)" and "in_status row = PendingUnprepared"
      and "\<exists>x. read_payload api row (sc_dueAtEpochMs (in_command row)) = Inr x"
proof (cases "read_payload api row (sc_dueAtEpochMs (in_command row))")
  case (Inl e)
  then show thesis using assms by (intro malformed) (auto simp: apply_row_def)
next
  case (Inr x)
  obtain pl tr ms where x: "x = (pl, tr, ms)" by (cases x)
  show thesis
  proof (cases "in_status row = PendingUnprepared")
    case True
    then show thesis using Inr assms by (intro reduced) (auto simp: apply_row_def x Let_def)
  next
    case False
    then show thesis using Inr assms
      by (intro settled) (auto simp: apply_row_def x Let_def split: SlotCommandStatus.splits)
  qed
qed

lemma apply_row_sound:
  assumes ok: "store_ok db" and app: "apply_row api row db = (db', out)"
  shows "store_ok db'" and "cot_code out = CRetryableFailure \<Longrightarrow> db' = db"
    and "in_status row = PendingUnprepared \<Longrightarrow>
      occupancy_effect (sc_slotId (in_command row)) (cot_code out) (cot_sessionId out) (occ db) (occ db')"
    and "in_status row \<noteq> PendingUnprepared \<Longrightarrow> occ db' = occ db"
proof -
  have "store_ok db' \<and> (cot_code out = CRetryableFailure \<longrightarrow> db' = db) \<and>
    (if in_status row = PendingUnprepared then
      occupancy_effect (sc_slotId (in_command row)) (cot_code out) (cot_sessionId out) (occ db) (occ db')
     else occ db' = occ db)"
    using app
  proof (cases rule: apply_row_cases)
    case (malformed e)
    then show ?thesis
      using ok by (simp add: store_ok_def inbox_ok_update finish_row_keys occupancy_effect_def)
  next
    case settled
    then show ?thesis using ok by simp
  next
    case (reduced pl outc)
    then show ?thesis using apply_pending_sound [OF ok reduced(1)] by simp
  qed
  then show "store_ok db'" and "cot_code out = CRetryableFailure \<Longrightarrow> db' = db"
    and "in_status row = PendingUnprepared \<Longrightarrow>
      occupancy_effect (sc_slotId (in_command row)) (cot_code out) (cot_sessionId out) (occ db) (occ db')"
    and "in_status row \<noteq> PendingUnprepared \<Longrightarrow> occ db' = occ db"
    by (auto split: if_splits)
qed

lemma apply_cases:
  assumes "applySlotTransitionCommand api io db cid = (db', out)"
  obtains (none) "db' = db" and "cot_code out = CRetryableFailure"
  | (row) row where "find_command db cid = Some row" and "apply_row api row db = (db', out)"
  using assms
  by (cases "cid = [] \<or> \<not> db_opened db \<or> \<not> io"; cases "find_command db cid")
    (auto simp: applySlotTransitionCommand_def blank_outcome_def split: if_splits)

lemma apply_store_ok [inv_intros]:
  assumes "store_ok db"
  shows "store_ok (fst (applySlotTransitionCommand api io db cid))"
proof -
  obtain db' out where app: "applySlotTransitionCommand api io db cid = (db', out)" by fastforce
  then show ?thesis
    using assms apply_row_sound(1) [OF assms] by (cases rule: apply_cases) (auto simp: app)
qed

lemma occ_single: "occ db s = [n] \<Longrightarrow> n \<in> set (session_ids db)"
  using occ_ids [of n db s] by simp

section \<open>Exactly once\<close>

lemma find_update_rows:
  assumes "find (\<lambda>r. sc_commandId (in_command r) = cid) rows = Some row"
    and "\<And>r. in_command (f r) = in_command r"
  shows "find (\<lambda>r. sc_commandId (in_command r) = cid) (update_rows p f rows) =
    Some (if p row then f row else row)"
  using assms by (induction rows) (auto simp: update_rows_def)

lemma commands_kept: "in_command (finish_row d r) = in_command r" "in_command (reject_row e r) = in_command r"
  by (simp_all add: finish_row_def reject_row_def Let_def)

lemma row_after_terminal:
  assumes ok: "store_ok db" and row: "find_command db cid = Some row"
    and pend: "in_status row = PendingUnprepared" and app: "apply_row api row db = (db', out)"
    and fin: "cot_code out \<noteq> CRetryableFailure"
  shows "\<exists>row'. find_command db' cid = Some row' \<and> in_command row' = in_command row \<and>
    in_status row' \<in> {Applied, RejectedInvalid} \<and> in_resultCode row' = Some (cot_code out) \<and>
    (has_effect (cot_code out) \<longrightarrow> in_status row' = Applied \<and> in_effectState row' = EffectPending \<and>
       in_resultSession row' = Some (cot_sessionId out))"
proof -
  have cid: "sc_commandId (in_command row) = cid" using find_command_row [OF row] by simp
  note upd = find_update_rows [OF row [unfolded find_command_def]]
  from app show ?thesis
  proof (cases rule: apply_row_cases)
    case (malformed e)
    then show ?thesis
      using upd [of "reject_row e"]
      by (simp add: find_command_def cid commands_kept has_effect_def) (simp add: reject_row_def)
  next
    case settled
    then show ?thesis using pend by simp
  next
    case (reduced pl outc)
    from ok reduced(1) show ?thesis
    proof (cases rule: apply_pending_cases)
      case (committed d)
      have "0 \<le> de_sessionId d" if "has_effect (de_code d)"
      proof -
        from committed(1) that have "de_sessionId d \<in> set (session_ids (de_db d))"
          by (auto simp: decides_def started_def ended_def has_effect_def dest: occ_single)
        then show ?thesis using decides_store_ok(1) [OF committed(1) ok]
          by (auto simp: store_ok_def sessions_ok_def)
      qed
      with committed pend show ?thesis
        using upd [of "finish_row d"]
        by (simp add: find_command_def cid commands_kept is_pending_def)
          (simp add: finish_row_def Let_def has_effect_def)
    next
      case (invalid e)
      then show ?thesis
        using upd [of "reject_row e"] pend
        by (simp add: find_command_def cid commands_kept has_effect_def is_pending_def)
          (simp add: reject_row_def)
    next
      case failed
      then show ?thesis using fin by simp
    qed
  qed
qed


lemma apply_row_settled:
  assumes "in_status row \<in> {Applied, RejectedInvalid}" and "in_resultCode row = Some c"
    and "read_payload api row (sc_dueAtEpochMs (in_command row)) = Inr x"
  shows "fst (apply_row api row db) = db" and "cot_code (snd (apply_row api row db)) = c"
    and "cot_sessionId (snd (apply_row api row db)) = (case in_resultSession row of None \<Rightarrow> -1 | Some n \<Rightarrow> n)"
  using assms by (cases x; auto simp: apply_row_def Let_def row_outcome_def)+

section \<open>Admission\<close>

lemma inbox_ok_append:
  assumes "inbox_ok rows" and "list_all (\<lambda>r. row_id r \<noteq> row_id row \<and> row_key r \<noteq> row_key row \<and>
    in_ordinal r \<noteq> in_ordinal row) rows"
  shows "inbox_ok (rows @ [row])"
  using assms by (auto simp: inbox_ok_def list_all_iff)

lemma insertable_ok:
  assumes "inbox_insertable db row" and "inbox_ok (db_inbox db)"
  shows "inbox_ok (db_inbox db @ [row])"
  using assms by (intro inbox_ok_append) (auto simp: inbox_insertable_def list_all_iff row_id_def row_key_def)

lemma cancel_candidate_ok:
  "inbox_ok (db_inbox (cancel_candidate cid db)) = inbox_ok (db_inbox db)"
  by (simp add: cancel_candidate_def) (rule inbox_ok_update, simp add: row_id_def row_key_def)

lemma hall_confirmation_db:
  "hall_confirmation api db c = Inr (r, db') \<Longrightarrow> db' = db \<or> (\<exists>cid. db' = cancel_candidate cid db)"
  by (auto simp: hall_confirmation_def split: if_splits option.splits)

lemma new_inbox_row_fields: "in_command (new_inbox_row c n k t) = c" "is_pending (new_inbox_row c n k t)"
  by (simp_all add: new_inbox_row_def is_pending_def)

lemma insert_command_sound:
  assumes "insert_command before c cap corr t db = Inr (db', r)"
  shows "(adm_code r = AdmCapacityFull \<and> db' = before) \<or>
    (adm_code r = AdmAdmitted \<and> adm_commandId r = sc_commandId c \<and> count_rows is_pending (db_inbox db) < cap \<and>
     (\<exists>row. in_command row = c \<and> is_pending row \<and> inbox_insertable db row \<and>
        db' = db\<lparr>db_inbox := db_inbox db @ [row]\<rparr>))"
  using assms new_inbox_row_fields [of c "max_ordinal (db_inbox db) + 1" corr t]
  by (auto simp: insert_command_def Let_def adm_result_def split: if_splits
      intro!: exI [of _ "new_inbox_row c (max_ordinal (db_inbox db) + 1) corr t"])

lemma sequence_refusal_code:
  assumes "hall_sequence_refusal api db c = Inr (Some r)"
  shows "adm_code r \<noteq> AdmAdmitted"
proof -
  from assms obtain payload where payload: "json_result (pj_parse api (sc_payloadJson c)) = Inr payload"
    by (auto simp: hall_sequence_refusal_def)
  show ?thesis
  proof (cases "hallSequenceFact api c payload")
    case (Inl e)
    with assms payload show ?thesis
      by (cases e) (auto simp: hall_sequence_refusal_def adm_result_def)
  next
    case (Inr f)
    with assms payload show ?thesis
      by (auto simp: hall_sequence_refusal_def adm_result_def Let_def split: if_splits)
  qed
qed

lemma confirmation_refusal_code:
  assumes "hall_confirmation api db c = Inr (Some r, db')"
  shows "adm_code r \<noteq> AdmAdmitted"
  using assms by (auto simp: hall_confirmation_def adm_result_def Let_def split: if_splits option.splits)

text \<open>Admission changes the database only when it admits, and then only the inbox.\<close>

lemma admit_transaction_sound:
  assumes "admit_transaction api db c cap corr t = Inr (db', r)"
  shows "(adm_code r \<noteq> AdmAdmitted \<and> db' = db) \<or>
    (adm_code r = AdmAdmitted \<and> adm_commandId r = sc_commandId c \<and> find_identity db c = None \<and>
     (\<exists>db1 row. (db1 = db \<or> (\<exists>cid. db1 = cancel_candidate cid db)) \<and> in_command row = c \<and> is_pending row \<and>
        inbox_insertable db1 row \<and> count_rows is_pending (db_inbox db1) < cap \<and>
        db' = db1\<lparr>db_inbox := db_inbox db1 @ [row]\<rparr>))"
proof (cases "find_identity db c")
  case (Some stored)
  with assms show ?thesis
    by (auto simp: admit_transaction_def existing_result_def adm_result_def Let_def split: if_splits)
next
  case None
  show ?thesis
  proof (cases "sc_kind c = HallObservation")
    case False
    with None assms show ?thesis
      by (auto simp: admit_transaction_def dest!: insert_command_sound)
  next
    case True
    consider (refused) "db' = db" "adm_code r \<noteq> AdmAdmitted"
      | (inserted) db1 x where "hall_confirmation api db c = Inr (x, db1)"
          "insert_command db c cap corr t db1 = Inr (db', r)"
    proof (cases "sc_sensorId c = []")
      case True
      with refused None assms \<open>sc_kind c = HallObservation\<close> show thesis
        by (simp add: admit_transaction_def adm_result_def) fastforce
    next
      case False
      with None assms True obtain q where q: "hall_sequence_refusal api db c = Inr q"
        "(case q of Some r \<Rightarrow> Inr (db, r) | None \<Rightarrow> try_bind (hall_confirmation api db c) (\<lambda>(refusal', db').
                  case refusal' of Some r \<Rightarrow> Inr (db, r)
                  | None \<Rightarrow> insert_command db c cap corr t db')) = Inr (db', r)"
        by (auto simp: admit_transaction_def)
      show thesis
      proof (cases q)
        case (Some x)
        with q refused sequence_refusal_code [of api db c x] show thesis by auto
      next
        case None
        with q obtain x db1 where x: "hall_confirmation api db c = Inr (x, db1)"
          "(case x of Some r \<Rightarrow> Inr (db, r) | None \<Rightarrow> insert_command db c cap corr t db1) = Inr (db', r)"
          by auto
        with refused inserted show thesis by (cases x) (auto dest: confirmation_refusal_code)
      qed
    qed
    then show ?thesis
    proof cases
      case refused
      then show ?thesis by simp
    next
      case inserted
      with None hall_confirmation_db [OF inserted(1)] insert_command_sound [OF inserted(2)] show ?thesis
        by (elim disjE conjE exE) auto
    qed
  qed
qed

end
