(* ===== verification/OccupancyProps.thy ===== *)
theory OccupancyProps
  imports OccupancyLaws "HOL-Library.Multiset"
begin

text \<open>
  The occupancy store as a machine: its calls as the steps of a run, the invariant \<open>store_ok\<close> over all
  runs, and the properties of admission, of the runnable query and of applying a command. The sample
  values are the library parameters and the command texts of a concrete run.
\<close>

section \<open>A concrete run\<close>

datatype sample_value = SvText string | SvInt int | SvAreas "string option list"

definition sample_documents :: "(string, (string, sample_value) umap) umap" where
  "sample_documents =
     [(''hall-in'', [(''state'', SvText ''OCCUPIED''), (''occurred_at_epoch_ms'', SvInt 1000),
         (''occupancy_policy'', SvText ''HYBRID_OR'')]),
      (''hall-again'', [(''state'', SvText ''OCCUPIED''), (''occurred_at_epoch_ms'', SvInt 1800),
         (''occupancy_policy'', SvText ''HYBRID_OR'')]),
      (''hall-out'', [(''state'', SvText ''VACANT''), (''occurred_at_epoch_ms'', SvInt 7000),
         (''occupancy_policy'', SvText ''HYBRID_OR'')]),
      (''cam-in'', [(''action'', SvText ''INTRUSION''), (''area_key'', SvText ''z''),
         (''configured_areas'', SvAreas [Some ''z'']), (''occurred_at_epoch_ms'', SvInt 2000),
         (''occupancy_policy'', SvText ''HYBRID_OR'')]),
      (''cam-out'', [(''action'', SvText ''EXIT''), (''area_key'', SvText ''z''),
         (''configured_areas'', SvAreas [Some ''z'']), (''occurred_at_epoch_ms'', SvInt 3000),
         (''deadline_due_at_epoch_ms'', SvInt 4000), (''occupancy_policy'', SvText ''HYBRID_OR'')]),
      (''deadline'', [(''deadline_id'', SvText ''iva-exit:A1:2:1''), (''expected_session_id'', SvInt 1),
         (''observation_generation'', SvInt 2), (''occupancy_attempt_id'', SvText ''occupancy:h1''),
         (''occupancy_policy'', SvText ''HYBRID_OR'')])]"

definition sample_payload_api :: "(string, sample_value) umap payload_api" where
  "sample_payload_api = \<lparr>
     pj_parse = (\<lambda>s. case um_find sample_documents s of None \<Rightarrow> Inl ''parse error'' | Some v \<Rightarrow> Inr v),
     pj_erase = (\<lambda>k v. Inr (um_erase k v)),
     pj_string = (\<lambda>v k d. case um_find v k of None \<Rightarrow> Inr d | Some (SvText t) \<Rightarrow> Inr t | _ \<Rightarrow> Inl ''type error''),
     pj_int = (\<lambda>v k d. case um_find v k of None \<Rightarrow> Inr d | Some (SvInt t) \<Rightarrow> Inr t | _ \<Rightarrow> Inl ''type error''),
     pj_bool = (\<lambda>v k d. case um_find v k of None \<Rightarrow> Inr d | _ \<Rightarrow> Inl ''type error''),
     pj_boot_id = (\<lambda>v. None),
     pj_areas = (\<lambda>v. Inr (case um_find v ''configured_areas'' of Some (SvAreas xs) \<Rightarrow> Some xs | _ \<Rightarrow> None)),
     pj_deadline_dump = (\<lambda>_ _ _ _ _. ''deadline''),
     sql_state = (\<lambda>s. if s = ''hall-in'' then Some ''OCCUPIED'' else None),
     sql_iso_time = (\<lambda>_. ''t''), sql_julian_ms = (\<lambda>_. 0)\<rparr>"

definition sample_db :: SlotDb where
  "sample_db = \<lparr>db_opened = True, db_inbox = [], db_sessions = [], db_nextSession = 1,
     db_slots = [(''A1'', (''VACANT'', [])), (''B1'', (''VACANT'', []))], db_iva = [], db_deadlines = [], db_bindings = [],
     db_sequences = [], db_retired = [], db_eventLog = []\<rparr>"

definition sample_command :: "SlotCommandKind \<Rightarrow> string \<Rightarrow> string \<Rightarrow> SlotTransitionCommand" where
  "sample_command kind cid doc = \<lparr>sc_commandId = cid, sc_kind = kind, sc_slotId = ''A1'',
     sc_sensorId = ''S1'', sc_sourceIdentity = cid, sc_sourceSequence = None, sc_occurredAt = ''t'',
     sc_payloadJson = doc, sc_dueAtEpochMs = 0\<rparr>"

datatype store_call = Admit int SlotTransitionCommand nat | Apply string | AdmitDue int int nat "string list"
  | Defer string int string | Complete string | DeferEffects string int string | Purge int nat

fun store_step :: "'j payload_api \<Rightarrow> SlotDb \<Rightarrow> bool \<times> store_call \<Rightarrow> SlotDb \<times> CommittedOccupancyCode option" where
  "store_step api db (io, Admit t c cap) = (fst (admitSlotTransitionCommand api io t db c cap), None)"
| "store_step api db (io, Apply cid) = (let (db', out) = applySlotTransitionCommand api io db cid in (db', Some (cot_code out)))"
| "store_step api db (io, AdmitDue t now cap blocked) = (fst (admitDueSlotDeadlines api t db now cap blocked), None)"
| "store_step api db (io, Defer cid t e) = (fst (deferSlotTransitionCommand io db cid t e), None)"
| "store_step api db (io, Complete cid) = (fst (completeSlotTransitionEffects db cid), None)"
| "store_step api db (io, DeferEffects cid t e) = (fst (deferSlotTransitionEffects io db cid t e), None)"
| "store_step api db (io, Purge t n) = (fst (purgeSettledSlotTransitionCommands io db t n), None)"

definition sample_run :: "(bool \<times> store_call) list" where
  "sample_run = map (Pair True)
     [Admit 0 (sample_command HallObservation ''h1'' ''hall-in'') 8, Apply ''h1'',
      Admit 0 (sample_command CameraObservation ''c1'' ''cam-in'') 8, Apply ''c1'',
      Admit 0 (sample_command CameraObservation ''c2'' ''cam-out'') 8, Apply ''c2'',
      AdmitDue 0 5000 8 [], Apply ''deadline-command:iva-exit:A1:2:1'',
      Admit 0 (sample_command CameraObservation ''c3'' ''cam-out'') 8, Apply ''c3'',
      Admit 0 (sample_command HallObservation ''h2'' ''hall-out'') 8]"

section \<open>Every call keeps the invariant\<close>

lemma inbox_change_ok:
  assumes "store_ok db" and "inbox_ok rows"
  shows "store_ok (db\<lparr>db_inbox := rows\<rparr>)"
  using assms by (simp add: store_ok_def sessions_ok_def deadlines_ok_def session_ids_def occ_def open_rows_def)

lemma row_update_ok:
  assumes "store_ok db" and "\<And>r. in_command (f r) = in_command r \<and> in_ordinal (f r) = in_ordinal r"
  shows "store_ok (db\<lparr>db_inbox := update_rows p f (db_inbox db)\<rparr>)"
proof (rule inbox_change_ok [OF assms(1)])
  have "inbox_ok (update_rows p f (db_inbox db)) = inbox_ok (db_inbox db)"
    by (rule inbox_ok_update) (simp add: row_id_def row_key_def assms(2))
  then show "inbox_ok (update_rows p f (db_inbox db))" using assms(1) by (simp add: store_ok_def)
qed

lemma cancel_ok: "store_ok db \<Longrightarrow> store_ok (cancel_candidate cid db)"
  unfolding cancel_candidate_def by (rule row_update_ok) auto

lemma admit_cases:
  assumes "admitSlotTransitionCommand api io t db c cap = (db', r)"
  obtains (refused) "db' = db" and "adm_code r \<noteq> AdmAdmitted"
  | (transaction) corr where "admit_transaction api db c cap corr t = Inr (db', r)"
  using assms
  by (auto simp: admitSlotTransitionCommand_def adm_result_def split: if_splits sum.splits)

lemma admit_sound:
  assumes ok: "store_ok db" and adm: "admitSlotTransitionCommand api io t db c cap = (db', r)"
  shows "store_ok db'" and "adm_code r \<noteq> AdmAdmitted \<Longrightarrow> db' = db" and "occ db' = occ db"
    and "adm_code r = AdmAdmitted \<Longrightarrow> count_rows is_pending (db_inbox db') \<le> cap"
    and "adm_code r = AdmAdmitted \<Longrightarrow> \<exists>row \<in> set (db_inbox db'). in_command row = c \<and> is_pending row"
proof -
  have "store_ok db' \<and> (adm_code r \<noteq> AdmAdmitted \<longrightarrow> db' = db) \<and> occ db' = occ db \<and>
    (adm_code r = AdmAdmitted \<longrightarrow> count_rows is_pending (db_inbox db') \<le> cap \<and>
       (\<exists>row \<in> set (db_inbox db'). in_command row = c \<and> is_pending row))"
    using adm
  proof (cases rule: admit_cases)
    case refused
    then show ?thesis using ok by simp
  next
    case (transaction corr)
    from admit_transaction_sound [OF this] consider "db' = db" "adm_code r \<noteq> AdmAdmitted"
      | (admitted) db1 row where "adm_code r = AdmAdmitted" "db1 = db \<or> (\<exists>cid. db1 = cancel_candidate cid db)"
          "in_command row = c" "is_pending row" "inbox_insertable db1 row"
          "count_rows is_pending (db_inbox db1) < cap" "db' = db1\<lparr>db_inbox := db_inbox db1 @ [row]\<rparr>"
      by metis
    then show ?thesis
    proof cases
      case 1
      then show ?thesis using ok by simp
    next
      case (admitted db1 row)
      note code = admitted(1) and db1 = admitted(2) and row = admitted(3-7)
      have ok1: "store_ok db1" and occ1: "occ db1 = occ db"
        using db1 ok cancel_ok [OF ok] by (auto simp: cancel_candidate_def occ_def open_rows_def fun_eq_iff)
      have "inbox_ok (db_inbox db1 @ [row])"
        using insertable_ok [OF row(3)] ok1 by (simp add: store_ok_def)
      then have "store_ok db'" using inbox_change_ok [OF ok1] row(5) by simp
      moreover have "occ db' = occ db" using occ1 row(5) by (simp add: occ_def open_rows_def fun_eq_iff)
      moreover have "count_rows is_pending (db_inbox db') \<le> cap"
        using row by (simp add: count_rows_def)
      ultimately show ?thesis using row code by auto
    qed
  qed
  then show "store_ok db'" and "adm_code r \<noteq> AdmAdmitted \<Longrightarrow> db' = db" and "occ db' = occ db"
    and "adm_code r = AdmAdmitted \<Longrightarrow> count_rows is_pending (db_inbox db') \<le> cap"
    and "adm_code r = AdmAdmitted \<Longrightarrow> \<exists>row \<in> set (db_inbox db'). in_command row = c \<and> is_pending row"
    by auto
qed

lemma mark_admitted_ok:
  assumes "store_ok db"
    and "\<And>r. p r \<Longrightarrow> dl_deadlineId (f r) = dl_deadlineId r \<and> (\<forall>s. deadline_live s (f r) = deadline_live s r)"
  shows "store_ok (db\<lparr>db_deadlines := update_rows p f (db_deadlines db)\<rparr>)"
proof -
  have "map dl_deadlineId (update_rows p f (db_deadlines db)) = map dl_deadlineId (db_deadlines db)"
    by (rule update_rows_map) (simp add: assms(2))
  moreover have "filter (deadline_live s) (update_rows p f (db_deadlines db)) =
      update_rows p f (filter (deadline_live s) (db_deadlines db))" for s
    by (rule update_rows_filter) (simp add: assms(2))
  ultimately show ?thesis
    using assms(1) by (simp add: store_ok_def sessions_ok_def deadlines_ok_def session_ids_def occ_def open_rows_def)
qed

lemma deadline_row_pending: "is_pending (deadline_row api d n t)"
  by (simp add: deadline_row_def new_inbox_row_def is_pending_def)

lemma admit_deadline_sound:
  assumes ok: "store_ok db" and step: "admit_deadline api t d (db, n, k) = (db', n', k')"
  shows "store_ok db'" and "occ db' = occ db" and "k' \<le> k + 1"
    and "count_rows is_pending (db_inbox db') \<le> count_rows is_pending (db_inbox db) + 1"
proof -
  let ?row = "deadline_row api d (n + 1) t"
  let ?db1 = "if inbox_insertable db ?row then db\<lparr>db_inbox := db_inbox db @ [?row]\<rparr> else db"
  have ok1: "store_ok ?db1"
    using ok insertable_ok [of db ?row] by (auto intro: inbox_change_ok simp: store_ok_def)
  have "store_ok (?db1\<lparr>db_deadlines := update_rows (\<lambda>r. dl_deadlineId r = dl_deadlineId d \<and> dl_state r = DlScheduled)
      (\<lambda>r. r\<lparr>dl_state := DlAdmitted, dl_admittedCommand := Some (''deadline-command:'' @ dl_deadlineId d)\<rparr>)
      (db_deadlines ?db1)\<rparr>)"
    by (rule mark_admitted_ok [OF ok1]) (auto simp: deadline_live_def)
  with step show "store_ok db'" by (auto simp: admit_deadline_def Let_def)
  from step show "occ db' = occ db" and "k' \<le> k + 1"
    and "count_rows is_pending (db_inbox db') \<le> count_rows is_pending (db_inbox db) + 1"
    by (auto simp: admit_deadline_def Let_def occ_def open_rows_def fun_eq_iff deadline_row_pending
        count_rows_def split: if_splits)
qed

lemma admit_deadlines_sound:
  assumes "store_ok db" and "fold (admit_deadline api t) ds (db, n, k) = (db', n', k')"
  shows "store_ok db' \<and> occ db' = occ db \<and> k' \<le> k + length ds \<and>
    count_rows is_pending (db_inbox db') \<le> count_rows is_pending (db_inbox db) + length ds"
  using assms
proof (induction ds arbitrary: db n k)
  case (Cons d ds)
  obtain db1 n1 k1 where step: "admit_deadline api t d (db, n, k) = (db1, n1, k1)" by (metis prod_cases3)
  note s = admit_deadline_sound [OF Cons.prems(1) step]
  have "fold (admit_deadline api t) ds (db1, n1, k1) = (db', n', k')" using Cons.prems(2) step by simp
  from Cons.IH [OF s(1) this] s(2-4) show ?case by auto
qed simp

lemma admit_due_sound:
  assumes ok: "store_ok db" and due: "admitDueSlotDeadlines api t db now cap blocked = (db', n)"
  shows "store_ok db'" and "occ db' = occ db"
    and "count_rows is_pending (db_inbox db') \<le> max cap (count_rows is_pending (db_inbox db))"
proof -
  consider "db' = db"
    | (fold) ds m where "count_rows is_pending (db_inbox db) < cap"
        "length ds \<le> cap - count_rows is_pending (db_inbox db)"
        "fold (admit_deadline api t) ds (db, max_ordinal (db_inbox db), 0) = (db', m, n)"
  proof (cases "cap = 0 \<or> \<not> db_opened db \<or> \<not> list_ex (deadline_due now) (db_deadlines db) \<or>
      count_rows is_pending (db_inbox db) \<ge> cap")
    case True
    then show thesis using due that(1) by (auto simp: admitDueSlotDeadlines_def Let_def split: if_splits)
  next
    case False
    let ?ds = "take (cap - count_rows is_pending (db_inbox db))
        (filter (\<lambda>d. dl_slotId d \<notin> set blocked) (sort_by deadline_le (filter (deadline_due now) (db_deadlines db))))"
    obtain m where "fold (admit_deadline api t) ?ds (db, max_ordinal (db_inbox db), 0) = (db', m, n)"
      using False due by (auto simp: admitDueSlotDeadlines_def Let_def split: prod.splits)
    with False show thesis by (intro that(2) [of ?ds]) auto
  qed
  then have "store_ok db' \<and> occ db' = occ db \<and>
      count_rows is_pending (db_inbox db') \<le> max cap (count_rows is_pending (db_inbox db))"
  proof cases
    case (fold ds m)
    from admit_deadlines_sound [OF ok fold(3)] fold(1,2) show ?thesis by auto
  qed (use ok in auto)
  then show "store_ok db'" and "occ db' = occ db"
    and "count_rows is_pending (db_inbox db') \<le> max cap (count_rows is_pending (db_inbox db))" by auto
qed

lemma purge_ok: "store_ok db \<Longrightarrow> store_ok (fst (purgeSettledSlotTransitionCommands io db t n))"
  by (auto simp: purgeSettledSlotTransitionCommands_def Let_def store_ok_def inbox_ok_def distinct_map_filter
      sessions_ok_def deadlines_ok_def session_ids_def occ_def open_rows_def)

lemma store_step_ok: "store_ok db \<Longrightarrow> store_ok (fst (store_step api db call))"
proof (cases call)
  case (Pair io c)
  assume ok: "store_ok db"
  show ?thesis
  proof (cases c)
    case (Admit t c' cap)
    then show ?thesis using Pair admit_sound(1) [OF ok prod.collapse [symmetric]] by simp
  next
    case (Apply cid)
    then show ?thesis using Pair apply_store_ok [OF ok] by (simp add: split_beta)
  next
    case (AdmitDue t now cap blocked)
    then show ?thesis using Pair admit_due_sound(1) [OF ok prod.collapse [symmetric]] by simp
  qed (use ok Pair in \<open>auto simp: deferSlotTransitionCommand_def completeSlotTransitionEffects_def
      deferSlotTransitionEffects_def Let_def intro!: row_update_ok purge_ok\<close>)
qed

interpretation occupancy_store: invariant_machine "store_step api" store_ok
  by unfold_locales (rule store_step_ok)

section \<open>Properties\<close>

lemma sample_db_ok: "store_ok sample_db"
  by (simp add: store_ok_def inbox_ok_def sessions_ok_def deadlines_ok_def sample_db_def session_ids_def
      occ_def open_rows_def)

lemma sample_state_ok: "store_ok (final_state (store_step sample_payload_api) sample_db calls)"
  by (rule occupancy_store.inv_run) (rule sample_db_ok)

text \<open>The state of the concrete run after its first \<open>n\<close> calls.\<close>

abbreviation sample_at :: "nat \<Rightarrow> SlotDb" where
  "sample_at n \<equiv> final_state (store_step sample_payload_api) sample_db (take n sample_run)"

text \<open>
  C1: applying a command does to the occupancy exactly what its result code says. In a store whose
  invariant holds the call keeps the invariant; a retryable failure changes nothing; when the command
  was pending, \<open>SessionStarted\<close> means that the slot had no open session and now has exactly the
  reported one, \<open>SessionEnded\<close> that the reported one was the open session of the slot and is closed,
  and every other code leaves the open sessions of all slots as they were; a command that was no longer
  pending never changes the occupancy.
\<close>

theorem apply_reports_occupancy:
  assumes "store_ok db" and "applySlotTransitionCommand api io db cid = (db', out)"
    and "find_command db cid = Some row"
  shows "store_ok db' \<and> (cot_code out = CRetryableFailure \<longrightarrow> db' = db) \<and>
    (if is_pending row \<and> cot_code out \<noteq> CRetryableFailure
     then occupancy_effect (sc_slotId (in_command row)) (cot_code out) (cot_sessionId out) (occ db) (occ db')
     else occ db' = occ db)"
  using assms(2)
proof (cases rule: apply_cases)
  case none
  then show ?thesis using assms(1) by simp
next
  case (row r)
  then have "r = row" using assms(3) by simp
  with apply_row_sound [OF assms(1) row(2)] show ?thesis
    by (auto simp: is_pending_def)
qed

theorem apply_reports_occupancy_witness:
  "occ (sample_at 1) ''A1'' = [] \<and>
   occ (fst (applySlotTransitionCommand sample_payload_api True (sample_at 1) ''h1'')) ''A1'' = [1]"
proof -
  obtain db' out where app: "applySlotTransitionCommand sample_payload_api True (sample_at 1) ''h1'' = (db', out)"
    by fastforce
  have "map_option (\<lambda>r. (is_pending r, sc_slotId (in_command r))) (find_command (sample_at 1) ''h1'') = Some (True, ''A1'')"
    by code_simp
  then obtain row where row: "find_command (sample_at 1) ''h1'' = Some row"
    and r: "is_pending row" "sc_slotId (in_command row) = ''A1''" by auto
  have "(let out = snd (applySlotTransitionCommand sample_payload_api True (sample_at 1) ''h1'') in
     (cot_code out, cot_sessionId out)) = (CSessionStarted, 1)" by code_simp
  with app have out: "cot_code out = CSessionStarted" "cot_sessionId out = 1" by auto
  from apply_reports_occupancy [OF sample_state_ok app row] r out app show ?thesis
    by (simp add: occupancy_effect_def)
qed



lemma apply_sound_code:
  assumes "store_ok db" and "applySlotTransitionCommand api io db cid = (db', out)"
    and "cot_code out = CRetryableFailure"
  shows "db' = db"
  using assms(2)
proof (cases rule: apply_cases)
  case (row r)
  then show ?thesis using apply_row_sound(2) [OF assms(1) row(2)] assms(3) by simp
qed




text \<open>
  C5: admission is a strict boundary. Whatever it answers, the invariant and the occupancy of every
  slot stay; any answer but \<open>Admitted\<close> leaves the whole database as it was, a cancelled confirmation
  candidate included; and after \<open>Admitted\<close> the command is a pending row of the inbox, which holds at
  most the configured number of pending rows.
\<close>

theorem admission_is_atomic:
  assumes "store_ok db" and "admitSlotTransitionCommand api io t db c cap = (db', r)"
  shows "store_ok db' \<and> occ db' = occ db \<and>
    (if adm_code r = AdmAdmitted
     then (\<exists>row \<in> set (db_inbox db'). in_command row = c \<and> is_pending row) \<and>
       count_rows is_pending (db_inbox db') \<le> cap
     else db' = db)"
  using admit_sound [OF assms] by simp

theorem admission_is_atomic_witness:
  "adm_code (snd (admitSlotTransitionCommand sample_payload_api True 0 (sample_at 10)
     (sample_command HallObservation ''h2'' ''hall-out'') 1)) = AdmCapacityFull \<and>
   fst (admitSlotTransitionCommand sample_payload_api True 0 (sample_at 10)
     (sample_command HallObservation ''h2'' ''hall-out'') 1) = sample_at 10"
proof -
  let ?a = "admitSlotTransitionCommand sample_payload_api True 0 (sample_at 10)
     (sample_command HallObservation ''h2'' ''hall-out'') 1"
  have full: "adm_code (snd ?a) = AdmCapacityFull" by code_simp
  from admission_is_atomic [OF sample_state_ok prod.collapse [of ?a, symmetric]] full show ?thesis by simp
qed







text \<open>
  C6: the runnable query is a queue per slot. On an open store it returns exactly the pending rows
  that are due and not deferred and that no older pending row of their slot precedes, in admission
  order, and so at most one row per slot.
\<close>

theorem runnable_is_slot_fifo:
  assumes "store_ok db" and "db_opened db"
  shows "set (listRunnableSlotTransitionCommands db now) = {r \<in> set (db_inbox db). is_pending r \<and>
      sc_dueAtEpochMs (in_command r) \<le> now \<and> in_nextAttempt r \<le> now \<and>
      (\<forall>e \<in> set (db_inbox db). is_pending e \<and> sc_slotId (in_command e) = sc_slotId (in_command r) \<longrightarrow>
        in_ordinal r \<le> in_ordinal e)} \<and>
    sorted (map in_ordinal (listRunnableSlotTransitionCommands db now)) \<and>
    distinct (map (\<lambda>r. sc_slotId (in_command r)) (listRunnableSlotTransitionCommands db now))"
proof (intro conjI)
  show "set (listRunnableSlotTransitionCommands db now) = {r \<in> set (db_inbox db). is_pending r \<and>
      sc_dueAtEpochMs (in_command r) \<le> now \<and> in_nextAttempt r \<le> now \<and>
      (\<forall>e \<in> set (db_inbox db). is_pending e \<and> sc_slotId (in_command e) = sc_slotId (in_command r) \<longrightarrow>
        in_ordinal r \<le> in_ordinal e)}"
    using assms(2) by (auto simp: listRunnableSlotTransitionCommands_def runnable_def list_ex_iff not_less)
  show "sorted (map in_ordinal (listRunnableSlotTransitionCommands db now))"
    by (simp add: listRunnableSlotTransitionCommands_def sort_by_sorted)
  have "inj_on (\<lambda>r. sc_slotId (in_command r)) (set (filter (runnable db now) (db_inbox db)))"
  proof (rule inj_onI)
    fix x y
    assume "x \<in> set (filter (runnable db now) (db_inbox db))" "y \<in> set (filter (runnable db now) (db_inbox db))"
      and "sc_slotId (in_command x) = sc_slotId (in_command y)"
    then have "in_ordinal x = in_ordinal y" and "x \<in> set (db_inbox db)" and "y \<in> set (db_inbox db)"
      by (auto simp: runnable_def list_ex_iff) (metis linorder_cases)
    then show "x = y"
      using assms(1) by (auto simp: store_ok_def inbox_ok_def distinct_map dest: inj_onD)
  qed
  moreover have "distinct (db_inbox db)"
    using assms(1) by (auto simp: store_ok_def inbox_ok_def distinct_map)
  ultimately have "distinct (map (\<lambda>r. sc_slotId (in_command r)) (filter (runnable db now) (db_inbox db)))"
    by (simp add: distinct_map)
  then show "distinct (map (\<lambda>r. sc_slotId (in_command r)) (listRunnableSlotTransitionCommands db now))"
    by (simp add: listRunnableSlotTransitionCommands_def sort_by_distinct)
qed

theorem runnable_is_slot_fifo_witness:
  "map row_id (listRunnableSlotTransitionCommands (final_state (store_step sample_payload_api) sample_db sample_run) 9000) = [''c3''] \<and>
   distinct (map (\<lambda>r. sc_slotId (in_command r))
     (listRunnableSlotTransitionCommands (final_state (store_step sample_payload_api) sample_db sample_run) 9000))"
proof -
  have "db_opened (final_state (store_step sample_payload_api) sample_db sample_run)" by code_simp
  moreover have "map row_id (listRunnableSlotTransitionCommands
     (final_state (store_step sample_payload_api) sample_db sample_run) 9000) = [''c3'']" by code_simp
  ultimately show ?thesis using runnable_is_slot_fifo [OF sample_state_ok] by blast
qed

text \<open>
  the texts of the inbox columns are read back as written: every command kind, every status and
  every result code, and nothing else is read as a kind or a status.
\<close>

theorem inbox_texts_roundtrip:
  "(slotCommandKindFromString v = Some k \<longleftrightarrow> v = kind_toString k) \<and>
   (slotCommandStatusFromString w = Some s \<longleftrightarrow> w = status_toString s) \<and>
   resultCodeFromName (resultCodeName c) = c"
proof (intro conjI)
  show "slotCommandKindFromString v = Some k \<longleftrightarrow> v = kind_toString k"
    by (cases k) (auto simp: slotCommandKindFromString_def)
  show "slotCommandStatusFromString w = Some s \<longleftrightarrow> w = status_toString s"
    by (cases s) (auto simp: slotCommandStatusFromString_def)
  show "resultCodeFromName (resultCodeName c) = c"
    by (cases c) (simp_all add: resultCodeFromName_def)
qed

text \<open>
  A second camera EXIT stops a slot. Under the policy \<open>HYBRID_OR\<close> a Hall sensor and a camera
  open a session, the camera reports EXIT, and the exit deadline is applied while the Hall sensor
  still holds the session. A further EXIT of the camera then finds no live deadline and inserts one
  under the id of the applied one, as neither the generation nor the session has changed. The primary
  key rejects the row, the command fails as retryable and leaves the database alone, so that it fails
  again at every attempt; and as it stays the oldest pending row of the slot, at no time is any other
  command of the slot runnable, the VACANT report of the Hall sensor included.
\<close>

theorem repeated_exit_blocks_slot:
  "map row_id (filter is_pending (db_inbox (final_state (store_step sample_payload_api) sample_db sample_run))) =
     [''c3'', ''h2''] \<and>
   (let db = final_state (store_step sample_payload_api) sample_db sample_run;
        (db', out) = applySlotTransitionCommand sample_payload_api True db ''c3'' in
    cot_code out = CRetryableFailure \<and> db' = db \<and>
    (\<forall>now. set (map row_id (listRunnableSlotTransitionCommands db now)) \<subseteq> {''c3''}))"
proof -
  let ?db = "final_state (store_step sample_payload_api) sample_db sample_run"
  have rows: "map (\<lambda>r. (row_id r, in_ordinal r, sc_slotId (in_command r))) (filter is_pending (db_inbox ?db)) =
      [(''c3'', 5, ''A1''), (''h2'', 6, ''A1'')]"
    by code_simp
  then obtain c3 h2 where pend: "filter is_pending (db_inbox ?db) = [c3, h2]"
    and ids: "row_id c3 = ''c3''" "in_ordinal c3 = 5" "sc_slotId (in_command c3) = ''A1''"
      "in_ordinal h2 = 6" "sc_slotId (in_command h2) = ''A1''" "row_id h2 = ''h2''"
    by (auto simp: map_eq_Cons_conv)
  have members: "set (filter is_pending (db_inbox ?db)) = {c3, h2}" by (simp add: pend)
  have only: "r = c3" if run: "runnable ?db now r" and "r \<in> set (db_inbox ?db)" for now r
  proof -
    from that members have "r = c3 \<or> r = h2" by (auto simp: runnable_def)
    moreover have "c3 \<in> set (filter is_pending (db_inbox ?db))" using members by simp
    then have "r \<noteq> h2" using run ids unfolding runnable_def list_ex_iff by auto
    ultimately show ?thesis by simp
  qed
  have code: "cot_code (snd (applySlotTransitionCommand sample_payload_api True ?db ''c3'')) = CRetryableFailure"
    by code_simp
  have "find_command ?db ''c3'' \<noteq> None"
    using members ids by (auto simp: find_command_def find_None_iff row_id_def)
  then obtain row where "find_command ?db ''c3'' = Some row" by auto
  with code have "fst (applySlotTransitionCommand sample_payload_api True ?db ''c3'') = ?db"
    using apply_sound_code [OF sample_state_ok prod.collapse [symmetric]] by blast
  with code pend ids only show ?thesis
    by (auto simp: split_beta Let_def listRunnableSlotTransitionCommands_def)
qed

end
