(* ===== verification/SlotActor.thy ===== *)
theory SlotActor
  imports OccupancyProps
begin

text \<open>
  The actor that feeds the occupancy store (\<open>src/parking/SlotTransitionActor.cpp\<close>): the transport
  queue with one lane per slot, the durable admission of its heads, the runnable commands, the exit
  deadlines, the effects and the purge, composed to one turn of the worker thread; and the start, the
  closing of the ingress and the end of the thread. Each method runs under the mutex or on the worker
  thread alone and is one step; the flags \<open>admitting_\<close>, \<open>deadline_admitting_\<close> and \<open>processing_\<close> are set
  and reset inside a method and never seen between two of them. The test hook \<open>checkpoint\<close>, the
  condition variables and the log are left out. The function \<open>io\<close> says for every call of the store
  whether SQLite succeeds; the effect sink is a parameter that returns or throws.
\<close>

section \<open>State\<close>

datatype SlotSubmitCode = SubTransportQueued | SubAdmitted | SubExisting | SubAlreadyTerminal
  | SubRejectedStale | SubConflict | SubQueueFull | SubClosed | SubRetryableFailure

record SlotSubmitResult =
  sub_code :: SlotSubmitCode
  sub_commandId :: string
  sub_message :: string

definition sub_accepted :: "SlotSubmitResult \<Rightarrow> bool" where
  "sub_accepted r \<longleftrightarrow> sub_code r = SubTransportQueued \<or> sub_code r = SubAdmitted \<or>
     sub_code r = SubExisting \<or> sub_code r = SubAlreadyTerminal"

record ActorConfig =
  ac_transportCapacity :: nat
  ac_durableCapacity :: nat
  ac_retryDelay :: int
  ac_retentionHours :: int
  ac_purgeIntervalMinutes :: int
  ac_purgeBatchSize :: nat

definition default_actor_config :: ActorConfig where
  "default_actor_config = \<lparr>ac_transportCapacity = 16, ac_durableCapacity = 100, ac_retryDelay = 50,
     ac_retentionHours = 24 * 30, ac_purgeIntervalMinutes = 60, ac_purgeBatchSize = 2000\<rparr>"

record IngressItem =
  it_command :: SlotTransitionCommand
  it_ordinal :: "64 word"
  it_nextAttempt :: int

record SlotTransitionActor =
  act_config :: ActorConfig
  act_ingress :: "(string, IngressItem list) umap"
  act_identity :: "(string, string) umap"
  act_size :: nat
  act_nextOrdinal :: "64 word"
  act_lastPurge :: int
  act_started :: bool
  act_ingressOpen :: bool
  act_stopRequested :: bool
  act_drainCutoff :: int

definition newSlotTransitionActor :: "ActorConfig \<Rightarrow> SlotTransitionActor" where
  "newSlotTransitionActor config =
     \<lparr>act_config = config\<lparr>ac_transportCapacity := max 1 (ac_transportCapacity config),
        ac_durableCapacity := max 1 (ac_durableCapacity config),
        ac_retryDelay := max (ac_retryDelay config) 1\<rparr>,
      act_ingress = [], act_identity = [], act_size = 0, act_nextOrdinal = 0, act_lastPurge = 0,
      act_started = False, act_ingressOpen = False, act_stopRequested = False, act_drainCutoff = 0\<rparr>"

datatype store_op = OpAdmit | OpDue | OpApply | OpDefer | OpComplete | OpDeferEffects | OpPurge

type_synonym store_io = "store_op \<Rightarrow> string \<Rightarrow> bool"

section \<open>Submission\<close>

definition identity_key :: "SlotTransitionCommand \<Rightarrow> string" where
  "identity_key command = kind_toString (sc_kind command) @ ''|'' @ sc_sourceIdentity command"

text \<open>The first item with the command id, over the lanes in the order of the map.\<close>

definition find_queued :: "(string, IngressItem list) umap \<Rightarrow> string \<Rightarrow> IngressItem option" where
  "find_queued ingress commandId =
     find (\<lambda>item. sc_commandId (it_command item) = commandId) (concat (map snd ingress))"

definition lane_of :: "(string, IngressItem list) umap \<Rightarrow> string \<Rightarrow> IngressItem list" where
  "lane_of ingress slotId = (case um_find ingress slotId of None \<Rightarrow> [] | Some lane \<Rightarrow> lane)"

definition submit ::
  "'j payload_api \<Rightarrow> SlotTransitionActor \<Rightarrow> SlotTransitionCommand \<Rightarrow> SlotTransitionActor \<times> SlotSubmitResult" where
  "submit api a command =
     (let result = (\<lambda>code cid msg. \<lparr>sub_code = code, sub_commandId = cid, sub_message = msg\<rparr>) in
      if sc_commandId command = [] \<or> sc_slotId command = [] \<or> sc_sourceIdentity command = []
      then (a, result SubConflict (sc_commandId command) ''slot transition command identity is incomplete'')
      else if \<not> act_started a \<or> \<not> act_ingressOpen a \<or> act_stopRequested a
      then (a, result SubClosed (sc_commandId command) ''slot transition ingress is closed'')
      else case um_find (act_identity a) (identity_key command) of
          Some existing \<Rightarrow>
            (case find_queued (act_ingress a) existing of
               Some item \<Rightarrow>
                 if sameSlotSourceFact api (it_command item) command
                 then (a, result SubExisting existing ''source fact already waits for durable admission'')
                 else (a, result SubConflict existing ''queued source identity payload conflict'')
             | None \<Rightarrow> (a, result SubRetryableFailure existing ''ingress identity index is inconsistent''))
        | None \<Rightarrow>
            if act_size a \<ge> ac_transportCapacity (act_config a)
            then (a, result SubQueueFull (sc_commandId command) ''slot transition transport queue is full'')
            else
              let ordinal = act_nextOrdinal a + 1;
                  item = \<lparr>it_command = command, it_ordinal = ordinal, it_nextAttempt = 0\<rparr> in
              (a\<lparr>act_ingress := um_put (sc_slotId command)
                   (lane_of (act_ingress a) (sc_slotId command) @ [item]) (act_ingress a),
                 act_identity := um_emplace (identity_key command) (sc_commandId command) (act_identity a),
                 act_size := act_size a + 1, act_nextOrdinal := ordinal\<rparr>,
               result SubTransportQueued (sc_commandId command) ''normalized command queued for durable admission''))"

definition closeIngress :: "SlotTransitionActor \<Rightarrow> SlotTransitionActor" where
  "closeIngress a = a\<lparr>act_ingressOpen := False\<rparr>"

definition ingressOpen :: "SlotTransitionActor \<Rightarrow> bool" where
  "ingressOpen a = act_ingressOpen a"

section \<open>Durable admission of the lane heads\<close>

text \<open>
  The scan for the head with the least transport ordinal among those that are due. The initial
  value, the largest ordinal, stands for none.
\<close>

fun select_head ::
  "(string \<times> IngressItem list) list \<Rightarrow> int \<Rightarrow> 64 word \<times> SlotTransitionCommand option \<Rightarrow>
     64 word \<times> SlotTransitionCommand option" where
  "select_head [] now sel = sel"
| "select_head ((slotId, lane) # lanes) now sel =
     select_head lanes now
       (case lane of
          [] \<Rightarrow> sel
        | item # _ \<Rightarrow>
            if it_nextAttempt item > now \<or> it_ordinal item \<ge> fst sel then sel
            else (it_ordinal item, Some (it_command item)))"

definition terminal_admission :: "SlotAdmissionResult \<Rightarrow> bool" where
  "terminal_admission r \<longleftrightarrow> adm_accepted r \<or> adm_code r = AdmRejectedStale \<or> adm_code r = AdmConflict"

definition settle_ingress ::
  "SlotTransitionCommand \<Rightarrow> SlotAdmissionResult \<Rightarrow> int \<Rightarrow> SlotTransitionActor \<Rightarrow> SlotTransitionActor" where
  "settle_ingress command admission now a =
     (case um_find (act_ingress a) (sc_slotId command) of
        Some (item # rest) \<Rightarrow>
          if sc_commandId (it_command item) = sc_commandId command
          then
            if terminal_admission admission
            then a\<lparr>act_identity := um_erase (identity_key command) (act_identity a),
                   act_size := act_size a - 1,
                   act_ingress := (if rest = [] then um_erase (sc_slotId command) (act_ingress a)
                     else um_put (sc_slotId command) rest (act_ingress a))\<rparr>
            else a\<lparr>act_ingress := um_put (sc_slotId command)
                     (item\<lparr>it_nextAttempt := now + ac_retryDelay (act_config a)\<rparr> # rest) (act_ingress a)\<rparr>
          else a
      | _ \<Rightarrow> a)"

text \<open>
  One pass of the loop of \<open>processIngress\<close>; \<open>None\<close> when no head is due. The loop itself runs on fuel
  and is \<open>None\<close> when the fuel is used up; the result also listing the admissions.
\<close>

definition admit_head ::
  "'j payload_api \<Rightarrow> store_io \<Rightarrow> int \<Rightarrow> SlotTransitionActor \<Rightarrow> SlotDb \<Rightarrow>
     (SlotTransitionActor \<times> SlotDb \<times> SlotTransitionCommand \<times> SlotAdmissionResult) option" where
  "admit_head api io now a db =
     (case select_head (act_ingress a) now (- 1, None) of
        (ordinal, Some command) \<Rightarrow>
          let (db', admission) = admitSlotTransitionCommand api (io OpAdmit (sc_commandId command)) (now div 1000) db
                command (ac_durableCapacity (act_config a)) in
          Some (settle_ingress command admission now a, db', command, admission)
      | _ \<Rightarrow> None)"

fun processIngress ::
  "nat \<Rightarrow> 'j payload_api \<Rightarrow> store_io \<Rightarrow> int \<Rightarrow> SlotTransitionActor \<Rightarrow> SlotDb \<Rightarrow>
     (SlotTransitionActor \<times> SlotDb \<times> (SlotTransitionCommand \<times> SlotAdmissionResult) list) option" where
  "processIngress fuel api io now a db =
     (case admit_head api io now a db of
        None \<Rightarrow> Some (a, db, [])
      | Some (a', db', command, admission) \<Rightarrow>
          (case fuel of
             0 \<Rightarrow> None
           | Suc n \<Rightarrow> map_option (\<lambda>(a'', db'', rs). (a'', db'', (command, admission) # rs))
               (processIngress n api io now a' db')))"

section \<open>Runnable commands, deadlines and effects\<close>

definition run_command ::
  "'j payload_api \<Rightarrow> store_io \<Rightarrow> int \<Rightarrow> int \<Rightarrow> InboxRow \<Rightarrow> SlotDb \<times> bool \<Rightarrow> SlotDb \<times> bool" where
  "run_command api io now delay row acc =
     (let (db, progress) = acc;
          commandId = sc_commandId (in_command row);
          (db1, result) = applySlotTransitionCommand api (io OpApply commandId) db commandId in
      if cot_code result = CRetryableFailure
      then let (db2, deferred) = deferSlotTransitionCommand (io OpDefer commandId) db1 commandId
                 (now + delay) (cot_message result) in
           (db2, progress \<or> deferred)
      else (db1, True))"

definition processRunnable ::
  "'j payload_api \<Rightarrow> store_io \<Rightarrow> int \<Rightarrow> int \<Rightarrow> SlotDb \<Rightarrow> SlotDb \<times> bool" where
  "processRunnable api io now delay db =
     fold (run_command api io now delay) (listRunnableSlotTransitionCommands db now) (db, False)"

text \<open>
  The loop \<open>while (processRunnable(nowEpochMs()))\<close>: \<open>clock k\<close> is the time read before the pass \<open>k\<close>, and
  \<open>listing k\<close> says whether its listing query works; when it does not, the exception (left) ends the loop
  with the database reached so far. The last component says whether a pass has made progress.
\<close>

fun drain_runnable ::
  "nat \<Rightarrow> 'j payload_api \<Rightarrow> store_io \<Rightarrow> (nat \<Rightarrow> int) \<Rightarrow> (nat \<Rightarrow> bool) \<Rightarrow> int \<Rightarrow> SlotDb \<Rightarrow>
     ((string + unit) \<times> SlotDb \<times> bool) option" where
  "drain_runnable 0 api io clock listing delay db = None"
| "drain_runnable (Suc n) api io clock listing delay db =
     (if \<not> listing 0 then Some (Inl ''runnable occupancy lookup failed'', db, False)
      else let (db', progress) = processRunnable api io (clock 0) delay db in
      if progress
      then map_option (\<lambda>(e, db'', _). (e, db'', True))
        (drain_runnable n api io (\<lambda>k. clock (k + 1)) (\<lambda>k. listing (k + 1)) delay db')
      else Some (Inr (), db', False))"

definition processDueDeadlines ::
  "'j payload_api \<Rightarrow> store_io \<Rightarrow> int \<Rightarrow> SlotTransitionActor \<Rightarrow> SlotDb \<Rightarrow> SlotDb \<times> bool" where
  "processDueDeadlines api io now a db =
     (let blocked = map fst (filter (\<lambda>(slotId, lane). lane \<noteq> []) (act_ingress a)) in
      if \<not> io OpDue [] then (db, False)
      else let (db', admitted) = admitDueSlotDeadlines api (now div 1000) db now
                 (ac_durableCapacity (act_config a)) blocked in
           (db', admitted \<noteq> 0))"

type_synonym 's effect_sink = "'s \<Rightarrow> CommittedOccupancyTransition \<Rightarrow> 's \<times> (string + bool)"

text \<open>What the sink said of an effect: accepted, and the error text otherwise. No sink accepts.\<close>

definition offer_effect ::
  "'s effect_sink option \<Rightarrow> 's \<Rightarrow> CommittedOccupancyTransition \<Rightarrow> 's \<times> bool \<times> string" where
  "offer_effect sink s effect =
     (case sink of
        None \<Rightarrow> (s, True, [])
      | Some f \<Rightarrow>
          (case f s effect of
             (s', Inl e) \<Rightarrow> (s', False, e)
           | (s', Inr True) \<Rightarrow> (s', True, [])
           | (s', Inr False) \<Rightarrow> (s', False, ''effect sink rejected committed transition'')))"

definition acknowledge_effect :: "store_io \<Rightarrow> string \<Rightarrow> SlotDb \<Rightarrow> SlotDb \<times> bool \<times> string" where
  "acknowledge_effect io commandId db =
     (if \<not> io OpComplete commandId then (db, False, ''SQLite occupancy statement failed'')
      else let (db', persisted) = completeSlotTransitionEffects db commandId in
           (db', persisted, if persisted then [] else ''effect acknowledgement could not be persisted''))"

definition deliver_effect ::
  "store_io \<Rightarrow> 's effect_sink option \<Rightarrow> int \<Rightarrow> int \<Rightarrow> CommittedOccupancyTransition \<Rightarrow>
     SlotDb \<times> 's \<times> bool \<Rightarrow> SlotDb \<times> 's \<times> bool" where
  "deliver_effect io sink now delay effect acc =
     (let (db, s, progress) = acc;
          commandId = cot_commandId effect;
          (s', accepted, error) = offer_effect sink s effect;
          (db1, persisted, error1) = (if accepted then acknowledge_effect io commandId db else (db, False, error)) in
      if accepted \<and> persisted then (db1, s', True)
      else let (db2, deferred) = deferSlotTransitionEffects (io OpDeferEffects commandId) db1 commandId
                 (now + delay) error1 in
           (db2, s', progress \<or> deferred))"

definition processEffects ::
  "'j payload_api \<Rightarrow> store_io \<Rightarrow> 's effect_sink option \<Rightarrow> int \<Rightarrow> int \<Rightarrow> SlotDb \<Rightarrow> 's \<Rightarrow>
     string + (SlotDb \<times> 's \<times> bool)" where
  "processEffects api io sink now delay db s =
     (case listPendingSlotTransitionEffects api db now of
        Inl e \<Rightarrow> Inl e
      | Inr effects \<Rightarrow> Inr (fold (deliver_effect io sink now delay) effects (db, s, False)))"

definition purgeSettledIfDue ::
  "store_io \<Rightarrow> int \<Rightarrow> SlotTransitionActor \<Rightarrow> SlotDb \<Rightarrow> SlotTransitionActor \<times> SlotDb" where
  "purgeSettledIfDue io now a db =
     (let config = act_config a in
      if ac_retentionHours config \<le> 0 \<or> ac_purgeBatchSize config = 0 then (a, db)
      else if act_lastPurge a \<noteq> 0 \<and> now - act_lastPurge a < ac_purgeIntervalMinutes config * 60000 then (a, db)
      else (a\<lparr>act_lastPurge := now\<rparr>,
            fst (purgeSettledSlotTransitionCommands (io OpPurge []) db
              (now - ac_retentionHours config * 3600000) (ac_purgeBatchSize config))))"

section \<open>The worker thread\<close>

text \<open>The clock readings of one turn, and whether the listing query of each pass works.\<close>

record TurnClock =
  tc_ingress :: int
  tc_run1 :: "nat \<Rightarrow> int"
  tc_list1 :: "nat \<Rightarrow> bool"
  tc_due :: int
  tc_run2 :: "nat \<Rightarrow> int"
  tc_list2 :: "nat \<Rightarrow> bool"
  tc_effects :: int
  tc_purge :: int

text \<open>
  The store phases that a turn and the replay at the start share: runnable commands, deadlines,
  runnable commands, effects. An exception of a listing or of the effect query (left) keeps the state
  reached so far.
\<close>

definition store_phases ::
  "nat \<Rightarrow> 'j payload_api \<Rightarrow> store_io \<Rightarrow> 's effect_sink option \<Rightarrow> TurnClock \<Rightarrow> SlotTransitionActor \<Rightarrow> SlotDb \<Rightarrow> 's \<Rightarrow>
     ((string + unit) \<times> SlotDb \<times> 's \<times> bool) option" where
  "store_phases fuel api io sink clock a db s =
     (let delay = ac_retryDelay (act_config a) in
      case drain_runnable fuel api io (tc_run1 clock) (tc_list1 clock) delay db of
        None \<Rightarrow> None
      | Some (Inl e, db1, p1) \<Rightarrow> Some (Inl e, db1, s, p1)
      | Some (Inr _, db1, p1) \<Rightarrow>
          let (db2, p2) = processDueDeadlines api io (tc_due clock) a db1 in
          (case drain_runnable fuel api io (tc_run2 clock) (tc_list2 clock) delay db2 of
             None \<Rightarrow> None
           | Some (Inl e, db3, p3) \<Rightarrow> Some (Inl e, db3, s, p1 \<or> p2 \<or> p3)
           | Some (Inr _, db3, p3) \<Rightarrow>
               (case processEffects api io sink (tc_effects clock) delay db3 s of
                  Inl e \<Rightarrow> Some (Inl e, db3, s, p1 \<or> p2 \<or> p3)
                | Inr (db4, s', p4) \<Rightarrow> Some (Inr (), db4, s', p1 \<or> p2 \<or> p3 \<or> p4))))"

definition actor_turn ::
  "nat \<Rightarrow> 'j payload_api \<Rightarrow> store_io \<Rightarrow> 's effect_sink option \<Rightarrow> TurnClock \<Rightarrow> SlotTransitionActor \<Rightarrow> SlotDb \<Rightarrow> 's \<Rightarrow>
     (SlotTransitionActor \<times> SlotDb \<times> 's \<times> bool) option" where
  "actor_turn fuel api io sink clock a db s =
     (case processIngress fuel api io (tc_ingress clock) a db of
        None \<Rightarrow> None
      | Some (a1, db1, admissions) \<Rightarrow>
          (case store_phases fuel api io sink clock a1 db1 s of
             None \<Rightarrow> None
           | Some (Inl e, db2, s', p) \<Rightarrow> Some (a1, db2, s', admissions \<noteq> [] \<or> p)
           | Some (Inr _, db2, s', p) \<Rightarrow>
               let (a2, db3) = purgeSettledIfDue io (tc_purge clock) a1 db2 in
               Some (a2, db3, s', admissions \<noteq> [] \<or> p)))"

text \<open>What the thread does after a turn: the next turn at once, a wait first, or its end.\<close>

datatype RunNext = RunAgain | WaitFor int | RunEnd

definition actor_wait :: "ActorConfig \<Rightarrow> SlotDb \<Rightarrow> int \<Rightarrow> int" where
  "actor_wait config db now =
     (case nextScheduledSlotDeadlineEpochMs db of
        None \<Rightarrow> ac_retryDelay config
      | Some deadline \<Rightarrow>
          if deadline - now > 0 then min (ac_retryDelay config) (deadline - now) else ac_retryDelay config)"

definition actor_after_turn ::
  "int \<Rightarrow> bool \<Rightarrow> SlotTransitionActor \<Rightarrow> SlotDb \<Rightarrow> SlotTransitionActor \<times> RunNext" where
  "actor_after_turn now progressed a db =
     (if progressed then (a, RunAgain)
      else if act_stopRequested a
      then
        if act_size a \<noteq> 0 then (a, WaitFor (ac_retryDelay (act_config a)))
        else
          (case pendingSlotTransitionDrainCount db (act_drainCutoff a) of
             Inl _ \<Rightarrow> (a, WaitFor (ac_retryDelay (act_config a)))
           | Inr n \<Rightarrow>
               if n \<noteq> 0 then (a, WaitFor (ac_retryDelay (act_config a)))
               else (a\<lparr>act_started := False\<rparr>, RunEnd))
      else (a, WaitFor (actor_wait (act_config a) db now)))"

text \<open>The rounds of the replay at the start, with the clock of every round; \<open>None\<close> if they do not end.\<close>

fun replay_rounds ::
  "nat \<Rightarrow> nat \<Rightarrow> 'j payload_api \<Rightarrow> store_io \<Rightarrow> 's effect_sink option \<Rightarrow> (nat \<Rightarrow> TurnClock) \<Rightarrow> SlotTransitionActor \<Rightarrow>
     SlotDb \<Rightarrow> 's \<Rightarrow> ((string + unit) \<times> SlotDb \<times> 's) option" where
  "replay_rounds 0 fuel api io sink clocks a db s = None"
| "replay_rounds (Suc n) fuel api io sink clocks a db s =
     (case store_phases fuel api io sink (clocks 0) a db s of
        None \<Rightarrow> None
      | Some (Inl e, db', s', p) \<Rightarrow> Some (Inl e, db', s')
      | Some (Inr _, db', s', p) \<Rightarrow>
          if p then replay_rounds n fuel api io sink (\<lambda>k. clocks (k + 1)) a db' s' else Some (Inr (), db', s'))"

definition actor_start ::
  "nat \<Rightarrow> nat \<Rightarrow> 'j payload_api \<Rightarrow> store_io \<Rightarrow> 's effect_sink option \<Rightarrow> (nat \<Rightarrow> TurnClock) \<Rightarrow> bool \<Rightarrow> bool \<Rightarrow>
     SlotTransitionActor \<Rightarrow> SlotDb \<Rightarrow> 's \<Rightarrow> (SlotTransitionActor \<times> SlotDb \<times> 's \<times> bool) option" where
  "actor_start rounds fuel api io sink clocks schemaReady threadStarts a db s =
     (if \<not> schemaReady then Some (a, db, s, False)
      else if act_started a then Some (a, db, s, True)
      else
        let a1 = a\<lparr>act_stopRequested := False, act_drainCutoff := 0, act_ingressOpen := False, act_started := True\<rparr> in
        (case replay_rounds rounds fuel api io sink clocks a1 db s of
           None \<Rightarrow> None
         | Some (Inl e, db', s') \<Rightarrow> Some (a1\<lparr>act_started := False\<rparr>, db', s', False)
         | Some (Inr _, db', s') \<Rightarrow>
             if threadStarts then Some (a1\<lparr>act_ingressOpen := True\<rparr>, db', s', True)
             else Some (a1\<lparr>act_started := False\<rparr>, db', s', False)))"

text \<open>The request part of \<open>stopAndDrain\<close>, before it waits for the thread.\<close>

definition request_stop :: "int \<Rightarrow> SlotTransitionActor \<Rightarrow> SlotTransitionActor" where
  "request_stop now a =
     (let a1 = closeIngress a in
      if \<not> act_started a1 then a1
      else a1\<lparr>act_stopRequested := True,
             act_drainCutoff := (if act_drainCutoff a1 = 0 then now else act_drainCutoff a1)\<rparr>)"

definition actor_idle :: "int \<Rightarrow> SlotTransitionActor \<Rightarrow> SlotDb \<Rightarrow> bool" where
  "actor_idle now a db \<longleftrightarrow> act_size a = 0 \<and> pendingSlotTransitionCommandCount db = 0 \<and>
     pendingSlotTransitionEffectCount db = 0 \<and>
     \<not> (case nextScheduledSlotDeadlineEpochMs db of None \<Rightarrow> False | Some d \<Rightarrow> d \<le> now)"

section \<open>The transport queue\<close>

text \<open>The queued items as a multiset, lane by lane.\<close>

definition pool :: "(string, IngressItem list) umap \<Rightarrow> IngressItem multiset" where
  "pool m = mset (concat (map snd m))"

lemma um_erase_absent: "um_find m k = None \<Longrightarrow> um_erase k m = m"
  by (auto simp: um_erase_def um_find_def map_of_eq_None_iff intro!: filter_True)

lemma pool_split: "um_wf m \<Longrightarrow> pool m = mset (lane_of m k) + pool (um_erase k m)"
proof (induction m)
  case (Cons p m)
  obtain a l where p: "p = (a, l)" by (cases p)
  show ?case
  proof (cases "a = k")
    case True
    with Cons.prems have "um_find m k = None"
      by (auto simp: um_wf_def p um_find_def map_of_eq_None_iff)
    then have "um_erase k m = m" by (rule um_erase_absent)
    then show ?thesis using True by (simp add: pool_def p lane_of_def um_find_def um_erase_def)
  next
    case False
    then show ?thesis using Cons by (simp add: pool_def p lane_of_def um_find_def um_erase_def um_wf_def)
  qed
qed (simp add: pool_def lane_of_def um_erase_def)

lemma um_erase_put: "um_wf m \<Longrightarrow> um_erase k (um_put k v m) = um_erase k m"
proof (induction k v m rule: um_put.induct)
  case (2 k v a b m)
  show ?case
  proof (cases "a = k")
    case True
    then show ?thesis by (simp add: um_erase_def)
  next
    case False
    then show ?thesis using 2 by (simp add: um_erase_def um_wf_def)
  qed
qed (simp add: um_erase_def)

lemma lane_of_put [simp]: "lane_of (um_put k v m) x = (if x = k then v else lane_of m x)"
  by (simp add: lane_of_def um_simps)

lemma lane_of_erase [simp]: "lane_of (um_erase k m) x = (if x = k then [] else lane_of m x)"
  by (simp add: lane_of_def um_simps)

lemma pool_put: "um_wf m \<Longrightarrow> pool (um_put k v m) = mset v + pool (um_erase k m)"
  using pool_split [of "um_put k v m" k] by (simp add: um_wf_put um_erase_put)

lemma lane_pool: "um_wf m \<Longrightarrow> item \<in> set (lane_of m k) \<Longrightarrow> item \<in># pool m"
  using pool_split [of m k] by (metis in_multiset_in_set union_iff)

definition lanes_ok :: "(string, IngressItem list) umap \<Rightarrow> bool" where
  "lanes_ok m \<longleftrightarrow> um_wf m \<and> (\<forall>k. um_find m k \<noteq> Some []) \<and>
     (\<forall>k. \<forall>item \<in> set (lane_of m k). sc_slotId (it_command item) = k)"

lemma lanes_ok_put: "lanes_ok m \<Longrightarrow> lane \<noteq> [] \<Longrightarrow> \<forall>item \<in> set lane. sc_slotId (it_command item) = k \<Longrightarrow>
    lanes_ok (um_put k lane m)"
  by (simp add: lanes_ok_def um_wf_put um_simps)

lemma lanes_ok_erase: "lanes_ok m \<Longrightarrow> lanes_ok (um_erase k m)"
  by (simp add: lanes_ok_def um_wf_erase um_simps)

text \<open>
  The invariant of the queue: the lanes are keyed by the slot of their items and never empty; no two
  queued items have the same source identity; the identity index holds the key of every queued item
  and no other, with the command id of the item; the size counts the items and respects the capacity;
  the retry delay is positive.
\<close>

definition index_ok :: "(string, string) umap \<Rightarrow> SlotTransitionCommand multiset \<Rightarrow> bool" where
  "index_ok idx cs \<longleftrightarrow> (\<forall>k. count (image_mset identity_key cs) k \<le> 1) \<and>
     (\<forall>k cid. um_find idx k = Some cid \<longleftrightarrow> (\<exists>c. c \<in># cs \<and> identity_key c = k \<and> sc_commandId c = cid))"

definition actor_ok :: "SlotTransitionActor \<Rightarrow> bool" where
  "actor_ok a \<longleftrightarrow> lanes_ok (act_ingress a) \<and>
     index_ok (act_identity a) (image_mset it_command (pool (act_ingress a))) \<and>
     act_size a = size (pool (act_ingress a)) \<and> act_size a \<le> ac_transportCapacity (act_config a) \<and>
     0 < ac_retryDelay (act_config a)"

lemma index_ok_add:
  assumes "index_ok idx cs" and "um_find idx (identity_key c) = None"
  shows "index_ok (um_emplace (identity_key c) (sc_commandId c) idx) (add_mset c cs)"
proof -
  have fresh: "\<not> (\<exists>x. x \<in># cs \<and> identity_key x = identity_key c)"
    using assms by (auto simp: index_ok_def) (metis option.distinct(1))
  then have "count (image_mset identity_key cs) (identity_key c) = 0"
    by (auto simp: count_eq_zero_iff)
  with assms fresh show ?thesis
    by (auto simp: index_ok_def um_simps)
qed

lemma index_ok_remove:
  assumes "index_ok idx (add_mset c cs)"
  shows "index_ok (um_erase (identity_key c) idx) cs"
proof -
  have one: "count (image_mset identity_key (add_mset c cs)) k \<le> 1" for k
    using assms by (simp only: index_ok_def)
  then have "count (image_mset identity_key cs) (identity_key c) = 0"
    using one [of "identity_key c"] by simp
  then have "identity_key c \<notin># image_mset identity_key cs" by (simp only: count_eq_zero_iff not_False_eq_True)
  then have fresh: "x \<in># cs \<Longrightarrow> identity_key x \<noteq> identity_key c" for x
    by (metis image_eqI set_image_mset)
  have "count (image_mset identity_key cs) k \<le> 1" for k
    using one [of k] by (simp split: if_splits)
  moreover have "um_find (um_erase (identity_key c) idx) k = Some cid \<longleftrightarrow>
      (\<exists>x. x \<in># cs \<and> identity_key x = k \<and> sc_commandId x = cid)" for k cid
    using assms fresh by (auto simp: index_ok_def um_simps)
  ultimately show ?thesis by (simp add: index_ok_def)
qed

lemma submit_ok: "actor_ok a \<Longrightarrow> actor_ok (fst (submit api a c))"
proof -
  assume ok: "actor_ok a"
  let ?item = "\<lparr>it_command = c, it_ordinal = act_nextOrdinal a + 1, it_nextAttempt = 0\<rparr>"
  have wf: "um_wf (act_ingress a)" using ok by (simp add: actor_ok_def lanes_ok_def)
  have pool: "pool (um_put (sc_slotId c) (lane_of (act_ingress a) (sc_slotId c) @ [?item]) (act_ingress a)) =
      add_mset ?item (pool (act_ingress a))"
    using pool_split [OF wf, of "sc_slotId c"] by (simp add: pool_put [OF wf])
  have "lanes_ok (um_put (sc_slotId c) (lane_of (act_ingress a) (sc_slotId c) @ [?item]) (act_ingress a))"
    using ok by (intro lanes_ok_put) (auto simp: actor_ok_def lanes_ok_def)
  moreover have "index_ok (um_emplace (identity_key c) (sc_commandId c) (act_identity a))
      (add_mset c (image_mset it_command (pool (act_ingress a))))"
    if "um_find (act_identity a) (identity_key c) = None"
    using index_ok_add [OF _ that] ok by (simp add: actor_ok_def)
  ultimately show ?thesis
    using ok by (auto simp: submit_def Let_def pool actor_ok_def not_le split: option.splits)
qed

section \<open>Selection of a lane head\<close>

lemma select_head_mono: "fst (select_head lanes now sel) \<le> fst sel"
  by (induction lanes now sel rule: select_head.induct) (auto split: list.splits intro: order_trans)

lemma select_head_cases:
  "select_head lanes now sel = sel \<or>
   (\<exists>slotId item rest. (slotId, item # rest) \<in> set lanes \<and> it_nextAttempt item \<le> now \<and>
      select_head lanes now sel = (it_ordinal item, Some (it_command item)))"
proof (induction lanes now sel rule: select_head.induct)
  case (2 slotId lane lanes now sel)
  then show ?case by (cases lane) (auto split: if_splits simp: not_less)
qed simp

lemma admit_head_Some:
  assumes ok: "actor_ok a" and step: "admit_head api io now a db = Some (a', db', c, r)"
  obtains item rest where "um_find (act_ingress a) (sc_slotId c) = Some (item # rest)" and "it_command item = c"
    and "it_nextAttempt item \<le> now" and "a' = settle_ingress c r now a"
    and "admitSlotTransitionCommand api (io OpAdmit (sc_commandId c)) (now div 1000) db c
           (ac_durableCapacity (act_config a)) = (db', r)"
proof -
  obtain n where sel: "select_head (act_ingress a) now (- 1, None) = (n, Some c)"
    and adm: "admitSlotTransitionCommand api (io OpAdmit (sc_commandId c)) (now div 1000) db c
           (ac_durableCapacity (act_config a)) = (db', r)" and a': "a' = settle_ingress c r now a"
    using step by (auto simp: admit_head_def Let_def split: prod.splits option.splits)
  obtain slotId item rest where item: "(slotId, item # rest) \<in> set (act_ingress a)" "it_nextAttempt item \<le> now"
    "it_command item = c"
    using select_head_cases [of "act_ingress a" now "(- 1, None)"] sel by auto
  have "um_wf (act_ingress a)" using ok by (simp add: actor_ok_def lanes_ok_def)
  then have lane: "um_find (act_ingress a) slotId = Some (item # rest)" using item by (simp add: um_find_mem)
  moreover have "sc_slotId c = slotId"
    using ok lane item(3) by (auto simp: actor_ok_def lanes_ok_def lane_of_def split: option.splits)
  ultimately show thesis using that item a' adm by simp
qed

text \<open>The items a turn at \<open>now\<close> may still admit.\<close>

definition due_items :: "int \<Rightarrow> SlotTransitionActor \<Rightarrow> nat" where
  "due_items now a = size (filter_mset (\<lambda>item. it_nextAttempt item \<le> now) (pool (act_ingress a)))"

lemma settle_ingress_sound:
  assumes ok: "actor_ok a" and lane: "um_find (act_ingress a) (sc_slotId c) = Some (item # rest)"
    and item: "it_command item = c" "it_nextAttempt item \<le> now"
  shows "actor_ok (settle_ingress c r now a)" and "due_items now (settle_ingress c r now a) < due_items now a"
    and "map it_command (lane_of (act_ingress a) slot) =
      (if slot = sc_slotId c \<and> terminal_admission r then [c] else []) @
      map it_command (lane_of (act_ingress (settle_ingress c r now a)) slot)"
proof -
  let ?m = "act_ingress a" and ?k = "sc_slotId c"
  let ?others = "pool (um_erase ?k ?m)"
  have wf: "um_wf ?m" and lanes: "lanes_ok ?m" and delay: "0 < ac_retryDelay (act_config a)"
    using ok by (auto simp: actor_ok_def lanes_ok_def)
  have pool: "pool ?m = add_mset item (mset rest + ?others)"
    using pool_split [OF wf, of ?k] lane by (simp add: lane_of_def)
  have slots: "\<forall>i \<in> set (item # rest). sc_slotId (it_command i) = ?k"
    using lanes lane by (fastforce simp: lanes_ok_def lane_of_def)
  have "actor_ok (settle_ingress c r now a) \<and> due_items now (settle_ingress c r now a) < due_items now a \<and>
    map it_command (lane_of ?m slot) = (if slot = ?k \<and> terminal_admission r then [c] else []) @
      map it_command (lane_of (act_ingress (settle_ingress c r now a)) slot)"
  proof (cases "terminal_admission r")
    case True
    let ?m' = "if rest = [] then um_erase ?k ?m else um_put ?k rest ?m"
    have settle: "settle_ingress c r now a =
        a\<lparr>act_identity := um_erase (identity_key c) (act_identity a), act_size := act_size a - 1, act_ingress := ?m'\<rparr>"
      using True lane item by (simp add: settle_ingress_def)
    have pool': "pool ?m' = mset rest + ?others" by (simp add: pool_put [OF wf])
    have "lanes_ok ?m'" using lanes slots by (simp add: lanes_ok_erase lanes_ok_put)
    moreover have "index_ok (um_erase (identity_key c) (act_identity a)) (image_mset it_command (pool ?m'))"
      using ok item(1) unfolding pool' by (intro index_ok_remove) (simp add: actor_ok_def pool)
    ultimately have "actor_ok (settle_ingress c r now a)"
      using ok by (simp add: settle actor_ok_def pool pool')
    moreover have "due_items now (settle_ingress c r now a) < due_items now a"
      using item(2) by (simp add: settle due_items_def pool pool')
    ultimately show ?thesis using True lane item(1) by (auto simp: settle lane_of_def um_simps)
  next
    case False
    let ?item = "item\<lparr>it_nextAttempt := now + ac_retryDelay (act_config a)\<rparr>"
    let ?m' = "um_put ?k (?item # rest) ?m"
    have settle: "settle_ingress c r now a = a\<lparr>act_ingress := ?m'\<rparr>"
      using False lane item by (simp add: settle_ingress_def)
    have pool': "pool ?m' = add_mset ?item (mset rest + ?others)" by (simp add: pool_put [OF wf])
    have "lanes_ok ?m'" using lanes slots by (intro lanes_ok_put) auto
    then have "actor_ok (settle_ingress c r now a)"
      using ok by (simp add: settle actor_ok_def pool pool')
    moreover have "due_items now (settle_ingress c r now a) < due_items now a"
      using item(2) delay by (simp add: settle due_items_def pool pool')
    ultimately show ?thesis using False lane by (auto simp: settle lane_of_def um_simps)
  qed
  then show "actor_ok (settle_ingress c r now a)" and "due_items now (settle_ingress c r now a) < due_items now a"
    and "map it_command (lane_of ?m slot) = (if slot = ?k \<and> terminal_admission r then [c] else []) @
      map it_command (lane_of (act_ingress (settle_ingress c r now a)) slot)"
    by simp_all
qed

text \<open>The commands of a slot whose admission was final, in the order of the admissions.\<close>

definition settled_commands ::
  "(SlotTransitionCommand \<times> SlotAdmissionResult) list \<Rightarrow> string \<Rightarrow> SlotTransitionCommand list" where
  "settled_commands rs slot = map fst (filter (\<lambda>(c, r). sc_slotId c = slot \<and> terminal_admission r) rs)"

lemma processIngress_sound:
  assumes "actor_ok a" and "store_ok db" and "processIngress fuel api io now a db = Some (a', db', rs)"
  shows "actor_ok a' \<and> store_ok db' \<and> occ db' = occ db \<and>
    (\<forall>slot. map it_command (lane_of (act_ingress a) slot) =
       settled_commands rs slot @ map it_command (lane_of (act_ingress a') slot))"
  using assms
proof (induction fuel arbitrary: a db rs)
  case 0
  then show ?case by (auto simp: settled_commands_def split: option.splits)
next
  case (Suc n)
  show ?case
  proof (cases "admit_head api io now a db")
    case None
    then show ?thesis using Suc.prems by (auto simp: settled_commands_def)
  next
    case (Some p)
    obtain a1 db1 c r where p: "p = (a1, db1, c, r)" by (cases p)
    from admit_head_Some [OF Suc.prems(1) Some [unfolded p]] obtain item rest where
      head: "um_find (act_ingress a) (sc_slotId c) = Some (item # rest)" "it_command item = c"
        "it_nextAttempt item \<le> now" and a1: "a1 = settle_ingress c r now a"
      and adm: "admitSlotTransitionCommand api (io OpAdmit (sc_commandId c)) (now div 1000) db c
           (ac_durableCapacity (act_config a)) = (db1, r)" by metis
    note settled = settle_ingress_sound [OF Suc.prems(1) head, where r = r]
    obtain rs1 where rs: "rs = (c, r) # rs1" "processIngress n api io now a1 db1 = Some (a', db', rs1)"
      using Suc.prems(3) by (auto simp: Some p)
    from Suc.IH [OF settled(1) [folded a1] admit_sound(1) [OF Suc.prems(2) adm] rs(2)]
    show ?thesis
      using settled(3) [folded a1] admit_sound(3) [OF Suc.prems(2) adm]
      by (auto simp: rs(1) settled_commands_def)
  qed
qed


section \<open>Runnable commands\<close>

lemma find_command_mem:
  assumes "store_ok db" and "row \<in> set (db_inbox db)"
  shows "find_command db (row_id row) = Some row"
proof -
  have "find (\<lambda>r. row_id r = row_id row) rows = Some row"
    if "distinct (map row_id rows)" and "row \<in> set rows" for rows
    using that by (induction rows) (auto simp: image_iff)
  from this [of "db_inbox db"] assms show ?thesis
    by (simp add: find_command_def store_ok_def inbox_ok_def row_id_def)
qed

lemma apply_settles_row:
  assumes ok: "store_ok db" and row: "row \<in> set (db_inbox db)" "is_pending row"
    and app: "applySlotTransitionCommand api io db (row_id row) = (db', out)" and "cot_code out \<noteq> CRetryableFailure"
  obtains p f where "db_inbox db' = update_rows p f (db_inbox db)" and "p row" and "\<And>r. p r \<Longrightarrow> row_id r = row_id row"
    and "\<And>r. \<not> is_pending (f r)"
  using app
proof (cases rule: apply_cases)
  case none
  then show thesis using assms(5) by simp
next
  case (row r)
  then have r: "r = row" using find_command_mem [OF ok assms(2)] by simp
  have final: "\<not> is_pending (finish_row d x)" "\<not> is_pending (reject_row e x)" for d e x
    by (simp_all add: finish_row_def reject_row_def is_pending_def Let_def)
  from row(2) [unfolded r] show thesis
  proof (cases rule: apply_row_cases)
    case (malformed e)
    then show thesis
      by (intro that [of "\<lambda>r. sc_commandId (in_command r) = sc_commandId (in_command row)" "reject_row e"])
        (auto simp: final row_id_def)
  next
    case settled
    then show thesis using assms(3) by (simp add: is_pending_def)
  next
    case (reduced pl outc)
    from ok reduced(1) show thesis
    proof (cases rule: apply_pending_cases)
      case (committed d)
      then show thesis using assms(3)
        by (intro that [of "\<lambda>r. sc_commandId (in_command r) = sc_commandId (in_command row) \<and> is_pending r" "finish_row d"])
          (auto simp: final row_id_def)
    next
      case (invalid e)
      then show thesis using assms(3)
        by (intro that [of "\<lambda>r. sc_commandId (in_command r) = sc_commandId (in_command row) \<and> is_pending r" "reject_row e"])
          (auto simp: final row_id_def)
    next
      case failed
      then show thesis using assms(5) by simp
    qed
  qed
qed

text \<open>The pending rows that a pass before \<open>limit\<close> may still find.\<close>

definition open_work :: "int \<Rightarrow> SlotDb \<Rightarrow> nat" where
  "open_work limit db = count_rows (\<lambda>r. is_pending r \<and> in_nextAttempt r \<le> limit) (db_inbox db)"

lemma count_rows_less:
  assumes "\<And>r. p r \<Longrightarrow> \<not> q (f r)" and "x \<in> set rows" and "p x" and "q x"
  shows "count_rows q (update_rows p f rows) < count_rows q rows"
proof -
  have le: "count_rows q (update_rows p f rs) \<le> count_rows q rs" for rs
    by (rule count_rows_update) (simp add: assms(1))
  show ?thesis
    using assms(2)
  proof (induction rows)
    case (Cons y rows)
    then show ?case
      using assms(1,3,4) le [of rows] by (cases "x = y") (auto simp: count_rows_def update_rows_def)
  qed simp
qed

lemma update_rows_frame: "r \<in> set rows \<Longrightarrow> \<not> p r \<Longrightarrow> r \<in> set (update_rows p f rows)"
  by (force simp: update_rows_def)

lemma filter_unique_row:
  assumes "distinct (map g rows)" and "x \<in> set rows" and "p x" and "\<And>r. p r \<Longrightarrow> g r = g x"
  shows "filter p rows = [x]"
  using assms(1,2)
proof (induction rows)
  case (Cons y rows)
  show ?case
  proof (cases "y = x")
    case True
    then have "filter p rows = []"
      using Cons.prems(1) assms(4) by (auto simp: filter_empty_conv image_iff)
    then show ?thesis using True assms(3) by simp
  next
    case False
    then have "\<not> p y" using Cons.prems assms(4) by (auto simp: image_iff)
    then show ?thesis using Cons False by simp
  qed
qed simp

lemma run_command_sound:
  assumes ok: "store_ok db" and row: "row \<in> set (db_inbox db)" "is_pending row" "in_nextAttempt row \<le> limit"
    and limit: "limit < now + delay"
    and run: "run_command api io now delay row (db, progress) = (db', progress')"
  shows "store_ok db'" and "(db' = db \<and> progress' = progress) \<or> (progress' \<and> open_work limit db' < open_work limit db)"
    and "r \<in> set (db_inbox db) \<Longrightarrow> row_id r \<noteq> row_id row \<Longrightarrow> r \<in> set (db_inbox db')"
    and "count_rows is_pending (db_inbox db') \<le> count_rows is_pending (db_inbox db)"
proof -
  let ?cid = "row_id row"
  obtain db1 out where app: "applySlotTransitionCommand api (io OpApply ?cid) db ?cid = (db1, out)" by fastforce
  have "store_ok db' \<and> ((db' = db \<and> progress' = progress) \<or> (progress' \<and> open_work limit db' < open_work limit db)) \<and>
    (r \<in> set (db_inbox db) \<longrightarrow> row_id r \<noteq> row_id row \<longrightarrow> r \<in> set (db_inbox db')) \<and>
    count_rows is_pending (db_inbox db') \<le> count_rows is_pending (db_inbox db)"
  proof (cases "cot_code out = CRetryableFailure")
    case True
    have same: "db1 = db" using apply_sound_code [OF ok app True] .
    let ?p = "\<lambda>r. sc_commandId (in_command r) = ?cid \<and> is_pending r"
    let ?f = "\<lambda>r. r\<lparr>in_attemptCount := in_attemptCount r + 1, in_nextAttempt := now + delay, in_lastError := cot_message out\<rparr>"
    have p: "?p row" using row(2) by (simp add: row_id_def)
    have upd: "store_ok (db\<lparr>db_inbox := update_rows ?p ?f (db_inbox db)\<rparr>)"
      by (rule row_update_ok [OF ok]) simp
    have "open_work limit (db\<lparr>db_inbox := update_rows ?p ?f (db_inbox db)\<rparr>) < open_work limit db"
      using count_rows_less [of ?p "\<lambda>r. is_pending r \<and> in_nextAttempt r \<le> limit" ?f row "db_inbox db"] row limit p
      by (simp add: open_work_def)
    moreover have "count_rows ?p (db_inbox db) = 1"
    proof -
      have "filter ?p (db_inbox db) = [row]"
        using ok row(1) p by (intro filter_unique_row [where g = row_id]) (auto simp: store_ok_def inbox_ok_def row_id_def)
      then show ?thesis by (simp add: count_rows_def)
    qed
    moreover have "count_rows is_pending (update_rows ?p ?f (db_inbox db)) \<le> count_rows is_pending (db_inbox db)"
      by (rule count_rows_update) (simp add: is_pending_def)
    ultimately show ?thesis
      using run app True upd update_rows_frame [of r "db_inbox db" ?p ?f] ok
      by (auto simp: run_command_def Let_def same deferSlotTransitionCommand_def row_id_def split: if_splits)
  next
    case False
    then have res: "db' = db1" "progress'" using run app by (auto simp: run_command_def Let_def row_id_def)
    obtain p f where upd: "db_inbox db1 = update_rows p f (db_inbox db)" "p row"
      and ids: "\<And>r. p r \<Longrightarrow> row_id r = ?cid" and final: "\<And>r. \<not> is_pending (f r)"
      by (rule apply_settles_row [OF ok row(1,2) app False]) (rule that)
    have "open_work limit db1 < open_work limit db"
      using count_rows_less [of p "\<lambda>r. is_pending r \<and> in_nextAttempt r \<le> limit" f row "db_inbox db"] row upd final
      by (simp add: open_work_def)
    moreover have "store_ok db1" using apply_store_ok [OF ok, of api "io OpApply ?cid" ?cid] by (simp add: app)
    moreover have "r \<in> set (db_inbox db1)" if "r \<in> set (db_inbox db)" and "row_id r \<noteq> row_id row"
      using that ids [of r] unfolding upd(1) by (intro update_rows_frame) blast+
    moreover have "count_rows is_pending (db_inbox db1) \<le> count_rows is_pending (db_inbox db)"
      unfolding upd(1) by (rule count_rows_update) (simp add: final)
    ultimately show ?thesis using res by blast
  qed
  then show "store_ok db'" and "(db' = db \<and> progress' = progress) \<or> (progress' \<and> open_work limit db' < open_work limit db)"
    and "r \<in> set (db_inbox db) \<Longrightarrow> row_id r \<noteq> row_id row \<Longrightarrow> r \<in> set (db_inbox db')"
    and "count_rows is_pending (db_inbox db') \<le> count_rows is_pending (db_inbox db)" by auto
qed

lemma run_commands_sound:
  assumes "store_ok db" and "set rows \<subseteq> set (db_inbox db)" and "distinct (map row_id rows)"
    and "\<forall>r \<in> set rows. is_pending r \<and> in_nextAttempt r \<le> limit" and "limit < now + delay"
    and "fold (run_command api io now delay) rows (db, progress) = (db', progress')"
  shows "store_ok db' \<and> ((db' = db \<and> progress' = progress) \<or> (progress' \<and> open_work limit db' < open_work limit db)) \<and>
    count_rows is_pending (db_inbox db') \<le> count_rows is_pending (db_inbox db) \<and>
    (\<forall>r \<in> set (db_inbox db). \<not> is_pending r \<longrightarrow> r \<in> set (db_inbox db'))"
  using assms
proof (induction rows arbitrary: db progress)
  case (Cons row rows)
  obtain db1 progress1 where run: "run_command api io now delay row (db, progress) = (db1, progress1)" by fastforce
  note s = run_command_sound [OF Cons.prems(1) _ _ _ Cons.prems(5) run]
  have head: "row \<in> set (db_inbox db)" "is_pending row" "in_nextAttempt row \<le> limit" using Cons.prems(2,4) by auto
  have "set rows \<subseteq> set (db_inbox db1)"
  proof
    fix r assume r: "r \<in> set rows"
    then have "row_id r \<noteq> row_id row" using Cons.prems(3) by (auto simp: image_iff)
    then show "r \<in> set (db_inbox db1)" using s(3) [OF head] r Cons.prems(2) by auto
  qed
  moreover have "fold (run_command api io now delay) rows (db1, progress1) = (db', progress')"
    using Cons.prems(6) run by simp
  ultimately have "store_ok db' \<and>
      ((db' = db1 \<and> progress' = progress1) \<or> (progress' \<and> open_work limit db' < open_work limit db1)) \<and>
      count_rows is_pending (db_inbox db') \<le> count_rows is_pending (db_inbox db1) \<and>
      (\<forall>r \<in> set (db_inbox db1). \<not> is_pending r \<longrightarrow> r \<in> set (db_inbox db'))"
    using Cons.prems(3-5) s(1) [OF head] by (intro Cons.IH) auto
  moreover have "r \<in> set (db_inbox db1)" if "r \<in> set (db_inbox db)" and "\<not> is_pending r" for r
  proof (rule s(3) [OF head that(1)])
    show "row_id r \<noteq> row_id row"
      using that head Cons.prems(1) by (auto simp: store_ok_def inbox_ok_def distinct_map dest: inj_onD)
  qed
  ultimately show ?case using s(2,4) [OF head] by fastforce
qed simp


lemma processRunnable_sound:
  assumes ok: "store_ok db" and "now \<le> limit" and "limit < now + delay"
    and pass: "processRunnable api io now delay db = (db', progress)"
  shows "store_ok db'" and "if progress then open_work limit db' < open_work limit db else db' = db"
    and "count_rows is_pending (db_inbox db') \<le> count_rows is_pending (db_inbox db)"
    and "r \<in> set (db_inbox db) \<Longrightarrow> \<not> is_pending r \<Longrightarrow> r \<in> set (db_inbox db')"
proof -
  let ?rows = "listRunnableSlotTransitionCommands db now"
  have sub: "set ?rows \<subseteq> {r \<in> set (db_inbox db). is_pending r \<and> in_nextAttempt r \<le> now}"
    by (auto simp: listRunnableSlotTransitionCommands_def runnable_def)
  have "distinct (map row_id ?rows)"
    using ok by (auto simp: listRunnableSlotTransitionCommands_def sort_by_distinct store_ok_def inbox_ok_def
        distinct_map_filter)
  moreover have "\<forall>r \<in> set ?rows. is_pending r \<and> in_nextAttempt r \<le> limit" using sub assms(2) by fastforce
  moreover have "set ?rows \<subseteq> set (db_inbox db)" using sub by auto
  ultimately have "store_ok db' \<and> ((db' = db \<and> progress = False) \<or> (progress \<and> open_work limit db' < open_work limit db)) \<and>
    count_rows is_pending (db_inbox db') \<le> count_rows is_pending (db_inbox db) \<and>
    (\<forall>r \<in> set (db_inbox db). \<not> is_pending r \<longrightarrow> r \<in> set (db_inbox db'))"
    using run_commands_sound [OF ok, of ?rows limit now delay api io False db' progress] assms(3) pass
    by (simp add: processRunnable_def)
  then show "store_ok db'" and "if progress then open_work limit db' < open_work limit db else db' = db"
    and "count_rows is_pending (db_inbox db') \<le> count_rows is_pending (db_inbox db)"
    and "r \<in> set (db_inbox db) \<Longrightarrow> \<not> is_pending r \<Longrightarrow> r \<in> set (db_inbox db')" by auto
qed


lemma drain_sound:
  assumes "store_ok db" and "0 < delay" and "drain_runnable fuel api io clock listing delay db = Some (e, db', p)"
  shows "store_ok db' \<and> count_rows is_pending (db_inbox db') \<le> count_rows is_pending (db_inbox db) \<and>
    (\<forall>r \<in> set (db_inbox db). \<not> is_pending r \<longrightarrow> r \<in> set (db_inbox db'))"
  using assms
proof (induction fuel arbitrary: db clock listing p)
  case (Suc n)
  obtain db1 p1 where pass: "processRunnable api io (clock 0) delay db = (db1, p1)" by fastforce
  have "clock 0 \<le> clock 0" "clock 0 < clock 0 + delay" using Suc.prems(2) by simp_all
  note s = processRunnable_sound [OF Suc.prems(1) this pass]
  show ?case
  proof (cases "listing 0 \<and> p1")
    case True
    obtain p2 where "drain_runnable n api io (\<lambda>k. clock (k + 1)) (\<lambda>k. listing (k + 1)) delay db1 = Some (e, db', p2)"
      using Suc.prems(3) pass True by auto
    from Suc.IH [OF s(1) Suc.prems(2) this] s(3,4) show ?thesis by fastforce
  next
    case False
    then have "db' = db \<or> db' = db1" using Suc.prems(3) pass by (auto split: if_splits)
    then show ?thesis using Suc.prems(1) s by auto
  qed
qed simp


section \<open>Effects\<close>

text \<open>A sink that also records the command ids of the effects it accepted.\<close>

definition recorded :: "'s effect_sink \<Rightarrow> ('s \<times> string list) effect_sink" where
  "recorded f = (\<lambda>(s, taken) effect.
     case f s effect of (s', r) \<Rightarrow>
       ((s', if r = Inr True then taken @ [cot_commandId effect] else taken), r))"

definition unacknowledged :: "string \<Rightarrow> SlotDb \<Rightarrow> bool" where
  "unacknowledged cid db \<longleftrightarrow> (\<exists>r \<in> set (db_inbox db). row_id r = cid \<and> effect_pending r)"

lemma unacknowledged_update:
  assumes "unacknowledged cid db" and "\<And>r. row_id r = cid \<Longrightarrow> p r \<Longrightarrow> row_id (f r) = cid \<and> effect_pending (f r) = effect_pending r"
  shows "unacknowledged cid (db\<lparr>db_inbox := update_rows p f (db_inbox db)\<rparr>)"
proof -
  obtain r where r: "r \<in> set (db_inbox db)" "row_id r = cid" "effect_pending r"
    using assms(1) by (auto simp: unacknowledged_def)
  show ?thesis
  proof (cases "p r")
    case True
    then have "f r \<in> set (update_rows p f (db_inbox db))" using r(1) by (force simp: update_rows_def)
    with assms(2) [OF r(2) True] r(3) show ?thesis by (auto simp: unacknowledged_def)
  next
    case False
    with r update_rows_frame [of r "db_inbox db" p f] show ?thesis by (auto simp: unacknowledged_def)
  qed
qed

lemma complete_sound:
  assumes "store_ok db" and "completeSlotTransitionEffects db eid = (db', ok)"
  shows "store_ok db'" and "occ db' = occ db"
    and "unacknowledged cid db \<Longrightarrow> cid \<noteq> eid \<Longrightarrow> unacknowledged cid db'"
    and "count_rows is_pending (db_inbox db') \<le> count_rows is_pending (db_inbox db)"
proof -
  let ?p = "\<lambda>r. sc_commandId (in_command r) = eid \<and> effect_pending r"
  let ?f = "\<lambda>r. r\<lparr>in_effectState := EffectApplied, in_effectNextAttempt := 0, in_effectLastError := []\<rparr>"
  have db': "db' = db \<or> db' = db\<lparr>db_inbox := update_rows ?p ?f (db_inbox db)\<rparr>"
    using assms(2) by (auto simp: completeSlotTransitionEffects_def Let_def split: if_splits)
  then show "store_ok db'" using assms(1) row_update_ok [OF assms(1), of ?f ?p] by auto
  show "occ db' = occ db" using db' by (auto simp: occ_def open_rows_def fun_eq_iff)
  show "unacknowledged cid db'" if "unacknowledged cid db" "cid \<noteq> eid"
    using db' that unacknowledged_update [OF that(1), of ?p ?f] by (auto simp: row_id_def)
  show "count_rows is_pending (db_inbox db') \<le> count_rows is_pending (db_inbox db)"
    using db' count_rows_update [of ?p is_pending ?f "db_inbox db"] by (auto simp: is_pending_def effect_pending_def)
qed

lemma defer_effects_sound:
  assumes "store_ok db" and "deferSlotTransitionEffects io db eid t e = (db', ok)"
  shows "store_ok db'" and "occ db' = occ db" and "unacknowledged cid db \<Longrightarrow> unacknowledged cid db'"
    and "count_rows is_pending (db_inbox db') \<le> count_rows is_pending (db_inbox db)"
proof -
  let ?p = "\<lambda>r. sc_commandId (in_command r) = eid \<and> effect_pending r"
  let ?f = "\<lambda>r. r\<lparr>in_effectAttemptCount := in_effectAttemptCount r + 1, in_effectNextAttempt := t, in_effectLastError := e\<rparr>"
  have db': "db' = db \<or> db' = db\<lparr>db_inbox := update_rows ?p ?f (db_inbox db)\<rparr>"
    using assms(2) by (auto simp: deferSlotTransitionEffects_def Let_def split: if_splits)
  then show "store_ok db'" using assms(1) row_update_ok [OF assms(1), of ?f ?p] by auto
  show "occ db' = occ db" using db' by (auto simp: occ_def open_rows_def fun_eq_iff)
  show "unacknowledged cid db'" if "unacknowledged cid db"
    using db' that unacknowledged_update [OF that, of ?p ?f] by (auto simp: row_id_def effect_pending_def)
  show "count_rows is_pending (db_inbox db') \<le> count_rows is_pending (db_inbox db)"
    using db' count_rows_update [of ?p is_pending ?f "db_inbox db"] by (auto simp: is_pending_def)
qed

lemma acknowledge_sound:
  assumes "store_ok db" and "acknowledge_effect io eid db = (db', ok, e)"
  shows "store_ok db'" and "occ db' = occ db"
    and "unacknowledged cid db \<Longrightarrow> cid \<noteq> eid \<Longrightarrow> unacknowledged cid db'"
  using assms complete_sound(1-3) [OF assms(1)]
  by (auto simp: acknowledge_effect_def split: if_splits prod.splits)

lemma deliver_effect_sound:
  assumes ok: "store_ok db" and step: "deliver_effect io (Some (recorded f)) now delay e (db, (s, taken), p) = (db', (s', taken'), p')"
  shows "store_ok db'" and "occ db' = occ db" and "set taken \<subseteq> set taken'"
    and "unacknowledged cid db \<Longrightarrow> cid \<notin> set taken' \<Longrightarrow> unacknowledged cid db'"
proof -
  obtain s1 r where f: "f s e = (s1, r)" by fastforce
  have "store_ok db' \<and> occ db' = occ db \<and> set taken \<subseteq> set taken' \<and>
    (unacknowledged cid db \<longrightarrow> cid \<notin> set taken' \<longrightarrow> unacknowledged cid db')"
  proof (cases "r = Inr True")
    case True
    obtain db1 ok1 err where ack: "acknowledge_effect io (cot_commandId e) db = (db1, ok1, err)" by (metis prod_cases3)
    obtain db2 ok2 where def: "deferSlotTransitionEffects (io OpDeferEffects (cot_commandId e)) db1 (cot_commandId e) (now + delay) err = (db2, ok2)"
      by fastforce
    note a = acknowledge_sound [OF ok ack]
    note d = defer_effects_sound [OF a(1) def]
    have "taken' = taken @ [cot_commandId e]" and "db' = (if ok1 then db1 else db2)"
      using step by (auto simp: deliver_effect_def offer_effect_def recorded_def f True Let_def ack def split: if_splits)
    then show ?thesis using a d by auto
  next
    case False
    obtain err where off: "offer_effect (Some (recorded f)) (s, taken) e = ((s1, taken), False, err)"
      using False by (cases r) (auto simp: offer_effect_def recorded_def f)
    obtain db2 ok2 where def: "deferSlotTransitionEffects (io OpDeferEffects (cot_commandId e)) db (cot_commandId e) (now + delay) err = (db2, ok2)"
      by fastforce
    note d = defer_effects_sound [OF ok def]
    have "taken' = taken" and "db' = db2"
      using step by (auto simp: deliver_effect_def off Let_def def)
    then show ?thesis using d by auto
  qed
  then show "store_ok db'" and "occ db' = occ db" and "set taken \<subseteq> set taken'"
    and "unacknowledged cid db \<Longrightarrow> cid \<notin> set taken' \<Longrightarrow> unacknowledged cid db'" by auto
qed

lemma deliver_effects_sound:
  assumes "store_ok db" and "fold (deliver_effect io (Some (recorded f)) now delay) es (db, (s, taken), p) = (db', (s', taken'), p')"
  shows "store_ok db' \<and> occ db' = occ db \<and> set taken \<subseteq> set taken' \<and>
    (unacknowledged cid db \<longrightarrow> cid \<notin> set taken' \<longrightarrow> unacknowledged cid db')"
  using assms
proof (induction es arbitrary: db s taken p)
  case (Cons e es)
  obtain db1 s1 taken1 p1 where step: "deliver_effect io (Some (recorded f)) now delay e (db, (s, taken), p) = (db1, (s1, taken1), p1)"
    by (metis prod.collapse)
  note one = deliver_effect_sound [OF Cons.prems(1) step]
  have "fold (deliver_effect io (Some (recorded f)) now delay) es (db1, (s1, taken1), p1) = (db', (s', taken'), p')"
    using Cons.prems(2) step by simp
  from Cons.IH [OF one(1) this] one show ?case by auto
qed simp

section \<open>One turn\<close>

lemma settled_unacknowledged:
  assumes "unacknowledged cid db"
    and "\<And>r. r \<in> set (db_inbox db) \<Longrightarrow> \<not> is_pending r \<Longrightarrow> r \<in> set (db_inbox db')"
  shows "unacknowledged cid db'"
  using assms by (auto simp: unacknowledged_def effect_pending_def is_pending_def)

lemma admit_keeps_settled:
  assumes "admitSlotTransitionCommand api io t db c cap = (db', r)" and "x \<in> set (db_inbox db)" and "\<not> is_pending x"
  shows "x \<in> set (db_inbox db')"
  using assms(1)
proof (cases rule: admit_cases)
  case (transaction corr)
  have cancel: "x \<in> set (db_inbox (cancel_candidate cid db))" for cid
    using assms(2,3) by (auto simp: cancel_candidate_def intro: update_rows_frame)
  from admit_transaction_sound [OF transaction] assms(2) cancel show ?thesis by auto
qed (use assms in simp)

lemma admit_pending_bound:
  assumes "store_ok db" and "admitSlotTransitionCommand api io t db c cap = (db', r)"
  shows "count_rows is_pending (db_inbox db') \<le> max cap (count_rows is_pending (db_inbox db))"
  using admit_sound(2,4) [OF assms] by (cases "adm_code r = AdmAdmitted") auto

lemma processIngress_store:
  assumes "actor_ok a" and "store_ok db" and "processIngress fuel api io now a db = Some (a', db', rs)"
  shows "act_config a' = act_config a \<and> (unacknowledged cid db \<longrightarrow> unacknowledged cid db') \<and>
    count_rows is_pending (db_inbox db') \<le> max (ac_durableCapacity (act_config a)) (count_rows is_pending (db_inbox db))"
  using assms
proof (induction fuel arbitrary: a db rs)
  case 0
  then show ?case by (auto split: option.splits)
next
  case (Suc n)
  show ?case
  proof (cases "admit_head api io now a db")
    case None
    then show ?thesis using Suc.prems by auto
  next
    case (Some p)
    obtain a1 db1 c r where p: "p = (a1, db1, c, r)" by (cases p)
    from admit_head_Some [OF Suc.prems(1) Some [unfolded p]] obtain item rest where
      head: "um_find (act_ingress a) (sc_slotId c) = Some (item # rest)" "it_command item = c"
        "it_nextAttempt item \<le> now" and a1: "a1 = settle_ingress c r now a"
      and adm: "admitSlotTransitionCommand api (io OpAdmit (sc_commandId c)) (now div 1000) db c
           (ac_durableCapacity (act_config a)) = (db1, r)" by metis
    have cfg: "act_config a1 = act_config a" by (auto simp: a1 settle_ingress_def split: option.splits list.splits)
    obtain rs1 where "processIngress n api io now a1 db1 = Some (a', db', rs1)"
      using Suc.prems(3) by (auto simp: Some p)
    note IH = Suc.IH [OF settle_ingress_sound(1) [OF Suc.prems(1) head, where r = r, folded a1]
        admit_sound(1) [OF Suc.prems(2) adm] this]
    have "unacknowledged cid db \<Longrightarrow> unacknowledged cid db1"
      by (erule settled_unacknowledged) (rule admit_keeps_settled [OF adm])
    with IH cfg admit_pending_bound [OF Suc.prems(2) adm] show ?thesis by auto
  qed
qed

lemma admit_deadlines_frame:
  "x \<in> set (db_inbox db) \<Longrightarrow> fold (admit_deadline api t) ds (db, n, k) = (db', n', k') \<Longrightarrow> x \<in> set (db_inbox db')"
proof (induction ds arbitrary: db n k)
  case (Cons d ds)
  obtain db1 n1 k1 where step: "admit_deadline api t d (db, n, k) = (db1, n1, k1)" by (metis prod_cases3)
  then have "x \<in> set (db_inbox db1)" using Cons.prems(1) by (auto simp: admit_deadline_def Let_def split: if_splits)
  with Cons.IH [of db1 n1 k1] Cons.prems(2) step show ?case by simp
qed simp

lemma processDueDeadlines_sound:
  assumes ok: "store_ok db" and due: "processDueDeadlines api io now a db = (db', p)"
  shows "store_ok db'" and "occ db' = occ db" and "unacknowledged cid db \<Longrightarrow> unacknowledged cid db'"
    and "count_rows is_pending (db_inbox db') \<le> max (ac_durableCapacity (act_config a)) (count_rows is_pending (db_inbox db))"
proof -
  let ?blocked = "map fst (filter (\<lambda>(slotId, lane). lane \<noteq> []) (act_ingress a))"
  obtain db1 n where adm: "admitDueSlotDeadlines api (now div 1000) db now (ac_durableCapacity (act_config a)) ?blocked = (db1, n)"
    by fastforce
  have db': "db' = db \<or> db' = db1" using due adm by (auto simp: processDueDeadlines_def split: if_splits)
  note s = admit_due_sound [OF ok adm]
  show "store_ok db'" and "occ db' = occ db"
    and "count_rows is_pending (db_inbox db') \<le> max (ac_durableCapacity (act_config a)) (count_rows is_pending (db_inbox db))"
    using db' s ok by auto
  have "x \<in> set (db_inbox db1)" if x: "x \<in> set (db_inbox db)" for x
    using adm admit_deadlines_frame [OF x] x
    by (auto simp: admitDueSlotDeadlines_def Let_def split: if_splits prod.splits)
  then have "unacknowledged cid db \<Longrightarrow> unacknowledged cid db1" by (auto simp: unacknowledged_def)
  then show "unacknowledged cid db \<Longrightarrow> unacknowledged cid db'" using db' by auto
qed

lemma purge_keeps_unacknowledged:
  assumes "store_ok db" and "unacknowledged cid db"
  shows "unacknowledged cid (fst (purgeSettledSlotTransitionCommands io db t n))"
proof -
  obtain x where x: "x \<in> set (db_inbox db)" "row_id x = cid" "effect_pending x"
    using assms(2) by (auto simp: unacknowledged_def)
  have other: "sc_commandId (in_command x) \<noteq> sc_commandId (in_command y)"
    if y: "y \<in> set (db_inbox db)" "settled_before t y" for y
  proof
    assume "sc_commandId (in_command x) = sc_commandId (in_command y)"
    then have "x = y"
      using find_command_mem [OF assms(1) x(1)] find_command_mem [OF assms(1) y(1)] by (simp add: row_id_def)
    then show False using x(3) y(2) by (simp add: effect_pending_def settled_before_def)
  qed
  have "sc_commandId (in_command x) \<notin>
      (\<lambda>r. sc_commandId (in_command r)) ` set (take n (sort_by le (filter (settled_before t) (db_inbox db))))" for le
  proof
    assume "sc_commandId (in_command x) \<in>
        (\<lambda>r. sc_commandId (in_command r)) ` set (take n (sort_by le (filter (settled_before t) (db_inbox db))))"
    then obtain y where "sc_commandId (in_command x) = sc_commandId (in_command y)"
      "y \<in> set (sort_by le (filter (settled_before t) (db_inbox db)))"
      by (blast dest: in_set_takeD)
    with other [of y] show False by simp
  qed
  then show ?thesis using x
    by (auto simp: purgeSettledSlotTransitionCommands_def Let_def unacknowledged_def)
qed

text \<open>
  The database that the store phases, and a turn, have reached when the delivery of the effects begins,
  or when a listing query before it throws.
\<close>

definition phases_before_effects ::
  "nat \<Rightarrow> 'j payload_api \<Rightarrow> store_io \<Rightarrow> TurnClock \<Rightarrow> SlotTransitionActor \<Rightarrow> SlotDb \<Rightarrow> SlotDb option" where
  "phases_before_effects fuel api io clock a db =
     (case drain_runnable fuel api io (tc_run1 clock) (tc_list1 clock) (ac_retryDelay (act_config a)) db of
        None \<Rightarrow> None
      | Some (Inl _, db1, _) \<Rightarrow> Some db1
      | Some (Inr _, db1, _) \<Rightarrow>
          map_option (fst \<circ> snd) (drain_runnable fuel api io (tc_run2 clock) (tc_list2 clock)
            (ac_retryDelay (act_config a)) (fst (processDueDeadlines api io (tc_due clock) a db1))))"

definition turn_before_effects ::
  "nat \<Rightarrow> 'j payload_api \<Rightarrow> store_io \<Rightarrow> TurnClock \<Rightarrow> SlotTransitionActor \<Rightarrow> SlotDb \<Rightarrow> SlotDb option" where
  "turn_before_effects fuel api io clock a db =
     Option.bind (processIngress fuel api io (tc_ingress clock) a db) (\<lambda>(a1, db1, _).
       phases_before_effects fuel api io clock a1 db1)"

lemma store_phases_sound:
  assumes ok: "store_ok db" and delay: "0 < ac_retryDelay (act_config a)"
    and run: "store_phases fuel api io (Some (recorded f)) clock a db (s, taken) = Some (e, db', (s', taken'), p)"
  shows "store_ok db' \<and> (\<exists>dbm. phases_before_effects fuel api io clock a db = Some dbm \<and>
    (unacknowledged cid db \<longrightarrow> unacknowledged cid dbm) \<and>
    (unacknowledged cid dbm \<longrightarrow> cid \<notin> set taken' \<longrightarrow> unacknowledged cid db'))"
proof -
  let ?delay = "ac_retryDelay (act_config a)"
  obtain e1 db1 p1 where d1: "drain_runnable fuel api io (tc_run1 clock) (tc_list1 clock) ?delay db = Some (e1, db1, p1)"
    using run by (auto simp: store_phases_def Let_def split: option.splits)
  note s1 = drain_sound [OF ok delay d1]
  have un1: "unacknowledged cid db \<Longrightarrow> unacknowledged cid db1" using s1 settled_unacknowledged [of cid db db1] by blast
  show ?thesis
  proof (cases e1)
    case (Inl x)
    then have "db' = db1" "phases_before_effects fuel api io clock a db = Some db1"
      using run d1 by (auto simp: store_phases_def phases_before_effects_def Let_def)
    then show ?thesis using s1 un1 by blast
  next
    case (Inr u)
    obtain db2 p2 where due: "processDueDeadlines api io (tc_due clock) a db1 = (db2, p2)" by fastforce
    obtain e3 db3 p3 where d2: "drain_runnable fuel api io (tc_run2 clock) (tc_list2 clock) ?delay db2 = Some (e3, db3, p3)"
      using run d1 due Inr by (auto simp: store_phases_def Let_def split: option.splits)
    note s2 = processDueDeadlines_sound [OF conjunct1 [OF s1] due]
    note s3 = drain_sound [OF s2(1) delay d2]
    have un: "unacknowledged cid db \<Longrightarrow> unacknowledged cid db3"
      using un1 s2(3) [of cid] s3 settled_unacknowledged [of cid db2 db3] by blast
    have dbm: "phases_before_effects fuel api io clock a db = Some db3"
      by (simp add: phases_before_effects_def d1 due d2 Inr)
    have "store_ok db' \<and> (unacknowledged cid db3 \<longrightarrow> cid \<notin> set taken' \<longrightarrow> unacknowledged cid db')"
    proof (cases "\<exists>v. e3 = Inr v \<and> (\<exists>es. listPendingSlotTransitionEffects api db3 (tc_effects clock) = Inr es)")
      case False
      then have "db' = db3"
        using run d1 due d2 Inr
        by (auto simp: store_phases_def Let_def processEffects_def split: sum.splits)
      then show ?thesis using s3 by blast
    next
      case True
      then obtain v es where v: "e3 = Inr v" "listPendingSlotTransitionEffects api db3 (tc_effects clock) = Inr es" by blast
      obtain p4 where "fold (deliver_effect io (Some (recorded f)) (tc_effects clock) ?delay) es (db3, (s, taken), False) =
          (db', (s', taken'), p4)"
        using run d1 due d2 Inr v by (auto simp: store_phases_def Let_def processEffects_def split: prod.splits)
      from deliver_effects_sound [OF conjunct1 [OF s3] this, of cid] show ?thesis by blast
    qed
    with un dbm show ?thesis by blast
  qed
qed

lemma purgeIfDue_sound:
  assumes "store_ok db" and "purgeSettledIfDue io now a db = (a', db')"
  shows "store_ok db'" and "actor_ok a' = actor_ok a" and "unacknowledged cid db \<Longrightarrow> unacknowledged cid db'"
  using assms purge_ok [OF assms(1)] purge_keeps_unacknowledged [OF assms(1)]
  by (auto simp: purgeSettledIfDue_def Let_def actor_ok_def split: if_splits)

lemma actor_turn_sound:
  assumes ok: "actor_ok a" "store_ok db"
    and turn: "actor_turn fuel api io (Some (recorded f)) clock a db (s, taken) = Some (a', db', (s', taken'), p)"
  shows "actor_ok a' \<and> store_ok db' \<and> (\<exists>dbm. turn_before_effects fuel api io clock a db = Some dbm \<and>
    (unacknowledged cid db \<longrightarrow> unacknowledged cid dbm) \<and>
    (unacknowledged cid dbm \<longrightarrow> cid \<notin> set taken' \<longrightarrow> unacknowledged cid db'))"
proof -
  obtain a1 db1 rs where ing: "processIngress fuel api io (tc_ingress clock) a db = Some (a1, db1, rs)"
    using turn by (auto simp: actor_turn_def split: option.splits)
  note i = processIngress_sound [OF ok ing] and j = processIngress_store [OF ok ing, of cid]
  then have delay: "0 < ac_retryDelay (act_config a1)" using ok(1) by (simp add: actor_ok_def)
  obtain e db2 s2 taken2 p2 where ph: "store_phases fuel api io (Some (recorded f)) clock a1 db1 (s, taken) = Some (e, db2, (s2, taken2), p2)"
    using turn ing by (auto simp: actor_turn_def split: option.splits)
  have st: "store_ok db1" using i by simp
  obtain dbm where q: "store_ok db2" "phases_before_effects fuel api io clock a1 db1 = Some dbm"
    "unacknowledged cid db1 \<longrightarrow> unacknowledged cid dbm"
    "unacknowledged cid dbm \<longrightarrow> cid \<notin> set taken2 \<longrightarrow> unacknowledged cid db2"
    using store_phases_sound [OF st delay ph, of cid] by blast
  have dbm: "turn_before_effects fuel api io clock a db = Some dbm"
    using ing q(2) by (simp add: turn_before_effects_def)
  have "actor_ok a' \<and> store_ok db' \<and> (unacknowledged cid dbm \<longrightarrow> cid \<notin> set taken' \<longrightarrow> unacknowledged cid db')"
  proof (cases e)
    case (Inl x)
    then show ?thesis using turn ing ph i q by (auto simp: actor_turn_def)
  next
    case (Inr x)
    obtain a3 db3 where pg: "purgeSettledIfDue io (tc_purge clock) a1 db2 = (a3, db3)" by fastforce
    note g = purgeIfDue_sound [OF q(1) pg]
    show ?thesis using turn ing ph pg Inr i q g by (auto simp: actor_turn_def)
  qed
  with dbm j q(3) show ?thesis by blast
qed


section \<open>Properties\<close>

text \<open>
  C4: the transport queue is lossless and first-in first-out per slot. Whatever the store answers,
  after the admission loop the commands of a slot are split: those answered with a final result
  (accepted, stale, or in conflict) form a prefix of the old lane, in the old order, and the others
  are still queued behind them in their order; queue and store keep their invariants and the
  occupancy does not change.
\<close>

theorem ingress_is_lossless_fifo:
  assumes "actor_ok a" and "store_ok db" and "processIngress fuel api io now a db = Some (a', db', rs)"
  shows "actor_ok a' \<and> store_ok db' \<and> occ db' = occ db \<and>
    map it_command (lane_of (act_ingress a) slot) =
      map fst (filter (\<lambda>(c, r). sc_slotId c = slot \<and> terminal_admission r) rs) @
      map it_command (lane_of (act_ingress a') slot)"
  using processIngress_sound [OF assms] by (simp add: settled_commands_def)

definition sample_actor :: SlotTransitionActor where
  "sample_actor = (newSlotTransitionActor default_actor_config)\<lparr>act_started := True, act_ingressOpen := True\<rparr>"

definition sample_queue :: SlotTransitionActor where
  "sample_queue = final_state (submit sample_payload_api) sample_actor
     [sample_command HallObservation ''h1'' ''hall-in'', sample_command CameraObservation ''c1'' ''cam-in'']"

lemma sample_actor_ok: "actor_ok sample_actor"
  by (simp add: actor_ok_def sample_actor_def newSlotTransitionActor_def default_actor_config_def lanes_ok_def
      lane_of_def pool_def index_ok_def)

interpretation slot_actor: invariant_machine "submit api" actor_ok
  by unfold_locales (rule submit_ok)

lemma sample_queue_ok: "actor_ok sample_queue"
  unfolding sample_queue_def by (rule slot_actor.inv_run) (rule sample_actor_ok)

theorem ingress_is_lossless_fifo_witness:
  "map (sc_commandId \<circ> it_command) (lane_of (act_ingress sample_queue) ''A1'') = [''h1'', ''c1''] \<and>
   (\<exists>a' db' rs. processIngress 2 sample_payload_api (\<lambda>_ _. True) 9000 sample_queue sample_db = Some (a', db', rs) \<and>
      occ db' = occ sample_db \<and> map (sc_commandId \<circ> fst) rs = [''h1'', ''c1''])"
proof -
  have q: "map (sc_commandId \<circ> it_command) (lane_of (act_ingress sample_queue) ''A1'') = [''h1'', ''c1'']"
    by code_simp
  have "map_option (\<lambda>(a', db', rs). map (sc_commandId \<circ> fst) rs)
      (processIngress 2 sample_payload_api (\<lambda>_ _. True) 9000 sample_queue sample_db) = Some [''h1'', ''c1'']"
    by code_simp
  then obtain a' db' rs where run: "processIngress 2 sample_payload_api (\<lambda>_ _. True) 9000 sample_queue sample_db = Some (a', db', rs)"
    and rs: "map (sc_commandId \<circ> fst) rs = [''h1'', ''c1'']" by auto
  have "occ db' = occ sample_db"
    using ingress_is_lossless_fifo [OF sample_queue_ok sample_db_ok run, where slot = "''A1''"] by simp
  then show ?thesis using run rs q by (intro conjI exI [of _ a'] exI [of _ db'] exI [of _ rs])
qed

text \<open>
  C9: the identity index of the queue is never inconsistent. A submission keeps the invariant of the
  queue, so that its size stays within the configured capacity, and never reaches the branch that
  reports a lost index entry; an answer other than \<open>TransportQueued\<close> leaves the actor as it was.
\<close>

theorem submit_index_consistent:
  assumes "actor_ok a"
  shows "actor_ok (fst (submit api a c)) \<and> sub_code (snd (submit api a c)) \<noteq> SubRetryableFailure \<and>
    act_size (fst (submit api a c)) \<le> ac_transportCapacity (act_config a) \<and>
    (sub_code (snd (submit api a c)) \<noteq> SubTransportQueued \<longrightarrow> fst (submit api a c) = a)"
proof -
  have found: "find_queued (act_ingress a) cid \<noteq> None" if "um_find (act_identity a) k = Some cid" for k cid
  proof -
    have "\<exists>x. x \<in># image_mset it_command (pool (act_ingress a)) \<and> sc_commandId x = cid"
      using assms that by (auto simp: actor_ok_def index_ok_def)
    then show ?thesis by (auto simp: find_queued_def find_None_iff pool_def)
  qed
  have "sub_code (snd (submit api a c)) \<noteq> SubRetryableFailure"
    using found [of "identity_key c"] by (auto simp: submit_def Let_def split: option.splits)
  moreover have "sub_code (snd (submit api a c)) \<noteq> SubTransportQueued \<longrightarrow> fst (submit api a c) = a"
    and config: "act_config (fst (submit api a c)) = act_config a"
    using found [of "identity_key c"] by (auto simp: submit_def Let_def split: option.splits)
  moreover have ok: "actor_ok (fst (submit api a c))" by (rule submit_ok [OF assms])
  moreover have "act_size (fst (submit api a c)) \<le> ac_transportCapacity (act_config a)"
    using ok config by (simp add: actor_ok_def)
  ultimately show ?thesis by simp
qed

theorem submit_index_consistent_witness:
  "sub_code (snd (submit sample_payload_api sample_queue (sample_command HallObservation ''h1'' ''hall-in''))) = SubExisting \<and>
   fst (submit sample_payload_api sample_queue (sample_command HallObservation ''h1'' ''hall-in'')) = sample_queue"
proof -
  have code: "sub_code (snd (submit sample_payload_api sample_queue (sample_command HallObservation ''h1'' ''hall-in''))) = SubExisting"
    by code_simp
  then have "sub_code (snd (submit sample_payload_api sample_queue (sample_command HallObservation ''h1'' ''hall-in'')))
      \<noteq> SubTransportQueued" by (simp only: SlotSubmitCode.distinct not_False_eq_True)
  with submit_index_consistent [OF sample_queue_ok] code show ?thesis by blast
qed

text \<open>
  C3: the effects of committed transitions are delivered at least once. A turn of the worker that ends
  keeps the invariants of queue and store, and a committed effect is dropped from the outbox only after
  the sink has accepted it. Whatever fails during the turn: an effect that was pending before it is
  pending when the turn comes to deliver effects, or ends because a listing query throws; and an effect
  pending then, which includes the effects that the turn itself committed, is still pending after the
  turn, the purge of settled rows included, unless the sink has accepted it. The clock readings are
  arbitrary.
\<close>

theorem effects_delivered_at_least_once:
  assumes "actor_ok a" and "store_ok db"
    and "actor_turn fuel api io (Some (recorded f)) clock a db (s, []) = Some (a', db', (s', taken), p)"
  shows "actor_ok a' \<and> store_ok db' \<and> (\<exists>dbm. turn_before_effects fuel api io clock a db = Some dbm \<and>
    (unacknowledged cid db \<longrightarrow> unacknowledged cid dbm) \<and>
    (unacknowledged cid dbm \<longrightarrow> unacknowledged cid db' \<or> cid \<in> set taken))"
  using actor_turn_sound [OF assms, of cid] by blast

definition sample_clock :: TurnClock where
  "sample_clock = \<lparr>tc_ingress = 9000, tc_run1 = (\<lambda>_. 9000), tc_list1 = (\<lambda>_. True), tc_due = 9000,
     tc_run2 = (\<lambda>_. 9000), tc_list2 = (\<lambda>_. True), tc_effects = 9000, tc_purge = 9000\<rparr>"

definition refusing_sink :: "unit effect_sink" where
  "refusing_sink = (\<lambda>s e. (s, Inr False))"


theorem effects_delivered_at_least_once_witness:
  "unacknowledged ''h1'' (sample_at 2) \<and>
   (\<exists>a' db' s' p. actor_turn 9 sample_payload_api (\<lambda>_ _. True) (Some (recorded refusing_sink)) sample_clock sample_queue
      (sample_at 2) ((), []) = Some (a', db', (s', []), p) \<and> unacknowledged ''h1'' db')"
proof -
  let ?turn = "actor_turn 9 sample_payload_api (\<lambda>_ _. True) (Some (recorded refusing_sink)) sample_clock sample_queue
      (sample_at 2) ((), [])"
  have pending: "unacknowledged ''h1'' (sample_at 2)" unfolding unacknowledged_def by code_simp
  have "map_option (\<lambda>(_, _, (_, taken), _). taken) ?turn = Some []" by code_simp
  then obtain a' db' s' p where turn: "?turn = Some (a', db', (s', []), p)" by auto
  from effects_delivered_at_least_once [OF sample_queue_ok sample_state_ok turn, of "''h1''"]
    pending turn show ?thesis by auto
qed



text \<open>
  the pause between two turns is positive and never longer than the retry delay, and while a
  scheduled deadline lies in the future it does not sleep past it.
\<close>

theorem pause_is_bounded:
  assumes "0 < ac_retryDelay config"
  shows "0 < actor_wait config db now \<and> actor_wait config db now \<le> ac_retryDelay config \<and>
    (case nextScheduledSlotDeadlineEpochMs db of
       None \<Rightarrow> True | Some d \<Rightarrow> d \<le> now \<or> now + actor_wait config db now \<le> d)"
  using assms by (auto simp: actor_wait_def split: option.splits)

theorem pause_is_bounded_witness:
  "actor_wait default_actor_config sample_db 0 = 50 \<and> 0 < actor_wait default_actor_config sample_db 0"
proof -
  have delay: "0 < ac_retryDelay default_actor_config" by (simp add: default_actor_config_def)
  have "actor_wait default_actor_config sample_db 0 = 50" by code_simp
  with pause_is_bounded [OF delay, of sample_db 0] show ?thesis by simp
qed

lemma count_rows_0: "count_rows p rows = 0 \<longleftrightarrow> list_all (\<lambda>r. \<not> p r) rows"
  by (simp add: count_rows_def filter_empty_conv list_all_iff)

text \<open>
  C10: the shutdown waits for the work. The worker thread ends only after it was asked to, with an
  empty transport queue, no pending row that was due at the cutoff, no scheduled deadline due by then
  and no undelivered effect; a stop request closes the ingress, so that nothing is queued after it.
\<close>

theorem shutdown_waits_for_work:
  assumes "actor_after_turn now progressed a db = (a', RunEnd)"
  shows "act_stopRequested a \<and> act_size a = 0 \<and> \<not> act_started a' \<and>
    list_all (\<lambda>r. \<not> (is_pending r \<and> sc_dueAtEpochMs (in_command r) \<le> act_drainCutoff a) \<and> \<not> effect_pending r) (db_inbox db) \<and>
    list_all (\<lambda>d. \<not> deadline_due (act_drainCutoff a) d) (db_deadlines db) \<and>
    sub_code (snd (submit api (request_stop t b) c)) \<in> {SubConflict, SubClosed}"
proof -
  have "\<not> act_ingressOpen (request_stop t b)" by (simp add: request_stop_def closeIngress_def Let_def)
  then have "sub_code (snd (submit api (request_stop t b) c)) \<in> {SubConflict, SubClosed}"
    by (simp add: submit_def Let_def)
  then show ?thesis using assms
    by (auto simp: actor_after_turn_def pendingSlotTransitionDrainCount_def count_rows_0 list_all_iff
        split: if_splits)
qed

theorem shutdown_waits_for_work_witness:
  "actor_after_turn 9000 False (request_stop 8000 sample_actor) sample_db =
     ((request_stop 8000 sample_actor)\<lparr>act_started := False\<rparr>, RunEnd) \<and>
   act_size (request_stop 8000 sample_actor) = 0"
proof -
  have "actor_after_turn 9000 False (request_stop 8000 sample_actor) sample_db =
     ((request_stop 8000 sample_actor)\<lparr>act_started := False\<rparr>, RunEnd)"
    by code_simp
  with shutdown_waits_for_work [OF this, where api = sample_payload_api] show ?thesis by simp
qed

end
