(* ===== verification/IvaOccupancy.thy ===== *)
theory IvaOccupancy
  imports SessionWorker
begin

text \<open>
  Camera area events: the aggregation of the areas of a slot
  (\<^verbatim>\<open>src/event/IvaSlotOccupancyAggregator.cpp\<close>), the confirmation of exits
  (\<^verbatim>\<open>src/event/IvaOccupancyCoordinator.cpp\<close>), the resolution of an event to one slot
  (\<^verbatim>\<open>src/event/IvaEventResolver.cpp\<close>) and the adapter of ONVIF events
  (\<^verbatim>\<open>src/event/OnvifIvaEventAdapter.cpp\<close>). Coordinates are of an arbitrary type, the ISO time parser
  is an argument of the adapter, times are in nanoseconds.
\<close>

section \<open>Names\<close>

definition c_tolower :: "char \<Rightarrow> char" where
  "c_tolower c = (if 65 \<le> (of_char c :: nat) \<and> (of_char c :: nat) \<le> 90 then char_of (of_char c + (32 :: nat)) else c)"

definition lowerCopy :: "string \<Rightarrow> string" where
  "lowerCopy s = map c_tolower s"

definition canonicalToken :: "string \<Rightarrow> string" where
  "canonicalToken token =
     (let t = lowerCopy token in
      if take 17 t = ''videosourcetoken-'' then ''vs-'' @ drop 17 t else t)"

definition observationKey :: "string \<Rightarrow> string \<Rightarrow> string \<Rightarrow> string" where
  "observationKey cameraId videoSourceToken ruleName =
     lowerCopy cameraId @ [CHR 10] @ canonicalToken videoSourceToken @ [CHR 10] @ lowerCopy ruleName"

section \<open>Aggregation of the areas of a slot\<close>

record IvaSlotOccupancyUpdate =
  upd_slotId :: string
  upd_occupied :: bool
  upd_activeAreaCount :: nat
  upd_knownAreaCount :: nat
  upd_configuredAreaCount :: nat

record AreaStates =
  ars_configured :: "string set"
  ars_observed :: "(string, bool) umap"
  ars_lastEmitted :: "bool option"

type_synonym Aggregator = "(string, AreaStates) umap"

definition no_areas :: AreaStates where
  "no_areas = \<lparr>ars_configured = {}, ars_observed = [], ars_lastEmitted = None\<rparr>"

definition slot_areas :: "Aggregator \<Rightarrow> string \<Rightarrow> AreaStates" where
  "slot_areas agg slotId = (case um_find agg slotId of None \<Rightarrow> no_areas | Some st \<Rightarrow> st)"

definition register_slot :: "ParkingSlotConfig \<Rightarrow> Aggregator \<Rightarrow> Aggregator" where
  "register_slot slot agg =
     (if \<not> cfg_enabled slot then agg
      else
        let st = slot_areas agg (cfg_slotId slot);
            keys = map (\<lambda>b. observationKey (bnd_cameraId b) (bnd_videoSourceToken b) (bnd_ruleName b))
              (filter bnd_enabled (cfg_cameraBindings slot)) in
        um_put (cfg_slotId slot) (st\<lparr>ars_configured := ars_configured st \<union> set keys\<rparr>) agg)"

definition newAggregator :: "ParkingSlotConfig list \<Rightarrow> Aggregator" where
  "newAggregator slots = fold register_slot slots []"

definition active_areas :: "AreaStates \<Rightarrow> nat" where
  "active_areas st = length (filter snd (ars_observed st))"

definition aggregator_update ::
  "Aggregator \<Rightarrow> string \<Rightarrow> string \<Rightarrow> string \<Rightarrow> string \<Rightarrow> bool \<Rightarrow> Aggregator \<times> IvaSlotOccupancyUpdate option" where
  "aggregator_update agg slotId cameraId videoSourceToken ruleName active =
     (let key = observationKey cameraId videoSourceToken ruleName in
      case um_find agg slotId of
        None \<Rightarrow> (agg, None)
      | Some st \<Rightarrow>
          if key \<notin> ars_configured st then (agg, None)
          else
            let st1 = st\<lparr>ars_observed := um_put key active (ars_observed st)\<rparr>;
                activeCount = active_areas st1;
                known = length (ars_observed st1);
                allAreasKnown = (known = card (ars_configured st1));
                occupied = (activeCount \<noteq> 0) in
            if activeCount = 0 \<and> \<not> allAreasKnown then (um_put slotId st1 agg, None)
            else if ars_lastEmitted st1 = Some occupied then (um_put slotId st1 agg, None)
            else (um_put slotId (st1\<lparr>ars_lastEmitted := Some occupied\<rparr>) agg,
                  Some \<lparr>upd_slotId = slotId, upd_occupied = occupied, upd_activeAreaCount = activeCount,
                        upd_knownAreaCount = known, upd_configuredAreaCount = card (ars_configured st1)\<rparr>))"

section \<open>Confirmation of exits\<close>

datatype IvaOccupancyAction = Enter | Intrusion | Exit | UnsupportedAction

record IvaOccupancySignal =
  sig_slotId :: string
  sig_cameraId :: string
  sig_videoSourceToken :: string
  sig_ruleName :: string
  sig_objectId :: string
  sig_action :: IvaOccupancyAction
  sig_authoritativeExit :: bool
  sig_sourceIdentity :: string
  sig_occurredAtFromSource :: bool
  sig_occurredAt :: int
  sig_channelId :: string
  sig_occupancyAuthority :: bool
  sig_sourceTransport :: string

datatype IvaCoordinationCode = CoordOccupied | CoordExitPending | CoordExitCanceled | CoordDuplicate
  | CoordIgnoredEnter | CoordIgnoredCustomExit | CoordUnsupported

record IvaCoordinationResult =
  crd_code :: IvaCoordinationCode
  crd_signal :: IvaOccupancySignal
  crd_activeAreaCount :: nat
  crd_knownAreaCount :: nat
  crd_configuredAreaCount :: nat

record PendingExit =
  pex_signal :: IvaOccupancySignal
  pex_deadline :: int

record IvaOccupancyCoordinator =
  ivc_exitConfirmDelay :: int
  ivc_aggregator :: Aggregator
  ivc_pendingBySlot :: "(string, PendingExit) umap"

definition newIvaOccupancyCoordinator :: "ParkingSlotConfig list \<Rightarrow> int \<Rightarrow> IvaOccupancyCoordinator" where
  "newIvaOccupancyCoordinator slots exitConfirmDelay =
     \<lparr>ivc_exitConfirmDelay = max 1 exitConfirmDelay, ivc_aggregator = newAggregator slots,
      ivc_pendingBySlot = []\<rparr>"

definition with_counts :: "IvaSlotOccupancyUpdate \<Rightarrow> IvaCoordinationResult \<Rightarrow> IvaCoordinationResult" where
  "with_counts u r = r\<lparr>crd_activeAreaCount := upd_activeAreaCount u, crd_knownAreaCount := upd_knownAreaCount u,
     crd_configuredAreaCount := upd_configuredAreaCount u\<rparr>"

definition coordinator_handle ::
  "IvaOccupancyCoordinator \<Rightarrow> IvaOccupancySignal \<Rightarrow> int \<Rightarrow> IvaOccupancyCoordinator \<times> IvaCoordinationResult" where
  "coordinator_handle co s now =
     (let result = (\<lambda>code. \<lparr>crd_code = code, crd_signal = s, crd_activeAreaCount = 0,
            crd_knownAreaCount = 0, crd_configuredAreaCount = 0\<rparr>) in
      if sig_action s = Enter then (co, result CoordIgnoredEnter)
      else if sig_action s = Exit \<and> \<not> sig_authoritativeExit s then (co, result CoordIgnoredCustomExit)
      else if sig_action s \<noteq> Intrusion \<and> sig_action s \<noteq> Exit then (co, result CoordUnsupported)
      else
        let (agg', aggregate) = aggregator_update (ivc_aggregator co) (sig_slotId s) (sig_cameraId s)
              (sig_videoSourceToken s) (sig_ruleName s) (sig_action s = Intrusion);
            co1 = co\<lparr>ivc_aggregator := agg'\<rparr> in
        if sig_action s = Intrusion
        then
          let canceled = um_contains (ivc_pendingBySlot co1) (sig_slotId s);
              co2 = co1\<lparr>ivc_pendingBySlot := um_erase (sig_slotId s) (ivc_pendingBySlot co1)\<rparr> in
          (case aggregate of
             Some u \<Rightarrow> (co2, with_counts u (result (if canceled then CoordExitCanceled else CoordOccupied)))
           | None \<Rightarrow> (co2, result (if canceled then CoordExitCanceled else CoordDuplicate)))
        else
          (case aggregate of
             None \<Rightarrow> (co1, result CoordDuplicate)
           | Some u \<Rightarrow>
               if upd_occupied u then (co1, result CoordDuplicate)
               else if um_contains (ivc_pendingBySlot co1) (sig_slotId s)
               then (co1, with_counts u (result CoordDuplicate))
               else (co1\<lparr>ivc_pendingBySlot := um_emplace (sig_slotId s)
                        \<lparr>pex_signal = s, pex_deadline = now + ivc_exitConfirmDelay co1 * 1000000\<rparr>
                        (ivc_pendingBySlot co1)\<rparr>,
                     with_counts u (result CoordExitPending))))"

definition coordinator_nextDeadline :: "IvaOccupancyCoordinator \<Rightarrow> int option" where
  "coordinator_nextDeadline co = earliest_of (map (\<lambda>(k, p). pex_deadline p) (ivc_pendingBySlot co))"

fun take_due_exits ::
  "int \<Rightarrow> (string, PendingExit) umap \<Rightarrow> IvaOccupancySignal list \<times> (string, PendingExit) umap" where
  "take_due_exits now [] = ([], [])"
| "take_due_exits now ((k, p) # rest) =
     (let (due, kept) = take_due_exits now rest in
      if pex_deadline p > now then (due, (k, p) # kept) else (pex_signal p # due, kept))"

definition coordinator_takeDue :: "int \<Rightarrow> IvaOccupancyCoordinator \<Rightarrow> IvaOccupancySignal list \<times> IvaOccupancyCoordinator" where
  "coordinator_takeDue now co =
     (let (due, kept) = take_due_exits now (ivc_pendingBySlot co) in (due, co\<lparr>ivc_pendingBySlot := kept\<rparr>))"

section \<open>Resolution of an event\<close>

record CameraEvent =
  cev_raw_topic :: string
  cev_raw_payload :: string
  cev_timestamp :: string
  cev_timestamp_from_source :: bool
  cev_event_channel_id :: string
  cev_video_source_token :: string
  cev_rule_name :: string
  cev_declared_camera_id :: string
  cev_action :: string
  cev_object_id :: string
  cev_is_smart_parking_iva :: bool
  cev_protocol_valid :: bool
  cev_protocol_error :: string
  cev_source_type :: string
  cev_source_id :: string
  cev_event_type :: string
  cev_severity :: string
  cev_is_iva_area_event :: bool
  cev_is_active :: bool
  cev_iva_area_id :: string
  cev_slot_id :: string

record 'd IvaAreaConfig =
  iac_slot_id :: string
  iac_area_name :: string
  iac_channel_id :: string
  iac_roi_x :: 'd
  iac_roi_y :: 'd
  iac_roi_width :: 'd
  iac_roi_height :: 'd
  iac_snapshot_api_channel :: int
  iac_roi_configured :: bool

record 'd IvaResolvedTarget =
  irt_slotId :: string
  irt_channelId :: string
  irt_ruleName :: string
  irt_observationVideoSourceToken :: string
  irt_areaName :: string
  irt_roiX :: 'd
  irt_roiY :: 'd
  irt_roiWidth :: 'd
  irt_roiHeight :: 'd

definition identifierCharacter :: "char \<Rightarrow> bool" where
  "identifierCharacter c \<longleftrightarrow> c_isdigit c \<or> (97 \<le> (of_char (c_tolower c) :: nat) \<and> (of_char (c_tolower c) :: nat) \<le> 122) \<or>
     c = CHR ''_'' \<or> c = CHR ''-''"

text \<open>
  The search loop of \<open>containsRuleName\<close> over the rest of the text: \<open>prev\<close> is the character before it,
  \<open>skip\<close> the number of characters up to the next start of a comparison, which after a match without
  boundaries is the length of the name.
\<close>

fun rule_search :: "string \<Rightarrow> char option \<Rightarrow> nat \<Rightarrow> string \<Rightarrow> bool" where
  "rule_search needle prev skip [] = False"
| "rule_search needle prev skip (c # cs) =
     (if skip > 0 then rule_search needle (Some c) (skip - 1) cs
      else if take (length needle) (c # cs) = needle
      then
        let leftBoundary = (case prev of None \<Rightarrow> True | Some p \<Rightarrow> \<not> identifierCharacter p);
            rightBoundary = (case drop (length needle) (c # cs) of [] \<Rightarrow> True | e # _ \<Rightarrow> \<not> identifierCharacter e) in
        (leftBoundary \<and> rightBoundary) \<or> rule_search needle (Some c) (length needle - 1) cs
      else rule_search needle (Some c) 0 cs)"

definition containsRuleName :: "string \<Rightarrow> string \<Rightarrow> bool" where
  "containsRuleName raw ruleName =
     (raw \<noteq> [] \<and> ruleName \<noteq> [] \<and> rule_search (lowerCopy ruleName) None 0 (lowerCopy raw))"

definition equalIgnoringCase :: "string \<Rightarrow> string \<Rightarrow> bool" where
  "equalIgnoringCase l r \<longleftrightarrow> lowerCopy l = lowerCopy r"

text \<open>The only element of a list; the first error for none, the second for several.\<close>

definition only_one :: "string \<Rightarrow> string \<Rightarrow> 'a list \<Rightarrow> string + 'a" where
  "only_one missing ambiguous xs = (case xs of [] \<Rightarrow> Inl missing | [x] \<Rightarrow> Inr x | _ \<Rightarrow> Inl ambiguous)"

definition resolved_target ::
  "ParkingSlotConfig \<Rightarrow> SlotObservationBinding \<Rightarrow> 'd IvaAreaConfig \<Rightarrow> 'd IvaResolvedTarget" where
  "resolved_target slot binding area =
     \<lparr>irt_slotId = cfg_slotId slot, irt_channelId = iac_channel_id area, irt_ruleName = bnd_ruleName binding,
      irt_observationVideoSourceToken = bnd_videoSourceToken binding, irt_areaName = iac_area_name area,
      irt_roiX = iac_roi_x area, irt_roiY = iac_roi_y area, irt_roiWidth = iac_roi_width area,
      irt_roiHeight = iac_roi_height area\<rparr>"

definition binding_matches :: "string \<Rightarrow> string \<Rightarrow> string \<Rightarrow> SlotObservationBinding \<Rightarrow> bool" where
  "binding_matches cameraId eventToken raw b \<longleftrightarrow> bnd_enabled b \<and> bnd_cameraId b = cameraId \<and>
     canonicalToken (bnd_videoSourceToken b) = eventToken \<and> containsRuleName raw (bnd_ruleName b)"

definition resolve ::
  "string \<Rightarrow> CameraEvent \<Rightarrow> ParkingSlotConfig list \<Rightarrow> 'd IvaAreaConfig list \<Rightarrow> string + 'd IvaResolvedTarget" where
  "resolve cameraId ev slots areas =
     (if cev_video_source_token ev = [] then Inl ''missing or invalid video source token''
      else
        let raw = cev_raw_topic ev @ [CHR 10] @ cev_raw_payload ev;
            eventToken = canonicalToken (cev_video_source_token ev);
            found = concat (map (\<lambda>s. map (Pair s) (filter (binding_matches cameraId eventToken raw) (cfg_cameraBindings s)))
              (filter cfg_enabled slots)) in
        try_bind (only_one ''camera/token/rule mapping not found'' ''ambiguous camera/token/rule mapping'' found) (\<lambda>(slot, binding).
        try_bind (only_one ''ROI mapping not found for slot'' ''duplicate ROI mapping for slot''
            (filter (\<lambda>a. iac_slot_id a = cfg_slotId slot) areas)) (\<lambda>area.
          Inr (resolved_target slot binding area))))"

definition resolveSmartParkingPublication ::
  "string \<Rightarrow> CameraEvent \<Rightarrow> ParkingSlotConfig list \<Rightarrow> 'd IvaAreaConfig list \<Rightarrow> string + 'd IvaResolvedTarget" where
  "resolveSmartParkingPublication cameraId ev slots areas =
     (if \<not> cev_is_smart_parking_iva ev then Inl ''not a smart parking IVA publication''
      else if cev_slot_id ev = [] \<or> cev_rule_name ev = [] \<or> cev_video_source_token ev = [] \<or> cev_event_channel_id ev = []
      then Inl ''missing publication slot/rule/channel identity''
      else
        try_bind (only_one ''publication slot mapping not found'' ''ambiguous publication slot mapping''
            (filter (\<lambda>s. cfg_enabled s \<and> cfg_slotId s = cev_slot_id ev) slots)) (\<lambda>slot.
        try_bind (only_one ''publication camera/rule mapping not found'' ''ambiguous publication camera/rule mapping''
            (filter (\<lambda>b. bnd_enabled b \<and> bnd_cameraId b = cameraId \<and> equalIgnoringCase (bnd_ruleName b) (cev_rule_name ev))
              (cfg_cameraBindings slot))) (\<lambda>binding.
        try_bind (only_one ''ROI mapping not found for publication slot'' ''duplicate ROI mapping for publication slot''
            (filter (\<lambda>a. iac_slot_id a = cfg_slotId slot) areas)) (\<lambda>area.
          if \<not> equalIgnoringCase (cev_event_channel_id ev) (iac_channel_id area)
          then Inl ''publication token/channel mapping mismatch''
          else Inr (resolved_target slot binding area)))))"

section \<open>The adapter of ONVIF events\<close>

text \<open>The fields of \<open>AppConfig\<close> that the adapter reads.\<close>

record 'd AppConfig =
  app_camera_id :: string
  app_iva_areas :: "'d IvaAreaConfig list"
  app_parking_occupancy_source :: string

record OnvifIvaEvent =
  ove_utcTime :: string
  ove_operation :: string
  ove_videoSourceToken :: string
  ove_ruleName :: string
  ove_state :: string
  ove_objectId :: string
  ove_action :: string

definition upperCopy :: "string \<Rightarrow> string" where
  "upperCopy s = map c_toupper s"

definition hex_char :: "nat \<Rightarrow> char" where
  "hex_char d = (if d < 10 then digit_char d else char_of (87 + d))"

definition hex16 :: "64 word \<Rightarrow> string" where
  "hex16 w = map (\<lambda>i. hex_char (unat w div 16 ^ (15 - i) mod 16)) [0..<16]"

definition stableHash :: "string \<Rightarrow> string" where
  "stableHash value = hex16 (foldl (\<lambda>hash byte. (Bit_Operations.xor hash (of_nat (of_char byte))) * 1099511628211)
     (14695981039346656037 :: 64 word) value)"

definition blank_camera_event :: CameraEvent where
  "blank_camera_event = \<lparr>cev_raw_topic = [], cev_raw_payload = [], cev_timestamp = [],
     cev_timestamp_from_source = False, cev_event_channel_id = [], cev_video_source_token = [],
     cev_rule_name = [], cev_declared_camera_id = [], cev_action = [], cev_object_id = [],
     cev_is_smart_parking_iva = False, cev_protocol_valid = True, cev_protocol_error = [],
     cev_source_type = [], cev_source_id = [], cev_event_type = [], cev_severity = [],
     cev_is_iva_area_event = False, cev_is_active = True, cev_iva_area_id = [], cev_slot_id = []\<rparr>"

definition onvif_camera_event :: "OnvifIvaEvent \<Rightarrow> string \<Rightarrow> CameraEvent" where
  "onvif_camera_event src action = blank_camera_event
     \<lparr>cev_raw_topic := ''onvif-pullpoint/OpenApp/WiseAI/IvaArea/&'' @ ove_videoSourceToken src @ ''/'' @
        ove_ruleName src,
      cev_timestamp := ove_utcTime src, cev_timestamp_from_source := True,
      cev_video_source_token := ove_videoSourceToken src, cev_rule_name := ove_ruleName src,
      cev_action := action, cev_object_id := ove_objectId src, cev_is_iva_area_event := True,
      cev_is_active := (action = ''INTRUSION'')\<rparr>"

definition onvif_source_identity :: "string \<Rightarrow> OnvifIvaEvent \<Rightarrow> string \<Rightarrow> string" where
  "onvif_source_identity cameraId src action =
     ''camera-onvif:'' @ stableHash (cameraId @ ''|'' @ ove_videoSourceToken src @ ''|'' @ ove_ruleName src @
       ''|'' @ action @ ''|'' @ ove_utcTime src @ ''|'' @ ove_objectId src)"

definition onvif_adapt ::
  "(string \<Rightarrow> int option) \<Rightarrow> OnvifIvaEvent \<Rightarrow> 'd AppConfig \<Rightarrow> ParkingSlotConfig list \<Rightarrow> string + IvaOccupancySignal" where
  "onvif_adapt parseIso src config slots =
     (let action = upperCopy (ove_action src) in
      if action \<noteq> ''INTRUSION'' \<and> action \<noteq> ''EXIT''
      then Inl ''ONVIF IvaArea action is not INTRUSION or EXIT''
      else
        let occupancyAction = (if action = ''INTRUSION'' then Intrusion else Exit) in
        if ove_utcTime src = [] then Inl ''ONVIF IvaArea UtcTime is missing''
        else (case parseIso (ove_utcTime src) of
            None \<Rightarrow> Inl ''ONVIF IvaArea UtcTime is invalid''
          | Some occurredAt \<Rightarrow>
              (case resolve (app_camera_id config) (onvif_camera_event src action) slots (app_iva_areas config) of
                 Inl mappingError \<Rightarrow> Inl (''ONVIF IvaArea mapping failed: '' @ mappingError)
               | Inr target \<Rightarrow>
                   let cameraAuthoritative = (app_parking_occupancy_source config = ''CAMERA_IVA'' \<or>
                         app_parking_occupancy_source config = ''HYBRID_OR'') in
                   if \<not> cameraAuthoritative \<and> (app_parking_occupancy_source config \<noteq> ''HALL'' \<or>
                        occupancyAction \<noteq> Intrusion \<or> ove_objectId src = [])
                   then Inl ''ONVIF IvaArea is not accepted by occupancy policy''
                   else Inr
                     \<lparr>sig_slotId = irt_slotId target, sig_cameraId = app_camera_id config,
                      sig_videoSourceToken = irt_observationVideoSourceToken target,
                      sig_ruleName = irt_ruleName target, sig_objectId = ove_objectId src,
                      sig_action = occupancyAction, sig_authoritativeExit = cameraAuthoritative,
                      sig_sourceIdentity = onvif_source_identity (app_camera_id config) src action,
                      sig_occurredAtFromSource = True, sig_occurredAt = occurredAt,
                      sig_channelId = irt_channelId target, sig_occupancyAuthority = cameraAuthoritative,
                      sig_sourceTransport = ''camera-onvif''\<rparr>)))"

section \<open>The coordinator as a deadline source\<close>

lemma take_due_exits_eq:
  "take_due_exits now m = (map (\<lambda>(k, p). pex_signal p) (filter (\<lambda>(k, p). pex_deadline p \<le> now) m),
     filter (\<lambda>(k, p). pex_deadline p > now) m)"
  by (induction m) auto

interpretation exit_confirmation: deadline_source coordinator_nextDeadline coordinator_takeDue "\<lambda>_. True"
proof
  fix s now
  show "fst (coordinator_takeDue now s) \<noteq> [] \<longleftrightarrow> (\<exists>d. coordinator_nextDeadline s = Some d \<and> d \<le> now)"
    by (auto simp: coordinator_takeDue_def take_due_exits_eq coordinator_nextDeadline_def earliest_of_le
        filter_empty_conv Bex_def)
next
  fix s now d
  assume "coordinator_nextDeadline (snd (coordinator_takeDue now s)) = Some d"
  then show "now < d"
    by (auto simp: coordinator_takeDue_def take_due_exits_eq coordinator_nextDeadline_def dest!: earliest_of_mem)
qed simp

section \<open>Invariant of the aggregation\<close>

definition areas_ok :: "AreaStates \<Rightarrow> bool" where
  "areas_ok st \<longleftrightarrow> finite (ars_configured st) \<and> um_wf (ars_observed st) \<and>
     fst ` set (ars_observed st) \<subseteq> ars_configured st"

definition agg_ok :: "Aggregator \<Rightarrow> bool" where
  "agg_ok agg \<longleftrightarrow> um_wf agg \<and> (\<forall>k st. um_find agg k = Some st \<longrightarrow> areas_ok st)"

text \<open>Every configured area of the slot is known and inactive.\<close>

definition slot_clear :: "Aggregator \<Rightarrow> string \<Rightarrow> bool" where
  "slot_clear agg slotId \<longleftrightarrow> (\<exists>st. um_find agg slotId = Some st \<and>
     (\<forall>key \<in> ars_configured st. um_find (ars_observed st) key = Some False))"

lemma agg_ok_put: "agg_ok agg \<Longrightarrow> areas_ok st \<Longrightarrow> agg_ok (um_put k st agg)"
  by (auto simp: agg_ok_def um_find_put intro: um_wf_put)

lemma agg_ok_new: "agg_ok (newAggregator slots)"
proof -
  have "agg_ok (register_slot s agg)" if "agg_ok agg" for s agg
  proof -
    have "areas_ok (slot_areas agg (cfg_slotId s))"
      using that by (auto simp: slot_areas_def agg_ok_def areas_ok_def no_areas_def split: option.splits)
    then show ?thesis
      using that by (auto simp: register_slot_def Let_def intro!: agg_ok_put) (auto simp: areas_ok_def)
  qed
  then have "agg_ok agg \<Longrightarrow> agg_ok (fold register_slot slots agg)" for agg
    by (induction slots arbitrary: agg) auto
  moreover have "agg_ok []" by (simp add: agg_ok_def)
  ultimately show ?thesis by (simp add: newAggregator_def)
qed

lemma areas_ok_observe:
  assumes "areas_ok st" and "key \<in> ars_configured st"
  shows "areas_ok (st\<lparr>ars_observed := um_put key active (ars_observed st)\<rparr>)"
  using assms by (auto simp: areas_ok_def um_put_keys intro: um_wf_put)

lemma update_ok: "agg_ok agg \<Longrightarrow> agg_ok (fst (aggregator_update agg slot cam token rule active))"
  by (auto simp: aggregator_update_def Let_def split: option.splits intro!: agg_ok_put)
    (auto simp: agg_ok_def areas_ok_def um_put_keys intro: um_wf_put)

lemma update_other:
  "k \<noteq> slot \<Longrightarrow> um_find (fst (aggregator_update agg slot cam token rule active)) k = um_find agg k"
  by (auto simp: aggregator_update_def Let_def um_find_put split: option.splits)

text \<open>All areas known and none active: the observed states cover the configured ones.\<close>

lemma areas_all_inactive:
  assumes "areas_ok st" and "active_areas st = 0" and "length (ars_observed st) = card (ars_configured st)"
    and "key \<in> ars_configured st"
  shows "um_find (ars_observed st) key = Some False"
proof -
  have d: "distinct (map fst (ars_observed st))" and sub: "fst ` set (ars_observed st) \<subseteq> ars_configured st"
    and fin: "finite (ars_configured st)"
    using assms(1) by (auto simp: areas_ok_def um_wf_def)
  have "card (fst ` set (ars_observed st)) = card (ars_configured st)"
    using distinct_card [OF d] assms(3) by simp
  then have "fst ` set (ars_observed st) = ars_configured st" using sub fin by (simp add: card_subset_eq)
  then obtain b where b: "(key, b) \<in> set (ars_observed st)" using assms(4) by force
  moreover have "\<not> b" using b assms(2) by (auto simp: active_areas_def filter_empty_conv)
  ultimately show ?thesis using assms(1) by (simp add: areas_ok_def um_find_mem)
qed

lemma update_vacant_clear:
  assumes "agg_ok agg" and "aggregator_update agg slot cam token rule active = (agg', Some u)" and "\<not> upd_occupied u"
  shows "slot_clear agg' slot"
proof -
  obtain st where st: "um_find agg slot = Some st" "observationKey cam token rule \<in> ars_configured st"
    using assms(2) by (auto simp: aggregator_update_def Let_def split: option.splits if_splits)
  let ?st1 = "st\<lparr>ars_observed := um_put (observationKey cam token rule) active (ars_observed st)\<rparr>"
  have ok: "areas_ok ?st1" using assms(1) st by (auto simp: agg_ok_def intro: areas_ok_observe)
  have "active_areas ?st1 = 0" and "length (ars_observed ?st1) = card (ars_configured ?st1)"
    and "um_find agg' slot = Some (?st1\<lparr>ars_lastEmitted := Some False\<rparr>)"
    using assms(2,3) st by (auto simp: aggregator_update_def Let_def um_find_put split: if_splits)
  then show ?thesis using areas_all_inactive [OF ok] by (auto simp: slot_clear_def)
qed

lemma update_exit_keeps_clear:
  assumes "slot_clear agg k"
  shows "slot_clear (fst (aggregator_update agg slot cam token rule False)) k"
proof (cases "k = slot")
  case True
  with assms show ?thesis
    by (auto simp: slot_clear_def aggregator_update_def Let_def um_find_put split: option.splits)
qed (use assms in \<open>simp add: slot_clear_def update_other\<close>)

section \<open>Histories of the coordinator\<close>

datatype coordinator_call = HandleSignal IvaOccupancySignal int | TakeExits int

fun coordinator_call_step ::
  "IvaOccupancyCoordinator \<Rightarrow> coordinator_call \<Rightarrow> IvaOccupancyCoordinator \<times> IvaOccupancySignal list" where
  "coordinator_call_step co (HandleSignal s now) = (fst (coordinator_handle co s now), [])"
| "coordinator_call_step co (TakeExits now) =
     (let (due, co') = coordinator_takeDue now co in (co', due))"

definition intrudes :: "string \<Rightarrow> coordinator_call \<Rightarrow> bool" where
  "intrudes slot c \<longleftrightarrow> (case c of HandleSignal s t \<Rightarrow> sig_slotId s = slot \<and> sig_action s = Intrusion | TakeExits t \<Rightarrow> False)"

text \<open>The exit \<open>x\<close> of the slot came in at time \<open>t\<close> and no intrusion of the slot since.\<close>

definition exit_stands :: "coordinator_call list \<Rightarrow> string \<Rightarrow> IvaOccupancySignal \<Rightarrow> int \<Rightarrow> bool" where
  "exit_stands h slot x t \<longleftrightarrow> sig_slotId x = slot \<and> sig_action x = Exit \<and> sig_authoritativeExit x \<and>
     (\<exists>pre mid. h = pre @ HandleSignal x t # mid \<and> (\<forall>c \<in> set mid. \<not> intrudes slot c))"

definition coordinator_justified :: "int \<Rightarrow> coordinator_call list \<Rightarrow> IvaOccupancyCoordinator \<Rightarrow> bool" where
  "coordinator_justified delay h co \<longleftrightarrow> ivc_exitConfirmDelay co = delay \<and> um_wf (ivc_pendingBySlot co) \<and>
     agg_ok (ivc_aggregator co) \<and>
     (\<forall>k p. um_find (ivc_pendingBySlot co) k = Some p \<longrightarrow> slot_clear (ivc_aggregator co) k \<and>
        (\<exists>t. exit_stands h k (pex_signal p) t \<and> pex_deadline p = t + delay * 1000000))"

lemma exit_stands_snoc: "exit_stands h k x t \<Longrightarrow> \<not> intrudes k c \<Longrightarrow> exit_stands (h @ [c]) k x t"
  by (force simp: exit_stands_def intro: exI [where x = "_ @ [c]"])

lemma exit_stands_new:
  "sig_action x = Exit \<Longrightarrow> sig_authoritativeExit x \<Longrightarrow>
     exit_stands (h @ [HandleSignal x t]) (sig_slotId x) x t"
  unfolding exit_stands_def by fastforce

text \<open>What \<open>handle\<close> does: nothing, an intrusion, or an exit that is pending afterwards or not.\<close>

lemma handle_cases:
  obtains (ignored) "fst (coordinator_handle co s now) = co" and "sig_action s \<noteq> Intrusion"
  | (intrusion) "sig_action s = Intrusion" and "fst (coordinator_handle co s now) =
      co\<lparr>ivc_aggregator := fst (aggregator_update (ivc_aggregator co) (sig_slotId s) (sig_cameraId s)
            (sig_videoSourceToken s) (sig_ruleName s) True),
         ivc_pendingBySlot := um_erase (sig_slotId s) (ivc_pendingBySlot co)\<rparr>"
  | (exiting) agg' u where "sig_action s = Exit" and "sig_authoritativeExit s"
      and "aggregator_update (ivc_aggregator co) (sig_slotId s) (sig_cameraId s)
            (sig_videoSourceToken s) (sig_ruleName s) False = (agg', u)"
      and "fst (coordinator_handle co s now) = co\<lparr>ivc_aggregator := agg'\<rparr> \<or>
        (\<exists>v. u = Some v \<and> \<not> upd_occupied v \<and> fst (coordinator_handle co s now) = co\<lparr>ivc_aggregator := agg',
         ivc_pendingBySlot := um_emplace (sig_slotId s)
           \<lparr>pex_signal = s, pex_deadline = now + ivc_exitConfirmDelay co * 1000000\<rparr> (ivc_pendingBySlot co)\<rparr>)"
proof (cases "sig_action s")
  case Intrusion
  then show thesis
    by (intro intrusion) (auto simp: coordinator_handle_def Let_def split: prod.splits option.splits)
next
  case Exit
  show thesis
  proof (cases "sig_authoritativeExit s")
    case True
    obtain agg' u where "aggregator_update (ivc_aggregator co) (sig_slotId s) (sig_cameraId s)
            (sig_videoSourceToken s) (sig_ruleName s) False = (agg', u)" by fastforce
    then show thesis using Exit True
      by (intro exiting) (auto simp: coordinator_handle_def Let_def split: option.splits)
  qed (use Exit in \<open>auto intro!: ignored simp: coordinator_handle_def\<close>)
qed (auto intro!: ignored simp: coordinator_handle_def)

lemma coordinator_justified_step:
  assumes J: "coordinator_justified delay h co"
  shows "coordinator_justified delay (h @ [c]) (fst (coordinator_call_step co c))"
proof (cases c)
  case (TakeExits now)
  have "\<not> intrudes k c" for k by (simp add: TakeExits intrudes_def)
  with J show ?thesis
    by (fastforce simp: TakeExits coordinator_justified_def coordinator_takeDue_def take_due_exits_eq
        intro!: um_wf_filter exit_stands_snoc dest!: filter_find)
next
  case (HandleSignal s now)
  have agg: "agg_ok (ivc_aggregator co)" and wf: "um_wf (ivc_pendingBySlot co)"
    and delay: "ivc_exitConfirmDelay co = delay" using J by (auto simp: coordinator_justified_def)
  have old: "slot_clear (ivc_aggregator co) k \<and>
      (\<exists>t. exit_stands (h @ [c]) k (pex_signal p) t \<and> pex_deadline p = t + delay * 1000000)"
    if "um_find (ivc_pendingBySlot co) k = Some p" and "\<not> intrudes k c" for k p
    using J that exit_stands_snoc unfolding coordinator_justified_def by metis
  show ?thesis
  proof (cases rule: handle_cases [where co = co and s = s and now = now])
    case ignored
    then have "\<not> intrudes k c" for k by (simp add: HandleSignal intrudes_def)
    with ignored show ?thesis using old agg wf delay by (simp add: HandleSignal coordinator_justified_def)
  next
    case intrusion
    then have "\<not> intrudes k c" if "k \<noteq> sig_slotId s" for k
      using that by (simp add: HandleSignal intrudes_def)
    then show ?thesis using intrusion old agg wf delay
      by (auto simp: HandleSignal coordinator_justified_def um_find_erase slot_clear_def update_other
          intro: um_wf_erase update_ok split: if_splits)
  next
    case (exiting agg' u)
    then have quiet: "\<not> intrudes k c" for k by (simp add: HandleSignal intrudes_def)
    have ok': "agg_ok agg'" using update_ok [OF agg] exiting(3) by (metis fst_conv)
    have clear': "slot_clear agg' k" if "slot_clear (ivc_aggregator co) k" for k
      using update_exit_keeps_clear [OF that] exiting(3) by (metis fst_conv)
    from exiting(4) show ?thesis
    proof
      assume "fst (coordinator_handle co s now) = co\<lparr>ivc_aggregator := agg'\<rparr>"
      then show ?thesis using old quiet ok' clear' wf delay
        by (simp add: HandleSignal coordinator_justified_def)
    next
      assume "\<exists>v. u = Some v \<and> \<not> upd_occupied v \<and> fst (coordinator_handle co s now) =
        co\<lparr>ivc_aggregator := agg', ivc_pendingBySlot := um_emplace (sig_slotId s)
           \<lparr>pex_signal = s, pex_deadline = now + ivc_exitConfirmDelay co * 1000000\<rparr> (ivc_pendingBySlot co)\<rparr>"
      then obtain v where v: "u = Some v" "\<not> upd_occupied v" and eq: "fst (coordinator_handle co s now) =
        co\<lparr>ivc_aggregator := agg', ivc_pendingBySlot := um_emplace (sig_slotId s)
           \<lparr>pex_signal = s, pex_deadline = now + delay * 1000000\<rparr> (ivc_pendingBySlot co)\<rparr>"
        using delay by blast
      have "slot_clear agg' (sig_slotId s)" using update_vacant_clear [OF agg] exiting(3) v by metis
      moreover have "exit_stands (h @ [c]) (sig_slotId s) s now"
        unfolding HandleSignal using exiting(1,2) by (rule exit_stands_new)
      ultimately show ?thesis using eq old quiet ok' clear' wf delay
        by (auto simp: HandleSignal coordinator_justified_def um_find_emplace intro: um_wf_emplace split: if_splits)
    qed
  qed
qed

lemma coordinator_justified_run:
  "coordinator_justified delay h co \<Longrightarrow>
     coordinator_justified delay (h @ cs) (final_state coordinator_call_step co cs)"
proof (induction cs arbitrary: h co)
  case (Cons c cs)
  from Cons.IH [OF coordinator_justified_step [OF Cons.prems, of c]] show ?case
    by (simp add: split_beta)
qed simp

lemma coordinator_justified_new:
  "coordinator_justified (max 1 delay) [] (newIvaOccupancyCoordinator slots delay)"
  by (simp add: coordinator_justified_def newIvaOccupancyCoordinator_def agg_ok_new)

text \<open>
  C34: For any history of calls on a fresh coordinator, an exit that \<open>takeDue\<close> confirms was handled at
  least the configured delay (at least one millisecond) earlier as an authoritative EXIT of its slot, no
  INTRUSION of the slot was handled since, and at that moment every configured area of the slot is known
  to be inactive. At most one exit per slot is confirmed.
\<close>

theorem exits_confirmed_only_when_clear:
  assumes "coordinator_takeDue now
      (final_state coordinator_call_step (newIvaOccupancyCoordinator slots delay) cs) = (due, co')"
    and "x \<in> set due"
  shows "sig_action x = Exit \<and> sig_authoritativeExit x \<and> slot_clear (ivc_aggregator co') (sig_slotId x) \<and>
    (\<exists>pre t mid. cs = pre @ HandleSignal x t # mid \<and> t + max 1 delay * 1000000 \<le> now \<and>
       (\<forall>c \<in> set mid. \<not> intrudes (sig_slotId x) c)) \<and>
    distinct (map sig_slotId due)"
proof -
  let ?co = "final_state coordinator_call_step (newIvaOccupancyCoordinator slots delay) cs"
  have J: "coordinator_justified (max 1 delay) cs ?co"
    using coordinator_justified_run [OF coordinator_justified_new, of delay cs slots] by simp
  then have wf: "um_wf (ivc_pendingBySlot ?co)" by (simp add: coordinator_justified_def)
  have due: "due = map (\<lambda>(k, p). pex_signal p) (filter (\<lambda>(k, p). pex_deadline p \<le> now) (ivc_pendingBySlot ?co))"
    and co': "ivc_aggregator co' = ivc_aggregator ?co"
    using assms(1) by (auto simp: coordinator_takeDue_def take_due_exits_eq)
  have slot: "sig_slotId (pex_signal p) = k" if "(k, p) \<in> set (ivc_pendingBySlot ?co)" for k p
    using J that by (auto simp: coordinator_justified_def um_find_mem exit_stands_def)
  obtain k p where p: "(k, p) \<in> set (ivc_pendingBySlot ?co)" "pex_deadline p \<le> now" "x = pex_signal p"
    using assms(2) by (auto simp: due)
  have "um_find (ivc_pendingBySlot ?co) k = Some p" using p(1) wf by (simp add: um_find_mem)
  with J have c: "slot_clear (ivc_aggregator ?co) k"
    and "\<exists>t. exit_stands cs k (pex_signal p) t \<and> pex_deadline p = t + max 1 delay * 1000000"
    unfolding coordinator_justified_def by blast+
  then obtain t where t: "exit_stands cs k x t" "t + max 1 delay * 1000000 \<le> now" using p by force
  moreover have "k = sig_slotId x" using t by (simp add: exit_stands_def)
  moreover note c
  moreover have "distinct (map sig_slotId due)"
  proof -
    have "map sig_slotId due = map fst (filter (\<lambda>(k, p). pex_deadline p \<le> now) (ivc_pendingBySlot ?co))"
      using slot by (auto simp: due)
    then show ?thesis using wf by (simp add: um_wf_def distinct_map_filter)
  qed
  ultimately show ?thesis unfolding co' exit_stands_def by blast
qed


section \<open>From the event to the areas of a slot\<close>

lemma only_one_Inr [simp]: "only_one m a xs = Inr x \<longleftrightarrow> xs = [x]"
  by (auto simp: only_one_def split: list.splits)

lemma slot_areas_register:
  "ars_configured (slot_areas agg k) \<subseteq> ars_configured (slot_areas (register_slot s agg) k)"
  "cfg_enabled s \<Longrightarrow> b \<in> set (cfg_cameraBindings s) \<Longrightarrow> bnd_enabled b \<Longrightarrow>
     observationKey (bnd_cameraId b) (bnd_videoSourceToken b) (bnd_ruleName b) \<in>
       ars_configured (slot_areas (register_slot s agg) (cfg_slotId s))"
  by (auto simp: register_slot_def slot_areas_def Let_def um_find_put)

lemma configured_mono:
  "ars_configured (slot_areas agg k) \<subseteq> ars_configured (slot_areas (fold register_slot slots agg) k)"
proof (induction slots arbitrary: agg)
  case (Cons s slots)
  then show ?case using slot_areas_register(1) [of agg k s] by fastforce
qed simp

lemma configured_areas:
  assumes "s \<in> set slots" and "cfg_enabled s" and "b \<in> set (cfg_cameraBindings s)" and "bnd_enabled b"
  shows "observationKey (bnd_cameraId b) (bnd_videoSourceToken b) (bnd_ruleName b) \<in>
    ars_configured (slot_areas (newAggregator slots) (cfg_slotId s))"
proof -
  obtain xs ys where "slots = xs @ s # ys" using assms(1) by (auto simp: in_set_conv_decomp)
  then show ?thesis
    using configured_mono slot_areas_register(2) [OF assms(2-4)] by (fastforce simp: newAggregator_def)
qed

lemma update_configured:
  "ars_configured (slot_areas (fst (aggregator_update agg slot cam token rule active)) k) =
     ars_configured (slot_areas agg k)"
  by (auto simp: aggregator_update_def slot_areas_def Let_def um_find_put split: option.splits)

lemma update_records:
  "observationKey cam token rule \<in> ars_configured (slot_areas agg slot) \<Longrightarrow>
     um_find (ars_observed (slot_areas (fst (aggregator_update agg slot cam token rule active)) slot))
       (observationKey cam token rule) = Some active"
  by (auto simp: aggregator_update_def slot_areas_def no_areas_def Let_def um_find_put split: option.splits)

lemma handle_aggregator:
  "ivc_aggregator (fst (coordinator_handle co s now)) =
     (if sig_action s = Intrusion \<or> (sig_action s = Exit \<and> sig_authoritativeExit s)
      then fst (aggregator_update (ivc_aggregator co) (sig_slotId s) (sig_cameraId s)
         (sig_videoSourceToken s) (sig_ruleName s) (sig_action s = Intrusion))
      else ivc_aggregator co)"
  by (cases "sig_action s") (auto simp: coordinator_handle_def Let_def split: prod.splits option.splits)

lemma run_configured:
  "ars_configured (slot_areas (ivc_aggregator (final_state coordinator_call_step co cs)) k) =
     ars_configured (slot_areas (ivc_aggregator co) k)"
proof (induction cs arbitrary: co)
  case (Cons c cs)
  then show ?case
    by (cases c) (auto simp: split_beta handle_aggregator update_configured coordinator_takeDue_def)
qed simp

lemma resolve_unique:
  assumes "resolve cameraId ev slots areas = Inr target"
  obtains slot b area where "slot \<in> set slots" and "cfg_enabled slot" and "b \<in> set (cfg_cameraBindings slot)"
    and "binding_matches cameraId (canonicalToken (cev_video_source_token ev))
          (cev_raw_topic ev @ [CHR 10] @ cev_raw_payload ev) b"
    and "target = resolved_target slot b area" and "filter (\<lambda>a. iac_slot_id a = cfg_slotId slot) areas = [area]"
    and "\<And>s' b'. s' \<in> set slots \<Longrightarrow> cfg_enabled s' \<Longrightarrow> b' \<in> set (cfg_cameraBindings s') \<Longrightarrow>
          binding_matches cameraId (canonicalToken (cev_video_source_token ev))
            (cev_raw_topic ev @ [CHR 10] @ cev_raw_payload ev) b' \<Longrightarrow> s' = slot \<and> b' = b"
proof -
  let ?m = "binding_matches cameraId (canonicalToken (cev_video_source_token ev))
          (cev_raw_topic ev @ [CHR 10] @ cev_raw_payload ev)"
  let ?found = "concat (map (\<lambda>s. map (Pair s) (filter ?m (cfg_cameraBindings s))) (filter cfg_enabled slots))"
  obtain slot b area where f: "?found = [(slot, b)]" and t: "target = resolved_target slot b area"
    and a: "filter (\<lambda>a. iac_slot_id a = cfg_slotId slot) areas = [area]"
    using assms by (auto simp: resolve_def Let_def split: if_splits)
  have mem: "(s', b') \<in> set ?found \<longleftrightarrow> s' \<in> set slots \<and> cfg_enabled s' \<and> b' \<in> set (cfg_cameraBindings s') \<and> ?m b'"
    for s' b' by auto
  have "(slot, b) \<in> set ?found" unfolding f by simp
  moreover have "s' = slot \<and> b' = b" if "(s', b') \<in> set ?found" for s' b' using that unfolding f by simp
  ultimately show thesis using that [of slot b area] t a unfolding mem by blast
qed

text \<open>The binding is enabled, of the configured camera and of the event's token and rule.\<close>

definition event_binding :: "'d AppConfig \<Rightarrow> OnvifIvaEvent \<Rightarrow> SlotObservationBinding \<Rightarrow> bool" where
  "event_binding config src b \<longleftrightarrow> bnd_enabled b \<and> bnd_cameraId b = app_camera_id config \<and>
     canonicalToken (bnd_videoSourceToken b) = canonicalToken (ove_videoSourceToken src) \<and>
     containsRuleName (''onvif-pullpoint/OpenApp/WiseAI/IvaArea/&'' @ ove_videoSourceToken src @ ''/'' @
       ove_ruleName src @ [CHR 10]) (bnd_ruleName b)"

text \<open>
  C35: An ONVIF event that the adapter accepts belongs to exactly one enabled binding of one enabled
  slot, an exit is accepted only where the camera decides the occupancy, and a coordinator built from the
  same slots counts it whatever happened before: the area of that binding is recorded as active for an
  intrusion and as inactive for an exit.
\<close>

theorem adapted_event_is_counted:
  assumes "onvif_adapt parseIso src config slots = Inr s"
  shows "\<exists>slot b. slot \<in> set slots \<and> b \<in> set (cfg_cameraBindings slot) \<and> cfg_enabled slot \<and> bnd_enabled b \<and>
    sig_slotId s = cfg_slotId slot \<and> event_binding config src b \<and>
    (\<forall>slot' b'. slot' \<in> set slots \<and> cfg_enabled slot' \<and> b' \<in> set (cfg_cameraBindings slot') \<and>
       event_binding config src b' \<longrightarrow> slot' = slot \<and> b' = b) \<and>
    (sig_action s = Intrusion \<or> sig_action s = Exit \<and> sig_authoritativeExit s) \<and>
    (sig_authoritativeExit s = (app_parking_occupancy_source config \<in> {''CAMERA_IVA'', ''HYBRID_OR''})) \<and>
    um_find (ars_observed (slot_areas (ivc_aggregator (fst (coordinator_handle
        (final_state coordinator_call_step (newIvaOccupancyCoordinator slots delay) cs) s now))) (cfg_slotId slot)))
      (observationKey (bnd_cameraId b) (bnd_videoSourceToken b) (bnd_ruleName b)) = Some (sig_action s = Intrusion)"
proof -
  let ?ev = "onvif_camera_event src (upperCopy (ove_action src))"
  obtain target where r: "resolve (app_camera_id config) ?ev slots (app_iva_areas config) = Inr target"
    and s: "sig_slotId s = irt_slotId target" "sig_cameraId s = app_camera_id config"
      "sig_videoSourceToken s = irt_observationVideoSourceToken target" "sig_ruleName s = irt_ruleName target"
      "sig_authoritativeExit s = (app_parking_occupancy_source config \<in> {''CAMERA_IVA'', ''HYBRID_OR''})"
      "sig_action s = Intrusion \<or> sig_action s = Exit \<and> sig_authoritativeExit s"
    using assms by (auto simp: onvif_adapt_def Let_def split: if_splits option.splits sum.splits)
  have matches: "binding_matches (app_camera_id config) (canonicalToken (cev_video_source_token ?ev))
      (cev_raw_topic ?ev @ [CHR 10] @ cev_raw_payload ?ev) = event_binding config src"
    by (rule ext) (simp add: binding_matches_def event_binding_def onvif_camera_event_def blank_camera_event_def)
  from r show ?thesis
  proof (rule resolve_unique, unfold matches)
    fix slot b and area :: "'a IvaAreaConfig"
    assume slot: "slot \<in> set slots" "cfg_enabled slot" "b \<in> set (cfg_cameraBindings slot)"
      and m: "event_binding config src b" and t: "target = resolved_target slot b area"
      and unique: "\<And>s' b'. s' \<in> set slots \<Longrightarrow> cfg_enabled s' \<Longrightarrow> b' \<in> set (cfg_cameraBindings s') \<Longrightarrow>
        event_binding config src b' \<Longrightarrow> s' = slot \<and> b' = b"
    have b: "bnd_enabled b" "bnd_cameraId b = app_camera_id config"
      using m by (auto simp: event_binding_def)
    let ?co = "final_state coordinator_call_step (newIvaOccupancyCoordinator slots delay) cs"
    have key: "observationKey (bnd_cameraId b) (bnd_videoSourceToken b) (bnd_ruleName b) \<in>
        ars_configured (slot_areas (ivc_aggregator ?co) (cfg_slotId slot))"
      using configured_areas [OF slot b(1)] by (simp add: run_configured newIvaOccupancyCoordinator_def)
    have "sig_slotId s = cfg_slotId slot" "sig_cameraId s = bnd_cameraId b"
      "sig_videoSourceToken s = bnd_videoSourceToken b" "sig_ruleName s = bnd_ruleName b"
      using s t b by (auto simp: resolved_target_def)
    then have "um_find (ars_observed (slot_areas (ivc_aggregator (fst (coordinator_handle ?co s now))) (cfg_slotId slot)))
      (observationKey (bnd_cameraId b) (bnd_videoSourceToken b) (bnd_ruleName b)) = Some (sig_action s = Intrusion)"
      using s(6) update_records [OF key] by (simp add: handle_aggregator)
    moreover have "\<forall>slot' b'. slot' \<in> set slots \<and> cfg_enabled slot' \<and> b' \<in> set (cfg_cameraBindings slot') \<and>
       event_binding config src b' \<longrightarrow> slot' = slot \<and> b' = b" using unique by blast
    ultimately show ?thesis using s(5,6) slot b(1) m \<open>sig_slotId s = cfg_slotId slot\<close> by blast
  qed
qed

definition sample_iva_slots :: "ParkingSlotConfig list" where
  "sample_iva_slots = [\<lparr>cfg_slotId = ''A1'', cfg_enabled = True, cfg_zoneType = ''ev'', cfg_sensorId = ''s1'',
     cfg_cameraBindings = [\<lparr>bnd_cameraId = ''cam'', bnd_videoSourceToken = ''vs-0'', bnd_ruleName = ''Rule1'',
       bnd_enabled = True, bnd_priority = 0\<rparr>]\<rparr>]"

definition sample_onvif_event :: "string \<Rightarrow> OnvifIvaEvent" where
  "sample_onvif_event action = \<lparr>ove_utcTime = ''t'', ove_operation = ''Changed'',
     ove_videoSourceToken = ''VideoSourceToken-0'', ove_ruleName = ''RULE1'', ove_state = ''true'',
     ove_objectId = ''7'', ove_action = action\<rparr>"

definition sample_app_config :: "unit AppConfig" where
  "sample_app_config = \<lparr>app_camera_id = ''cam'',
     app_iva_areas = [\<lparr>iac_slot_id = ''A1'', iac_area_name = ''area'', iac_channel_id = ''ch01'', iac_roi_x = (),
       iac_roi_y = (), iac_roi_width = (), iac_roi_height = (), iac_snapshot_api_channel = 0,
       iac_roi_configured = True\<rparr>], app_parking_occupancy_source = ''CAMERA_IVA''\<rparr>"

definition sample_iva_signal :: "IvaOccupancyAction \<Rightarrow> IvaOccupancySignal" where
  "sample_iva_signal action = \<lparr>sig_slotId = ''A1'', sig_cameraId = ''cam'', sig_videoSourceToken = ''vs-0'',
     sig_ruleName = ''Rule1'', sig_objectId = ''7'', sig_action = action, sig_authoritativeExit = True,
     sig_sourceIdentity = ''id'', sig_occurredAtFromSource = True, sig_occurredAt = 0, sig_channelId = ''ch01'',
     sig_occupancyAuthority = True, sig_sourceTransport = ''camera-onvif''\<rparr>"

theorem adapted_event_is_counted_witness:
  "\<exists>s. onvif_adapt (\<lambda>_. Some 0) (sample_onvif_event ''exit'') sample_app_config sample_iva_slots = Inr s \<and>
     sig_slotId s = ''A1'' \<and> sig_authoritativeExit s"
proof -
  have "isl (resolve ''cam'' (onvif_camera_event (sample_onvif_event ''exit'') ''EXIT'') sample_iva_slots
      (app_iva_areas sample_app_config)) = False" by code_simp
  then obtain t where t: "resolve ''cam'' (onvif_camera_event (sample_onvif_event ''exit'') ''EXIT'') sample_iva_slots
      (app_iva_areas sample_app_config) = Inr t"
    by (auto simp: isl_def split: sum.splits) (metis sumE)
  have "upperCopy (ove_action (sample_onvif_event ''exit'')) = ''EXIT''" by code_simp
  then have "\<exists>s. onvif_adapt (\<lambda>_. Some 0) (sample_onvif_event ''exit'') sample_app_config sample_iva_slots = Inr s"
    using t by (simp add: onvif_adapt_def sample_app_config_def sample_onvif_event_def)
  then obtain s where s: "onvif_adapt (\<lambda>_. Some 0) (sample_onvif_event ''exit'') sample_app_config sample_iva_slots = Inr s"
    by blast
  from adapted_event_is_counted [OF s, where cs = "[]" and delay = 1 and now = 0] show ?thesis
    using s by (auto simp: sample_app_config_def sample_iva_slots_def)
qed


theorem exits_confirmed_only_when_clear_witness:
  "map sig_slotId (fst (coordinator_takeDue 5000000
      (final_state coordinator_call_step (newIvaOccupancyCoordinator sample_iva_slots 5)
        [HandleSignal (sample_iva_signal Exit) 0]))) = [''A1''] \<and>
   slot_clear (ivc_aggregator (snd (coordinator_takeDue 5000000
      (final_state coordinator_call_step (newIvaOccupancyCoordinator sample_iva_slots 5)
        [HandleSignal (sample_iva_signal Exit) 0])))) ''A1''"
proof -
  let ?t = "coordinator_takeDue 5000000 (final_state coordinator_call_step
      (newIvaOccupancyCoordinator sample_iva_slots 5) [HandleSignal (sample_iva_signal Exit) 0])"
  have "map sig_slotId (fst ?t) = [''A1'']" by code_simp
  then obtain x where x: "fst ?t = [x]" "sig_slotId x = ''A1''" by auto
  have "slot_clear (ivc_aggregator (snd ?t)) (sig_slotId x)"
    using exits_confirmed_only_when_clear [OF prod.collapse [of ?t, symmetric], of x] x(1) by simp
  then show ?thesis using x by simp
qed

end
