(* ===== verification/OverstayTimer.thy ===== *)
theory OverstayTimer
  imports OccupancyStore
begin

text \<open>
  The overstay timer: the deadline queue of \<^verbatim>\<open>src/timer/TimerManager.cpp\<close>, the service that feeds it
  (\<^verbatim>\<open>src/timer/ParkingSlotManager.cpp\<close>) and the operations of
  \<^verbatim>\<open>src/database/EventDatabaseTimer.cpp\<close> on vehicles, sessions and images that it uses.

  A call runs under the transition mutex and is one step; it gets the readings of the clocks and, for
  every database operation, whether SQLite succeeds. Times are in nanoseconds, delays in milliseconds.
  What a call publishes is a list of events; the publisher itself (MQTT) does not throw here. The
  worker's waiting is left out: every time it takes the top of the queue is one step.
\<close>

section \<open>Tables\<close>

datatype VehicleCategory = Ev | NonEv | UnknownVehicle

fun category_toString :: "VehicleCategory \<Rightarrow> string" where
  "category_toString Ev = ''EV''"
| "category_toString NonEv = ''NON_EV''"
| "category_toString UnknownVehicle = ''UNKNOWN''"

record LogRecord =
  log_id :: int
  log_carNumber :: string
  log_slotId :: string
  log_status :: string
  log_parkedAt :: string
  log_violationAt :: "string option"
  log_departedAt :: "string option"
  log_imagePath1 :: "string option"
  log_imagePath2 :: "string option"
  log_isCanceled :: bool

record VehicleRow =
  vh_id :: int
  vh_plate :: string
  vh_isEv :: bool

record TimerSession =
  ts_id :: int
  ts_vehicle :: "int option"
  ts_slotId :: string
  ts_plate :: "string option"
  ts_entryTime :: string
  ts_violationAt :: "string option"
  ts_exitTime :: "string option"
  ts_duration :: "int option"
  ts_status :: SessionStatus

record ImageRow =
  im_sessionId :: int
  im_path :: string
  im_enhancement :: string
  im_reason :: "string option"

record TimerDb =
  td_vehicles :: "VehicleRow list"
  td_sessions :: "TimerSession list"
  td_nextSession :: int
  td_images :: "ImageRow list"
  td_slots :: "(string, string \<times> string) umap"

text \<open>The columns of \<open>kLogSelect\<close>; images are in the order of their ids.\<close>

definition log_status_text :: "SessionStatus \<Rightarrow> string" where
  "log_status_text st = (case st of SesActive \<Rightarrow> ''PARKED'' | SesEnded \<Rightarrow> ''DEPARTS''
     | SesViolation \<Rightarrow> ''VIOLATION'' | SesUnknown \<Rightarrow> ''UNKNOWN'')"

definition first_image :: "TimerDb \<Rightarrow> int \<Rightarrow> string option" where
  "first_image db sid = map_option im_path (find (\<lambda>i. im_sessionId i = sid \<and>
     (im_enhancement i = ''TIMER_ENTRY'' \<or> im_enhancement i = ''HALL_ENTRY'' \<or> im_enhancement i = ''BESTSHOT_VEHICLE'' \<or>
      im_reason i = Some ''OCCUPANCY_START_EVIDENCE'')) (td_images db))"

definition last_image :: "TimerDb \<Rightarrow> int \<Rightarrow> string option" where
  "last_image db sid = map_option im_path (find (\<lambda>i. im_sessionId i = sid \<and>
     (im_enhancement i = ''TIMER_VIOLATION'' \<or> im_reason i = Some ''OVERSTAY_EVIDENCE'')) (rev (td_images db)))"

definition log_of :: "TimerDb \<Rightarrow> TimerSession \<Rightarrow> LogRecord" where
  "log_of db r = \<lparr>log_id = ts_id r, log_carNumber = (case ts_plate r of None \<Rightarrow> [] | Some p \<Rightarrow> p),
     log_slotId = ts_slotId r, log_status = log_status_text (ts_status r), log_parkedAt = ts_entryTime r,
     log_violationAt = ts_violationAt r, log_departedAt = ts_exitTime r,
     log_imagePath1 = first_image db (ts_id r), log_imagePath2 = last_image db (ts_id r),
     log_isCanceled = (ts_exitTime r \<noteq> None)\<rparr>"

section \<open>Database operations\<close>

text \<open>The first argument says whether SQLite works during the call; the error is the exception.\<close>

definition classifyVehicle :: "bool \<Rightarrow> TimerDb \<Rightarrow> string \<Rightarrow> string + VehicleCategory" where
  "classifyVehicle ok db car =
     (if \<not> ok then Inl ''SQLite vehicle lookup failed''
      else case find (\<lambda>v. vh_plate v = car) (td_vehicles db) of
          None \<Rightarrow> Inr UnknownVehicle
        | Some v \<Rightarrow> Inr (if vh_isEv v then Ev else NonEv))"

definition occupies :: "string \<Rightarrow> TimerSession \<Rightarrow> bool" where
  "occupies slotId r \<longleftrightarrow> ts_slotId r = slotId \<and> ts_exitTime r = None"

text \<open>The foreign key on the slot and the unique index on open sessions are checked.\<close>

definition insertParked ::
  "bool \<Rightarrow> TimerDb \<Rightarrow> string \<Rightarrow> string \<Rightarrow> string \<Rightarrow> string \<Rightarrow> string + (TimerDb \<times> int)" where
  "insertParked ok db car slotId parkedAt image1 =
     (if \<not> ok \<or> \<not> um_contains (td_slots db) slotId \<or>
         list_ex (\<lambda>r. occupies slotId r \<and> (ts_status r = SesActive \<or> ts_status r = SesViolation)) (td_sessions db)
      then Inl ''SQLite statement failed''
      else
        let sid = td_nextSession db;
            row = \<lparr>ts_id = sid, ts_vehicle = map_option vh_id (find (\<lambda>v. vh_plate v = car) (td_vehicles db)),
              ts_slotId = slotId, ts_plate = Some car, ts_entryTime = parkedAt, ts_violationAt = None,
              ts_exitTime = None, ts_duration = Some 0, ts_status = SesActive\<rparr>;
            image = \<lparr>im_sessionId = sid, im_path = image1, im_enhancement = ''TIMER_ENTRY'', im_reason = None\<rparr> in
        Inr (db\<lparr>td_sessions := td_sessions db @ [row], td_nextSession := sid + 1,
               td_images := td_images db @ [image]\<rparr>, sid))"

definition markable :: "int \<Rightarrow> TimerSession \<Rightarrow> bool" where
  "markable sid r \<longleftrightarrow> ts_id r = sid \<and> ts_status r = SesActive \<and> ts_exitTime r = None"

definition markViolation :: "bool \<Rightarrow> TimerDb \<Rightarrow> int \<Rightarrow> string \<Rightarrow> string \<Rightarrow> string + (TimerDb \<times> bool)" where
  "markViolation ok db sid violationAt image2 =
     (if \<not> ok then Inl ''SQLite statement failed''
      else
        let changed = (count_rows (markable sid) (td_sessions db) = 1);
            db1 = db\<lparr>td_sessions := update_rows (markable sid)
              (\<lambda>r. r\<lparr>ts_status := SesViolation, ts_violationAt := Some violationAt\<rparr>) (td_sessions db)\<rparr>;
            known = list_ex (\<lambda>i. im_sessionId i = sid \<and> im_path i = image2) (td_images db) in
        Inr (if changed \<and> image2 \<noteq> [] \<and> \<not> known
             then db1\<lparr>td_images := td_images db @ [\<lparr>im_sessionId = sid, im_path = image2,
                    im_enhancement = ''TIMER_VIOLATION'', im_reason = None\<rparr>]\<rparr>
             else db1, changed))"

definition cancelUnscheduled :: "bool \<Rightarrow> TimerDb \<Rightarrow> int \<Rightarrow> string \<Rightarrow> string + (TimerDb \<times> bool)" where
  "cancelUnscheduled ok db sid canceledAt =
     (if \<not> ok then Inl ''SQLite statement failed''
      else Inr (db\<lparr>td_sessions := update_rows (markable sid)
              (\<lambda>r. r\<lparr>ts_status := SesEnded, ts_exitTime := Some canceledAt\<rparr>) (td_sessions db)\<rparr>,
            count_rows (markable sid) (td_sessions db) = 1))"

definition newest_open :: "TimerDb \<Rightarrow> string \<Rightarrow> TimerSession option" where
  "newest_open db slotId = least_by (\<lambda>r. - ts_id r) (filter (occupies slotId) (td_sessions db))"

definition findActiveBySlot :: "bool \<Rightarrow> TimerDb \<Rightarrow> string \<Rightarrow> string + LogRecord option" where
  "findActiveBySlot ok db slotId =
     (if \<not> ok then Inl ''SQLite active log lookup failed'' else Inr (map_option (log_of db) (newest_open db slotId)))"

definition find_session :: "TimerDb \<Rightarrow> int \<Rightarrow> TimerSession option" where
  "find_session db sid = find (\<lambda>r. ts_id r = sid) (td_sessions db)"

definition findLogById :: "bool \<Rightarrow> TimerDb \<Rightarrow> int \<Rightarrow> string + LogRecord option" where
  "findLogById ok db sid =
     (if \<not> ok then Inl ''SQLite log lookup failed'' else Inr (map_option (log_of db) (find_session db sid)))"

definition listLogs :: "bool \<Rightarrow> TimerDb \<Rightarrow> string + LogRecord list" where
  "listLogs ok db =
     (if \<not> ok then Inl ''SQLite log listing failed''
      else Inr (map (log_of db) (sort_by (\<lambda>a b. ts_id a \<le> ts_id b) (td_sessions db))))"

definition listVehicles :: "bool \<Rightarrow> TimerDb \<Rightarrow> string + (string \<times> string) list" where
  "listVehicles ok db =
     (if \<not> ok then Inl ''SQLite vehicle listing failed''
      else Inr (map (\<lambda>v. (vh_plate v, if vh_isEv v then ''EV'' else ''NON_EV''))
        (sort_by (\<lambda>a b. text_le (vh_plate a) (vh_plate b)) (td_vehicles db))))"

text \<open>\<open>seconds\<close> is SQLite's \<open>strftime('%s', t)\<close>, \<open>None\<close> for NULL.\<close>

definition departActiveBySlot ::
  "bool \<Rightarrow> (string \<Rightarrow> int option) \<Rightarrow> TimerDb \<Rightarrow> string \<Rightarrow> string \<Rightarrow> string + (TimerDb \<times> LogRecord option)" where
  "departActiveBySlot ok seconds db slotId departedAt =
     (if \<not> ok then Inl ''SQLite active log lookup failed''
      else case newest_open db slotId of
          None \<Rightarrow> Inr (db, None)
        | Some found \<Rightarrow>
            let owned = (\<lambda>r. ts_id r = ts_id found \<and> ts_exitTime r = None) in
            if count_rows owned (td_sessions db) \<noteq> 1 then Inl ''active parking log changed concurrently''
            else
              let close = (\<lambda>r. r\<lparr>ts_status := SesEnded, ts_exitTime := Some departedAt,
                    ts_duration := (case (seconds departedAt, seconds (ts_entryTime r)) of
                       (Some a, Some b) \<Rightarrow> Some (max 0 (a - b)) | _ \<Rightarrow> None)\<rparr>);
                  db1 = db\<lparr>td_sessions := update_rows owned close (td_sessions db),
                    td_slots := (if um_contains (td_slots db) slotId
                      then um_put slotId (''VACANT'', departedAt) (td_slots db) else td_slots db)\<rparr> in
              (case find_session db1 (ts_id found) of
                 None \<Rightarrow> Inl ''updated parking log disappeared''
               | Some r \<Rightarrow> Inr (db1, Some (log_of db1 r))))"

section \<open>The deadline queue\<close>

record TimerItem =
  ti_deadline :: int
  ti_sequence :: "64 word"
  ti_generation :: "64 word"
  ti_logId :: int
  ti_slotId :: string
  ti_carNumber :: string
  ti_retryCount :: nat
  ti_evidenceRetryCount :: nat
  ti_violationAt :: string

text \<open>
  The priority queue is the list of its nodes in the order in which they are taken: by deadline and
  then by sequence.
\<close>

record TimerManager =
  tm_queue :: "TimerItem list"
  tm_stopping :: bool
  tm_started :: bool
  tm_nextSequence :: "64 word"
  tm_generations :: "(int, 64 word) umap"

definition newTimerManager :: TimerManager where
  "newTimerManager = \<lparr>tm_queue = [], tm_stopping = False, tm_started = False, tm_nextSequence = 0, tm_generations = []\<rparr>"

definition not_later :: "TimerItem \<Rightarrow> TimerItem \<Rightarrow> bool" where
  "not_later a b \<longleftrightarrow> ti_deadline a < ti_deadline b \<or>
     (ti_deadline a = ti_deadline b \<and> ti_sequence a \<le> ti_sequence b)"

definition timer_start :: "bool \<Rightarrow> TimerManager \<Rightarrow> TimerManager \<times> bool" where
  "timer_start threadStarts m =
     (if tm_started m then (m, True)
      else if tm_stopping m then (m, False)
      else if threadStarts then (m\<lparr>tm_started := True\<rparr>, True) else (m, False))"

definition timer_stop :: "TimerManager \<Rightarrow> TimerManager" where
  "timer_stop m = m\<lparr>tm_stopping := True, tm_started := False\<rparr>"

definition timer_push :: "TimerItem \<Rightarrow> TimerManager \<Rightarrow> TimerManager" where
  "timer_push item m = m\<lparr>tm_nextSequence := tm_nextSequence m + 1,
     tm_queue := insert_by not_later (item\<lparr>ti_sequence := tm_nextSequence m\<rparr>) (tm_queue m)\<rparr>"

definition generation_of :: "TimerManager \<Rightarrow> int \<Rightarrow> 64 word" where
  "generation_of m logId = (case um_find (tm_generations m) logId of None \<Rightarrow> 0 | Some g \<Rightarrow> g)"

definition timer_schedule ::
  "int \<Rightarrow> TimerManager \<Rightarrow> int \<Rightarrow> string \<Rightarrow> string \<Rightarrow> int \<Rightarrow> string + TimerManager" where
  "timer_schedule now m logId slotId car delay =
     (if delay \<le> 0 then Inl ''timer delay must be positive''
      else if tm_stopping m then Inl ''TimerManager is stopping''
      else if \<not> tm_started m then Inl ''TimerManager is not started''
      else
        let g = generation_of m logId + 1;
            m1 = m\<lparr>tm_generations := um_put logId g (tm_generations m)\<rparr> in
        Inr (timer_push \<lparr>ti_deadline = now + delay * 1000000, ti_sequence = 0, ti_generation = g, ti_logId = logId,
          ti_slotId = slotId, ti_carNumber = car, ti_retryCount = 0, ti_evidenceRetryCount = 0,
          ti_violationAt = []\<rparr> m1))"

definition isCurrent :: "TimerManager \<Rightarrow> TimerItem \<Rightarrow> bool" where
  "isCurrent m item \<longleftrightarrow> um_find (tm_generations m) (ti_logId item) = Some (ti_generation item)"

definition pendingCount :: "TimerManager \<Rightarrow> nat" where
  "pendingCount m = length (filter (isCurrent m) (tm_queue m))"

section \<open>Published events\<close>

record TimerEvent =
  te_type :: string
  te_slotId :: string
  te_carNumber :: string
  te_occurredAt :: string
  te_detail :: string
  te_sessionId :: int

definition timer_event :: "string \<Rightarrow> string \<Rightarrow> string \<Rightarrow> string \<Rightarrow> string \<Rightarrow> int \<Rightarrow> TimerEvent" where
  "timer_event kind slotId car at detail sid = \<lparr>te_type = kind, te_slotId = slotId, te_carNumber = car,
     te_occurredAt = at, te_detail = detail, te_sessionId = sid\<rparr>"

definition report_error :: "string \<Rightarrow> TimerItem \<Rightarrow> string \<Rightarrow> TimerEvent" where
  "report_error at item message = timer_event ''TIMER_ERROR'' (ti_slotId item) (ti_carNumber item) at message (-1)"

section \<open>Expiry\<close>

datatype timer_op = TClassify | TFindActive | TInsert | TMark | TCancel | TDepart | TFindById | TList

text \<open>
  The readings of a call: the clocks, the printed UTC time, the result of \<open>get_time\<close> with \<open>timegm\<close> on the
  first nineteen characters of a text, SQLite's \<open>strftime\<close>, and which database operations succeed.
\<close>

record TimerEnv =
  en_mono :: int
  en_wall :: int
  en_utc :: string
  en_civil :: "string \<Rightarrow> int option"
  en_seconds :: "string \<Rightarrow> int option"
  en_io :: "timer_op \<Rightarrow> string \<Rightarrow> bool"

definition retryAfterEvidencePending :: "TimerEnv \<Rightarrow> TimerItem \<Rightarrow> TimerManager \<Rightarrow> TimerManager \<times> TimerEvent list" where
  "retryAfterEvidencePending env item m =
     (let item1 = item\<lparr>ti_evidenceRetryCount := ti_evidenceRetryCount item + 1,
            ti_deadline := en_mono env + 500 * 1000000\<rparr> in
      (if tm_stopping m then m else timer_push item1 m,
       if ti_evidenceRetryCount item = 0
       then [report_error (en_utc env) item ''overstay evidence pending; timer retry scheduled''] else []))"

definition retryAfterDatabaseError ::
  "TimerEnv \<Rightarrow> TimerItem \<Rightarrow> string \<Rightarrow> TimerManager \<Rightarrow> TimerManager \<times> TimerEvent list" where
  "retryAfterDatabaseError env item message m =
     (let delay = 2 ^ min (ti_retryCount item) 5;
          item1 = item\<lparr>ti_retryCount := (if ti_retryCount item < 5 then ti_retryCount item + 1 else ti_retryCount item),
            ti_deadline := en_mono env + delay * 1000000000\<rparr> in
      (if tm_stopping m then m else timer_push item1 m,
       [report_error (en_utc env) item (''violation DB update failed; retry scheduled: '' @ message)]))"

text \<open>The violation once the image path is settled: mark, then forget the generation and publish.\<close>

definition confirm_violation ::
  "TimerEnv \<Rightarrow> TimerItem \<Rightarrow> string \<Rightarrow> TimerManager \<Rightarrow> TimerDb \<Rightarrow> TimerManager \<times> TimerDb \<times> TimerEvent list" where
  "confirm_violation env item imagePath m db =
     (case markViolation (en_io env TMark (ti_slotId item)) db (ti_logId item) (ti_violationAt item) imagePath of
        Inl e \<Rightarrow> (let (m', evs) = retryAfterDatabaseError env item e m in (m', db, evs))
      | Inr (db', False) \<Rightarrow> (m, db', [])
      | Inr (db', True) \<Rightarrow>
          (if isCurrent m item then m\<lparr>tm_generations := um_erase (ti_logId item) (tm_generations m)\<rparr> else m, db',
           [timer_event ''VIOLATION_TRIGGERED'' (ti_slotId item) (ti_carNumber item) (ti_violationAt item) imagePath
              (ti_logId item)]))"

text \<open>The evidence provider, when there is one, gives a path, empty while the evidence is not there, or throws.\<close>

definition processExpired ::
  "TimerEnv \<Rightarrow> (string + string) option \<Rightarrow> TimerItem \<Rightarrow> TimerManager \<Rightarrow> TimerDb \<Rightarrow>
     TimerManager \<times> TimerDb \<times> TimerEvent list" where
  "processExpired env evidence item m db =
     (if \<not> isCurrent m item then (m, db, [])
      else
        let item1 = (if ti_violationAt item = [] then item\<lparr>ti_violationAt := en_utc env\<rparr> else item) in
        (case evidence of
           None \<Rightarrow> confirm_violation env item1
             (''snapshots/'' @ ti_carNumber item @ ''_'' @ to_string (ti_logId item) @ ''_violation.jpg'') m db
         | Some (Inl e) \<Rightarrow>
             (let (m', db', evs) = confirm_violation env item1 [] m db in
              (m', db', report_error (en_utc env) item1 (''violation Snapshot failed: '' @ e) # evs))
         | Some (Inr path) \<Rightarrow>
             if path = [] \<and> ti_evidenceRetryCount item < 10
             then (let (m', evs) = retryAfterEvidencePending env item1 m in (m', db, evs))
             else if path = []
             then (let (m', db', evs) = confirm_violation env item1 [] m db in
                   (m', db', report_error (en_utc env) item1
                      ''overstay evidence unavailable after bounded retry; violation continues without image'' # evs))
             else confirm_violation env item1 path m db))"

text \<open>One round of the worker: the top of the queue, when it is due.\<close>

definition worker_round ::
  "TimerEnv \<Rightarrow> (string + string) option \<Rightarrow> TimerManager \<Rightarrow> TimerDb \<Rightarrow> TimerManager \<times> TimerDb \<times> TimerEvent list" where
  "worker_round env evidence m db =
     (if tm_stopping m \<or> \<not> tm_started m then (m, db, [])
      else case tm_queue m of
          [] \<Rightarrow> (m, db, [])
        | item # rest \<Rightarrow>
            if ti_deadline item \<le> en_mono env
            then processExpired env evidence item (m\<lparr>tm_queue := rest\<rparr>) db else (m, db, []))"

section \<open>The service\<close>

definition parse_utc :: "(string \<Rightarrow> int option) \<Rightarrow> string \<Rightarrow> int option" where
  "parse_utc civil value =
     (if length value < 19 then None
      else
        let text = take 19 value; seconds = (if text ! 10 = CHR ''T'' then text[10 := CHR '' ''] else text) in
        (case civil seconds of
           None \<Rightarrow> None
         | Some t \<Rightarrow>
             if t = - 1 then None
             else if length value \<ge> 23 \<and> value ! 19 = CHR ''.''
             then map_option (\<lambda>(ms, _). t * 1000000000 + ms * 1000000) (c_stoi (take 3 (drop 20 value)))
             else Some (t * 1000000000)))"

definition remainingDelay :: "TimerEnv \<Rightarrow> LogRecord \<Rightarrow> int \<Rightarrow> int" where
  "remainingDelay env record timeout =
     (case parse_utc (en_civil env) (log_parkedAt record) of
        None \<Rightarrow> timeout
      | Some parked \<Rightarrow>
          let elapsed = millis_of_time_point (en_wall env - parked) in
          if elapsed \<le> 0 then timeout else if elapsed \<ge> timeout then 1 else timeout - elapsed)"

record OverstayService =
  sv_parkingTimeout :: int
  sv_scheduled :: "int set"
  sv_timers :: TimerManager

definition newOverstayService :: "int \<Rightarrow> string + OverstayService" where
  "newOverstayService timeout =
     (if timeout \<le> 0 then Inl ''parking timeout must be positive''
      else Inr \<lparr>sv_parkingTimeout = timeout, sv_scheduled = {}, sv_timers = newTimerManager\<rparr>)"

record EntryResult =
  er_accepted :: bool
  er_category :: VehicleCategory
  er_logId :: "int option"
  er_message :: string

definition entry_result :: "bool \<Rightarrow> VehicleCategory \<Rightarrow> int option \<Rightarrow> string \<Rightarrow> EntryResult" where
  "entry_result taken category logId message =
     \<lparr>er_accepted = taken, er_category = category, er_logId = logId, er_message = message\<rparr>"

type_synonym 'r timer_outcome = "(OverstayService \<times> TimerDb) \<times> TimerEvent list \<times> (string + 'r)"

definition handleEntry ::
  "TimerEnv \<Rightarrow> OverstayService \<Rightarrow> TimerDb \<Rightarrow> string \<Rightarrow> string \<Rightarrow> string \<Rightarrow> EntryResult timer_outcome" where
  "handleEntry env sv db slotId car image1 =
     (if slotId = [] then ((sv, db), [], Inl ''slot_id must not be empty'')
      else if car = [] then ((sv, db), [], Inl ''car_number must not be empty'')
      else (case classifyVehicle (en_io env TClassify car) db car of
          Inl e \<Rightarrow> ((sv, db), [], Inl e)
        | Inr UnknownVehicle \<Rightarrow>
            ((sv, db), [timer_event ''UNKNOWN_VEHICLE'' slotId car (en_utc env) ''manual confirmation required'' (-1)],
             Inr (entry_result False UnknownVehicle None ''vehicle is not registered''))
        | Inr NonEv \<Rightarrow>
            ((sv, db), [timer_event ''NON_EV_ALERT'' slotId car (en_utc env) ''not scheduled in the EV overtime timer'' (-1)],
             Inr (entry_result False NonEv None ''non-EV vehicle''))
        | Inr Ev \<Rightarrow>
            (case findActiveBySlot (en_io env TFindActive slotId) db slotId of
               Inl e \<Rightarrow> ((sv, db), [], Inl e)
             | Inr (Some _) \<Rightarrow>
                 ((sv, db), [timer_event ''ENTRY_REJECTED'' slotId car (en_utc env) ''slot already has an active session'' (-1)],
                  Inr (entry_result False Ev None ''slot is already occupied''))
             | Inr None \<Rightarrow>
                 (case insertParked (en_io env TInsert slotId) db car slotId (en_utc env)
                     (if image1 = [] then ''snapshots/'' @ car @ ''_parked.jpg'' else image1) of
                    Inl e \<Rightarrow> ((sv, db), [], Inl e)
                  | Inr (db1, sid) \<Rightarrow>
                      (case timer_schedule (en_mono env) (sv_timers sv) sid slotId car (sv_parkingTimeout sv) of
                         Inl e \<Rightarrow>
                           ((sv, case cancelUnscheduled (en_io env TCancel slotId) db1 sid (en_utc env) of
                                   Inl _ \<Rightarrow> db1 | Inr (db2, _) \<Rightarrow> db2), [], Inl e)
                       | Inr timers \<Rightarrow>
                           ((sv\<lparr>sv_timers := timers, sv_scheduled := insert sid (sv_scheduled sv)\<rparr>, db1),
                            [timer_event ''ARRIVAL'' slotId car (en_utc env)
                               ''PARKING_SESSION inserted; overtime timer started'' sid],
                            Inr (entry_result True Ev (Some sid) ''timer started'')))))))"

definition handleRecognizedSession ::
  "TimerEnv \<Rightarrow> OverstayService \<Rightarrow> TimerDb \<Rightarrow> int \<Rightarrow> string \<Rightarrow> string \<Rightarrow> EntryResult timer_outcome" where
  "handleRecognizedSession env sv db sid slotId car =
     (let event = (\<lambda>kind detail i. timer_event kind slotId car (en_utc env) detail i);
          answer = (\<lambda>taken category message. Inr (entry_result taken category (Some sid) message)) in
      if sid < 0 \<or> slotId = [] \<or> car = []
      then ((sv, db), [], Inl ''recognized session fields must not be empty'')
      else (case classifyVehicle (en_io env TClassify car) db car of
          Inl e \<Rightarrow> ((sv, db), [], Inl e)
        | Inr category \<Rightarrow>
            (case findLogById (en_io env TFindById (to_string sid)) db sid of
               Inl e \<Rightarrow> ((sv, db), [], Inl e)
             | Inr found \<Rightarrow>
                 (case (case found of None \<Rightarrow> None
                        | Some r \<Rightarrow> if log_slotId r \<noteq> slotId \<or> log_departedAt r \<noteq> None then None else Some r) of
                    None \<Rightarrow>
                      ((sv, db), [event ''TIMER_REJECTED'' ''session is missing, mismatched, or already ended'' (-1)],
                       answer False category ''session is not active'')
                  | Some r \<Rightarrow>
                      (case category of
                         UnknownVehicle \<Rightarrow>
                           ((sv, db), [event ''UNKNOWN_VEHICLE'' ''manual confirmation required; timer not started'' (-1)],
                            answer False category ''vehicle is not registered'')
                       | NonEv \<Rightarrow>
                           (case markViolation (en_io env TMark slotId) db sid (en_utc env) [] of
                              Inl e \<Rightarrow> ((sv, db), [], Inl e)
                            | Inr (db1, False) \<Rightarrow>
                                ((sv, db1), [], answer False category ''non-EV violation was already handled or session ended'')
                            | Inr (db1, True) \<Rightarrow>
                                ((sv, db1), [event ''NON_EV_ALERT'' ''non-EV vehicle in EV charging slot'' sid],
                                 answer False category ''non-EV vehicle''))
                       | Ev \<Rightarrow>
                           if sid \<in> sv_scheduled sv then ((sv, db), [], answer False category ''timer already scheduled'')
                           else (case timer_schedule (en_mono env) (sv_timers sv) sid slotId car
                                   (remainingDelay env r (sv_parkingTimeout sv)) of
                               Inl e \<Rightarrow> ((sv, db), [], Inl e)
                             | Inr timers \<Rightarrow>
                                 ((sv\<lparr>sv_timers := timers, sv_scheduled := insert sid (sv_scheduled sv)\<rparr>, db),
                                  [event ''TIMER_STARTED'' ''existing PARKING_SESSION scheduled after OCR'' sid],
                                  answer True category ''timer started'')))))))"

text \<open>The sessions that a restart or a new threshold concerns.\<close>

definition restorable :: "LogRecord \<Rightarrow> bool" where
  "restorable r \<longleftrightarrow> log_departedAt r = None \<and> log_carNumber r \<noteq> [] \<and>
     (log_status r = ''PARKED'' \<or> log_status r = ''ACTIVE'')"

fun restore_loop ::
  "TimerEnv \<Rightarrow> LogRecord list \<Rightarrow> nat \<Rightarrow> OverstayService \<Rightarrow> TimerDb \<Rightarrow> nat timer_outcome" where
  "restore_loop env [] restored sv db = ((sv, db), [], Inr restored)"
| "restore_loop env (r # rs) restored sv db =
     (if \<not> restorable r then restore_loop env rs restored sv db
      else (case handleRecognizedSession env sv db (log_id r) (log_slotId r) (log_carNumber r) of
          ((sv1, db1), evs, Inl e) \<Rightarrow> ((sv1, db1), evs, Inl e)
        | ((sv1, db1), evs, Inr result) \<Rightarrow>
            (let (s, evs', out) = restore_loop env rs (if er_accepted result then restored + 1 else restored) sv1 db1 in
             (s, evs @ evs', out))))"

definition restoreActiveSessions :: "TimerEnv \<Rightarrow> OverstayService \<Rightarrow> TimerDb \<Rightarrow> nat timer_outcome" where
  "restoreActiveSessions env sv db =
     (case listLogs (en_io env TList []) db of
        Inl e \<Rightarrow> ((sv, db), [], Inl e)
      | Inr logs \<Rightarrow> restore_loop env logs 0 sv db)"

fun reschedule_loop ::
  "TimerEnv \<Rightarrow> TimerDb \<Rightarrow> LogRecord list \<Rightarrow> nat \<Rightarrow> OverstayService \<Rightarrow> OverstayService \<times> (string + nat)" where
  "reschedule_loop env db [] rescheduled sv = (sv, Inr rescheduled)"
| "reschedule_loop env db (r # rs) rescheduled sv =
     (if \<not> restorable r then reschedule_loop env db rs rescheduled sv
      else (case classifyVehicle (en_io env TClassify (log_carNumber r)) db (log_carNumber r) of
          Inl e \<Rightarrow> (sv, Inl e)
        | Inr category \<Rightarrow>
            if category \<noteq> Ev then reschedule_loop env db rs rescheduled sv
            else (case timer_schedule (en_mono env) (sv_timers sv) (log_id r) (log_slotId r) (log_carNumber r)
                    (remainingDelay env r (sv_parkingTimeout sv)) of
                Inl e \<Rightarrow> (sv, Inl e)
              | Inr timers \<Rightarrow>
                  reschedule_loop env db rs (rescheduled + 1)
                    (sv\<lparr>sv_timers := timers, sv_scheduled := insert (log_id r) (sv_scheduled sv)\<rparr>))))"

definition updateParkingTimeout :: "TimerEnv \<Rightarrow> OverstayService \<Rightarrow> TimerDb \<Rightarrow> int \<Rightarrow> nat timer_outcome" where
  "updateParkingTimeout env sv db timeout =
     (if timeout \<le> 0 then ((sv, db), [], Inl ''parking timeout must be positive'')
      else
        let sv1 = sv\<lparr>sv_parkingTimeout := timeout\<rparr> in
        (case listLogs (en_io env TList []) db of
           Inl e \<Rightarrow> ((sv1, db), [], Inl e)
         | Inr logs \<Rightarrow>
             (case reschedule_loop env db logs 0 sv1 of
                (sv2, Inl e) \<Rightarrow> ((sv2, db), [], Inl e)
              | (sv2, Inr n) \<Rightarrow>
                  ((sv2, db), [timer_event ''OVERSTAY_TIMERS_RESCHEDULED'' [] [] (en_utc env)
                      (''active_sessions='' @ to_string (int n) @ '' threshold_ms='' @ to_string timeout) (-1)],
                   Inr n))))"

definition handleExit :: "TimerEnv \<Rightarrow> OverstayService \<Rightarrow> TimerDb \<Rightarrow> string \<Rightarrow> LogRecord option timer_outcome" where
  "handleExit env sv db slotId =
     (if slotId = [] then ((sv, db), [], Inl ''slot_id must not be empty'')
      else (case departActiveBySlot (en_io env TDepart slotId) (en_seconds env) db slotId (en_utc env) of
          Inl e \<Rightarrow> ((sv, db), [], Inl e)
        | Inr (db1, None) \<Rightarrow>
            ((sv, db1), [timer_event ''EXIT_IGNORED'' slotId [] (en_utc env) ''no active session'' (-1)], Inr None)
        | Inr (db1, Some r) \<Rightarrow>
            ((sv, db1), [timer_event ''DEPARTURE'' slotId (log_carNumber r) (en_utc env)
               ''PARKING_SESSION updated; queued timer lazily canceled'' (log_id r)], Inr (Some r))))"

definition handleCommittedExit ::
  "TimerEnv \<Rightarrow> OverstayService \<Rightarrow> TimerDb \<Rightarrow> int \<Rightarrow> string \<Rightarrow> LogRecord option timer_outcome" where
  "handleCommittedExit env sv db sid slotId =
     (if sid < 0 \<or> slotId = [] then ((sv, db), [], Inl ''committed exit session and slot must be valid'')
      else (case findLogById (en_io env TFindById (to_string sid)) db sid of
          Inl e \<Rightarrow> ((sv, db), [], Inl e)
        | Inr None \<Rightarrow> ((sv, db), [], Inr None)
        | Inr (Some r) \<Rightarrow>
            if log_slotId r \<noteq> slotId \<or> log_departedAt r = None then ((sv, db), [], Inr None)
            else ((sv\<lparr>sv_scheduled := sv_scheduled sv - {sid}\<rparr>, db), [], Inr (Some r))))"

section \<open>The threshold setting\<close>

text \<open>
  The stored setting is the value of \<open>overstay_threshold_seconds\<close>; reading it can throw, writing it can
  fail. The callback that applies a threshold to the running parts gives their next state and, when it
  throws, the error.
\<close>

record OverstayThreshold =
  ot_bootstrap :: int
  ot_threshold :: int
  ot_revision :: "64 word"
  ot_applied :: bool
  ot_healthy :: bool

definition threshold_isValid :: "int \<Rightarrow> bool" where
  "threshold_isValid seconds \<longleftrightarrow> 60 \<le> seconds \<and> seconds \<le> 86400"

definition newOverstayThreshold :: "int \<Rightarrow> OverstayThreshold" where
  "newOverstayThreshold bootstrap =
     (let b = (if threshold_isValid bootstrap then bootstrap else 3600) in
      \<lparr>ot_bootstrap = b, ot_threshold = b, ot_revision = 1, ot_applied = True, ot_healthy = True\<rparr>)"

definition threshold_initialize ::
  "bool \<Rightarrow> bool \<Rightarrow> OverstayThreshold \<Rightarrow> string option \<Rightarrow> OverstayThreshold \<times> string option \<times> bool" where
  "threshold_initialize readOk writeOk t stored =
     (let restore = (if \<not> writeOk then (t, stored, False)
            else (t\<lparr>ot_threshold := ot_bootstrap t\<rparr>, Some (to_string (ot_bootstrap t)), True)) in
      if \<not> readOk then (t, stored, False)
      else (case stored of
          None \<Rightarrow> restore
        | Some text \<Rightarrow>
            (case c_stoi text of
               None \<Rightarrow> (t, stored, False)
             | Some (value, consumed) \<Rightarrow>
                 if consumed = length text \<and> threshold_isValid value
                 then (t\<lparr>ot_threshold := value\<rparr>, stored, True) else restore)))"

record ThresholdUpdateResult =
  tu_success :: bool
  tu_previous :: int
  tu_threshold :: int
  tu_revision :: "64 word"
  tu_applied :: bool
  tu_healthy :: bool
  tu_error :: string

definition threshold_result :: "OverstayThreshold \<Rightarrow> int \<Rightarrow> bool \<Rightarrow> int \<Rightarrow> string \<Rightarrow> ThresholdUpdateResult" where
  "threshold_result t previous success seconds err =
     \<lparr>tu_success = success, tu_previous = previous, tu_threshold = seconds, tu_revision = ot_revision t,
      tu_applied = ot_applied t, tu_healthy = ot_healthy t, tu_error = err\<rparr>"

definition threshold_update ::
  "bool \<Rightarrow> (int \<Rightarrow> 'w \<Rightarrow> 'w \<times> string option) option \<Rightarrow> int \<Rightarrow> OverstayThreshold \<Rightarrow> string option \<Rightarrow> 'w \<Rightarrow>
     (OverstayThreshold \<times> string option \<times> 'w) \<times> ThresholdUpdateResult" where
  "threshold_update writeOk apply_callback seconds t stored w =
     (let previous = ot_threshold t in
      if \<not> threshold_isValid seconds
      then ((t, stored, w), threshold_result t previous False previous ''thresholdSeconds must be between 60 and 86400'')
      else if seconds = previous \<and> ot_applied t \<and> ot_healthy t
      then ((t, stored, w), threshold_result t previous True previous [])
      else if \<not> writeOk
      then ((t, stored, w), threshold_result t previous False previous ''failed to persist setting'')
      else
        let t1 = t\<lparr>ot_threshold := seconds\<rparr>; stored1 = Some (to_string seconds);
            (w1, failure) = (case apply_callback of None \<Rightarrow> (w, None) | Some f \<Rightarrow> f (seconds * 1000) w) in
        (case failure of
           Some e \<Rightarrow>
             (let t2 = t1\<lparr>ot_applied := False, ot_healthy := False\<rparr> in
              ((t2, stored1, w1), threshold_result t2 previous False seconds (''failed to apply runtime policy: '' @ e)))
         | None \<Rightarrow>
             (let t2 = t1\<lparr>ot_applied := True, ot_healthy := True, ot_revision := ot_revision t + 1\<rparr> in
              ((t2, stored1, w1), threshold_result t2 previous True seconds []))))"

end
