(* ===== verification/OverstayLaws.thy ===== *)
theory OverstayLaws
  imports OverstayTimer
begin

text \<open>
  Laws and properties of the overstay timer over histories of calls. The invariant \<open>overstay_ok\<close>: every
  timer that was set for a session that is still active has its node in the deadline queue. The relation
  \<open>db_advance\<close>: a session is reported as a violation at most once.
\<close>

section \<open>Histories of the service\<close>

definition active_session :: "TimerDb \<Rightarrow> int \<Rightarrow> bool" where
  "active_session db sid \<longleftrightarrow> list_ex (markable sid) (td_sessions db)"

text \<open>
  What the other components may do to the database between two calls: they insert sessions with new
  ids, end or flag sessions and add images, but never make a session active again.
\<close>

definition db_follows :: "TimerDb \<Rightarrow> TimerDb \<Rightarrow> bool" where
  "db_follows db db' \<longleftrightarrow> td_nextSession db \<le> td_nextSession db' \<and> distinct (map ts_id (td_sessions db')) \<and>
     list_all (\<lambda>r. ts_id r < td_nextSession db' \<and>
       (ts_status r = SesActive \<and> ts_exitTime r = None \<longrightarrow> td_nextSession db \<le> ts_id r \<or> active_session db (ts_id r)))
       (td_sessions db')"

datatype overstay_call =
  StartTimer bool
| StopTimer
| EntryCall TimerEnv string string string
| RecognizedCall TimerEnv int string string
| RestoreCall TimerEnv
| TimeoutCall TimerEnv int
| ExitCall TimerEnv string
| CommittedExitCall TimerEnv int string
| WorkerRound TimerEnv "(string + string) option"
| OtherWrites TimerDb

fun overstay_step ::
  "OverstayService \<times> TimerDb \<Rightarrow> overstay_call \<Rightarrow> (OverstayService \<times> TimerDb) \<times> TimerEvent list" where
  "overstay_step (sv, db) (StartTimer ok) = ((sv\<lparr>sv_timers := fst (timer_start ok (sv_timers sv))\<rparr>, db), [])"
| "overstay_step (sv, db) StopTimer = ((sv\<lparr>sv_timers := timer_stop (sv_timers sv)\<rparr>, db), [])"
| "overstay_step (sv, db) (EntryCall env slotId car image1) =
     (case handleEntry env sv db slotId car image1 of (s, evs, _) \<Rightarrow> (s, evs))"
| "overstay_step (sv, db) (RecognizedCall env sid slotId car) =
     (case handleRecognizedSession env sv db sid slotId car of (s, evs, _) \<Rightarrow> (s, evs))"
| "overstay_step (sv, db) (RestoreCall env) = (case restoreActiveSessions env sv db of (s, evs, _) \<Rightarrow> (s, evs))"
| "overstay_step (sv, db) (TimeoutCall env timeout) =
     (case updateParkingTimeout env sv db timeout of (s, evs, _) \<Rightarrow> (s, evs))"
| "overstay_step (sv, db) (ExitCall env slotId) = (case handleExit env sv db slotId of (s, evs, _) \<Rightarrow> (s, evs))"
| "overstay_step (sv, db) (CommittedExitCall env sid slotId) =
     (case handleCommittedExit env sv db sid slotId of (s, evs, _) \<Rightarrow> (s, evs))"
| "overstay_step (sv, db) (WorkerRound env evidence) =
     (case worker_round env evidence (sv_timers sv) db of (m, db', evs) \<Rightarrow> ((sv\<lparr>sv_timers := m\<rparr>, db'), evs))"
| "overstay_step (sv, db) (OtherWrites db') = ((sv, if db_follows db db' then db' else db), [])"

section \<open>Invariant\<close>

definition timer_db_ok :: "TimerDb \<Rightarrow> bool" where
  "timer_db_ok db \<longleftrightarrow> distinct (map ts_id (td_sessions db)) \<and>
     list_all (\<lambda>r. ts_id r < td_nextSession db) (td_sessions db)"

definition armed :: "TimerManager \<Rightarrow> int \<Rightarrow> bool" where
  "armed m sid \<longleftrightarrow> tm_stopping m \<or> list_ex (\<lambda>item. ti_logId item = sid \<and> isCurrent m item) (tm_queue m)"

text \<open>
  What the queue owes to a set of sessions: every timer that was set for a session that is still
  active has its node in the queue.
\<close>

definition kept :: "TimerManager \<Rightarrow> int set \<Rightarrow> TimerDb \<Rightarrow> bool" where
  "kept m scheduled db \<longleftrightarrow> timer_db_ok db \<and> um_wf (tm_generations m) \<and>
     (\<forall>sid \<in> dom (um_find (tm_generations m)) \<union> scheduled. sid < td_nextSession db \<and>
        (active_session db sid \<longrightarrow> armed m sid))"

definition overstay_ok :: "OverstayService \<Rightarrow> TimerDb \<Rightarrow> bool" where
  "overstay_ok sv db \<longleftrightarrow> kept (sv_timers sv) (sv_scheduled sv) db"

lemma armed_push: "armed m sid \<Longrightarrow> armed (timer_push item m) sid"
  by (auto simp: armed_def timer_push_def isCurrent_def list_ex_iff)

lemma generations_push [simp]: "tm_generations (timer_push item m) = tm_generations m"
  "tm_stopping (timer_push item m) = tm_stopping m"
  by (simp_all add: timer_push_def)

lemma push_current:
  "um_find (tm_generations m) (ti_logId item) = Some (ti_generation item) \<Longrightarrow> armed (timer_push item m) (ti_logId item)"
  by (auto simp: armed_def timer_push_def isCurrent_def list_ex_iff intro!: bexI [where x = "item\<lparr>ti_sequence := tm_nextSequence m\<rparr>"])

lemma schedule_armed:
  assumes "timer_schedule now m sid slotId car delay = Inr m'"
  shows "armed m' sid" and "armed m k \<Longrightarrow> armed m' k"
    and "tm_generations m' = um_put sid (generation_of m sid + 1) (tm_generations m)"
proof -
  let ?m1 = "m\<lparr>tm_generations := um_put sid (generation_of m sid + 1) (tm_generations m)\<rparr>"
  obtain item where m': "m' = timer_push item ?m1" "ti_logId item = sid" "ti_generation item = generation_of m sid + 1"
    using assms by (auto simp: timer_schedule_def Let_def split: if_splits)
  then show new: "armed m' sid" using push_current [of ?m1 item] by (simp add: um_find_put)
  show "tm_generations m' = um_put sid (generation_of m sid + 1) (tm_generations m)" by (simp add: m')
  show "armed m' k" if "armed m k"
  proof (cases "k = sid")
    case False
    then have "armed ?m1 k" using that by (fastforce simp: armed_def isCurrent_def list_ex_iff um_find_put)
    then show ?thesis unfolding m' by (rule armed_push)
  qed (use new in simp)
qed

section \<open>What a call does to the database\<close>

definition violation_of :: "int \<Rightarrow> TimerEvent \<Rightarrow> bool" where
  "violation_of sid e \<longleftrightarrow> te_sessionId e = sid \<and> (te_type e = ''VIOLATION_TRIGGERED'' \<or> te_type e = ''NON_EV_ALERT'')"

definition pending_violation :: "TimerDb \<Rightarrow> int \<Rightarrow> nat" where
  "pending_violation db sid = (if td_nextSession db \<le> sid \<or> active_session db sid then 1 else 0)"

text \<open>
  The database stays well formed, no session becomes active again, and every report of a violation uses
  up the one its session has.
\<close>

definition db_advance :: "TimerDb \<Rightarrow> TimerDb \<Rightarrow> TimerEvent list \<Rightarrow> bool" where
  "db_advance db db' evs \<longleftrightarrow> timer_db_ok db' \<and> td_nextSession db \<le> td_nextSession db' \<and>
     (\<forall>sid \<ge> 0. count_rows (violation_of sid) evs + pending_violation db' sid \<le> pending_violation db sid) \<and>
     (\<forall>sid. active_session db' sid \<longrightarrow> active_session db sid \<or> td_nextSession db \<le> sid)"

lemma db_advance_refl:
  "timer_db_ok db \<Longrightarrow> (\<And>e sid. e \<in> set evs \<Longrightarrow> 0 \<le> sid \<Longrightarrow> \<not> violation_of sid e) \<Longrightarrow> db_advance db db evs"
  by (auto simp: db_advance_def count_rows_def filter_empty_conv)

lemma db_advance_trans:
  assumes "db_advance a b es" and "db_advance b c fs"
  shows "db_advance a c (es @ fs)"
proof -
  have "count_rows (violation_of sid) (es @ fs) + pending_violation c sid \<le> pending_violation a sid" if "0 \<le> sid" for sid
  proof -
    have "count_rows (violation_of sid) es + pending_violation b sid \<le> pending_violation a sid"
      and "count_rows (violation_of sid) fs + pending_violation c sid \<le> pending_violation b sid"
      using assms that by (auto simp: db_advance_def)
    then show ?thesis by simp
  qed
  moreover have "active_session a sid \<or> td_nextSession a \<le> sid" if "active_session c sid" for sid
    using assms that unfolding db_advance_def by (meson order_trans)
  ultimately show ?thesis using assms by (auto simp: db_advance_def)
qed

lemma db_advance_quiet:
  assumes "timer_db_ok db'" and "td_nextSession db' = td_nextSession db"
    and "\<And>k. active_session db' k \<Longrightarrow> active_session db k"
    and "\<And>e sid. e \<in> set evs \<Longrightarrow> 0 \<le> sid \<Longrightarrow> \<not> violation_of sid e"
  shows "db_advance db db' evs"
  using assms by (auto simp: db_advance_def count_rows_def filter_empty_conv pending_violation_def)

lemma count_markable:
  assumes "timer_db_ok db"
  shows "count_rows (markable sid) (td_sessions db) = (if active_session db sid then 1 else 0)"
  unfolding active_session_def
  by (rule count_key [of ts_id _ _ sid]) (use assms in \<open>auto simp: timer_db_ok_def markable_def\<close>)

lemma update_rows_ok:
  fixes f :: "TimerSession \<Rightarrow> TimerSession"
  assumes ok: "timer_db_ok db" and keys: "\<And>r. ts_id (f r) = ts_id r"
    and eq: "td_sessions db' = update_rows p f (td_sessions db)" "td_nextSession db' = td_nextSession db"
  shows "timer_db_ok db'"
proof -
  have m: "map ts_id (td_sessions db') = map ts_id (td_sessions db)"
    unfolding eq(1) by (rule update_rows_map) (rule keys)
  then have "set (map ts_id (td_sessions db')) = set (map ts_id (td_sessions db))" by (rule arg_cong)
  then have "\<forall>r \<in> set (td_sessions db'). ts_id r < td_nextSession db"
    using ok by (force simp: timer_db_ok_def list_all_iff image_iff)
  then show ?thesis using ok m eq(2) by (simp add: timer_db_ok_def list_all_iff)
qed

lemma active_update_rows:
  assumes "td_sessions db' = update_rows p f (td_sessions db)" and "\<And>r. ts_id (f r) = ts_id r"
    and "\<And>r. ts_status (f r) \<noteq> SesActive"
  shows "active_session db' k \<longleftrightarrow> (\<exists>r \<in> set (td_sessions db). markable k r \<and> \<not> p r)"
  using assms by (auto simp: active_session_def list_ex_iff update_rows_def markable_def)

lemma active_old: "timer_db_ok db \<Longrightarrow> active_session db sid \<Longrightarrow> sid < td_nextSession db"
  by (auto simp: timer_db_ok_def active_session_def list_ex_iff list_all_iff markable_def)

lemma mark_sound:
  assumes "timer_db_ok db" and "markViolation ok db sid at img = Inr (db', changed)"
  shows "timer_db_ok db'" and "changed = active_session db sid"
    and "active_session db' k \<longleftrightarrow> active_session db k \<and> k \<noteq> sid" and "td_nextSession db' = td_nextSession db"
proof -
  have eq: "td_sessions db' = update_rows (markable sid)
      (\<lambda>r. r\<lparr>ts_status := SesViolation, ts_violationAt := Some at\<rparr>) (td_sessions db)"
    and n: "td_nextSession db' = td_nextSession db"
    using assms(2) by (auto simp: markViolation_def Let_def split: if_splits)
  show "timer_db_ok db'" by (rule update_rows_ok [OF assms(1) _ eq n]) simp
  show "td_nextSession db' = td_nextSession db" by (rule n)
  show "changed = active_session db sid"
    using assms by (auto simp: markViolation_def Let_def count_markable split: if_splits)
  show "active_session db' k \<longleftrightarrow> active_session db k \<and> k \<noteq> sid"
    using active_update_rows [OF eq, of k] by (auto simp: active_session_def list_ex_iff markable_def)
qed

lemma mark_advance:
  assumes "timer_db_ok db" and "markViolation ok db sid at img = Inr (db', True)"
    and "\<And>k. violation_of k e \<Longrightarrow> k = sid"
  shows "db_advance db db' [e]"
proof -
  note m = mark_sound [OF assms(1,2)]
  have "count_rows (violation_of k) [e] + pending_violation db' k \<le> pending_violation db k" for k
  proof (cases "k = sid")
    case True
    then have "pending_violation db' k = 0" "pending_violation db k = 1"
      using m active_old [OF assms(1), of sid] by (auto simp: pending_violation_def)
    then show ?thesis by (simp add: count_rows_def)
  next
    case False
    then have "count_rows (violation_of k) [e] = 0" using assms(3) by (auto simp: count_rows_def)
    then show ?thesis using m False by (simp add: pending_violation_def)
  qed
  then show ?thesis using m by (simp add: db_advance_def)
qed

lemma cancel_advance:
  assumes "timer_db_ok db" and "cancelUnscheduled ok db sid at = Inr (db', b)"
  shows "db_advance db db' []"
proof -
  have eq: "td_sessions db' = update_rows (markable sid)
      (\<lambda>r. r\<lparr>ts_status := SesEnded, ts_exitTime := Some at\<rparr>) (td_sessions db)"
    and n: "td_nextSession db' = td_nextSession db"
    using assms(2) by (auto simp: cancelUnscheduled_def split: if_splits)
  have "active_session db k" if "active_session db' k" for k
    using that active_update_rows [OF eq, of k] by (auto simp: active_session_def list_ex_iff)
  then show ?thesis
    by (intro db_advance_quiet update_rows_ok [OF assms(1) _ eq n]) (simp_all add: n)
qed

lemma depart_advance:
  assumes "timer_db_ok db" and "departActiveBySlot ok seconds db slotId at = Inr (db', r)"
    and "\<And>e sid. e \<in> set evs \<Longrightarrow> 0 \<le> sid \<Longrightarrow> \<not> violation_of sid e"
  shows "db_advance db db' evs"
proof (cases "db' = db")
  case True
  then show ?thesis using assms(1,3) by (simp add: db_advance_refl)
next
  case False
  then obtain p f where eq: "td_sessions db' = update_rows p f (td_sessions db)"
    and f: "\<And>r. ts_id (f r) = ts_id r" "\<And>r. ts_status (f r) = SesEnded"
    and n: "td_nextSession db' = td_nextSession db"
  proof -
    let ?f = "\<lambda>r. r\<lparr>ts_status := SesEnded, ts_exitTime := Some at,
        ts_duration := (case (seconds at, seconds (ts_entryTime r)) of
           (Some a, Some b) \<Rightarrow> Some (max 0 (a - b)) | _ \<Rightarrow> None)\<rparr>"
    obtain p where "td_sessions db' = update_rows p ?f (td_sessions db)" "td_nextSession db' = td_nextSession db"
      using assms(2) False by (auto simp: departActiveBySlot_def Let_def split: if_splits option.splits)
    then show thesis using that [of p ?f] by simp
  qed
  have "active_session db k" if "active_session db' k" for k
    using that active_update_rows [OF eq f(1), of k] f(2) by (auto simp: active_session_def list_ex_iff)
  then show ?thesis
    by (intro db_advance_quiet update_rows_ok [OF assms(1) f(1) eq n] assms(3)) (simp_all add: n)
qed

lemma insert_advance:
  assumes "timer_db_ok db" and "insertParked ok db car slotId at img = Inr (db', sid)"
  shows "db_advance db db' []" and "sid = td_nextSession db" and "timer_db_ok db'"
proof -
  have eq: "\<exists>row. td_sessions db' = td_sessions db @ [row] \<and> ts_id row = td_nextSession db"
    and n: "td_nextSession db' = td_nextSession db + 1" and "sid = td_nextSession db"
    using assms(2) by (auto simp: insertParked_def Let_def split: if_splits)
  then show "sid = td_nextSession db" by simp
  show ok: "timer_db_ok db'" using eq n assms(1) by (fastforce simp: timer_db_ok_def list_all_iff)
  show "db_advance db db' []"
    using eq n assms(1) ok
    by (auto simp: db_advance_def count_rows_def pending_violation_def active_session_def list_ex_iff markable_def
        timer_db_ok_def list_all_iff)
qed

section \<open>Preservation by the queue\<close>

lemma kept_db: "kept m S db \<Longrightarrow> db_advance db db' evs \<Longrightarrow> kept m S db'"
  unfolding kept_def db_advance_def by (meson leD order_less_le_trans)

lemma kept_schedule:
  assumes "kept m S db" and "timer_schedule now m sid slotId car delay = Inr m'" and "sid < td_nextSession db"
  shows "kept m' (insert sid S) db"
proof -
  note s = schedule_armed [OF assms(2)]
  have "k < td_nextSession db \<and> (active_session db k \<longrightarrow> armed m' k)"
    if k: "k \<in> dom (um_find (tm_generations m')) \<union> insert sid S" for k
  proof (cases "k = sid")
    case True
    then show ?thesis using s(1) assms(3) by simp
  next
    case False
    then have "k \<in> dom (um_find (tm_generations m)) \<union> S" using k by (auto simp: s(3) um_find_put)
    then show ?thesis using assms(1) s(2) by (auto simp: kept_def)
  qed
  then show ?thesis using assms(1) by (auto simp: kept_def s(3) intro: um_wf_put)
qed

lemma find_session_old: "timer_db_ok db \<Longrightarrow> find_session db sid = Some r \<Longrightarrow> sid < td_nextSession db"
  by (auto simp: find_session_def find_Some_iff timer_db_ok_def list_all_iff)

lemma armed_generations:
  assumes "um_find (tm_generations m') sid = um_find (tm_generations m) sid"
    and "tm_queue m' = tm_queue m" and "tm_stopping m' = tm_stopping m" and "armed m sid"
  shows "armed m' sid"
  using assms by (fastforce simp: armed_def list_ex_iff isCurrent_def)

lemma no_violation [simp]:
  "violation_of sid (timer_event kind slotId car at detail i) \<longleftrightarrow>
     i = sid \<and> (kind = ''VIOLATION_TRIGGERED'' \<or> kind = ''NON_EV_ALERT'')"
  by (simp add: violation_of_def timer_event_def)

lemma retry_sound:
  assumes "isCurrent m item" and "retryAfterDatabaseError env item e m = (m', evs) \<or> retryAfterEvidencePending env item m = (m', evs)"
  shows "tm_generations m' = tm_generations m" and "armed m' (ti_logId item)" and "armed m k \<Longrightarrow> armed m' k"
    and "ev \<in> set evs \<Longrightarrow> \<not> violation_of sid ev"
proof -
  obtain d n r where m': "m' = (if tm_stopping m then m else timer_push
      (item\<lparr>ti_retryCount := r, ti_evidenceRetryCount := n, ti_deadline := d\<rparr>) m)"
  proof -
    have "\<exists>d n r. m' = (if tm_stopping m then m else timer_push
      (item\<lparr>ti_retryCount := r, ti_evidenceRetryCount := n, ti_deadline := d\<rparr>) m)"
      using assms(2)
    proof
      assume "retryAfterDatabaseError env item e m = (m', evs)"
      then show ?thesis
        by (intro exI [of _ "en_mono env + 2 ^ min (ti_retryCount item) 5 * 1000000000"] exI [of _ "ti_evidenceRetryCount item"]
            exI [of _ "if ti_retryCount item < 5 then ti_retryCount item + 1 else ti_retryCount item"])
          (auto simp: retryAfterDatabaseError_def Let_def)
    next
      assume "retryAfterEvidencePending env item m = (m', evs)"
      then show ?thesis
        by (intro exI [of _ "en_mono env + 500 * 1000000"] exI [of _ "ti_evidenceRetryCount item + 1"]
            exI [of _ "ti_retryCount item"])
          (auto simp: retryAfterEvidencePending_def Let_def)
    qed
    then show thesis using that by blast
  qed
  show "tm_generations m' = tm_generations m" by (simp add: m')
  let ?item = "item\<lparr>ti_retryCount := r, ti_evidenceRetryCount := n, ti_deadline := d\<rparr>"
  have "armed (timer_push ?item m) (ti_logId ?item)"
    using assms(1) by (intro push_current) (simp add: isCurrent_def)
  then show "armed m' (ti_logId item)" by (auto simp: m' armed_def)
  show "armed m k \<Longrightarrow> armed m' k" by (simp add: m' armed_push)
  show "ev \<in> set evs \<Longrightarrow> \<not> violation_of sid ev"
    using assms(2) by (auto simp: retryAfterDatabaseError_def retryAfterEvidencePending_def Let_def report_error_def
        split: if_splits)
qed

text \<open>The node is out of the queue; it is the current one of its session.\<close>

lemma confirm_sound:
  assumes db: "timer_db_ok db" and cur: "isCurrent m item" and wf: "um_wf (tm_generations m)"
    and keep: "\<And>sid. sid \<in> dom (um_find (tm_generations m)) \<union> S \<Longrightarrow> sid < td_nextSession db \<and>
        (active_session db sid \<longrightarrow> sid \<noteq> ti_logId item \<longrightarrow> armed m sid)"
    and run: "confirm_violation env item path m db = (m', db', evs)"
  shows "kept m' S db' \<and> db_advance db db' evs"
proof (cases "markViolation (en_io env TMark (ti_slotId item)) db (ti_logId item) (ti_violationAt item) path")
  case (Inl e)
  then have r: "retryAfterDatabaseError env item e m = (m', evs)" and "db' = db"
    using run by (auto simp: confirm_violation_def split: prod.splits)
  moreover have "kept m' S db"
    using db wf keep retry_sound(1-3) [OF cur disjI1 [OF r]] unfolding kept_def by (metis (no_types, lifting))
  moreover have "db_advance db db evs"
    using db retry_sound(4) [OF cur disjI1 [OF r]] by (intro db_advance_refl) auto
  ultimately show ?thesis by simp
next
  case (Inr x)
  obtain changed where mk: "markViolation (en_io env TMark (ti_slotId item)) db (ti_logId item) (ti_violationAt item) path
      = Inr (db', changed)"
    using run Inr by (cases x) (auto simp: confirm_violation_def split: bool.splits)
  note m = mark_sound [OF db mk]
  show ?thesis
  proof (cases changed)
    case True
    let ?e = "timer_event ''VIOLATION_TRIGGERED'' (ti_slotId item) (ti_carNumber item) (ti_violationAt item) path (ti_logId item)"
    have r: "m' = m\<lparr>tm_generations := um_erase (ti_logId item) (tm_generations m)\<rparr>" "evs = [?e]"
      using run mk True cur by (auto simp: confirm_violation_def)
    have adv: "db_advance db db' evs"
      unfolding r by (rule mark_advance [OF db]) (use mk True in auto)
    have "sid < td_nextSession db' \<and> (active_session db' sid \<longrightarrow> armed m' sid)"
      if "sid \<in> dom (um_find (tm_generations m')) \<union> S" for sid
    proof -
      have s: "sid \<in> dom (um_find (tm_generations m)) \<union> S" using that by (auto simp: r um_find_erase split: if_splits)
      have "armed m' sid" if "active_session db' sid"
      proof -
        have "sid \<noteq> ti_logId item" "active_session db sid" using that m(3) by auto
        then have "armed m sid" using keep [OF s] by blast
        then show ?thesis by (rule armed_generations [rotated 3]) (simp_all add: r um_find_erase \<open>sid \<noteq> ti_logId item\<close>)
      qed
      then show ?thesis using keep [OF s] m(4) by simp
    qed
    then show ?thesis using adv m(1) wf by (auto simp: kept_def r intro: um_wf_erase)
  next
    case False
    then have r: "m' = m" "evs = []" using run mk by (auto simp: confirm_violation_def)
    have "\<not> active_session db (ti_logId item)" using m(2) False by simp
    then have "kept m' S db'" using keep m wf by (auto simp: kept_def r)
    moreover have "db_advance db db' evs" using m r by (intro db_advance_quiet) auto
    ultimately show ?thesis by simp
  qed
qed

lemma db_advance_report:
  "db_advance db db' evs \<Longrightarrow> db_advance db db' (report_error at item msg # evs)"
  by (auto simp: db_advance_def count_rows_def report_error_def)

text \<open>How the expiry of a current node ends.\<close>

lemma expired_cases:
  assumes "isCurrent m item" and "processExpired env evidence item m db = (m', db', evs)"
    and "item1 = (if ti_violationAt item = [] then item\<lparr>ti_violationAt := en_utc env\<rparr> else item)"
  obtains (confirm) path where "confirm_violation env item1 path m db = (m', db', evs)"
    | (report) path msg evs' where "confirm_violation env item1 path m db = (m', db', evs')"
        "evs = report_error (en_utc env) item1 msg # evs'"
    | (wait) "retryAfterEvidencePending env item1 m = (m', evs)" "db' = db" "evidence = Some (Inr [])"
proof (cases evidence)
  case None
  then show thesis using assms confirm by (simp add: processExpired_def Let_def)
next
  case (Some ev)
  note evidence = this
  show thesis
  proof (cases ev)
    case (Inl e)
    then show thesis using assms evidence report [of "[]"] by (auto simp: processExpired_def Let_def split: prod.splits)
  next
    case (Inr path)
    show thesis
    proof (cases "path = []")
      case True
      note empty = this
      show thesis
      proof (cases "ti_evidenceRetryCount item < 10")
        case True
        then show thesis using assms evidence Inr empty wait
          by (auto simp: processExpired_def Let_def split: prod.splits)
      next
        case False
        then show thesis using assms evidence Inr empty report [of "[]"]
          by (auto simp: processExpired_def Let_def split: prod.splits)
      qed
    next
      case False
      then show thesis using assms evidence Inr confirm by (simp add: processExpired_def Let_def)
    qed
  qed
qed

lemma expired_sound:
  assumes "timer_db_ok db" and "um_wf (tm_generations m)"
    and "\<And>sid. sid \<in> dom (um_find (tm_generations m)) \<union> S \<Longrightarrow> sid < td_nextSession db \<and>
        (active_session db sid \<longrightarrow> isCurrent m item \<and> sid = ti_logId item \<or> armed m sid)"
    and run: "processExpired env evidence item m db = (m', db', evs)"
  shows "kept m' S db' \<and> db_advance db db' evs"
proof (cases "isCurrent m item")
  case False
  then have "m' = m" "db' = db" "evs = []" using run by (auto simp: processExpired_def)
  then show ?thesis using assms(1-3) False by (auto simp: kept_def intro: db_advance_refl)
next
  case True
  let ?item1 = "if ti_violationAt item = [] then item\<lparr>ti_violationAt := en_utc env\<rparr> else item"
  have cur: "isCurrent m ?item1" and lid: "ti_logId ?item1 = ti_logId item" using True by (auto simp: isCurrent_def)
  have keep: "sid < td_nextSession db \<and> (active_session db sid \<longrightarrow> sid \<noteq> ti_logId ?item1 \<longrightarrow> armed m sid)"
    if "sid \<in> dom (um_find (tm_generations m)) \<union> S" for sid
    using assms(3) [OF that] lid by auto
  from True run refl show ?thesis
  proof (cases rule: expired_cases)
    case confirm
    with confirm_sound [OF assms(1) cur assms(2) keep] show ?thesis by blast
  next
    case report
    with confirm_sound [OF assms(1) cur assms(2) keep report(1)] show ?thesis by (auto intro: db_advance_report)
  next
    case wait
    note r = retry_sound [OF cur disjI2 [OF wait(1)]]
    have "kept m' S db" using assms(1,2) keep r(1-3) unfolding kept_def lid by (metis (no_types, lifting))
    moreover have "db_advance db db evs" using assms(1) r(4) by (intro db_advance_refl) auto
    ultimately show ?thesis using wait by simp
  qed
qed

lemma worker_sound:
  assumes "kept m S db" and "worker_round env evidence m db = (m', db', evs)"
  shows "kept m' S db' \<and> db_advance db db' evs"
proof (cases "(m', db', evs) = (m, db, [])")
  case True
  then show ?thesis using assms(1) by (auto simp: kept_def intro: db_advance_refl)
next
  case False
  then obtain item rest where q: "tm_queue m = item # rest"
    and run: "processExpired env evidence item (m\<lparr>tm_queue := rest\<rparr>) db = (m', db', evs)"
    using assms(2) by (auto simp: worker_round_def split: if_splits list.splits)
  show ?thesis
  proof (rule expired_sound [OF _ _ _ run])
    fix sid assume "sid \<in> dom (um_find (tm_generations (m\<lparr>tm_queue := rest\<rparr>))) \<union> S"
    then have "sid < td_nextSession db" and "active_session db sid \<longrightarrow> armed m sid"
      using assms(1) by (auto simp: kept_def)
    then show "sid < td_nextSession db \<and> (active_session db sid \<longrightarrow>
        isCurrent (m\<lparr>tm_queue := rest\<rparr>) item \<and> sid = ti_logId item \<or> armed (m\<lparr>tm_queue := rest\<rparr>) sid)"
      by (auto simp: armed_def q isCurrent_def list_ex_iff)
  qed (use assms(1) in \<open>auto simp: kept_def\<close>)
qed

section \<open>Preservation by the service\<close>

definition service_keeps :: "OverstayService \<times> TimerDb \<Rightarrow> OverstayService \<times> TimerDb \<Rightarrow> TimerEvent list \<Rightarrow> bool" where
  "service_keeps s s' evs \<longleftrightarrow> overstay_ok (fst s') (snd s') \<and> db_advance (snd s) (snd s') evs"

lemma keeps_same:
  assumes "overstay_ok sv db" and "\<And>e sid. e \<in> set evs \<Longrightarrow> 0 \<le> sid \<Longrightarrow> \<not> violation_of sid e"
  shows "service_keeps (sv, db) (sv, db) evs"
  using assms by (auto simp: service_keeps_def overstay_ok_def kept_def intro: db_advance_refl)

lemma keeps_db:
  assumes "overstay_ok sv db" and "db_advance db db' evs"
  shows "service_keeps (sv, db) (sv, db') evs"
  using assms by (auto simp: service_keeps_def overstay_ok_def intro: kept_db)

lemma keeps_schedule:
  assumes "overstay_ok sv db" and "timer_schedule now (sv_timers sv) sid slotId car delay = Inr m" and "sid < td_nextSession db"
    and "\<And>e k. e \<in> set evs \<Longrightarrow> 0 \<le> k \<Longrightarrow> \<not> violation_of k e"
  shows "service_keeps (sv, db) (sv\<lparr>sv_timers := m, sv_scheduled := insert sid (sv_scheduled sv)\<rparr>, db) evs"
proof -
  have k: "kept (sv_timers sv) (sv_scheduled sv) db" using assms(1) by (simp add: overstay_ok_def)
  then have "timer_db_ok db" by (simp add: kept_def)
  then show ?thesis using kept_schedule [OF k assms(2,3)] assms(4)
    by (auto simp: service_keeps_def overstay_ok_def intro: db_advance_refl)
qed

lemma keeps_trans:
  "service_keeps s t es \<Longrightarrow> service_keeps t u fs \<Longrightarrow> service_keeps s u (es @ fs)"
  by (auto simp: service_keeps_def intro: db_advance_trans)

lemma entry_keeps:
  assumes "overstay_ok sv db" and "handleEntry env sv db slotId car image1 = (s', evs, out)"
  shows "service_keeps (sv, db) s' evs"
proof -
  have db: "timer_db_ok db" using assms(1) by (simp add: overstay_ok_def kept_def)
  let ?img = "if image1 = [] then ''snapshots/'' @ car @ ''_parked.jpg'' else image1"
  consider (same) "s' = (sv, db)" "\<And>e sid. e \<in> set evs \<Longrightarrow> 0 \<le> sid \<Longrightarrow> \<not> violation_of sid e"
    | (failed) db1 sid where "insertParked (en_io env TInsert slotId) db car slotId (en_utc env) ?img = Inr (db1, sid)"
        "s' = (sv, case cancelUnscheduled (en_io env TCancel slotId) db1 sid (en_utc env) of
                                   Inl _ \<Rightarrow> db1 | Inr (db2, _) \<Rightarrow> db2)" "evs = []"
    | (set_up) db1 sid m where "insertParked (en_io env TInsert slotId) db car slotId (en_utc env) ?img = Inr (db1, sid)"
        "timer_schedule (en_mono env) (sv_timers sv) sid slotId car (sv_parkingTimeout sv) = Inr m"
        "s' = (sv\<lparr>sv_timers := m, sv_scheduled := insert sid (sv_scheduled sv)\<rparr>, db1)"
        "\<And>e sid. e \<in> set evs \<Longrightarrow> 0 \<le> sid \<Longrightarrow> \<not> violation_of sid e"
    using assms(2) by (auto simp: handleEntry_def split: if_splits sum.splits VehicleCategory.splits option.splits prod.splits)
  then show ?thesis
  proof cases
    case same
    then show ?thesis using keeps_same [OF assms(1)] by blast
  next
    case failed
    note i = insert_advance [OF db failed(1)]
    have "service_keeps (sv, db) (sv, db1) []" using assms(1) i(1) by (rule keeps_db)
    moreover have "service_keeps (sv, db1) s' []"
    proof (cases "cancelUnscheduled (en_io env TCancel slotId) db1 sid (en_utc env)")
      case (Inl e)
      then show ?thesis using keeps_same [of sv db1 "[]"] calculation by (simp add: failed service_keeps_def)
    next
      case (Inr x)
      obtain db2 b where x: "x = (db2, b)" by (cases x)
      have "overstay_ok sv db1" using calculation by (simp add: service_keeps_def)
      then show ?thesis using keeps_db [OF _ cancel_advance [OF i(3) Inr [unfolded x]]]
        by (simp add: failed Inr x)
    qed
    ultimately show ?thesis using keeps_trans failed(3) by fastforce
  next
    case set_up
    note i = insert_advance [OF db set_up(1)]
    have a: "service_keeps (sv, db) (sv, db1) []" using assms(1) i(1) by (rule keeps_db)
    have "td_nextSession db1 = sid + 1" using set_up(1) by (auto simp: insertParked_def Let_def split: if_splits)
    then have "service_keeps (sv, db1) s' evs"
      unfolding set_up(3) using a set_up(2,4) by (intro keeps_schedule) (auto simp: service_keeps_def)
    then show ?thesis using keeps_trans [OF a] by simp
  qed
qed

lemma recognized_keeps:
  assumes "overstay_ok sv db" and "handleRecognizedSession env sv db sid slotId car = (s', evs, out)"
  shows "service_keeps (sv, db) s' evs"
proof -
  have db: "timer_db_ok db" using assms(1) by (simp add: overstay_ok_def kept_def)
  consider (same) "s' = (sv, db)" "\<And>e sid. e \<in> set evs \<Longrightarrow> 0 \<le> sid \<Longrightarrow> \<not> violation_of sid e"
    | (mark) db1 b where "markViolation (en_io env TMark slotId) db sid (en_utc env) [] = Inr (db1, b)" "s' = (sv, db1)"
        "evs = (if b then [timer_event ''NON_EV_ALERT'' slotId car (en_utc env) ''non-EV vehicle in EV charging slot'' sid] else [])"
    | (set_up) r m delay where "find_session db sid = Some r"
        "timer_schedule (en_mono env) (sv_timers sv) sid slotId car delay = Inr m"
        "s' = (sv\<lparr>sv_timers := m, sv_scheduled := insert sid (sv_scheduled sv)\<rparr>, db)"
        "\<And>e sid. e \<in> set evs \<Longrightarrow> 0 \<le> sid \<Longrightarrow> \<not> violation_of sid e"
    using assms(2)
    by (auto simp: handleRecognizedSession_def findLogById_def Let_def
        split: if_splits sum.splits VehicleCategory.splits option.splits prod.splits bool.splits)
  then show ?thesis
  proof cases
    case same
    then show ?thesis using keeps_same [OF assms(1)] by blast
  next
    case mark
    show ?thesis
    proof (cases b)
      case True
      show ?thesis unfolding mark(2)
        by (rule keeps_db [OF assms(1)]) (use mark(1,3) True in \<open>auto intro!: mark_advance [OF db]\<close>)
    next
      case False
      have "db_advance db db1 []" using mark_sound [OF db mark(1)] by (intro db_advance_quiet) auto
      then show ?thesis unfolding mark(2) using assms(1) mark(3) False by (auto intro: keeps_db)
    qed
  next
    case set_up
    show ?thesis unfolding set_up(3)
      by (rule keeps_schedule [OF assms(1) set_up(2) find_session_old [OF db set_up(1)] set_up(4)])
  qed
qed

lemma restore_loop_keeps:
  "overstay_ok sv db \<Longrightarrow> restore_loop env logs n sv db = (s', evs, out) \<Longrightarrow> service_keeps (sv, db) s' evs"
proof (induction env logs n sv db arbitrary: s' evs out rule: restore_loop.induct)
  case (1 env n sv db)
  then show ?case by (auto intro: keeps_same)
next
  case (2 env r rs n sv db)
  show ?case
  proof (cases "restorable r")
    case False
    then show ?thesis using "2.IH"(1) "2.prems" by simp
  next
    case True
    obtain sv1 db1 evs1 out1 where h: "handleRecognizedSession env sv db (log_id r) (log_slotId r) (log_carNumber r)
        = ((sv1, db1), evs1, out1)" by (metis surj_pair)
    have k: "service_keeps (sv, db) (sv1, db1) evs1" using "2.prems"(1) h by (rule recognized_keeps)
    show ?thesis
    proof (cases out1)
      case (Inl e)
      then show ?thesis using "2.prems"(2) True h k by simp
    next
      case (Inr result)
      obtain s2 evs2 out2 where l: "restore_loop env rs (if er_accepted result then n + 1 else n) sv1 db1 = (s2, evs2, out2)"
        by (metis surj_pair)
      have "service_keeps (sv1, db1) s2 evs2"
        using "2.IH"(2) [OF _ h [symmetric] refl refl Inr] True l k by (auto simp: service_keeps_def)
      then show ?thesis using "2.prems"(2) True h Inr l keeps_trans [OF k, of s2 evs2] by auto
    qed
  qed
qed

lemma reschedule_loop_keeps:
  "overstay_ok sv db \<Longrightarrow> list_all (\<lambda>r. log_id r < td_nextSession db) logs \<Longrightarrow>
     reschedule_loop env db logs n sv = (sv', out) \<Longrightarrow> overstay_ok sv' db"
proof (induction env db logs n sv rule: reschedule_loop.induct)
  case (2 env db r rs n sv)
  have step: "overstay_ok (sv\<lparr>sv_timers := m, sv_scheduled := insert (log_id r) (sv_scheduled sv)\<rparr>) db"
    if "timer_schedule (en_mono env) (sv_timers sv) (log_id r) (log_slotId r) (log_carNumber r)
        (remainingDelay env r (sv_parkingTimeout sv)) = Inr m" for m
    using keeps_schedule [OF "2.prems"(1) that, of "[]"] "2.prems"(2) by (simp add: service_keeps_def)
  from "2.prems" show ?case
    by (auto split: if_splits sum.splits intro: "2.IH"(1) "2.IH"(2) "2.IH"(3) step)
qed auto

lemma listLogs_old:
  "timer_db_ok db \<Longrightarrow> listLogs ok db = Inr logs \<Longrightarrow> list_all (\<lambda>r. log_id r < td_nextSession db) logs"
  by (auto simp: listLogs_def list_all_iff timer_db_ok_def log_of_def split: if_splits)

lemma overstay_step_keeps:
  assumes "overstay_ok (fst s) (snd s)"
  shows "service_keeps s (fst (overstay_step s c)) (snd (overstay_step s c))"
proof -
  obtain sv db where s: "s = (sv, db)" by (cases s)
  have ok: "overstay_ok sv db" and db: "timer_db_ok db" using assms by (auto simp: s overstay_ok_def kept_def)
  have timers: "service_keeps (sv, db) (sv\<lparr>sv_timers := m\<rparr>, db) []"
    if "tm_generations m = tm_generations (sv_timers sv)" and "\<And>k. armed (sv_timers sv) k \<Longrightarrow> armed m k" for m
    using ok that by (auto simp: service_keeps_def overstay_ok_def kept_def intro: db_advance_refl)
  show ?thesis
  proof (cases c)
    case (StartTimer b)
    have "tm_generations (fst (timer_start b m)) = tm_generations m" "armed m k \<Longrightarrow> armed (fst (timer_start b m)) k" for m k
      by (auto simp: timer_start_def armed_def isCurrent_def)
    then show ?thesis by (auto simp: s StartTimer intro: timers)
  next
    case StopTimer
    show ?thesis using timers [of "timer_stop (sv_timers sv)"] by (simp add: s StopTimer timer_stop_def armed_def)
  next
    case (EntryCall env slotId car image1)
    obtain s' evs out where "handleEntry env sv db slotId car image1 = (s', evs, out)" by (metis surj_pair)
    with entry_keeps [OF ok this] show ?thesis by (simp add: s EntryCall)
  next
    case (RecognizedCall env sid slotId car)
    obtain s' evs out where "handleRecognizedSession env sv db sid slotId car = (s', evs, out)" by (metis surj_pair)
    with recognized_keeps [OF ok this] show ?thesis by (simp add: s RecognizedCall)
  next
    case (RestoreCall env)
    show ?thesis
    proof (cases "listLogs (en_io env TList []) db")
      case (Inl e)
      then show ?thesis using keeps_same [OF ok, of "[]"] by (simp add: s RestoreCall restoreActiveSessions_def)
    next
      case (Inr logs)
      obtain s' evs out where "restore_loop env logs 0 sv db = (s', evs, out)" by (metis surj_pair)
      with restore_loop_keeps [OF ok this] show ?thesis by (simp add: s RestoreCall restoreActiveSessions_def Inr)
    qed
  next
    case (TimeoutCall env timeout)
    let ?sv1 = "sv\<lparr>sv_parkingTimeout := timeout\<rparr>"
    have ok1: "overstay_ok ?sv1 db" using ok by (simp add: overstay_ok_def)
    have adv: "db_advance db db evs" if "\<And>e sid. e \<in> set evs \<Longrightarrow> 0 \<le> sid \<Longrightarrow> \<not> violation_of sid e" for evs
      using db that by (rule db_advance_refl)
    have "overstay_ok sv2 db" if "listLogs (en_io env TList []) db = Inr logs" "reschedule_loop env db logs 0 ?sv1 = (sv2, r)"
      for logs sv2 r by (rule reschedule_loop_keeps [OF ok1 listLogs_old [OF db that(1)] that(2)])
    with ok ok1 show ?thesis
      by (auto simp: s TimeoutCall updateParkingTimeout_def Let_def service_keeps_def intro!: adv
          split: sum.splits prod.splits if_splits)
  next
    case (ExitCall env slotId)
    show ?thesis
    proof (cases "slotId = [] \<or> isl (departActiveBySlot (en_io env TDepart slotId) (en_seconds env) db slotId (en_utc env))")
      case True
      then show ?thesis using keeps_same [OF ok, of "[]"] by (auto simp: s ExitCall handleExit_def isl_def)
    next
      case False
      then obtain db1 r where d: "departActiveBySlot (en_io env TDepart slotId) (en_seconds env) db slotId (en_utc env) = Inr (db1, r)"
        by (metis surj_pair sum.collapse(2))
      have "db_advance db db1 (snd (overstay_step s c))"
        by (rule depart_advance [OF db d]) (use False d in \<open>auto simp: s ExitCall handleExit_def split: option.splits\<close>)
      then show ?thesis using keeps_db [OF ok] False d by (cases r) (simp_all add: s ExitCall handleExit_def)
    qed
  next
    case (CommittedExitCall env sid slotId)
    have "overstay_ok (sv\<lparr>sv_scheduled := sv_scheduled sv - {sid}\<rparr>) db" using ok by (auto simp: overstay_ok_def kept_def)
    with ok db show ?thesis
      by (auto simp: s CommittedExitCall handleCommittedExit_def service_keeps_def intro: db_advance_refl
          split: sum.splits option.splits if_splits)
  next
    case (WorkerRound env evidence)
    obtain m db' evs where w: "worker_round env evidence (sv_timers sv) db = (m, db', evs)" by (metis surj_pair)
    have "kept (sv_timers sv) (sv_scheduled sv) db" using ok by (simp add: overstay_ok_def)
    from worker_sound [OF this w] show ?thesis by (simp add: s WorkerRound w service_keeps_def overstay_ok_def)
  next
    case (OtherWrites db')
    show ?thesis
    proof (cases "db_follows db db'")
      case True
      have "active_session db k \<or> td_nextSession db \<le> k" if "active_session db' k" for k
        using that True by (auto simp: db_follows_def active_session_def list_ex_iff list_all_iff markable_def)
      moreover have ok': "timer_db_ok db'" using True by (auto simp: db_follows_def timer_db_ok_def list_all_iff)
      moreover have "td_nextSession db \<le> td_nextSession db'" using True by (simp add: db_follows_def)
      ultimately have "db_advance db db' []"
        by (auto simp: db_advance_def count_rows_def pending_violation_def)
      then show ?thesis using keeps_db [OF ok] True by (simp add: s OtherWrites)
    next
      case False
      then show ?thesis using keeps_same [OF ok, of "[]"] by (simp add: s OtherWrites)
    qed
  qed
qed

interpretation overstay: invariant_machine overstay_step "\<lambda>s. overstay_ok (fst s) (snd s)"
  using overstay_step_keeps by unfold_locales (simp add: service_keeps_def)

lemma overstay_run_advance:
  "overstay_ok (fst s) (snd s) \<Longrightarrow> run_steps overstay_step s cs = (s', outs) \<Longrightarrow>
     db_advance (snd s) (snd s') (concat outs)"
proof (induction cs arbitrary: s s' outs)
  case Nil
  then show ?case by (auto simp: overstay_ok_def kept_def intro!: db_advance_refl)
next
  case (Cons c cs)
  have k: "service_keeps s (fst (overstay_step s c)) (snd (overstay_step s c))"
    using Cons.prems(1) by (rule overstay_step_keeps)
  obtain outs' where r: "run_steps overstay_step (fst (overstay_step s c)) cs = (s', outs')"
    and o: "outs = snd (overstay_step s c) # outs'"
    using Cons.prems(2) by (auto split: prod.splits)
  have "db_advance (snd (fst (overstay_step s c))) (snd s') (concat outs')"
    using Cons.IH [OF _ r] k by (simp add: service_keeps_def)
  then show ?case using k db_advance_trans by (auto simp: service_keeps_def o)
qed

section \<open>Properties\<close>

lemma overstay_ok_new:
  assumes "newOverstayService timeout = Inr sv" and "timer_db_ok db"
  shows "overstay_ok sv db"
  using assms by (auto simp: newOverstayService_def newTimerManager_def overstay_ok_def kept_def split: if_splits)

text \<open>
  C36: Over any history of calls of a new timer service - entries, recognised sessions, restarts, new
  thresholds, exits, worker rounds and writes of other components - a session is reported as a violation
  at most once, whether by its deadline or as a vehicle that is no electric car, whatever database errors,
  retries and replaced deadlines occur.
\<close>

theorem violation_reported_once:
  assumes "newOverstayService timeout = Inr sv" and "timer_db_ok db" and "0 \<le> sid"
    and "run_steps overstay_step (sv, db) cs = (s', outs)"
  shows "length (filter (\<lambda>e. te_sessionId e = sid \<and>
    (te_type e = ''VIOLATION_TRIGGERED'' \<or> te_type e = ''NON_EV_ALERT'')) (concat outs)) \<le> 1"
proof -
  have "db_advance db (snd s') (concat outs)"
    using overstay_run_advance [of "(sv, db)"] overstay_ok_new [OF assms(1,2)] assms(4) by simp
  then have "count_rows (violation_of sid) (concat outs) \<le> pending_violation db sid"
    using assms(3) by (auto simp: db_advance_def dest: add_leD1)
  also have "\<dots> \<le> 1" by (simp add: pending_violation_def)
  finally show ?thesis by (simp add: count_rows_def violation_of_def [abs_def])
qed

lemma due_node_fires:
  assumes db: "timer_db_ok db" and "active_session db sid" and item: "ti_logId item = sid \<and> isCurrent tm item"
    and "\<not> tm_stopping tm" and run: "tm_started tm \<and> tm_queue tm = item # rest \<and> ti_deadline item \<le> en_mono env \<and>
      en_io env TMark (ti_slotId item) \<and> evidence \<noteq> Some (Inr []) \<and> worker_round env evidence tm db = (m, db', evs)"
  shows "\<not> active_session db' sid \<and> list_ex (\<lambda>e. te_type e = ''VIOLATION_TRIGGERED'' \<and> te_sessionId e = sid \<and>
         te_occurredAt e = (if ti_violationAt item = [] then en_utc env else ti_violationAt item)) evs"
proof -
  let ?m = "tm\<lparr>tm_queue := rest\<rparr>"
  let ?item1 = "if ti_violationAt item = [] then item\<lparr>ti_violationAt := en_utc env\<rparr> else item"
  have cur: "isCurrent ?m item" using item by (auto simp: isCurrent_def)
  have q: "tm_started tm" "tm_queue tm = item # rest" "ti_deadline item \<le> en_mono env"
      "worker_round env evidence tm db = (m, db', evs)" using run by blast+
  then have "processExpired env evidence item ?m db = (m, db', evs)"
    using assms(4) by (simp add: worker_round_def)
  from cur this refl obtain path evs' where c: "confirm_violation env ?item1 path ?m db = (m, db', evs')" "set evs' \<subseteq> set evs"
    using run by (cases rule: expired_cases) auto
  obtain db1 changed where mk: "markViolation True db sid (ti_violationAt ?item1) path = Inr (db1, changed)"
    by (simp add: markViolation_def Let_def)
  note s = mark_sound [OF db mk]
  have "changed" using s(2) assms(2) by simp
  let ?e = "timer_event ''VIOLATION_TRIGGERED'' (ti_slotId item) (ti_carNumber item) (ti_violationAt ?item1) path sid"
  have "db' = db1" and "evs' = [?e]"
    using c(1) mk run item \<open>changed\<close> by (auto simp: confirm_violation_def split: if_splits)
  moreover from this have "?e \<in> set evs" using c(2) by simp
  moreover have "te_type ?e = ''VIOLATION_TRIGGERED'' \<and> te_sessionId ?e = sid \<and>
      te_occurredAt ?e = (if ti_violationAt item = [] then en_utc env else ti_violationAt item)"
    by (simp add: timer_event_def)
  ultimately show ?thesis using s(3) unfolding list_ex_iff by blast
qed

text \<open>
  C37: After any history of a new timer service, a session whose timer was set and that is still active
  and not a violation has a node of the current generation in the queue, unless the worker was stopped;
  neither database errors nor missing evidence nor a changed threshold loses it. And when the worker is
  running and takes a due node of an active session whose evidence is not pending while the database works,
  the session becomes a violation and is reported with the time at which its deadline was first seen.
\<close>

theorem overstay_timer_never_lost:
  assumes "newOverstayService timeout = Inr sv" and "timer_db_ok db"
    and "final_state overstay_step (sv, db) cs = (sv', db')" and "sid \<in> sv_scheduled sv'" and "active_session db' sid"
    and "\<not> tm_stopping (sv_timers sv')"
  shows "\<exists>item \<in> set (tm_queue (sv_timers sv')). ti_logId item = sid \<and> isCurrent (sv_timers sv') item \<and>
    (\<forall>env evidence rest m db'' evs. tm_started (sv_timers sv') \<and> tm_queue (sv_timers sv') = item # rest \<and>
       ti_deadline item \<le> en_mono env \<and> en_io env TMark (ti_slotId item) \<and> evidence \<noteq> Some (Inr []) \<and>
       worker_round env evidence (sv_timers sv') db' = (m, db'', evs) \<longrightarrow>
       \<not> active_session db'' sid \<and> list_ex (\<lambda>e. te_type e = ''VIOLATION_TRIGGERED'' \<and> te_sessionId e = sid \<and>
         te_occurredAt e = (if ti_violationAt item = [] then en_utc env else ti_violationAt item)) evs)"
proof -
  have inv: "overstay_ok sv' db'"
    using overstay.inv_run [of "(sv, db)" cs] overstay_ok_new [OF assms(1,2)] assms(3) by simp
  then have db': "timer_db_ok db'" and "armed (sv_timers sv') sid"
    using assms(4,5) by (auto simp: overstay_ok_def kept_def)
  then obtain item where item: "item \<in> set (tm_queue (sv_timers sv'))" "ti_logId item = sid \<and> isCurrent (sv_timers sv') item"
    using assms(6) by (auto simp: armed_def list_ex_iff)
  show ?thesis using item due_node_fires [OF db' assms(5) item(2) assms(6)] by blast
qed

text \<open>A sample: one electric car that enters, misses its evidence once and overstays.\<close>

definition sample_timer_env :: "int \<Rightarrow> TimerEnv" where
  "sample_timer_env t = \<lparr>en_mono = t, en_wall = t, en_utc = ''now'', en_civil = (\<lambda>_. None), en_seconds = (\<lambda>_. None),
     en_io = (\<lambda>_ _. True)\<rparr>"

definition sample_timer_db :: TimerDb where
  "sample_timer_db = \<lparr>td_vehicles = [\<lparr>vh_id = 1, vh_plate = ''EV1'', vh_isEv = True\<rparr>], td_sessions = [], td_nextSession = 1,
     td_images = [], td_slots = [(''A1'', ''VACANT'', [])]\<rparr>"

definition sample_service :: OverstayService where
  "sample_service = \<lparr>sv_parkingTimeout = 60000, sv_scheduled = {}, sv_timers = newTimerManager\<rparr>"

definition sample_timer_calls :: "overstay_call list" where
  "sample_timer_calls = [StartTimer True, EntryCall (sample_timer_env 0) ''A1'' ''EV1'' [],
     WorkerRound (sample_timer_env 60000000000) (Some (Inr []))]"

definition sample_overstay :: "overstay_call list" where
  "sample_overstay = sample_timer_calls @ [WorkerRound (sample_timer_env 60500000000) None,
     WorkerRound (sample_timer_env 70000000000) None]"

lemma sample_timer_new: "newOverstayService 60000 = Inr sample_service" "timer_db_ok sample_timer_db"
  by (simp_all add: newOverstayService_def sample_service_def timer_db_ok_def sample_timer_db_def)

theorem violation_reported_once_witness:
  "map te_type (concat (snd (run_steps overstay_step (sample_service, sample_timer_db) sample_overstay))) =
     [''ARRIVAL'', ''TIMER_ERROR'', ''VIOLATION_TRIGGERED''] \<and>
   length (filter (\<lambda>e. te_sessionId e = 1 \<and> (te_type e = ''VIOLATION_TRIGGERED'' \<or> te_type e = ''NON_EV_ALERT''))
     (concat (snd (run_steps overstay_step (sample_service, sample_timer_db) sample_overstay)))) \<le> 1"
proof
  let ?r = "run_steps overstay_step (sample_service, sample_timer_db) sample_overstay"
  show "map te_type (concat (snd ?r)) = [''ARRIVAL'', ''TIMER_ERROR'', ''VIOLATION_TRIGGERED'']" by code_simp
  show "length (filter (\<lambda>e. te_sessionId e = 1 \<and> (te_type e = ''VIOLATION_TRIGGERED'' \<or> te_type e = ''NON_EV_ALERT''))
      (concat (snd ?r))) \<le> 1"
    by (rule violation_reported_once [OF sample_timer_new _ prod.collapse [symmetric]]) simp
qed

theorem overstay_timer_never_lost_witness:
  "let (sv, db) = final_state overstay_step (sample_service, sample_timer_db) sample_timer_calls in
     \<exists>item \<in> set (tm_queue (sv_timers sv)). ti_logId item = 1 \<and> isCurrent (sv_timers sv) item"
proof -
  let ?s = "final_state overstay_step (sample_service, sample_timer_db) sample_timer_calls"
  have "1 \<in> sv_scheduled (fst ?s)" and "active_session (snd ?s) 1" and "\<not> tm_stopping (sv_timers (fst ?s))"
    by code_simp+
  from overstay_timer_never_lost [OF sample_timer_new prod.collapse [symmetric] this] show ?thesis
    by (auto simp: split_beta Let_def)
qed

text \<open>
  The deadline that a restart or a new threshold sets for a session whose entry time can be read is
  exact to the millisecond: it is not before the entry plus the threshold, and less than a millisecond
  after it; a session already past its threshold expires after one millisecond, and a session whose entry
  lies in the future, or whose entry time cannot be read, gets the full threshold.
\<close>

theorem remaining_delay_exact:
  assumes "0 < timeout"
  shows "(case parse_utc (en_civil env) (log_parkedAt r) of
       None \<Rightarrow> remainingDelay env r timeout = timeout
     | Some parked \<Rightarrow>
         if en_wall env < parked + 1000000 then remainingDelay env r timeout = timeout
         else if parked + timeout * 1000000 \<le> en_wall env then remainingDelay env r timeout = 1
         else parked + timeout * 1000000 \<le> en_wall env + remainingDelay env r timeout * 1000000 \<and>
              en_wall env + remainingDelay env r timeout * 1000000 < parked + timeout * 1000000 + 1000000) \<and>
    0 < remainingDelay env r timeout"
proof (cases "parse_utc (en_civil env) (log_parkedAt r)")
  case None
  then show ?thesis using assms by (simp add: remainingDelay_def)
next
  case (Some parked)
  let ?d = "en_wall env - parked"
  have pos: "millis_of_time_point ?d = ?d div 1000000" if "0 \<le> ?d"
    using that by (cases "?d = 0") (simp_all add: millis_of_time_point_def)
  have neg: "millis_of_time_point ?d \<le> 0" if "?d < 0" using that by (simp add: millis_of_time_point_def)
  show ?thesis
  proof (cases "0 \<le> ?d")
    case True
    then show ?thesis using assms pos by (simp add: Some remainingDelay_def Let_def) linarith
  next
    case False
    then show ?thesis using assms neg by (simp add: Some remainingDelay_def Let_def)
  qed
qed

theorem remaining_delay_exact_witness:
  "remainingDelay ((sample_timer_env 5000)\<lparr>en_wall := 1030500000000, en_civil := (\<lambda>_. Some 1000)\<rparr>)
     (log_of sample_timer_db \<lparr>ts_id = 1, ts_vehicle = None, ts_slotId = ''A1'', ts_plate = Some ''EV1'',
        ts_entryTime = ''1970-01-01T00:16:40.000Z'', ts_violationAt = None, ts_exitTime = None, ts_duration = Some 0,
        ts_status = SesActive\<rparr>) 60000 = 29500"
  (is "remainingDelay ?env ?r 60000 = 29500")
proof -
  have p: "parse_utc (en_civil ?env) (log_parkedAt ?r) = Some 1000000000000" by code_simp
  from remaining_delay_exact [of 60000 ?env ?r] show ?thesis unfolding p by (simp add: sample_timer_env_def)
qed

definition threshold_stored :: "OverstayThreshold \<Rightarrow> string option \<Rightarrow> bool" where
  "threshold_stored t stored \<longleftrightarrow> threshold_isValid (ot_threshold t) \<and>
     (\<exists>text. stored = Some text \<and> c_stoi text = Some (ot_threshold t, length text))"

lemma c_stoi_valid: "threshold_isValid n \<Longrightarrow> c_stoi (to_string n) = Some (n, length (to_string n))"
  using c_stoi_dec [of "nat n"] by (simp add: threshold_isValid_def to_string_def)

lemma threshold_initialized:
  "threshold_isValid (ot_bootstrap t) \<Longrightarrow> threshold_initialize readOk writeOk t stored = (t', stored', True) \<Longrightarrow>
     threshold_stored t' stored'"
  by (auto simp: threshold_initialize_def Let_def threshold_stored_def c_stoi_valid split: if_splits option.splits)

lemma threshold_updated:
  "threshold_stored t stored \<Longrightarrow> threshold_update writeOk f seconds t stored w = ((t', stored', w'), r) \<Longrightarrow>
     threshold_stored t' stored' \<and> ot_bootstrap t' = ot_bootstrap t \<and> tu_threshold r = ot_threshold t'"
  by (auto simp: threshold_update_def Let_def threshold_stored_def threshold_result_def c_stoi_valid
      split: if_splits option.splits prod.splits)

fun threshold_updates ::
  "(bool \<times> (int \<Rightarrow> 'w \<Rightarrow> 'w \<times> string option) option \<times> int) list \<Rightarrow> OverstayThreshold \<Rightarrow> string option \<Rightarrow> 'w \<Rightarrow>
     OverstayThreshold \<times> string option \<times> 'w" where
  "threshold_updates [] t stored w = (t, stored, w)"
| "threshold_updates ((writeOk, f, seconds) # us) t stored w =
     (case threshold_update writeOk f seconds t stored w of ((t', stored', w'), _) \<Rightarrow> threshold_updates us t' stored' w')"

lemma threshold_updates_stored:
  "threshold_stored t stored \<Longrightarrow> threshold_updates us t stored w = (t', stored', w') \<Longrightarrow> threshold_stored t' stored'"
proof (induction us t stored w rule: threshold_updates.induct)
  case (2 writeOk f seconds us t stored w)
  obtain a b c r where u: "threshold_update writeOk f seconds t stored w = ((a, b, c), r)" by (metis surj_pair)
  show ?case using "2.IH" [OF u [symmetric] refl refl] "2.prems" threshold_updated [OF "2.prems"(1) u] u by simp
qed simp

text \<open>
  C38: Whatever updates follow a successful initialisation, with whatever failures of the database and of the
  running parts, the setting in force is between 60 and 86400 seconds and a restart reads exactly it back.
\<close>

theorem threshold_survives_restart:
  assumes "threshold_initialize readOk writeOk (newOverstayThreshold bootstrap) stored = (t, stored1, True)"
    and "threshold_updates us t stored1 w = (t', stored', w')"
  shows "threshold_isValid (ot_threshold t') \<and>
    (\<forall>bootstrap' writeOk'. \<exists>u. threshold_initialize True writeOk' (newOverstayThreshold bootstrap') stored' = (u, stored', True) \<and>
       ot_threshold u = ot_threshold t')"
proof -
  have "threshold_isValid (ot_bootstrap (newOverstayThreshold bootstrap))"
    by (simp add: newOverstayThreshold_def Let_def threshold_isValid_def)
  from threshold_initialized [OF this assms(1)] have "threshold_stored t' stored'"
    using assms(2) by (rule threshold_updates_stored)
  then show ?thesis by (auto simp: threshold_stored_def threshold_initialize_def)
qed

definition sample_updates :: "(bool \<times> (int \<Rightarrow> unit \<Rightarrow> unit \<times> string option) option \<times> int) list" where
  "sample_updates = [(True, None, 120), (False, None, 240), (True, Some (\<lambda>_ w. (w, Some ''busy'')), 600)]"

theorem threshold_survives_restart_witness:
  "ot_threshold (fst (threshold_updates sample_updates (newOverstayThreshold 0) (Some ''3600'') ())) = 600 \<and>
   (\<exists>u. threshold_initialize True False (newOverstayThreshold 0) (Some ''600'') = (u, Some ''600'', True) \<and> ot_threshold u = 600)"
proof -
  have i: "threshold_initialize True True (newOverstayThreshold 0) None = (newOverstayThreshold 0, Some ''3600'', True)"
    by code_simp
  obtain t' stored' w where u: "threshold_updates sample_updates (newOverstayThreshold 0) (Some ''3600'') () = (t', stored', w)"
    by (rule prod_cases3)
  have e: "ot_threshold (fst (threshold_updates sample_updates (newOverstayThreshold 0) (Some ''3600'') ())) = 600"
    and "fst (snd (threshold_updates sample_updates (newOverstayThreshold 0) (Some ''3600'') ())) = Some ''600''" by code_simp+
  then have "ot_threshold t' = 600" "stored' = Some ''600''" by (simp_all only: u fst_conv snd_conv)
  moreover have "\<exists>v. threshold_initialize True False (newOverstayThreshold 0) stored' = (v, stored', True) \<and> ot_threshold v = ot_threshold t'"
    using threshold_survives_restart [OF i u] by blast
  ultimately show ?thesis using e by simp
qed

text \<open>
  A stored setting that is a number out of range is replaced by the default, but one that is no
  number at all makes the initialisation fail and stays stored, so that every later start fails as well.
\<close>

theorem unreadable_threshold_blocks_start:
  "threshold_initialize True True t (Some ''9'') = (t\<lparr>ot_threshold := ot_bootstrap t\<rparr>, Some (to_string (ot_bootstrap t)), True) \<and>
   threshold_initialize True True t (Some ''one hour'') = (t, Some ''one hour'', False)"
proof
  have "c_stoi ''9'' = Some (9, 1)" and n: "c_stoi ''one hour'' = None" by code_simp+
  then show "threshold_initialize True True t (Some ''9'') =
      (t\<lparr>ot_threshold := ot_bootstrap t\<rparr>, Some (to_string (ot_bootstrap t)), True)"
    by (simp add: threshold_initialize_def threshold_isValid_def)
  show "threshold_initialize True True t (Some ''one hour'') = (t, Some ''one hour'', False)"
    using n by (simp add: threshold_initialize_def)
qed

end
