(* ===== verification/FireStore.thy ===== *)
theory FireStore
  imports SensorSequence Tables
begin

text \<open>
  The durable fire alarm store: the types of \<^verbatim>\<open>include/event/FirePersistence.hpp\<close> with the texts of
  \<^verbatim>\<open>src/event/FirePersistence.cpp\<close>, and the transactions of \<^verbatim>\<open>src/database/EventDatabaseFire.cpp\<close> on the
  tables \<open>FIRE_ALARM_STATE\<close>, \<open>FIRE_MQTT_OUTBOX\<close> and \<open>SENSOR_RETIRED_BOOT_ID\<close>.

  A row holds the columns as SQLite stores them (an enumeration as its text, a revision as a signed
  integer, a sequence number as decimal text, a missing value as \<open>NULL\<close>); \<open>stateColumns\<close> and
  \<open>deliveryColumns\<close> are what the INSERT statements bind, \<open>readState\<close> and \<open>readDelivery\<close> what the SELECT
  statements read, with the exceptions for a column that does not decode. A transaction is a function
  on the database that gives the next database or an exception, and then the database is the one
  before (the ROLLBACK). A call takes the fault that SQLite shows during it: none, the BEGIN fails, or
  a later statement fails.

  A text is bound as a C string and so cut at its first NUL byte (\<open>sql_text\<close>). The boot id of a frame is
  the one text of these tables that comes unchecked from outside, and is cut in every column and
  lookup. The other texts hold no NUL byte: channel and sensor ids and topics come from the channel
  mapping of the configuration, event, alarm and delivery ids are built from them and a revision, JSON
  documents escape control characters, and times and error texts are printed by the program; for these
  the columns below are the texts themselves.
\<close>

section \<open>Types\<close>

datatype FireAlarmLifecycle = AlarmOpen | AlarmAcknowledged | AlarmResolved

datatype FireProtocolMode = ProtocolUnseen | ProtocolLegacy | ProtocolVersioned

datatype FireDeliverySinkKind = RetainedState | LifecycleEvent

datatype FireDeliveryState = DeliveryPending | DeliveryInFlight | DeliveryAcknowledged

fun lifecycle_toString :: "FireAlarmLifecycle \<Rightarrow> string" where
  "lifecycle_toString AlarmOpen = ''OPEN''"
| "lifecycle_toString AlarmAcknowledged = ''ACKNOWLEDGED''"
| "lifecycle_toString AlarmResolved = ''RESOLVED''"

fun protocol_toString :: "FireProtocolMode \<Rightarrow> string" where
  "protocol_toString ProtocolUnseen = ''UNSEEN''"
| "protocol_toString ProtocolLegacy = ''LEGACY''"
| "protocol_toString ProtocolVersioned = ''VERSIONED''"

fun sink_toString :: "FireDeliverySinkKind \<Rightarrow> string" where
  "sink_toString RetainedState = ''RETAINED_STATE''"
| "sink_toString LifecycleEvent = ''LIFECYCLE_EVENT''"

fun delivery_toString :: "FireDeliveryState \<Rightarrow> string" where
  "delivery_toString DeliveryPending = ''PENDING''"
| "delivery_toString DeliveryInFlight = ''IN_FLIGHT''"
| "delivery_toString DeliveryAcknowledged = ''ACKED''"

definition fireAlarmLifecycleFromString :: "string \<Rightarrow> FireAlarmLifecycle option" where
  "fireAlarmLifecycleFromString v =
     (if v = ''OPEN'' then Some AlarmOpen
      else if v = ''ACKNOWLEDGED'' then Some AlarmAcknowledged
      else if v = ''RESOLVED'' then Some AlarmResolved
      else None)"

definition fireProtocolModeFromString :: "string \<Rightarrow> FireProtocolMode option" where
  "fireProtocolModeFromString v =
     (if v = ''UNSEEN'' then Some ProtocolUnseen
      else if v = ''LEGACY'' then Some ProtocolLegacy
      else if v = ''VERSIONED'' then Some ProtocolVersioned
      else None)"

definition fireDeliverySinkFromString :: "string \<Rightarrow> FireDeliverySinkKind option" where
  "fireDeliverySinkFromString v =
     (if v = ''RETAINED_STATE'' then Some RetainedState
      else if v = ''LIFECYCLE_EVENT'' then Some LifecycleEvent
      else None)"

definition fireDeliveryStateFromString :: "string \<Rightarrow> FireDeliveryState option" where
  "fireDeliveryStateFromString v =
     (if v = ''PENDING'' then Some DeliveryPending
      else if v = ''IN_FLIGHT'' then Some DeliveryInFlight
      else if v = ''ACKED'' then Some DeliveryAcknowledged
      else None)"

definition kMaxFireRevision :: "64 word" where
  "kMaxFireRevision = 9223372036854775807"

record FireAlarmStateRecord =
  fs_channelId :: string
  fs_sensorId :: string
  fs_retainedTopic :: string
  fs_desiredLifecycle :: FireAlarmLifecycle
  fs_activeAlarmId :: string
  fs_lastEventId :: string
  fs_fireRevision :: "64 word"
  fs_protocolMode :: FireProtocolMode
  fs_activeBootId :: "string option"
  fs_lastSourceSequence :: "64 word option"
  fs_lastSignalJson :: string
  fs_updatedAt :: string

record FireOutboxRecord =
  fo_deliveryKey :: string
  fo_sinkKind :: FireDeliverySinkKind
  fo_logicalKey :: string
  fo_sensorId :: string
  fo_channelId :: string
  fo_eventId :: string
  fo_alarmId :: string
  fo_fireRevision :: "64 word"
  fo_topic :: string
  fo_payloadJson :: string
  fo_qos :: int
  fo_retain :: bool
  fo_attemptCount :: "64 word"
  fo_nextAttemptAt :: string
  fo_lastError :: string
  fo_deliveryState :: FireDeliveryState
  fo_acknowledgedRevision :: "64 word option"
  fo_createdAt :: string
  fo_updatedAt :: string

type_synonym FireChannelBootstrap = "FireAlarmStateRecord \<times> FireOutboxRecord"

datatype FireStoreMutationOutcome = MutCommitted | MutIdempotent | MutConflict | MutInvalid | MutFailed

record FireStoreMutationResult =
  mr_outcome :: FireStoreMutationOutcome
  mr_fireRevision :: "64 word"
  mr_error :: string

definition mutation_committed :: "FireStoreMutationResult \<Rightarrow> bool" where
  "mutation_committed r \<longleftrightarrow> mr_outcome r = MutCommitted \<or> mr_outcome r = MutIdempotent"

definition mutation_result :: "FireStoreMutationOutcome \<Rightarrow> 64 word \<Rightarrow> string \<Rightarrow> FireStoreMutationResult" where
  "mutation_result outcome revision error =
     \<lparr>mr_outcome = outcome, mr_fireRevision = revision, mr_error = error\<rparr>"

record FireStateMutation =
  fm_expectedRevision :: "64 word"
  fm_nextState :: FireAlarmStateRecord
  fm_retainedDelivery :: "FireOutboxRecord option"
  fm_lifecycleDelivery :: "FireOutboxRecord option"

section \<open>Rows\<close>

record FireStateRow =
  sr_channel_id :: string
  sr_sensor_id :: string
  sr_retained_topic :: string
  sr_desired_lifecycle :: string
  sr_active_alarm_id :: "string option"
  sr_last_event_id :: string
  sr_fire_revision :: int
  sr_protocol_mode :: string
  sr_active_boot_id :: "string option"
  sr_last_source_sequence :: "string option"
  sr_last_signal_json :: string
  sr_updated_at :: string

record FireOutboxRow =
  or_delivery_key :: string
  or_sink_kind :: string
  or_logical_key :: string
  or_sensor_id :: string
  or_channel_id :: string
  or_event_id :: string
  or_alarm_id :: string
  or_fire_revision :: int
  or_topic :: string
  or_payload_json :: string
  or_qos :: int
  or_retain :: int
  or_attempt_count :: int
  or_next_attempt_at :: string
  or_last_error :: string
  or_delivery_state :: string
  or_acked_revision :: "int option"
  or_created_at :: string
  or_updated_at :: string

text \<open>\<open>fd_retired\<close> holds the key columns \<open>source_kind\<close>, \<open>sensor_id\<close> and \<open>boot_id\<close>.\<close>

record FireDb =
  fd_opened :: bool
  fd_states :: "FireStateRow list"
  fd_outbox :: "FireOutboxRow list"
  fd_retired :: "(string \<times> string \<times> string) list"

datatype FireSql = SqlWorks | SqlBeginFails string | SqlFails string

text \<open>\<open>std::from_chars\<close> into a 64-bit unsigned integer, over the whole text.\<close>

definition from_chars_uint64 :: "string \<Rightarrow> 64 word option" where
  "from_chars_uint64 text =
     (if text = [] \<or> \<not> list_all c_isdigit text \<or> nat_of_dec text \<ge> 2 ^ 64 then None
      else Some (of_nat (nat_of_dec text)))"

text \<open>Computing with the bound as an integer.\<close>

lemma from_chars_uint64_code [code]:
  "from_chars_uint64 text =
     (let n = int (nat_of_dec text) in
      if text = [] \<or> \<not> list_all c_isdigit text \<or> n \<ge> 2 ^ 64 then None else Some (word_of_int n))"
proof -
  have "nat_of_dec text \<ge> 2 ^ 64 \<longleftrightarrow> int (nat_of_dec text) \<ge> 2 ^ 64"
    by (metis of_nat_le_iff of_nat_numeral of_nat_power)
  then show ?thesis by (simp add: from_chars_uint64_def Let_def)
qed

definition parseOptionalSequence :: "string option \<Rightarrow> string + 64 word option" where
  "parseOptionalSequence column =
     (case column of
        None \<Rightarrow> Inr None
      | Some text \<Rightarrow>
          (case from_chars_uint64 text of
             None \<Rightarrow> Inl ''invalid Fire source sequence in SQLite''
           | Some v \<Rightarrow> Inr (Some v)))"

definition checkedInt64 :: "64 word \<Rightarrow> string \<Rightarrow> string + int" where
  "checkedInt64 value field =
     (if value > kMaxFireRevision then Inl (field @ '' exceeds SQLite INTEGER'') else Inr (uint value))"

definition readState :: "FireStateRow \<Rightarrow> string + FireAlarmStateRecord" where
  "readState row =
     (case (fireAlarmLifecycleFromString (sr_desired_lifecycle row),
            fireProtocolModeFromString (sr_protocol_mode row)) of
        (Some lifecycle, Some protocol) \<Rightarrow>
          if sr_fire_revision row \<le> 0 then Inl ''invalid Fire state row in SQLite''
          else try_bind (parseOptionalSequence (sr_last_source_sequence row)) (\<lambda>sequence.
            Inr \<lparr>fs_channelId = sr_channel_id row, fs_sensorId = sr_sensor_id row,
              fs_retainedTopic = sr_retained_topic row, fs_desiredLifecycle = lifecycle,
              fs_activeAlarmId = (case sr_active_alarm_id row of None \<Rightarrow> [] | Some a \<Rightarrow> a),
              fs_lastEventId = sr_last_event_id row,
              fs_fireRevision = word_of_int (sr_fire_revision row),
              fs_protocolMode = protocol, fs_activeBootId = sr_active_boot_id row,
              fs_lastSourceSequence = sequence, fs_lastSignalJson = sr_last_signal_json row,
              fs_updatedAt = sr_updated_at row\<rparr>)
      | _ \<Rightarrow> Inl ''invalid Fire state row in SQLite'')"

definition readDelivery :: "FireOutboxRow \<Rightarrow> string + FireOutboxRecord" where
  "readDelivery row =
     (case (fireDeliverySinkFromString (or_sink_kind row),
            fireDeliveryStateFromString (or_delivery_state row)) of
        (Some sink, Some state) \<Rightarrow>
          if or_fire_revision row \<le> 0 \<or> or_attempt_count row < 0
          then Inl ''invalid Fire outbox row in SQLite''
          else if (\<exists>a \<in> set_option (or_acked_revision row). a \<le> 0)
          then Inl ''invalid acknowledged Fire revision''
          else Inr \<lparr>fo_deliveryKey = or_delivery_key row, fo_sinkKind = sink,
              fo_logicalKey = or_logical_key row, fo_sensorId = or_sensor_id row,
              fo_channelId = or_channel_id row, fo_eventId = or_event_id row,
              fo_alarmId = or_alarm_id row, fo_fireRevision = word_of_int (or_fire_revision row),
              fo_topic = or_topic row, fo_payloadJson = or_payload_json row, fo_qos = or_qos row,
              fo_retain = (or_retain row \<noteq> 0), fo_attemptCount = word_of_int (or_attempt_count row),
              fo_nextAttemptAt = or_next_attempt_at row, fo_lastError = or_last_error row,
              fo_deliveryState = state,
              fo_acknowledgedRevision = map_option word_of_int (or_acked_revision row),
              fo_createdAt = or_created_at row, fo_updatedAt = or_updated_at row\<rparr>
      | _ \<Rightarrow> Inl ''invalid Fire outbox row in SQLite'')"

text \<open>What SQLite stores of a text that \<open>bindText\<close> gives it as a C string.\<close>

definition sql_text :: "string \<Rightarrow> string" where
  "sql_text s = takeWhile (\<lambda>c. c \<noteq> CHR 0x00) s"

definition null_if_empty :: "string \<Rightarrow> string option" where
  "null_if_empty s = (if s = [] then None else Some s)"

definition sequence_text :: "64 word option \<Rightarrow> string option" where
  "sequence_text s = map_option (\<lambda>v. to_string (uint v)) s"

definition stateColumns :: "FireAlarmStateRecord \<Rightarrow> string + FireStateRow" where
  "stateColumns row =
     try_bind (checkedInt64 (fs_fireRevision row) ''fire revision'') (\<lambda>revision.
       Inr \<lparr>sr_channel_id = fs_channelId row, sr_sensor_id = fs_sensorId row,
         sr_retained_topic = fs_retainedTopic row,
         sr_desired_lifecycle = lifecycle_toString (fs_desiredLifecycle row),
         sr_active_alarm_id = null_if_empty (fs_activeAlarmId row),
         sr_last_event_id = fs_lastEventId row, sr_fire_revision = revision,
         sr_protocol_mode = protocol_toString (fs_protocolMode row),
         sr_active_boot_id = map_option sql_text (fs_activeBootId row),
         sr_last_source_sequence = sequence_text (fs_lastSourceSequence row),
         sr_last_signal_json = fs_lastSignalJson row, sr_updated_at = fs_updatedAt row\<rparr>)"

definition deliveryColumns :: "FireOutboxRecord \<Rightarrow> string + FireOutboxRow" where
  "deliveryColumns row =
     try_bind (checkedInt64 (fo_fireRevision row) ''fire revision'') (\<lambda>revision.
     try_bind (checkedInt64 (fo_attemptCount row) ''attempt count'') (\<lambda>attempts.
     try_bind (case fo_acknowledgedRevision row of None \<Rightarrow> Inr None
               | Some a \<Rightarrow> try_bind (checkedInt64 a ''acknowledged revision'') (\<lambda>v. Inr (Some v))) (\<lambda>acked.
       Inr \<lparr>or_delivery_key = fo_deliveryKey row, or_sink_kind = sink_toString (fo_sinkKind row),
         or_logical_key = fo_logicalKey row, or_sensor_id = fo_sensorId row,
         or_channel_id = fo_channelId row, or_event_id = fo_eventId row,
         or_alarm_id = fo_alarmId row, or_fire_revision = revision, or_topic = fo_topic row,
         or_payload_json = fo_payloadJson row, or_qos = fo_qos row,
         or_retain = (if fo_retain row then 1 else 0), or_attempt_count = attempts,
         or_next_attempt_at = fo_nextAttemptAt row, or_last_error = fo_lastError row,
         or_delivery_state = delivery_toString (fo_deliveryState row), or_acked_revision = acked,
         or_created_at = fo_createdAt row, or_updated_at = fo_updatedAt row\<rparr>)))"


section \<open>Queries and statements\<close>

definition selectState :: "FireDb \<Rightarrow> string \<Rightarrow> string + FireAlarmStateRecord option" where
  "selectState db channelId =
     (case find (\<lambda>r. sr_channel_id r = channelId) (fd_states db) of
        None \<Rightarrow> Inr None
      | Some row \<Rightarrow> try_bind (readState row) (\<lambda>r. Inr (Some r)))"

definition selectDelivery :: "FireDb \<Rightarrow> string \<Rightarrow> string + FireOutboxRecord option" where
  "selectDelivery db key =
     (case find (\<lambda>r. or_delivery_key r = key) (fd_outbox db) of
        None \<Rightarrow> Inr None
      | Some row \<Rightarrow> try_bind (readDelivery row) (\<lambda>r. Inr (Some r)))"

definition statement_failed :: string where
  "statement_failed = ''SQLite Fire statement failed: constraint failed''"

definition insertState :: "FireDb \<Rightarrow> FireAlarmStateRecord \<Rightarrow> string + FireDb" where
  "insertState db row =
     try_bind (stateColumns row) (\<lambda>columns.
       if list_ex (\<lambda>r. sr_channel_id r = sr_channel_id columns \<or> sr_sensor_id r = sr_sensor_id columns \<or>
            sr_retained_topic r = sr_retained_topic columns) (fd_states db) \<or> sr_fire_revision columns \<le> 0
       then Inl statement_failed
       else Inr (db\<lparr>fd_states := fd_states db @ [columns]\<rparr>))"

definition insertDelivery :: "FireDb \<Rightarrow> FireOutboxRecord \<Rightarrow> string + FireDb" where
  "insertDelivery db row =
     try_bind (deliveryColumns row) (\<lambda>columns.
       if list_ex (\<lambda>r. or_delivery_key r = or_delivery_key columns \<or>
            (or_sink_kind r = or_sink_kind columns \<and> or_logical_key r = or_logical_key columns) \<or>
            (or_sink_kind r = ''LIFECYCLE_EVENT'' \<and> or_sink_kind columns = ''LIFECYCLE_EVENT'' \<and>
             or_event_id r = or_event_id columns)) (fd_outbox db) \<or>
          or_fire_revision columns \<le> 0 \<or> or_qos columns \<noteq> 1 \<or>
          \<not> list_ex (\<lambda>r. sr_channel_id r = or_channel_id columns) (fd_states db)
       then Inl statement_failed
       else Inr (db\<lparr>fd_outbox := fd_outbox db @ [columns]\<rparr>))"

definition sameStateSemantic :: "FireAlarmStateRecord \<Rightarrow> FireAlarmStateRecord \<Rightarrow> bool" where
  "sameStateSemantic l r \<longleftrightarrow> l\<lparr>fs_updatedAt := fs_updatedAt r\<rparr> = r"

definition sameDeliverySemantic :: "FireOutboxRecord \<Rightarrow> FireOutboxRecord \<Rightarrow> bool" where
  "sameDeliverySemantic l r \<longleftrightarrow>
     fo_deliveryKey l = fo_deliveryKey r \<and> fo_sinkKind l = fo_sinkKind r \<and>
     fo_logicalKey l = fo_logicalKey r \<and> fo_sensorId l = fo_sensorId r \<and>
     fo_channelId l = fo_channelId r \<and> fo_eventId l = fo_eventId r \<and> fo_alarmId l = fo_alarmId r \<and>
     fo_fireRevision l = fo_fireRevision r \<and> fo_topic l = fo_topic r \<and>
     fo_payloadJson l = fo_payloadJson r \<and> fo_qos l = fo_qos r \<and> fo_retain l = fo_retain r"

definition validDelivery :: "FireOutboxRecord \<Rightarrow> bool" where
  "validDelivery row \<longleftrightarrow>
     fo_deliveryKey row \<noteq> [] \<and> fo_logicalKey row \<noteq> [] \<and> fo_sensorId row \<noteq> [] \<and>
     fo_channelId row \<noteq> [] \<and> fo_eventId row \<noteq> [] \<and> fo_alarmId row \<noteq> [] \<and>
     fo_fireRevision row > 0 \<and> fo_fireRevision row \<le> kMaxFireRevision \<and> fo_topic row \<noteq> [] \<and>
     fo_payloadJson row \<noteq> [] \<and> fo_qos row = 1 \<and>
     fo_retain row = (fo_sinkKind row = RetainedState) \<and> fo_nextAttemptAt row \<noteq> [] \<and>
     fo_createdAt row \<noteq> [] \<and> fo_updatedAt row \<noteq> []"

definition validBootstrap :: "FireChannelBootstrap \<Rightarrow> bool" where
  "validBootstrap bootstrap \<longleftrightarrow>
     (let state = fst bootstrap; retained = snd bootstrap in
      fs_channelId state \<noteq> [] \<and> fs_sensorId state \<noteq> [] \<and> fs_retainedTopic state \<noteq> [] \<and>
      fs_fireRevision state > 0 \<and> fs_fireRevision state \<le> kMaxFireRevision \<and>
      fs_desiredLifecycle state = AlarmResolved \<and> fs_activeAlarmId state = [] \<and>
      fs_lastEventId state \<noteq> [] \<and> fs_protocolMode state = ProtocolUnseen \<and>
      fs_activeBootId state = None \<and> fs_lastSourceSequence state = None \<and>
      fs_lastSignalJson state \<noteq> [] \<and> fs_updatedAt state \<noteq> [] \<and> validDelivery retained \<and>
      fo_sinkKind retained = RetainedState \<and> fo_logicalKey retained = fs_retainedTopic state \<and>
      fo_sensorId retained = fs_sensorId state \<and> fo_channelId retained = fs_channelId state \<and>
      fo_eventId retained = fs_lastEventId state \<and> fo_fireRevision retained = fs_fireRevision state \<and>
      fo_topic retained = fs_retainedTopic state \<and> fo_attemptCount retained = 0 \<and>
      fo_lastError retained = [] \<and> fo_deliveryState retained = DeliveryPending \<and>
      fo_acknowledgedRevision retained = None)"

section \<open>Bootstrap\<close>

text \<open>One channel of the loop: the database, whether a row was inserted and the highest revision.\<close>

definition bootstrap_channel ::
  "FireChannelBootstrap \<Rightarrow> FireDb \<times> bool \<times> 64 word \<Rightarrow>
     string + (FireStoreMutationResult + FireDb \<times> bool \<times> 64 word)" where
  "bootstrap_channel bootstrap st =
     (let (db, inserted, highest) = st; initial = fst bootstrap; retained_delivery = snd bootstrap in
      try_bind (selectState db (fs_channelId initial)) (\<lambda>found.
        case found of
          Some existing \<Rightarrow>
            (let highest1 = max highest (fs_fireRevision existing) in
             if fs_sensorId existing \<noteq> fs_sensorId initial \<or>
                fs_retainedTopic existing \<noteq> fs_retainedTopic initial
             then Inr (Inl (mutation_result MutConflict (fs_fireRevision existing)
                    ''configured Fire mapping differs from durable state''))
             else try_bind (selectDelivery db (fo_deliveryKey retained_delivery)) (\<lambda>row.
               case row of
                 None \<Rightarrow> Inl ''durable Fire state and retained outbox disagree''
               | Some retained \<Rightarrow>
                   if fo_sinkKind retained \<noteq> RetainedState \<or>
                      fo_logicalKey retained \<noteq> fs_retainedTopic existing \<or>
                      fo_sensorId retained \<noteq> fs_sensorId existing \<or>
                      fo_channelId retained \<noteq> fs_channelId existing \<or>
                      fo_eventId retained \<noteq> fs_lastEventId existing \<or>
                      fo_fireRevision retained \<noteq> fs_fireRevision existing \<or>
                      fo_topic retained \<noteq> fs_retainedTopic existing
                   then Inl ''durable Fire state and retained outbox disagree''
                   else Inr (Inr (db, inserted, highest1))))
        | None \<Rightarrow>
            try_bind (insertState db initial) (\<lambda>db1.
            try_bind (insertDelivery db1 retained_delivery) (\<lambda>db2.
              Inr (Inr (db2, True, max highest (fs_fireRevision initial)))))))"

fun bootstrap_loop ::
  "FireChannelBootstrap list \<Rightarrow> FireDb \<times> bool \<times> 64 word \<Rightarrow>
     string + (FireStoreMutationResult + FireDb \<times> bool \<times> 64 word)" where
  "bootstrap_loop [] st = Inr (Inr st)"
| "bootstrap_loop (b # bs) st =
     try_bind (bootstrap_channel b st) (\<lambda>r.
       case r of Inl refused \<Rightarrow> Inr (Inl refused) | Inr st1 \<Rightarrow> bootstrap_loop bs st1)"

definition bootstrap_transaction ::
  "FireChannelBootstrap list \<Rightarrow> FireDb \<Rightarrow> string + (FireDb \<times> FireStoreMutationResult)" where
  "bootstrap_transaction topology db =
     try_bind (bootstrap_loop topology (db, False, 0)) (\<lambda>r.
       case r of
         Inl refused \<Rightarrow> Inr (db, refused)
       | Inr (db1, inserted, highest) \<Rightarrow>
           if length (fd_states db1) \<noteq> length topology \<or>
              count_rows (\<lambda>r. or_sink_kind r = ''RETAINED_STATE'') (fd_outbox db1) \<noteq> length topology
           then Inr (db, mutation_result MutConflict highest
                  ''durable Fire channels do not match configured topology'')
           else Inr (db1, mutation_result (if inserted then MutCommitted else MutIdempotent) highest []))"

definition initializeFireTopology ::
  "FireSql \<Rightarrow> FireDb \<Rightarrow> FireChannelBootstrap list \<Rightarrow> FireDb \<times> FireStoreMutationResult" where
  "initializeFireTopology sql db topology =
     (if topology = [] then (db, mutation_result MutInvalid 0 ''Fire topology is empty'')
      else if \<not> list_all validBootstrap topology \<or>
         \<not> distinct (map (fs_channelId \<circ> fst) topology) \<or> \<not> distinct (map (fs_sensorId \<circ> fst) topology) \<or>
         \<not> distinct (map (fs_retainedTopic \<circ> fst) topology) \<or>
         \<not> distinct (map (fo_deliveryKey \<circ> snd) topology)
      then (db, mutation_result MutInvalid 0 ''invalid Fire topology bootstrap'')
      else if \<not> fd_opened db then (db, mutation_result MutFailed 0 ''Fire database is not open'')
      else case sql of
          SqlBeginFails e \<Rightarrow> (db, mutation_result MutFailed 0 e)
        | SqlFails e \<Rightarrow> (db, mutation_result MutFailed 0 e)
        | SqlWorks \<Rightarrow>
            (case bootstrap_transaction topology db of
               Inl e \<Rightarrow> (db, mutation_result MutFailed 0 e)
             | Inr r \<Rightarrow> r))"


section \<open>Mutation of a channel\<close>

definition invalid_mutation :: "FireStateMutation \<Rightarrow> bool" where
  "invalid_mutation m \<longleftrightarrow>
     (let next = fm_nextState m; expected = fm_expectedRevision m;
          has_retained = (fm_retainedDelivery m \<noteq> None); has_lifecycle = (fm_lifecycleDelivery m \<noteq> None);
          transition = (has_retained \<and> has_lifecycle) in
      expected > kMaxFireRevision \<or> fs_fireRevision next > kMaxFireRevision \<or>
      fs_channelId next = [] \<or> fs_sensorId next = [] \<or> fs_retainedTopic next = [] \<or>
      fs_lastEventId next = [] \<or> fs_lastSignalJson next = [] \<or> fs_updatedAt next = [] \<or>
      has_retained \<noteq> has_lifecycle \<or>
      (transition \<and> (expected = kMaxFireRevision \<or> fs_fireRevision next \<noteq> expected + 1)) \<or>
      (\<not> transition \<and> fs_fireRevision next \<noteq> expected) \<or>
      (case (fm_retainedDelivery m, fm_lifecycleDelivery m) of
         (Some retained, Some lifecycle) \<Rightarrow>
           \<not> validDelivery retained \<or> \<not> validDelivery lifecycle \<or>
           fo_sinkKind retained \<noteq> RetainedState \<or> fo_sinkKind lifecycle \<noteq> LifecycleEvent \<or>
           fo_fireRevision retained \<noteq> fs_fireRevision next \<or>
           fo_fireRevision lifecycle \<noteq> fs_fireRevision next \<or>
           fo_channelId retained \<noteq> fs_channelId next \<or> fo_channelId lifecycle \<noteq> fs_channelId next
       | _ \<Rightarrow> False))"

definition boot_retired :: "FireDb \<Rightarrow> string \<Rightarrow> string \<Rightarrow> bool" where
  "boot_retired db sensorId bootId \<longleftrightarrow> (''FIRE'', sensorId, sql_text bootId) \<in> set (fd_retired db)"

definition sequenceModeFor :: "FireProtocolMode \<Rightarrow> SensorSequenceMode" where
  "sequenceModeFor mode = (case mode of ProtocolUnseen \<Rightarrow> Unseen | ProtocolLegacy \<Rightarrow> Legacy
     | ProtocolVersioned \<Rightarrow> Versioned)"

text \<open>The cursor of a state row. Only the boot id of the frame in question is looked up.\<close>

definition fire_cursor :: "FireDb \<Rightarrow> string \<Rightarrow> FireAlarmStateRecord \<Rightarrow> string option \<Rightarrow> SensorSequenceState" where
  "fire_cursor db sensorId current bootId =
     \<lparr>seq_mode = sequenceModeFor (fs_protocolMode current),
      seq_activeBootId = fs_activeBootId current, seq_lastSequence = fs_lastSourceSequence current,
      seq_retiredBootIds = (case bootId of None \<Rightarrow> {}
        | Some boot \<Rightarrow> if boot_retired db sensorId boot then {boot} else {})\<rparr>"

definition cursor_differs :: "FireAlarmStateRecord \<Rightarrow> FireAlarmStateRecord \<Rightarrow> bool" where
  "cursor_differs current next \<longleftrightarrow>
     fs_protocolMode current \<noteq> fs_protocolMode next \<or> fs_activeBootId current \<noteq> fs_activeBootId next \<or>
     fs_lastSourceSequence current \<noteq> fs_lastSourceSequence next \<or>
     fs_lastSignalJson current \<noteq> fs_lastSignalJson next"

definition state_fact :: "FireAlarmStateRecord \<Rightarrow> SensorSequenceFact" where
  "state_fact next = \<lparr>fact_protocolVersion =
       (if fs_protocolMode next = ProtocolVersioned then BootEpochV2 else LegacyV1),
     fact_bootId = fs_activeBootId next, fact_sequence = fs_lastSourceSequence next\<rparr>"

text \<open>The \<open>cursor_changed\<close> block: a refusal, or the database with the old boot id retired.\<close>

definition advance_cursor ::
  "FireDb \<Rightarrow> FireAlarmStateRecord \<Rightarrow> FireAlarmStateRecord \<Rightarrow> FireStoreMutationResult + FireDb" where
  "advance_cursor db current next =
     (if \<not> cursor_differs current next then Inr db
      else if fs_protocolMode next = ProtocolUnseen
      then Inl (mutation_result MutInvalid (fs_fireRevision current)
             ''Fire protocol cannot return to unseen'')
      else
        let cursor = fire_cursor db (fs_sensorId next) current (fs_activeBootId next);
            decision = evaluateSensorSequence cursor (state_fact next) in
        if \<not> accepted decision
        then Inl (mutation_result MutInvalid (fs_fireRevision current) (snd decision))
        else case (fs_activeBootId current, fs_activeBootId next) of
            (Some old, Some new) \<Rightarrow>
              if seq_mode cursor = Versioned \<and> old \<noteq> new \<and> \<not> boot_retired db (fs_sensorId next) old
              then Inr (db\<lparr>fd_retired := (''FIRE'', fs_sensorId next, sql_text old) # fd_retired db\<rparr>)
              else Inr db
          | _ \<Rightarrow> Inr db)"

definition updateState :: "FireDb \<Rightarrow> FireStateMutation \<Rightarrow> string + FireDb" where
  "updateState db m =
     try_bind (stateColumns (fm_nextState m)) (\<lambda>c.
     try_bind (checkedInt64 (fm_expectedRevision m) ''expected revision'') (\<lambda>expected.
       let p = (\<lambda>r. sr_channel_id r = sr_channel_id c \<and> sr_fire_revision r = expected);
           f = (\<lambda>r. c\<lparr>sr_channel_id := sr_channel_id r, sr_sensor_id := sr_sensor_id r,
                  sr_retained_topic := sr_retained_topic r\<rparr>) in
       if count_rows p (fd_states db) > 0 \<and> sr_fire_revision c \<le> 0 then Inl statement_failed
       else if count_rows p (fd_states db) \<noteq> 1
       then Inl ''Fire state compare-and-swap changed no row''
       else Inr (db\<lparr>fd_states := update_rows p f (fd_states db)\<rparr>)))"

definition retained_row :: "FireOutboxRecord \<Rightarrow> int \<Rightarrow> FireOutboxRow \<Rightarrow> FireOutboxRow" where
  "retained_row d revision r =
     r\<lparr>or_sensor_id := fo_sensorId d, or_channel_id := fo_channelId d, or_event_id := fo_eventId d,
       or_alarm_id := fo_alarmId d, or_fire_revision := revision, or_topic := fo_topic d,
       or_payload_json := fo_payloadJson d, or_qos := 1, or_retain := 1, or_attempt_count := 0,
       or_next_attempt_at := fo_nextAttemptAt d, or_last_error := [], or_delivery_state := ''PENDING'',
       or_updated_at := fo_updatedAt d\<rparr>"

definition updateRetained :: "FireDb \<Rightarrow> FireOutboxRecord \<Rightarrow> string + FireDb" where
  "updateRetained db d =
     try_bind (checkedInt64 (fo_fireRevision d) ''fire revision'') (\<lambda>revision.
       let p = (\<lambda>r. or_delivery_key r = fo_deliveryKey d) in
       if revision \<le> 0 \<or> \<not> list_ex (\<lambda>r. sr_channel_id r = fo_channelId d) (fd_states db)
       then Inl statement_failed
       else if count_rows p (fd_outbox db) \<noteq> 1 then Inl ''Fire retained delivery update failed''
       else Inr (db\<lparr>fd_outbox := update_rows p (retained_row d revision) (fd_outbox db)\<rparr>))"

text \<open>The two delivery intents of a transition: the retained row is replaced, the lifecycle row added.\<close>

definition store_deliveries ::
  "FireDb \<Rightarrow> FireAlarmStateRecord \<Rightarrow> FireOutboxRecord \<Rightarrow> FireOutboxRecord \<Rightarrow> string + FireDb" where
  "store_deliveries db next retained lifecycle =
     try_bind (selectDelivery db (fo_deliveryKey retained)) (\<lambda>found.
       case found of
         None \<Rightarrow> Inl ''Fire retained delivery identity is missing or changed''
       | Some old \<Rightarrow>
           if fo_sinkKind old \<noteq> RetainedState \<or> fo_channelId old \<noteq> fs_channelId next \<or>
              fo_logicalKey old \<noteq> fo_logicalKey retained
           then Inl ''Fire retained delivery identity is missing or changed''
           else try_bind (updateRetained db retained) (\<lambda>db1.
                try_bind (selectDelivery db1 (fo_deliveryKey lifecycle)) (\<lambda>existing.
                  case existing of
                    Some row \<Rightarrow> if sameDeliverySemantic row lifecycle then Inr db1
                      else Inl ''same Fire lifecycle ID has different payload''
                  | None \<Rightarrow> insertDelivery db1 lifecycle)))"

definition repeats_deliveries :: "FireDb \<Rightarrow> FireStateMutation \<Rightarrow> string + bool" where
  "repeats_deliveries db m =
     (case (fm_retainedDelivery m, fm_lifecycleDelivery m) of
        (Some retained, Some lifecycle) \<Rightarrow>
          try_bind (selectDelivery db (fo_deliveryKey retained)) (\<lambda>r.
          try_bind (selectDelivery db (fo_deliveryKey lifecycle)) (\<lambda>l.
            case (r, l) of
              (Some r', Some l') \<Rightarrow> Inr (sameDeliverySemantic r' retained \<and> sameDeliverySemantic l' lifecycle)
            | _ \<Rightarrow> Inr False))
      | _ \<Rightarrow> Inr True)"

definition mutation_transaction ::
  "FireDb \<Rightarrow> FireStateMutation \<Rightarrow> string + (FireDb \<times> FireStoreMutationResult)" where
  "mutation_transaction db m =
     (let next = fm_nextState m in
      try_bind (selectState db (fs_channelId next)) (\<lambda>found.
        case found of
          None \<Rightarrow> Inr (db, mutation_result MutConflict 0 ''Fire channel has not been initialized'')
        | Some current \<Rightarrow>
            if fs_fireRevision current = fs_fireRevision next \<and> sameStateSemantic current next
            then try_bind (repeats_deliveries db m) (\<lambda>same.
                if same then Inr (db, mutation_result MutIdempotent (fs_fireRevision current) [])
                else Inl ''same Fire revision has different delivery payload'')
            else if fs_fireRevision current \<noteq> fm_expectedRevision m
            then Inr (db, mutation_result MutConflict (fs_fireRevision current)
                   ''Fire revision compare-and-swap conflict'')
            else if fs_sensorId current \<noteq> fs_sensorId next \<or> fs_retainedTopic current \<noteq> fs_retainedTopic next
            then Inr (db, mutation_result MutConflict (fs_fireRevision current)
                   ''Fire mapping cannot change during a mutation'')
            else case advance_cursor db current next of
                Inl refused \<Rightarrow> Inr (db, refused)
              | Inr db1 \<Rightarrow>
                  try_bind (updateState db1 m) (\<lambda>db2.
                  try_bind (case (fm_retainedDelivery m, fm_lifecycleDelivery m) of
                      (Some retained, Some lifecycle) \<Rightarrow> store_deliveries db2 next retained lifecycle
                    | _ \<Rightarrow> Inr db2) (\<lambda>db3.
                    Inr (db3, mutation_result MutCommitted (fs_fireRevision next) [])))))"

text \<open>The BEGIN is outside the \<open>try\<close> block: when it fails the exception leaves the function (left).\<close>

definition applyFireStateMutation ::
  "FireSql \<Rightarrow> FireDb \<Rightarrow> FireStateMutation \<Rightarrow> string + (FireDb \<times> FireStoreMutationResult)" where
  "applyFireStateMutation sql db m =
     (if invalid_mutation m
      then Inr (db, mutation_result MutInvalid (fm_expectedRevision m) ''invalid Fire state mutation'')
      else if \<not> fd_opened db
      then Inr (db, mutation_result MutFailed (fm_expectedRevision m) ''Fire database is not open'')
      else case sql of
          SqlBeginFails e \<Rightarrow> Inl e
        | SqlFails e \<Rightarrow> Inr (db, mutation_result MutFailed (fm_expectedRevision m) e)
        | SqlWorks \<Rightarrow>
            (case mutation_transaction db m of
               Inl e \<Rightarrow> Inr (db, mutation_result MutFailed (fm_expectedRevision m) e)
             | Inr r \<Rightarrow> Inr r))"

section \<open>Reads and delivery marks\<close>

text \<open>A failing statement of a read throws; of a mark it gives \<open>false\<close>.\<close>

definition getFireAlarmState :: "FireSql \<Rightarrow> FireDb \<Rightarrow> string \<Rightarrow> string + FireAlarmStateRecord option" where
  "getFireAlarmState sql db channelId =
     (if channelId = [] \<or> \<not> fd_opened db then Inr None
      else if sql \<noteq> SqlWorks then Inl ''SQLite Fire state read failed''
      else selectState db channelId)"

definition getFireDelivery :: "FireSql \<Rightarrow> FireDb \<Rightarrow> string \<Rightarrow> string + FireOutboxRecord option" where
  "getFireDelivery sql db key =
     (if key = [] \<or> \<not> fd_opened db then Inr None
      else if sql \<noteq> SqlWorks then Inl ''SQLite Fire delivery read failed''
      else selectDelivery db key)"

fun read_all :: "('r \<Rightarrow> string + 'a) \<Rightarrow> 'r list \<Rightarrow> string + 'a list" where
  "read_all f [] = Inr []"
| "read_all f (r # rs) = try_bind (f r) (\<lambda>x. try_bind (read_all f rs) (\<lambda>xs. Inr (x # xs)))"

definition listFireAlarmStates :: "FireSql \<Rightarrow> FireDb \<Rightarrow> string + FireAlarmStateRecord list" where
  "listFireAlarmStates sql db =
     (if \<not> fd_opened db then Inr []
      else if sql \<noteq> SqlWorks then Inl ''SQLite Fire state list failed''
      else read_all readState
        (sort_by (\<lambda>a b. text_le (sr_channel_id a) (sr_channel_id b)) (fd_states db)))"

definition listFireRetainedDeliveries :: "FireSql \<Rightarrow> FireDb \<Rightarrow> string + FireOutboxRecord list" where
  "listFireRetainedDeliveries sql db =
     (if \<not> fd_opened db then Inr []
      else if sql \<noteq> SqlWorks then Inl ''SQLite Fire retained list failed''
      else read_all readDelivery
        (sort_by (\<lambda>a b. text_le (or_channel_id a) (or_channel_id b))
          (filter (\<lambda>r. or_sink_kind r = ''RETAINED_STATE'') (fd_outbox db))))"

text \<open>\<open>ORDER BY fire_revision, created_at, delivery_key\<close>.\<close>

definition lifecycle_le :: "FireOutboxRow \<Rightarrow> FireOutboxRow \<Rightarrow> bool" where
  "lifecycle_le a b \<longleftrightarrow>
     or_fire_revision a < or_fire_revision b \<or>
     (or_fire_revision a = or_fire_revision b \<and>
      (if or_created_at a = or_created_at b then text_le (or_delivery_key a) (or_delivery_key b)
       else text_le (or_created_at a) (or_created_at b)))"

definition listFireLifecycleDeliveries :: "FireSql \<Rightarrow> FireDb \<Rightarrow> string + FireOutboxRecord list" where
  "listFireLifecycleDeliveries sql db =
     (if \<not> fd_opened db then Inr []
      else if sql \<noteq> SqlWorks then Inl ''SQLite Fire lifecycle list failed''
      else read_all readDelivery (sort_by lifecycle_le
        (filter (\<lambda>r. or_sink_kind r = ''LIFECYCLE_EVENT'') (fd_outbox db))))"

definition listPendingFireLifecycleDeliveries ::
  "FireSql \<Rightarrow> FireDb \<Rightarrow> string option \<Rightarrow> string + FireOutboxRecord list" where
  "listPendingFireLifecycleDeliveries sql db channelId =
     (if \<not> fd_opened db then Inr []
      else if sql \<noteq> SqlWorks then Inl ''SQLite Fire pending lifecycle list failed''
      else read_all readDelivery (sort_by lifecycle_le
        (filter (\<lambda>r. or_sink_kind r = ''LIFECYCLE_EVENT'' \<and> or_delivery_state r \<noteq> ''ACKED'' \<and>
           (case channelId of None \<Rightarrow> True | Some c \<Rightarrow> or_channel_id r = c)) (fd_outbox db))))"

definition mark_delivery ::
  "FireSql \<Rightarrow> (FireOutboxRow \<Rightarrow> bool) \<Rightarrow> (FireOutboxRow \<Rightarrow> FireOutboxRow) \<Rightarrow> string \<Rightarrow> 64 word \<Rightarrow> FireDb \<Rightarrow>
     FireDb \<times> bool" where
  "mark_delivery sql extra f key revision db =
     (if key = [] \<or> revision = 0 \<or> \<not> fd_opened db \<or> sql \<noteq> SqlWorks then (db, False)
      else case checkedInt64 revision ''fire revision'' of
          Inl e \<Rightarrow> (db, False)
        | Inr v \<Rightarrow>
            (let p = (\<lambda>r. or_delivery_key r = key \<and> or_fire_revision r = v \<and> extra r) in
             (db\<lparr>fd_outbox := update_rows p f (fd_outbox db)\<rparr>, count_rows p (fd_outbox db) = 1)))"

definition markFireDeliveryInFlight ::
  "FireSql \<Rightarrow> string \<Rightarrow> FireDb \<Rightarrow> string \<Rightarrow> 64 word \<Rightarrow> FireDb \<times> bool" where
  "markFireDeliveryInFlight sql current_timestamp db key revision =
     mark_delivery sql (\<lambda>_. True) (\<lambda>r. r\<lparr>or_delivery_state := ''IN_FLIGHT'',
       or_attempt_count := or_attempt_count r + 1, or_last_error := [],
       or_updated_at := current_timestamp\<rparr>) key revision db"

definition markFireDeliveryPending ::
  "FireSql \<Rightarrow> string \<Rightarrow> FireDb \<Rightarrow> string \<Rightarrow> 64 word \<Rightarrow> string \<Rightarrow> FireDb \<times> bool" where
  "markFireDeliveryPending sql current_timestamp db key revision error =
     mark_delivery sql (\<lambda>_. True) (\<lambda>r. r\<lparr>or_delivery_state := ''PENDING'', or_last_error := error,
       or_next_attempt_at := current_timestamp, or_updated_at := current_timestamp\<rparr>) key revision db"

definition acknowledgeFireDelivery ::
  "FireSql \<Rightarrow> string \<Rightarrow> FireDb \<Rightarrow> string \<Rightarrow> 64 word \<Rightarrow> FireDb \<times> bool" where
  "acknowledgeFireDelivery sql current_timestamp db key revision =
     mark_delivery sql (\<lambda>r. or_delivery_state r = ''IN_FLIGHT'') (\<lambda>r. r\<lparr>or_delivery_state := ''ACKED'',
       or_acked_revision := Some (uint revision), or_last_error := [],
       or_updated_at := current_timestamp\<rparr>) key revision db"

definition resetFireInFlightDeliveries :: "FireSql \<Rightarrow> string \<Rightarrow> FireDb \<Rightarrow> FireDb \<times> bool" where
  "resetFireInFlightDeliveries sql current_timestamp db =
     (if \<not> fd_opened db \<or> sql \<noteq> SqlWorks then (db, False)
      else (db\<lparr>fd_outbox := update_rows (\<lambda>r. or_delivery_state r = ''IN_FLIGHT'')
              (\<lambda>r. r\<lparr>or_delivery_state := ''PENDING'', or_last_error := ''process restart before PUBACK'',
                 or_next_attempt_at := current_timestamp, or_updated_at := current_timestamp\<rparr>)
              (fd_outbox db)\<rparr>, True))"

definition isSensorBootIdRetired ::
  "FireSql \<Rightarrow> FireDb \<Rightarrow> string \<Rightarrow> string \<Rightarrow> string \<Rightarrow> string + bool" where
  "isSensorBootIdRetired sql db source_kind sensorId bootId =
     (if (source_kind \<noteq> ''HALL'' \<and> source_kind \<noteq> ''FIRE'') \<or> sensorId = [] \<or> bootId = [] then Inr True
      else if \<not> fd_opened db then Inr False
      else if sql \<noteq> SqlWorks then Inl ''retired sensor boot lookup failed''
      else Inr ((source_kind, sensorId, sql_text bootId) \<in> set (fd_retired db)))"

end
