(* ===== verification/FireService.thy ===== *)
theory FireService
  imports FireStore
begin

text \<open>
  The fire alarm service of \<^verbatim>\<open>src/event/FireAlarmService.cpp\<close>: the strict parser of the channel mapping,
  the signal document, the three commands (sensor signal, operator acknowledgement, manual clear) and
  the queue of the worker thread. \<^verbatim>\<open>EventPayloadBuilder::buildFireJson\<close> builds the payloads.

  The JSON library is the record \<open>fire_api\<close>: \<open>fa_dump\<close> is \<open>dump()\<close>, which throws on text that is not
  UTF-8; \<open>fa_parse\<close> gives the parsed object, \<open>None\<close> for text that is no JSON object; the others are
  \<open>value(key, default)\<close> and \<open>contains(key) && is_string\<close>. \<open>fa_iso\<close> is \<open>util::isoString\<close> (the local time
  zone). Times are nanoseconds. A command of the worker takes a record of what the outside does while it
  runs: the clocks, the faults of SQLite, and the answers of the callbacks.
\<close>

section \<open>Signals and payloads\<close>

record FireSignal =
  fg_sensorId :: string
  fg_detected :: bool
  fg_occurredAt :: int
  fg_sourceSequence :: "64 word option"
  fg_sourceProtocolVersion :: SensorProtocolVersion
  fg_sourceBootId :: "string option"
  fg_sourceTransport :: string
  fg_rawPayload :: string

definition toFireSignal :: "'d FireSensorMessage \<Rightarrow> FireSignal" where
  "toFireSignal m = \<lparr>fg_sensorId = fire_sensorId m, fg_detected = (fire_state m = Detected),
     fg_occurredAt = fire_occurredAt m, fg_sourceSequence = fire_sequence m,
     fg_sourceProtocolVersion = fire_protocolVersion m, fg_sourceBootId = fire_bootId m,
     fg_sourceTransport = fire_transport m, fg_rawPayload = fire_raw m\<rparr>"

datatype fire_json = FjString string | FjBool bool | FjInt int

record 'j fire_api =
  fa_dump :: "(string \<times> fire_json) list \<Rightarrow> string + string"
  fa_parse :: "string \<Rightarrow> 'j option"
  fa_string :: "'j \<Rightarrow> string \<Rightarrow> string \<Rightarrow> string + string"
  fa_bool :: "'j \<Rightarrow> string \<Rightarrow> bool \<Rightarrow> string + bool"
  fa_int :: "'j \<Rightarrow> string \<Rightarrow> int \<Rightarrow> string + int"
  fa_opt_string :: "'j \<Rightarrow> string \<Rightarrow> string option"
  fa_iso :: "int \<Rightarrow> string"

text \<open>\<open>duration_cast\<close> to milliseconds rounds towards zero.\<close>

definition millis_of :: "int \<Rightarrow> int" where
  "millis_of t = (if t < 0 then - ((- t) div 1000000) else t div 1000000)"

definition signal_document :: "FireSignal \<Rightarrow> (string \<times> fire_json) list" where
  "signal_document signal =
     [(''sensor_id'', FjString (fg_sensorId signal)), (''detected'', FjBool (fg_detected signal)),
      (''occurred_at_ms'', FjInt (millis_of (fg_occurredAt signal))),
      (''source_transport'', FjString (fg_sourceTransport signal)),
      (''source_protocol'', FjString (version_toString (fg_sourceProtocolVersion signal))),
      (''raw_payload'', FjString (fg_rawPayload signal))] @
     (case fg_sourceSequence signal of None \<Rightarrow> []
      | Some s \<Rightarrow> [(''source_sequence'', FjString (to_string (uint s)))]) @
     (case fg_sourceBootId signal of None \<Rightarrow> [] | Some b \<Rightarrow> [(''source_boot_id'', FjString b)])"

definition serializeSignal :: "'j fire_api \<Rightarrow> FireSignal \<Rightarrow> string + string" where
  "serializeSignal api signal = fa_dump api (signal_document signal)"

definition read_signal :: "'j fire_api \<Rightarrow> 'j \<Rightarrow> string + FireSignal option" where
  "read_signal api doc =
     try_bind (fa_string api doc ''sensor_id'' []) (\<lambda>sensorId.
     try_bind (fa_bool api doc ''detected'' False) (\<lambda>detected.
     try_bind (fa_int api doc ''occurred_at_ms'' 0) (\<lambda>occurredAt.
     try_bind (fa_string api doc ''source_transport'' ''unknown'') (\<lambda>transport.
     try_bind (fa_string api doc ''source_protocol'' ''LEGACY_V1'') (\<lambda>protocol.
       case sensorProtocolVersionFromString protocol of
         None \<Rightarrow> Inr None
       | Some version \<Rightarrow>
           try_bind (fa_string api doc ''raw_payload'' []) (\<lambda>raw.
             let signal = (\<lambda>sequence. \<lparr>fg_sensorId = sensorId, fg_detected = detected,
                   fg_occurredAt = occurredAt * 1000000, fg_sourceSequence = sequence,
                   fg_sourceProtocolVersion = version,
                   fg_sourceBootId = fa_opt_string api doc ''source_boot_id'',
                   fg_sourceTransport = transport, fg_rawPayload = raw\<rparr>) in
             case fa_opt_string api doc ''source_sequence'' of
               None \<Rightarrow> Inr (if sensorId = [] then None else Some (signal None))
             | Some text \<Rightarrow>
                 (case from_chars_uint64 text of
                    None \<Rightarrow> Inr None
                  | Some s \<Rightarrow> Inr (if sensorId = [] then None else Some (signal (Some s))))))))))"

definition deserializeSignal :: "'j fire_api \<Rightarrow> string \<Rightarrow> FireSignal option" where
  "deserializeSignal api encoded =
     (case fa_parse api encoded of
        None \<Rightarrow> None
      | Some doc \<Rightarrow> (case read_signal api doc of Inl e \<Rightarrow> None | Inr signal \<Rightarrow> signal))"

definition jsonEscape :: "string \<Rightarrow> string" where
  "jsonEscape input = concat (map (\<lambda>c.
     if c = CHR 0x5C then [CHR 0x5C, CHR 0x5C]
     else if c = CHR 0x22 then [CHR 0x5C, CHR 0x22]
     else if c = CHR 0x0A then [CHR 0x5C, CHR ''n'']
     else if c = CHR 0x0D then [CHR 0x5C, CHR ''r'']
     else if c = CHR 0x09 then [CHR 0x5C, CHR ''t'']
     else [c]) input)"

definition quoted :: "string \<Rightarrow> string" where
  "quoted s = [CHR 0x22] @ s @ [CHR 0x22]"

definition json_member :: "string \<Rightarrow> string \<Rightarrow> string" where
  "json_member name value = quoted name @ '':'' @ value"

definition buildFireJson ::
  "(int \<Rightarrow> string) \<Rightarrow> string \<Rightarrow> string \<Rightarrow> FireSignal \<Rightarrow> FireAlarmLifecycle \<Rightarrow> string \<Rightarrow> string \<Rightarrow> 64 word \<Rightarrow>
     string \<Rightarrow> string" where
  "buildFireJson isoString cameraId channelId signal lifecycle eventId alarmId revision deliveryId =
     (let active = (lifecycle \<noteq> AlarmResolved);
          text = (\<lambda>name value. json_member name (quoted (jsonEscape value)) @ '','');
          kind = (if active then ''FIRE_SUSPECTED'' else ''NONE'') in
      ''{'' @ text ''event_id'' eventId @ text ''delivery_id'' deliveryId @ text ''alarm_id'' alarmId @
      json_member ''fire_revision'' (to_string (uint revision)) @ '','' @
      text ''camera_id'' cameraId @ text ''channel_id'' channelId @ text ''event_channel_id'' [] @
      text ''source_type'' ''sensor_uart'' @ text ''source_id'' (fg_sensorId signal) @
      text ''event_type'' (case lifecycle of AlarmOpen \<Rightarrow> ''FIRE_SUSPECTED''
        | AlarmAcknowledged \<Rightarrow> ''FIRE_ACKNOWLEDGED'' | AlarmResolved \<Rightarrow> ''FIRE_CLEARED'') @
      text ''alarm_kind'' kind @ text ''alarm'' kind @
      text ''alarm_state'' (lifecycle_toString lifecycle) @
      text ''severity'' (if active then ''critical'' else ''info'') @
      json_member ''active'' (if active then ''true'' else ''false'') @ '','' @
      text ''scope'' ''CAMERA_CHANNEL'' @ text ''zone_id'' [] @ text ''iva_area_id'' [] @
      text ''slot_id'' [] @ text ''snapshot_mode'' ''none'' @ text ''snapshot_path'' [] @
      text ''clip_path'' [] @
      text ''ack_state'' (case lifecycle of AlarmOpen \<Rightarrow> ''unacked''
        | AlarmAcknowledged \<Rightarrow> ''acknowledged'' | AlarmResolved \<Rightarrow> ''resolved'') @
      text ''timestamp'' (isoString (fg_occurredAt signal)) @
      text ''raw_topic'' (fg_sourceTransport signal) @
      json_member ''raw_payload'' (quoted (jsonEscape (fg_rawPayload signal))) @ ''}'')"

section \<open>Mapping\<close>

record FireChannelBinding =
  fb_sensorId :: string
  fb_channelId :: string
  fb_retainedTopic :: string

definition blank_char :: "char \<Rightarrow> bool" where
  "blank_char c \<longleftrightarrow> c \<in> {CHR '' '', CHR 0x09, CHR 0x0D, CHR 0x0A}"

definition fire_trim :: "string \<Rightarrow> string" where
  "fire_trim s = rev (dropWhile blank_char (rev (dropWhile blank_char s)))"

definition joinTopic :: "string \<Rightarrow> string \<Rightarrow> string" where
  "joinTopic prefix suffix =
     (if prefix = [] then suffix
      else if last prefix = CHR ''/'' then prefix @ suffix
      else prefix @ ''/'' @ suffix)"

text \<open>\<open>std::getline(stream, entry, ',')\<close> until it fails: no empty entry after the last comma.\<close>

fun comma_entries :: "string \<Rightarrow> string \<Rightarrow> string list" where
  "comma_entries entry [] = (if entry = [] then [] else [entry])"
| "comma_entries entry (c # cs) =
     (if c = CHR '','' then entry # comma_entries [] cs else comma_entries (entry @ [c]) cs)"

definition parse_binding :: "string \<Rightarrow> string \<Rightarrow> FireChannelBinding list \<Rightarrow> string + FireChannelBinding" where
  "parse_binding prefix entry bindings =
     (let normalized = fire_trim entry in
      if normalized = [] then Inl ''Fire mapping contains an empty entry''
      else
        let left = takeWhile (\<lambda>c. c \<noteq> CHR ''='') normalized;
            rest = drop (length left) normalized in
        if rest = [] \<or> CHR ''='' \<in> set (tl rest)
        then Inl (''Fire mapping entry must be sensor=channel: '' @ normalized)
        else
          let sensor = fire_trim left; channel = fire_trim (tl rest) in
          if sensor = [] \<or> channel = [] \<or> CHR ''/'' \<in> set sensor \<or> CHR ''/'' \<in> set channel
          then Inl (''Fire mapping contains an invalid identifier: '' @ normalized)
          else
            let b = \<lparr>fb_sensorId = sensor, fb_channelId = channel,
                  fb_retainedTopic = joinTopic prefix channel\<rparr> in
            if sensor \<in> fb_sensorId ` set bindings \<or> channel \<in> fb_channelId ` set bindings \<or>
               fb_retainedTopic b \<in> fb_retainedTopic ` set bindings
            then Inl ''Fire sensor, channel, and retained topic must be one-to-one''
            else Inr b)"

fun parse_channel_bindings :: "string \<Rightarrow> string list \<Rightarrow> FireChannelBinding list \<Rightarrow> FireChannelBinding list \<times> string" where
  "parse_channel_bindings prefix [] bindings =
     (bindings, if bindings = [] then ''Fire alarm is enabled but no mapping is configured'' else [])"
| "parse_channel_bindings prefix (entry # entries) bindings =
     (case parse_binding prefix entry bindings of
        Inl error \<Rightarrow> (bindings, error)
      | Inr b \<Rightarrow> parse_channel_bindings prefix entries (bindings @ [b]))"

definition parseFireChannelBindingsStrict :: "string \<Rightarrow> string \<Rightarrow> FireChannelBinding list \<times> string" where
  "parseFireChannelBindingsStrict specification prefix =
     (if fire_trim prefix = [] then ([], ''Fire retained topic prefix is empty'')
      else parse_channel_bindings prefix (comma_entries [] specification) [])"

definition bindings_valid :: "FireChannelBinding list \<times> string \<Rightarrow> bool" where
  "bindings_valid r \<longleftrightarrow> snd r = [] \<and> fst r \<noteq> []"


section \<open>Commands\<close>

datatype FireCommandStatus = FireRejected | FireQueueFull | FireQueued | FireDurablyCommitted
  | FireIdempotent | FireFailed

record FireCommandResult =
  fr_ticket :: "64 word"
  fr_status :: FireCommandStatus
  fr_channelId :: string
  fr_fireRevision :: "64 word"
  fr_error :: string
  fr_retryable :: bool
  fr_blocksChannel :: bool

datatype FireCommandKind = SignalCommand | AcknowledgeCommand | ManualClearCommand

record FireCommand =
  fc_kind :: FireCommandKind
  fc_ticket :: "64 word"
  fc_signal :: FireSignal
  fc_channelId :: string
  fc_alarmId :: string
  fc_retryCount :: nat
  fc_retryAfter :: "int option"
  fc_holdsChannelBlock :: bool

record FireConfig =
  fcf_cameraId :: string
  fcf_lifecycleTopicPrefix :: string
  fcf_commandQueueCapacity :: nat
  fcf_transientFailureRetryDelay :: int

text \<open>
  The fixed part of the service: the configuration, the mapping, which callbacks are set, the libraries.
\<close>

record 'j FireContext =
  fx_config :: FireConfig
  fx_bindings :: "FireChannelBinding list"
  fx_hasAckReadiness :: bool
  fx_hasBoundary :: bool
  fx_api :: "'j fire_api"

text \<open>What the outside does while the worker runs one command.\<close>

record FireEnv =
  fe_now :: int
  fe_read :: FireSql
  fe_bootRead :: FireSql
  fe_write :: FireSql
  fe_ackReady :: bool
  fe_beginOk :: bool

definition fireEventId :: "string \<Rightarrow> 64 word \<Rightarrow> string" where
  "fireEventId channelId revision = ''fire-event:'' @ channelId @ '':'' @ to_string (uint revision)"

definition fireAlarmId :: "string \<Rightarrow> 64 word \<Rightarrow> string" where
  "fireAlarmId channelId revision = ''fire-alarm:'' @ channelId @ '':'' @ to_string (uint revision)"

definition retainedDeliveryId :: "string \<Rightarrow> string" where
  "retainedDeliveryId channelId = ''fire-state:'' @ channelId"

definition lifecycleDeliveryId :: "string \<Rightarrow> string" where
  "lifecycleDeliveryId eventId = ''fire-lifecycle:'' @ eventId"

definition protocolFor :: "FireSignal \<Rightarrow> FireProtocolMode" where
  "protocolFor signal =
     (if fg_sourceProtocolVersion signal = BootEpochV2 then ProtocolVersioned else ProtocolLegacy)"

definition activeLifecycle :: "FireAlarmLifecycle \<Rightarrow> bool" where
  "activeLifecycle lifecycle \<longleftrightarrow> lifecycle = AlarmOpen \<or> lifecycle = AlarmAcknowledged"

definition makeDelivery ::
  "FireDeliverySinkKind \<Rightarrow> string \<Rightarrow> string \<Rightarrow> FireAlarmStateRecord \<Rightarrow> string \<Rightarrow> string \<Rightarrow> string \<Rightarrow>
     string \<Rightarrow> string \<Rightarrow> FireOutboxRecord" where
  "makeDelivery sink key logical state eventId alarmId topic payload timestamp =
     \<lparr>fo_deliveryKey = key, fo_sinkKind = sink, fo_logicalKey = logical,
      fo_sensorId = fs_sensorId state, fo_channelId = fs_channelId state, fo_eventId = eventId,
      fo_alarmId = alarmId, fo_fireRevision = fs_fireRevision state, fo_topic = topic,
      fo_payloadJson = payload, fo_qos = 1, fo_retain = (sink = RetainedState), fo_attemptCount = 0,
      fo_nextAttemptAt = timestamp, fo_lastError = [], fo_deliveryState = DeliveryPending,
      fo_acknowledgedRevision = None, fo_createdAt = timestamp, fo_updatedAt = timestamp\<rparr>"

definition fire_result :: "64 word \<Rightarrow> FireCommandStatus \<Rightarrow> string \<Rightarrow> 64 word \<Rightarrow> string \<Rightarrow> FireCommandResult" where
  "fire_result ticket status channelId revision error =
     \<lparr>fr_ticket = ticket, fr_status = status, fr_channelId = channelId, fr_fireRevision = revision,
      fr_error = error, fr_retryable = False, fr_blocksChannel = False\<rparr>"

definition retryableResult :: "64 word \<Rightarrow> string \<Rightarrow> 64 word \<Rightarrow> string \<Rightarrow> bool \<Rightarrow> FireCommandResult" where
  "retryableResult ticket channelId revision error blocks =
     (fire_result ticket FireFailed channelId revision error)\<lparr>fr_retryable := True, fr_blocksChannel := blocks\<rparr>"

definition mutationResult :: "64 word \<Rightarrow> string \<Rightarrow> FireStoreMutationResult \<Rightarrow> FireCommandResult" where
  "mutationResult ticket channelId r =
     (case mr_outcome r of
        MutCommitted \<Rightarrow> fire_result ticket FireDurablyCommitted channelId (mr_fireRevision r) []
      | MutIdempotent \<Rightarrow> fire_result ticket FireIdempotent channelId (mr_fireRevision r) []
      | MutFailed \<Rightarrow> retryableResult ticket channelId (mr_fireRevision r) (mr_error r) True
      | _ \<Rightarrow> fire_result ticket FireFailed channelId (mr_fireRevision r) (mr_error r))"

definition findBySensor :: "FireChannelBinding list \<Rightarrow> string \<Rightarrow> FireChannelBinding option" where
  "findBySensor bindings sensorId = find (\<lambda>b. fb_sensorId b = sensorId) bindings"

definition findByChannel :: "FireChannelBinding list \<Rightarrow> string \<Rightarrow> FireChannelBinding option" where
  "findByChannel bindings channelId = find (\<lambda>b. fb_channelId b = channelId) bindings"

text \<open>
  The calls of the mutation boundary (\<open>True\<close> opens it, \<open>False\<close> closes it) and the store's answer; left
  is an exception.
\<close>

definition applyTransition ::
  "'j FireContext \<Rightarrow> FireEnv \<Rightarrow> FireDb \<Rightarrow> FireStateMutation \<Rightarrow>
     bool list \<times> (string + FireDb \<times> FireStoreMutationResult)" where
  "applyTransition ctx env db m =
     (if fx_hasBoundary ctx \<and> \<not> fe_beginOk env
      then ([True], Inr (db, mutation_result MutFailed (fm_expectedRevision m)
             ''Fire readiness boundary is unavailable''))
      else (if fx_hasBoundary ctx then [True, False] else [], applyFireStateMutation (fe_write env) db m))"

text \<open>The part that the three commands share: next revision, both deliveries, the transaction.\<close>

definition transition_mutation ::
  "'j FireContext \<Rightarrow> FireChannelBinding \<Rightarrow> 64 word \<Rightarrow> FireAlarmStateRecord \<Rightarrow> FireSignal \<Rightarrow> string \<Rightarrow>
     FireStateMutation" where
  "transition_mutation ctx binding expected next signal alarmId =
     (let channelId = fb_channelId binding; eventId = fs_lastEventId next;
          retainedId = retainedDeliveryId channelId; lifecycleId = lifecycleDeliveryId eventId;
          payload = (\<lambda>deliveryId. buildFireJson (fa_iso (fx_api ctx)) (fcf_cameraId (fx_config ctx)) channelId
            signal (fs_desiredLifecycle next) eventId alarmId (fs_fireRevision next) deliveryId) in
      \<lparr>fm_expectedRevision = expected, fm_nextState = next,
       fm_retainedDelivery = Some (makeDelivery RetainedState retainedId (fb_retainedTopic binding) next
         eventId alarmId (fb_retainedTopic binding) (payload retainedId) (fs_updatedAt next)),
       fm_lifecycleDelivery = Some (makeDelivery LifecycleEvent lifecycleId eventId next eventId alarmId
         (joinTopic (fcf_lifecycleTopicPrefix (fx_config ctx)) channelId) (payload lifecycleId)
         (fs_updatedAt next))\<rparr>)"

definition finish_mutation ::
  "64 word \<Rightarrow> string \<Rightarrow> string + FireDb \<times> FireStoreMutationResult \<Rightarrow> string + FireDb \<times> FireCommandResult" where
  "finish_mutation ticket channelId r =
     try_bind r (\<lambda>(db, result). Inr (db, mutationResult ticket channelId result))"

text \<open>
  The second half of \<open>processSignal\<close>: \<open>next\<close> is the current row with the cursor of the accepted signal. A
  signal that does not change the alarm only moves the cursor.
\<close>

definition commit_signal ::
  "'j FireContext \<Rightarrow> FireEnv \<Rightarrow> FireDb \<Rightarrow> 64 word \<Rightarrow> FireSignal \<Rightarrow> FireChannelBinding \<Rightarrow> FireAlarmStateRecord \<Rightarrow>
     FireAlarmStateRecord \<Rightarrow> string + FireDb \<times> FireCommandResult" where
  "commit_signal ctx env db ticket signal binding current next =
     (let channelId = fb_channelId binding;
          failed = (\<lambda>error. (db, fire_result ticket FireFailed channelId (fs_fireRevision current) error)) in
      if fg_detected signal = activeLifecycle (fs_desiredLifecycle current)
      then if fs_protocolMode next \<noteq> fs_protocolMode current \<or> fs_activeBootId next \<noteq> fs_activeBootId current \<or>
              fs_lastSourceSequence next \<noteq> fs_lastSourceSequence current
           then finish_mutation ticket channelId (applyFireStateMutation (fe_write env) db
             \<lparr>fm_expectedRevision = fs_fireRevision current, fm_nextState = next,
              fm_retainedDelivery = None, fm_lifecycleDelivery = None\<rparr>)
           else Inr (db, fire_result ticket FireIdempotent channelId (fs_fireRevision current) [])
      else if fs_fireRevision current = kMaxFireRevision then Inr (failed ''Fire revision exhausted'')
      else
        let revision = fs_fireRevision current + 1;
            alarmId = (if fg_detected signal then fireAlarmId channelId revision else fs_activeAlarmId current);
            next1 = next\<lparr>fs_fireRevision := revision, fs_lastEventId := fireEventId channelId revision,
              fs_desiredLifecycle := (if fg_detected signal then AlarmOpen else AlarmResolved),
              fs_activeAlarmId := (if fg_detected signal then alarmId else [])\<rparr> in
        if alarmId = [] then Inr (failed ''resolved Fire transition lost alarm identity'')
        else finish_mutation ticket channelId (snd (applyTransition ctx env db
          (transition_mutation ctx binding (fs_fireRevision current) next1 signal alarmId))))"

definition signal_cursor :: "FireAlarmStateRecord \<Rightarrow> FireSignal \<Rightarrow> bool \<Rightarrow> SensorSequenceState" where
  "signal_cursor current signal retired =
     \<lparr>seq_mode = sequenceModeFor (fs_protocolMode current), seq_activeBootId = fs_activeBootId current,
      seq_lastSequence = fs_lastSourceSequence current,
      seq_retiredBootIds = (if retired then set_option (fg_sourceBootId signal) else {})\<rparr>"

definition signal_fact :: "FireSignal \<Rightarrow> SensorSequenceFact" where
  "signal_fact signal = \<lparr>fact_protocolVersion = fg_sourceProtocolVersion signal,
     fact_bootId = fg_sourceBootId signal, fact_sequence = fg_sourceSequence signal\<rparr>"

definition next_cursor ::
  "FireAlarmStateRecord \<Rightarrow> FireSignal \<Rightarrow> string \<Rightarrow> string \<Rightarrow> FireAlarmStateRecord" where
  "next_cursor current signal encoded timestamp =
     current\<lparr>fs_protocolMode := protocolFor signal, fs_activeBootId := fg_sourceBootId signal,
       fs_lastSourceSequence := fg_sourceSequence signal, fs_lastSignalJson := encoded,
       fs_updatedAt := timestamp\<rparr>"

definition fields_disagree :: "FireSignal \<Rightarrow> bool" where
  "fields_disagree signal \<longleftrightarrow>
     (let versioned = (fg_sourceProtocolVersion signal = BootEpochV2) in
      (versioned \<and> (fg_sourceBootId signal = None \<or> fg_sourceBootId signal = Some [] \<or>
         fg_sourceSequence signal = None)) \<or> (\<not> versioned \<and> fg_sourceBootId signal \<noteq> None))"

definition lookup_retired :: "FireEnv \<Rightarrow> FireDb \<Rightarrow> FireSignal \<Rightarrow> string + bool" where
  "lookup_retired env db signal =
     (case fg_sourceBootId signal of
        Some boot \<Rightarrow> if fg_sourceProtocolVersion signal = BootEpochV2
          then isSensorBootIdRetired (fe_bootRead env) db ''FIRE'' (fg_sensorId signal) boot else Inr False
      | None \<Rightarrow> Inr False)"

text \<open>The sequence decision; \<open>retired\<close> is the answer of the retired-boot lookup.\<close>

definition judge_signal ::
  "'j FireContext \<Rightarrow> FireEnv \<Rightarrow> FireDb \<Rightarrow> 64 word \<Rightarrow> FireSignal \<Rightarrow> FireChannelBinding \<Rightarrow> FireAlarmStateRecord \<Rightarrow>
     bool \<Rightarrow> string + FireDb \<times> FireCommandResult" where
  "judge_signal ctx env db ticket signal binding current retired =
     (let api = fx_api ctx;
          result = (\<lambda>status error.
            Inr (db, fire_result ticket status (fb_channelId binding) (fs_fireRevision current) error));
          decision = evaluateSensorSequence (signal_cursor current signal retired) (signal_fact signal) in
      if fst decision = Duplicate
      then (case deserializeSignal api (fs_lastSignalJson current) of
              Some previous \<Rightarrow> if fg_detected previous \<noteq> fg_detected signal
                then result FireRejected ''same Fire sequence has conflicting state'' else result FireIdempotent []
            | None \<Rightarrow> result FireIdempotent [])
      else if \<not> accepted decision then result FireRejected (snd decision)
      else try_bind (serializeSignal api signal) (\<lambda>encoded.
        commit_signal ctx env db ticket signal binding current
          (next_cursor current signal encoded (fa_iso api (fe_now env)))))"

definition processSignal ::
  "'j FireContext \<Rightarrow> FireEnv \<Rightarrow> FireDb \<Rightarrow> 64 word \<Rightarrow> FireSignal \<Rightarrow> FireChannelBinding \<Rightarrow>
     string + FireDb \<times> FireCommandResult" where
  "processSignal ctx env db ticket signal binding =
     try_bind (getFireAlarmState (fe_read env) db (fb_channelId binding)) (\<lambda>found.
       case found of
         None \<Rightarrow> Inr (db, retryableResult ticket (fb_channelId binding) 0 ''Fire durable state is unavailable'' True)
       | Some current \<Rightarrow>
           if fields_disagree signal
           then Inr (db, fire_result ticket FireRejected (fb_channelId binding) (fs_fireRevision current)
                  ''Fire protocol version, boot ID, and sequence disagree'')
           else try_bind (lookup_retired env db signal) (judge_signal ctx env db ticket signal binding current))"

definition processAcknowledge ::
  "'j FireContext \<Rightarrow> FireEnv \<Rightarrow> FireDb \<Rightarrow> 64 word \<Rightarrow> string \<Rightarrow> string \<Rightarrow> string + FireDb \<times> FireCommandResult" where
  "processAcknowledge ctx env db ticket channelId alarmId =
     (case findByChannel (fx_bindings ctx) channelId of
        None \<Rightarrow> Inr (db, fire_result ticket FireRejected channelId 0 ''Fire ACK channel/alarm is invalid'')
      | Some binding \<Rightarrow>
        if alarmId = []
        then Inr (db, fire_result ticket FireRejected channelId 0 ''Fire ACK channel/alarm is invalid'')
        else try_bind (getFireAlarmState (fe_read env) db channelId) (\<lambda>found.
        case found of
          None \<Rightarrow> Inr (db, retryableResult ticket channelId 0 ''Fire durable state is unavailable'' True)
        | Some current \<Rightarrow>
          let failed = (\<lambda>error. (db, fire_result ticket FireFailed channelId (fs_fireRevision current) error)) in
          if fs_activeAlarmId current \<noteq> alarmId \<or> \<not> activeLifecycle (fs_desiredLifecycle current)
          then Inr (db, fire_result ticket FireRejected channelId (fs_fireRevision current)
                 ''Fire ACK does not match the active alarm'')
          else if fx_hasAckReadiness ctx \<and> \<not> fe_ackReady env
          then Inr (db, retryableResult ticket channelId (fs_fireRevision current)
                 ''Fire ACK is waiting for retained-state synchronization'' False)
          else if fs_desiredLifecycle current = AlarmAcknowledged
          then Inr (db, fire_result ticket FireIdempotent channelId (fs_fireRevision current) [])
          else if fs_fireRevision current = kMaxFireRevision then Inr (failed ''Fire revision exhausted'')
          else case deserializeSignal (fx_api ctx) (fs_lastSignalJson current) of
              None \<Rightarrow> Inr (failed ''active Fire signal cannot be restored'')
            | Some signal \<Rightarrow>
                let revision = fs_fireRevision current + 1;
                    next = current\<lparr>fs_desiredLifecycle := AlarmAcknowledged, fs_fireRevision := revision,
                      fs_lastEventId := fireEventId channelId revision,
                      fs_updatedAt := fa_iso (fx_api ctx) (fe_now env)\<rparr> in
                finish_mutation ticket channelId (snd (applyTransition ctx env db
                  (transition_mutation ctx binding (fs_fireRevision current) next
                    (signal\<lparr>fg_occurredAt := fe_now env\<rparr>) alarmId)))))"

definition processManualClear ::
  "'j FireContext \<Rightarrow> FireEnv \<Rightarrow> FireDb \<Rightarrow> 64 word \<Rightarrow> string \<Rightarrow> string + FireDb \<times> FireCommandResult" where
  "processManualClear ctx env db ticket channelId =
     (case findByChannel (fx_bindings ctx) channelId of
        None \<Rightarrow> Inr (db, fire_result ticket FireRejected channelId 0 ''Fire clear channel is invalid'')
      | Some binding \<Rightarrow>
        try_bind (getFireAlarmState (fe_read env) db channelId) (\<lambda>found.
        case found of
          None \<Rightarrow> Inr (db, retryableResult ticket channelId 0 ''Fire durable state is unavailable'' True)
        | Some current \<Rightarrow>
          let failed = (\<lambda>error. (db, fire_result ticket FireFailed channelId (fs_fireRevision current) error)) in
          if \<not> activeLifecycle (fs_desiredLifecycle current)
          then Inr (db, fire_result ticket FireIdempotent channelId (fs_fireRevision current) [])
          else if fs_fireRevision current = kMaxFireRevision then Inr (failed ''Fire revision exhausted'')
          else if fs_activeAlarmId current = [] then Inr (failed ''manual Fire clear lost alarm identity'')
          else
            let restored = (case deserializeSignal (fx_api ctx) (fs_lastSignalJson current) of
                  Some signal \<Rightarrow> signal
                | None \<Rightarrow> \<lparr>fg_sensorId = fs_sensorId current, fg_detected = False, fg_occurredAt = fe_now env,
                    fg_sourceSequence = fs_lastSourceSequence current,
                    fg_sourceProtocolVersion = (if fs_protocolMode current = ProtocolVersioned
                      then BootEpochV2 else LegacyV1),
                    fg_sourceBootId = fs_activeBootId current, fg_sourceTransport = ''unknown'',
                    fg_rawPayload = []\<rparr>);
                signal = restored\<lparr>fg_detected := False, fg_occurredAt := fe_now env,
                  fg_sourceTransport := ''manual-control'',
                  fg_rawPayload := ''MANUAL_FIRE_CLEAR:'' @ channelId\<rparr>;
                revision = fs_fireRevision current + 1;
                next = current\<lparr>fs_desiredLifecycle := AlarmResolved, fs_fireRevision := revision,
                  fs_lastEventId := fireEventId channelId revision, fs_activeAlarmId := [],
                  fs_updatedAt := fa_iso (fx_api ctx) (fe_now env)\<rparr> in
            finish_mutation ticket channelId (snd (applyTransition ctx env db
              (transition_mutation ctx binding (fs_fireRevision current) next signal
                (fs_activeAlarmId current))))))"

definition process_fire ::
  "'j FireContext \<Rightarrow> FireEnv \<Rightarrow> FireDb \<Rightarrow> FireCommand \<Rightarrow> string + FireDb \<times> FireCommandResult" where
  "process_fire ctx env db command =
     (case fc_kind command of
        AcknowledgeCommand \<Rightarrow>
          processAcknowledge ctx env db (fc_ticket command) (fc_channelId command) (fc_alarmId command)
      | ManualClearCommand \<Rightarrow> processManualClear ctx env db (fc_ticket command) (fc_channelId command)
      | SignalCommand \<Rightarrow>
          (case findBySensor (fx_bindings ctx) (fg_sensorId (fc_signal command)) of
             None \<Rightarrow> Inr (db, fire_result (fc_ticket command) FireRejected [] 0 ''Fire sensor is not mapped'')
           | Some binding \<Rightarrow> processSignal ctx env db (fc_ticket command) (fc_signal command) binding))"

section \<open>Configuration and start\<close>

definition one_to_one :: "FireChannelBinding list \<Rightarrow> bool" where
  "one_to_one bindings \<longleftrightarrow>
     list_all (\<lambda>b. fb_sensorId b \<noteq> [] \<and> fb_channelId b \<noteq> [] \<and> fb_retainedTopic b \<noteq> []) bindings \<and>
     distinct (map fb_sensorId bindings) \<and> distinct (map fb_channelId bindings) \<and>
     distinct (map fb_retainedTopic bindings)"

text \<open>The constructor. Whether both boundary callbacks are set is the third argument's answer.\<close>

definition configuration_error :: "FireConfig \<Rightarrow> FireChannelBinding list \<Rightarrow> bool \<Rightarrow> string" where
  "configuration_error config bindings boundary_matched =
     (if \<not> one_to_one bindings then ''Fire sensor, channel, and retained topic must be one-to-one''
      else if fcf_cameraId config = [] then ''Fire camera ID is empty''
      else if fcf_lifecycleTopicPrefix config = [] then ''Fire lifecycle topic prefix is empty''
      else if fcf_commandQueueCapacity config = 0 then ''Fire command queue capacity is zero''
      else if fcf_transientFailureRetryDelay config \<le> 0 then ''Fire retry delay must be positive''
      else if \<not> boundary_matched then ''Fire mutation boundary requires both begin and end callbacks''
      else if bindings = [] then ''Fire channel mapping is empty''
      else [])"

definition bootstrap_signal :: "int \<Rightarrow> FireChannelBinding \<Rightarrow> FireSignal" where
  "bootstrap_signal now binding =
     \<lparr>fg_sensorId = fb_sensorId binding, fg_detected = False, fg_occurredAt = now, fg_sourceSequence = None,
      fg_sourceProtocolVersion = LegacyV1, fg_sourceBootId = None, fg_sourceTransport = ''bootstrap'',
      fg_rawPayload = ''bootstrap-resolved''\<rparr>"

definition bootstrap_of :: "'j FireContext \<Rightarrow> int \<Rightarrow> FireChannelBinding \<Rightarrow> string + FireChannelBootstrap" where
  "bootstrap_of ctx now binding =
     try_bind (serializeSignal (fx_api ctx) (bootstrap_signal now binding)) (\<lambda>encoded.
       let channelId = fb_channelId binding; timestamp = fa_iso (fx_api ctx) now;
           eventId = fireEventId channelId 1; alarmId = ''fire-alarm:'' @ channelId @ '':bootstrap'';
           deliveryId = retainedDeliveryId channelId;
           state = \<lparr>fs_channelId = channelId, fs_sensorId = fb_sensorId binding,
             fs_retainedTopic = fb_retainedTopic binding, fs_desiredLifecycle = AlarmResolved,
             fs_activeAlarmId = [], fs_lastEventId = eventId, fs_fireRevision = 1,
             fs_protocolMode = ProtocolUnseen, fs_activeBootId = None, fs_lastSourceSequence = None,
             fs_lastSignalJson = encoded, fs_updatedAt = timestamp\<rparr> in
       Inr (state, makeDelivery RetainedState deliveryId (fb_retainedTopic binding) state eventId alarmId
         (fb_retainedTopic binding)
         (buildFireJson (fa_iso (fx_api ctx)) (fcf_cameraId (fx_config ctx)) channelId
            (bootstrap_signal now binding) AlarmResolved eventId alarmId 1 deliveryId) timestamp))"

definition restored_matches :: "FireChannelBinding list \<Rightarrow> FireAlarmStateRecord \<Rightarrow> bool" where
  "restored_matches bindings row \<longleftrightarrow>
     (case findByChannel bindings (fs_channelId row) of
        None \<Rightarrow> False
      | Some b \<Rightarrow> fb_sensorId b = fs_sensorId row \<and> fb_retainedTopic b = fs_retainedTopic row)"

text \<open>\<open>initialize()\<close> of a service that is neither initialized nor running; left is an exception.\<close>

definition fire_initialize ::
  "'j FireContext \<Rightarrow> int \<Rightarrow> FireSql \<Rightarrow> FireSql \<Rightarrow> FireDb \<Rightarrow> string + FireDb \<times> bool \<times> string" where
  "fire_initialize ctx now write readBack db =
     try_bind (read_all (bootstrap_of ctx now) (fx_bindings ctx)) (\<lambda>topology.
       case initializeFireTopology write db topology of (db1, result) \<Rightarrow>
       if \<not> mutation_committed result
       then Inr (db1, False, if mr_error result = [] then ''Fire topology bootstrap failed'' else mr_error result)
       else try_bind (listFireAlarmStates readBack db1) (\<lambda>restored.
         if length restored \<noteq> length (fx_bindings ctx)
         then Inr (db1, False, ''durable Fire channels do not match configured topology'')
         else if \<not> list_all (restored_matches (fx_bindings ctx)) restored
         then Inr (db1, False, ''durable Fire mapping differs from configured topology'')
         else Inr (db1, True, [])))"

section \<open>The queue\<close>

text \<open>\<open>fw_current\<close> is the command between its removal from the queue and its completion (\<open>processing_\<close>).\<close>

record FireWorker =
  fw_queue :: "FireCommand list"
  fw_blocked :: "(string, 64 word) umap"
  fw_pendingAcks :: "(string \<times> string, 64 word) umap"
  fw_nextTicket :: "64 word"
  fw_current :: "FireCommand option"
  fw_running :: bool
  fw_accepting :: bool
  fw_stopRequested :: bool

text \<open>After a successful \<open>start()\<close>.\<close>

definition started_worker :: FireWorker where
  "started_worker = \<lparr>fw_queue = [], fw_blocked = [], fw_pendingAcks = [], fw_nextTicket = 1,
     fw_current = None, fw_running = True, fw_accepting = True, fw_stopRequested = False\<rparr>"

definition blank_signal :: FireSignal where
  "blank_signal = \<lparr>fg_sensorId = [], fg_detected = False, fg_occurredAt = 0, fg_sourceSequence = None,
     fg_sourceProtocolVersion = LegacyV1, fg_sourceBootId = None, fg_sourceTransport = ''unknown'',
     fg_rawPayload = []\<rparr>"

definition new_command :: "FireCommandKind \<Rightarrow> FireSignal \<Rightarrow> string \<Rightarrow> string \<Rightarrow> FireCommand" where
  "new_command kind signal channelId alarmId =
     \<lparr>fc_kind = kind, fc_ticket = 0, fc_signal = signal, fc_channelId = channelId, fc_alarmId = alarmId,
      fc_retryCount = 0, fc_retryAfter = None, fc_holdsChannelBlock = False\<rparr>"

definition enqueue :: "'j FireContext \<Rightarrow> FireWorker \<Rightarrow> FireCommand \<Rightarrow> FireWorker \<times> FireCommandResult" where
  "enqueue ctx w command0 =
     (let ticket = fw_nextTicket w; command = command0\<lparr>fc_ticket := ticket\<rparr>;
          w1 = w\<lparr>fw_nextTicket := ticket + 1\<rparr>; channelId = fc_channelId command;
          key = (channelId, fc_alarmId command); ack = (fc_kind command = AcknowledgeCommand);
          capacity = fcf_commandQueueCapacity (fx_config ctx);
          result = (\<lambda>t status error. fire_result t status channelId 0 error) in
      if \<not> fw_running w \<or> \<not> fw_accepting w \<or> channelId = []
      then (w1, result ticket FireRejected ''Fire command ingress is not available'')
      else case (if ack then um_find (fw_pendingAcks w) key else None) of
          Some existing \<Rightarrow> (w1, result existing FireQueued [])
        | None \<Rightarrow>
            if ack \<and> length (fw_queue w) \<ge> capacity - min capacity (length (fx_bindings ctx))
            then (w1, result ticket FireQueueFull ''Fire ACK queue reserve is exhausted'')
            else if length (fw_queue w) \<ge> capacity
            then (w1, result ticket FireQueueFull ''Fire command queue is full'')
            else (w1\<lparr>fw_queue := fw_queue w @ [command],
                    fw_pendingAcks := (if ack then um_emplace key ticket (fw_pendingAcks w)
                      else fw_pendingAcks w)\<rparr>,
                  result ticket FireQueued []))"

definition submitSignal :: "'j FireContext \<Rightarrow> FireWorker \<Rightarrow> FireSignal \<Rightarrow> FireWorker \<times> FireCommandResult" where
  "submitSignal ctx w signal =
     enqueue ctx w (new_command SignalCommand signal
       (case findBySensor (fx_bindings ctx) (fg_sensorId signal) of None \<Rightarrow> [] | Some b \<Rightarrow> fb_channelId b) [])"

definition submitAcknowledge ::
  "'j FireContext \<Rightarrow> FireWorker \<Rightarrow> string \<Rightarrow> string \<Rightarrow> FireWorker \<times> FireCommandResult" where
  "submitAcknowledge ctx w channelId alarmId =
     enqueue ctx w (new_command AcknowledgeCommand blank_signal channelId alarmId)"

definition submitManualClear :: "'j FireContext \<Rightarrow> FireWorker \<Rightarrow> string \<Rightarrow> FireWorker \<times> FireCommandResult" where
  "submitManualClear ctx w channelId =
     enqueue ctx w (new_command ManualClearCommand blank_signal channelId [])"

definition fire_closeIngress :: "FireWorker \<Rightarrow> FireWorker" where
  "fire_closeIngress w = w\<lparr>fw_accepting := False\<rparr>"

definition drained :: "FireWorker \<Rightarrow> bool" where
  "drained w \<longleftrightarrow> fw_queue w = [] \<and> fw_current w = None"

definition unblocked :: "(string, 64 word) umap \<Rightarrow> FireCommand \<Rightarrow> bool" where
  "unblocked blocked c \<longleftrightarrow>
     (case um_find blocked (fc_channelId c) of None \<Rightarrow> True | Some t \<Rightarrow> t = fc_ticket c)"

definition selectable :: "int \<Rightarrow> (string, 64 word) umap \<Rightarrow> FireCommand \<Rightarrow> bool" where
  "selectable now blocked c \<longleftrightarrow> unblocked blocked c \<and>
     (case fc_retryAfter c of None \<Rightarrow> True | Some t \<Rightarrow> t \<le> now)"

datatype FireWait = RunCommand | StopWorker | WaitSignal | WaitUntil int

text \<open>The wait of the worker: it takes the first selectable command, or sleeps until the next retry.\<close>

definition select_command :: "int \<Rightarrow> FireWorker \<Rightarrow> FireWorker \<times> FireWait" where
  "select_command now w =
     (let p = selectable now (fw_blocked w) in
      if fw_queue w = [] then (w, if fw_stopRequested w then StopWorker else WaitSignal)
      else case dropWhile (\<lambda>c. \<not> p c) (fw_queue w) of
          c # rest \<Rightarrow>
            (w\<lparr>fw_queue := takeWhile (\<lambda>c. \<not> p c) (fw_queue w) @ rest, fw_current := Some c\<rparr>, RunCommand)
        | [] \<Rightarrow>
            (w, case earliest_of [t. c \<leftarrow> filter (unblocked (fw_blocked w)) (fw_queue w),
                    t \<leftarrow> (case fc_retryAfter c of None \<Rightarrow> [] | Some t \<Rightarrow> [t])] of
                  None \<Rightarrow> WaitSignal | Some t \<Rightarrow> WaitUntil t))"

definition release_block :: "FireCommand \<Rightarrow> (string, 64 word) umap \<Rightarrow> (string, 64 word) umap" where
  "release_block c blocked =
     (if um_find blocked (fc_channelId c) = Some (fc_ticket c) then um_erase (fc_channelId c) blocked
      else blocked)"

text \<open>A retryable result puts the command back; it takes the channel's block, or gives it up.\<close>

definition requeue_command :: "'j FireContext \<Rightarrow> int \<Rightarrow> FireWorker \<Rightarrow> FireCommand \<Rightarrow> bool \<Rightarrow> FireWorker" where
  "requeue_command ctx now w c blocks =
     (let retry = c\<lparr>fc_retryCount := fc_retryCount c + 1,
            fc_retryAfter := Some (now + fcf_transientFailureRetryDelay (fx_config ctx))\<rparr>;
          again = (if blocks then retry\<lparr>fc_holdsChannelBlock := True\<rparr>
             else retry\<lparr>fc_holdsChannelBlock := False\<rparr>) in
      w\<lparr>fw_blocked := (if blocks then um_put (fc_channelId c) (fc_ticket c) (fw_blocked w)
           else if fc_holdsChannelBlock c then release_block c (fw_blocked w) else fw_blocked w),
        fw_current := None, fw_queue := fw_queue w @ [again]\<rparr>)"

definition settle_command :: "FireWorker \<Rightarrow> FireCommand \<Rightarrow> FireWorker" where
  "settle_command w c =
     (let key = (fc_channelId c, fc_alarmId c) in
      w\<lparr>fw_pendingAcks := (if fc_kind c = AcknowledgeCommand \<and>
             um_find (fw_pendingAcks w) key = Some (fc_ticket c)
           then um_erase key (fw_pendingAcks w) else fw_pendingAcks w),
        fw_blocked := (if fc_holdsChannelBlock c then release_block c (fw_blocked w) else fw_blocked w),
        fw_current := None\<rparr>)"

text \<open>
  The rest of the worker's round: the command runs, an exception counts as a retryable failure, and the
  command is put back or settled. The observer is told the result of a settled command.
\<close>

definition finish_fire_command ::
  "'j FireContext \<Rightarrow> FireEnv \<Rightarrow> int \<Rightarrow> FireWorker \<Rightarrow> FireDb \<Rightarrow> FireWorker \<times> FireDb \<times> FireCommandResult option" where
  "finish_fire_command ctx env retryNow w db =
     (case fw_current w of
        None \<Rightarrow> (w, db, None)
      | Some c \<Rightarrow>
          (case (case process_fire ctx env db c of
               Inl e \<Rightarrow> (db, retryableResult (fc_ticket c) (fc_channelId c) 0 e True)
             | Inr r \<Rightarrow> r) of (db1, result) \<Rightarrow>
           if fr_retryable result
           then (requeue_command ctx retryNow w c (fr_blocksChannel result), db1, None)
           else (settle_command w c, db1, Some result)))"

end
