(* ===== verification/FireLaws.thy ===== *)
theory FireLaws
  imports FireService
begin

text \<open>
  The invariant of the durable fire store and what every transaction of
  \<^verbatim>\<open>src/database/EventDatabaseFire.cpp\<close> and every command of \<^verbatim>\<open>src/event/FireAlarmService.cpp\<close> does to it.
\<close>

section \<open>Columns\<close>

lemma from_chars_sequence [simp]: "from_chars_uint64 (to_string (uint v)) = Some v" for v :: "64 word"
proof -
  have "to_string (uint v) = dec_of_nat (unat v)"
    using uint_ge_0 [of v] by (simp add: to_string_def not_less)
  moreover have "list_all c_isdigit (dec_of_nat (unat v))"
    using dec_of_nat_digits by (simp add: list_all_iff)
  moreover have "unat v < 2 ^ 64"
    using unsigned_less [of v] by simp
  ultimately show ?thesis
    by (simp add: from_chars_uint64_def dec_of_nat_nonempty)
qed

lemma parse_sequence_text [simp]: "parseOptionalSequence (sequence_text s) = Inr s"
  by (cases s) (simp_all add: parseOptionalSequence_def sequence_text_def)

lemma lifecycle_text [simp]: "fireAlarmLifecycleFromString (lifecycle_toString l) = Some l"
  by (cases l) (simp_all add: fireAlarmLifecycleFromString_def)

lemma protocol_text [simp]: "fireProtocolModeFromString (protocol_toString p) = Some p"
  by (cases p) (simp_all add: fireProtocolModeFromString_def)

lemma sink_text [simp]: "fireDeliverySinkFromString (sink_toString k) = Some k"
  by (cases k) (simp_all add: fireDeliverySinkFromString_def)

lemma delivery_text [simp]: "fireDeliveryStateFromString (delivery_toString d) = Some d"
  by (cases d) (simp_all add: fireDeliveryStateFromString_def)

lemma checkedInt64_Inr: "checkedInt64 v f = Inr i \<longleftrightarrow> v \<le> kMaxFireRevision \<and> i = uint v"
  by (auto simp: checkedInt64_def)

lemma stateColumns_Inr: "stateColumns r = Inr row \<longleftrightarrow> fs_fireRevision r \<le> kMaxFireRevision \<and>
   row = \<lparr>sr_channel_id = fs_channelId r, sr_sensor_id = fs_sensorId r,
         sr_retained_topic = fs_retainedTopic r,
         sr_desired_lifecycle = lifecycle_toString (fs_desiredLifecycle r),
         sr_active_alarm_id = null_if_empty (fs_activeAlarmId r),
         sr_last_event_id = fs_lastEventId r, sr_fire_revision = uint (fs_fireRevision r),
         sr_protocol_mode = protocol_toString (fs_protocolMode r),
         sr_active_boot_id = map_option sql_text (fs_activeBootId r),
         sr_last_source_sequence = sequence_text (fs_lastSourceSequence r),
         sr_last_signal_json = fs_lastSignalJson r, sr_updated_at = fs_updatedAt r\<rparr>"
  by (auto simp: stateColumns_def checkedInt64_Inr)

text \<open>The state record that a read gives after \<open>r\<close> was written: the boot id up to a NUL byte.\<close>

definition stored_state :: "FireAlarmStateRecord \<Rightarrow> FireAlarmStateRecord" where
  "stored_state r = r\<lparr>fs_activeBootId := map_option sql_text (fs_activeBootId r)\<rparr>"

lemma sql_text_stored [simp]: "sql_text (sql_text s) = sql_text s"
  by (simp add: sql_text_def takeWhile_idem)

lemma sql_text_option_stored [simp]: "map_option sql_text (map_option sql_text b) = map_option sql_text b"
  by (cases b) simp_all

lemma sql_text_plain: "CHR 0x00 \<notin> set s \<Longrightarrow> sql_text s = s"
  by (auto simp: sql_text_def takeWhile_eq_all_conv)

lemma stored_state_fields [simp]:
  "fs_channelId (stored_state r) = fs_channelId r" "fs_sensorId (stored_state r) = fs_sensorId r"
  "fs_retainedTopic (stored_state r) = fs_retainedTopic r"
  "fs_desiredLifecycle (stored_state r) = fs_desiredLifecycle r"
  "fs_activeAlarmId (stored_state r) = fs_activeAlarmId r" "fs_lastEventId (stored_state r) = fs_lastEventId r"
  "fs_fireRevision (stored_state r) = fs_fireRevision r" "fs_protocolMode (stored_state r) = fs_protocolMode r"
  "fs_activeBootId (stored_state r) = map_option sql_text (fs_activeBootId r)"
  "fs_lastSourceSequence (stored_state r) = fs_lastSourceSequence r"
  "fs_lastSignalJson (stored_state r) = fs_lastSignalJson r" "fs_updatedAt (stored_state r) = fs_updatedAt r"
  by (simp_all add: stored_state_def)

lemma stored_state_columns [simp]: "stateColumns (stored_state r) = stateColumns r"
  by (simp add: stateColumns_def)

lemma stored_state_plain: "(\<And>b. fs_activeBootId r = Some b \<Longrightarrow> sql_text b = b) \<Longrightarrow> stored_state r = r"
  by (cases "fs_activeBootId r") (simp_all add: stored_state_def)

lemma read_written_state:
  assumes "stateColumns r = Inr row" and "0 < fs_fireRevision r"
  shows "readState row = Inr (stored_state r)"
  using assms
  by (cases r) (simp add: stateColumns_Inr readState_def null_if_empty_def word_less_def not_le stored_state_def)

lemma read_written_delivery:
  assumes "deliveryColumns d = Inr row" and "0 < fo_fireRevision d"
    and "\<And>a. fo_acknowledgedRevision d = Some a \<Longrightarrow> 0 < a"
  shows "readDelivery row = Inr d"
  using assms
  by (cases d) (auto simp: deliveryColumns_def checkedInt64_Inr readDelivery_def word_less_def not_le
      not_less split: option.splits)

section \<open>Identities\<close>

lemma last_separator:
  assumes "x \<notin> set d" and "x \<notin> set d'"
  shows "a @ x # d = a' @ x # d' \<longleftrightarrow> a = a' \<and> d = d'"
proof
  assume eq: "a @ x # d = a' @ x # d'"
  have "takeWhile (\<lambda>c. c \<noteq> x) (rev (a @ x # d)) = rev d"
    "takeWhile (\<lambda>c. c \<noteq> x) (rev (a' @ x # d')) = rev d'"
    using assms by (auto simp: takeWhile_append takeWhile_eq_all_conv [THEN iffD2])
  then have "d = d'" using eq by simp
  then show "a = a' \<and> d = d'" using eq by simp
qed simp

lemma to_string_word [simp]: "to_string (uint v) = to_string (uint w) \<longleftrightarrow> v = w" for v w :: "64 word"
  by (simp add: to_string_inject word_uint_eq_iff)

lemma colon_not_in_number: "CHR '':'' \<notin> set (to_string (uint v))" for v :: "64 word"
proof -
  have "to_string (uint v) = dec_of_nat (unat v)"
    using uint_ge_0 [of v] by (simp add: to_string_def not_less)
  moreover have "\<not> c_isdigit (CHR '':'')" by (simp add: c_isdigit_def)
  ultimately show ?thesis using dec_of_nat_digits [of _ "unat v"] by metis
qed

lemma fireEventId_inject [simp]: "fireEventId c r = fireEventId d s \<longleftrightarrow> c = d \<and> r = s"
  using last_separator [OF colon_not_in_number colon_not_in_number, of c r d s]
  by (simp add: fireEventId_def word_uint_eq_iff)

lemma lifecycleDeliveryId_inject [simp]: "lifecycleDeliveryId a = lifecycleDeliveryId b \<longleftrightarrow> a = b"
  by (simp add: lifecycleDeliveryId_def)

lemma retainedDeliveryId_inject [simp]: "retainedDeliveryId a = retainedDeliveryId b \<longleftrightarrow> a = b"
  by (simp add: retainedDeliveryId_def)

lemma delivery_ids_differ [simp]:
  "retainedDeliveryId a \<noteq> lifecycleDeliveryId b" "lifecycleDeliveryId b \<noteq> retainedDeliveryId a"
  by (simp_all add: retainedDeliveryId_def lifecycleDeliveryId_def)

lemma fire_ids_nonempty [simp]:
  "fireEventId c r \<noteq> []" "fireAlarmId c r \<noteq> []" "lifecycleDeliveryId e \<noteq> []" "retainedDeliveryId c \<noteq> []"
  by (simp_all add: fireEventId_def fireAlarmId_def lifecycleDeliveryId_def retainedDeliveryId_def)

section \<open>Invariant of the store\<close>

definition written_state :: "FireStateRow \<Rightarrow> bool" where
  "written_state row \<longleftrightarrow> (\<exists>r. stateColumns r = Inr row \<and> 0 < fs_fireRevision r)"

definition readable_delivery :: "FireOutboxRow \<Rightarrow> bool" where
  "readable_delivery row \<longleftrightarrow> (\<exists>d. readDelivery row = Inr d)"

text \<open>The retained row of a channel carries the event and the revision of its state row.\<close>

definition retained_of :: "FireStateRow \<Rightarrow> FireOutboxRow \<Rightarrow> bool" where
  "retained_of s d \<longleftrightarrow> or_sink_kind d = ''RETAINED_STATE'' \<and>
     or_delivery_key d = retainedDeliveryId (sr_channel_id s) \<and> or_logical_key d = sr_retained_topic s \<and>
     or_sensor_id d = sr_sensor_id s \<and> or_channel_id d = sr_channel_id s \<and>
     or_event_id d = sr_last_event_id s \<and> or_fire_revision d = sr_fire_revision s \<and>
     or_topic d = sr_retained_topic s"

text \<open>A lifecycle row announces one revision, from the second on, of its channel.\<close>

definition lifecycle_of :: "FireStateRow \<Rightarrow> FireOutboxRow \<Rightarrow> bool" where
  "lifecycle_of s d \<longleftrightarrow> or_sink_kind d = ''LIFECYCLE_EVENT'' \<and>
     or_channel_id d = sr_channel_id s \<and> or_event_id d = fireEventId (sr_channel_id s) (word_of_int (or_fire_revision d)) \<and>
     or_delivery_key d = lifecycleDeliveryId (or_event_id d) \<and> or_logical_key d = or_event_id d \<and>
     2 \<le> or_fire_revision d \<and> or_fire_revision d \<le> sr_fire_revision s"

definition fire_store_ok :: "FireDb \<Rightarrow> bool" where
  "fire_store_ok db \<longleftrightarrow>
     distinct (map sr_channel_id (fd_states db)) \<and> distinct (map or_delivery_key (fd_outbox db)) \<and>
     (\<forall>s \<in> set (fd_states db). written_state s) \<and>
     (\<forall>d \<in> set (fd_outbox db). readable_delivery d \<and>
        (\<exists>s \<in> set (fd_states db). retained_of s d \<or> lifecycle_of s d)) \<and>
     (\<forall>s \<in> set (fd_states db). \<exists>d \<in> set (fd_outbox db). retained_of s d) \<and>
     (\<forall>s \<in> set (fd_states db). \<forall>k. 2 \<le> k \<and> k \<le> sr_fire_revision s \<longrightarrow>
        (\<exists>d \<in> set (fd_outbox db). lifecycle_of s d \<and> or_fire_revision d = k))"

definition alarm_of :: "FireDb \<Rightarrow> string \<Rightarrow> FireAlarmStateRecord option" where
  "alarm_of db channelId = (case selectState db channelId of Inr r \<Rightarrow> r | Inl e \<Rightarrow> None)"

lemma find_distinct:
  assumes "distinct (map key xs)" and "x \<in> set xs"
  shows "find (\<lambda>y. key y = key x) xs = Some x"
  using assms by (induction xs) auto

lemma written_stateE:
  assumes "written_state row"
  obtains r where "stateColumns r = Inr row" "readState row = Inr r" "0 < fs_fireRevision r"
proof -
  obtain r where "stateColumns r = Inr row" "0 < fs_fireRevision r" using assms by (auto simp: written_state_def)
  then show thesis using that [of "stored_state r"] read_written_state by simp
qed

lemma selectState_row:
  assumes "fire_store_ok db" and "alarm_of db c = Some r"
  obtains row where "row \<in> set (fd_states db)" "stateColumns r = Inr row" "readState row = Inr r"
    "0 < fs_fireRevision r" "sr_channel_id row = c" "fs_channelId r = c" "fs_fireRevision r \<le> kMaxFireRevision"
proof -
  from assms(2) obtain row where row: "find (\<lambda>s. sr_channel_id s = c) (fd_states db) = Some row"
    and read: "readState row = Inr r"
    by (auto simp: alarm_of_def selectState_def split: option.splits sum.splits)
  then have mem: "row \<in> set (fd_states db)" "sr_channel_id row = c"
    by (auto simp: find_Some_iff)
  then have "written_state row" using assms(1) by (simp add: fire_store_ok_def)
  then obtain r' where r': "stateColumns r' = Inr row" "readState row = Inr r'" "0 < fs_fireRevision r'"
    by (rule written_stateE)
  with read have "r' = r" by simp
  then show thesis using that [OF mem(1)] r' mem by (auto simp: stateColumns_Inr)
qed

lemma alarm_of_row:
  assumes "fire_store_ok db" and "row \<in> set (fd_states db)"
  obtains r where "alarm_of db (sr_channel_id row) = Some r" "stateColumns r = Inr row" "readState row = Inr r"
    "0 < fs_fireRevision r"
proof -
  have "find (\<lambda>s. sr_channel_id s = sr_channel_id row) (fd_states db) = Some row"
    using assms by (auto simp: fire_store_ok_def intro: find_distinct)
  moreover obtain r where "stateColumns r = Inr row" "readState row = Inr r" "0 < fs_fireRevision r"
    using assms written_stateE by (metis fire_store_ok_def)
  ultimately show thesis using that by (simp add: alarm_of_def selectState_def)
qed

lemma selectState_ok: "fire_store_ok db \<Longrightarrow> selectState db c = Inr (alarm_of db c)"
proof (cases "find (\<lambda>s. sr_channel_id s = c) (fd_states db)")
  case (Some row)
  assume ok: "fire_store_ok db"
  from Some have "row \<in> set (fd_states db)" "sr_channel_id row = c" by (auto simp: find_Some_iff)
  then obtain r where "readState row = Inr r" using ok alarm_of_row by metis
  with Some show ?thesis by (simp add: alarm_of_def selectState_def)
qed (simp add: alarm_of_def selectState_def)

section \<open>Replacing the state row of a channel\<close>

definition put_state :: "string \<Rightarrow> FireStateRow \<Rightarrow> FireStateRow list \<Rightarrow> FireStateRow list" where
  "put_state c new rows = update_rows (\<lambda>s. sr_channel_id s = c) (\<lambda>_. new) rows"

lemma set_put_state:
  assumes "s \<in> set rows" and "sr_channel_id s = c"
  shows "set (put_state c new rows) = insert new {r \<in> set rows. sr_channel_id r \<noteq> c}"
  using assms by (force simp: put_state_def update_rows_def)

lemma keys_put_state:
  "sr_channel_id new = c \<Longrightarrow> map sr_channel_id (put_state c new rows) = map sr_channel_id rows"
  unfolding put_state_def by (rule update_rows_map) simp

lemma find_put_state:
  assumes "sr_channel_id new = c" and "s \<in> set rows" and "sr_channel_id s = c"
  shows "find (\<lambda>r. sr_channel_id r = x) (put_state c new rows) =
     (if x = c then Some new else find (\<lambda>r. sr_channel_id r = x) rows)"
proof (cases "x = c")
  case True
  then show ?thesis using assms by (induction rows) (auto simp: put_state_def update_rows_def)
next
  case False
  then show ?thesis using assms(1) by (induction rows) (auto simp: put_state_def update_rows_def)
qed

lemma alarm_of_put:
  assumes "s \<in> set (fd_states db)" and "sr_channel_id s = c" and "stateColumns next = Inr new"
    and "0 < fs_fireRevision next" and "fs_channelId next = c"
    and "fd_states db' = put_state c new (fd_states db)"
  shows "alarm_of db' x = (if x = c then Some (stored_state next) else alarm_of db x)"
proof -
  have "sr_channel_id new = c" using assms(3,5) by (auto simp: stateColumns_Inr)
  then show ?thesis
    using find_put_state [of new c s "fd_states db" x] assms read_written_state [of "next" new]
    by (simp add: alarm_of_def selectState_def)
qed

lemma fire_state_unique:
  "fire_store_ok db \<Longrightarrow> s \<in> set (fd_states db) \<Longrightarrow> t \<in> set (fd_states db) \<Longrightarrow>
     sr_channel_id s = sr_channel_id t \<Longrightarrow> s = t"
  unfolding fire_store_ok_def by (metis distinct_map inj_onD)

lemma cursor_update_ok:
  assumes ok: "fire_store_ok db" and s: "s \<in> set (fd_states db)" "sr_channel_id s = c"
    and new: "stateColumns next = Inr new" "0 < fs_fireRevision next"
    and same: "sr_channel_id new = c" "sr_sensor_id new = sr_sensor_id s"
      "sr_retained_topic new = sr_retained_topic s" "sr_last_event_id new = sr_last_event_id s"
      "sr_fire_revision new = sr_fire_revision s"
    and db': "fd_states db' = put_state c new (fd_states db)" "fd_outbox db' = fd_outbox db"
  shows "fire_store_ok db'"
proof -
  have rows: "set (fd_states db') = insert new {r \<in> set (fd_states db). sr_channel_id r \<noteq> c}"
    using set_put_state [OF s] db'(1) by simp
  have old: "r = s" if "r \<in> set (fd_states db)" "sr_channel_id r = c" for r
    using fire_state_unique [OF ok that(1) s(1)] that(2) s(2) by simp
  have links: "retained_of new d = retained_of s d" "lifecycle_of new d = lifecycle_of s d" for d
    using same s(2) by (auto simp: retained_of_def lifecycle_of_def)
  have w: "written_state new" using new by (auto simp: written_state_def)
  have keys: "map sr_channel_id (fd_states db') = map sr_channel_id (fd_states db)"
    using keys_put_state [OF same(1)] db'(1) by simp
  have linked: "\<exists>r \<in> set (fd_states db'). retained_of r d \<or> lifecycle_of r d"
    if "\<exists>r \<in> set (fd_states db). retained_of r d \<or> lifecycle_of r d" for d
    using that old links unfolding rows by blast
  show ?thesis
    using ok w s linked unfolding fire_store_ok_def keys db'(2)
    by (simp add: rows links same(5))
qed

lemma transition_update_ok:
  assumes ok: "fire_store_ok db" and s: "s \<in> set (fd_states db)" "sr_channel_id s = c"
    and new: "stateColumns next = Inr new" "0 < fs_fireRevision next"
    and same: "sr_channel_id new = c" "sr_sensor_id new = sr_sensor_id s"
      "sr_retained_topic new = sr_retained_topic s" "sr_fire_revision new = sr_fire_revision s + 1"
    and db': "fd_states db' = put_state c new (fd_states db)"
      "fd_outbox db' = update_rows (\<lambda>d. or_delivery_key d = retainedDeliveryId c) f (fd_outbox db) @ [lc]"
    and f: "\<And>d. retained_of s d \<Longrightarrow> retained_of new (f d)"
      "\<And>d. retained_of s d \<Longrightarrow> readable_delivery d \<Longrightarrow> readable_delivery (f d)"
    and keyf: "\<And>d. or_delivery_key (f d) = or_delivery_key d"
    and lc: "lifecycle_of new lc" "or_fire_revision lc = sr_fire_revision new" "readable_delivery lc"
    and fresh: "or_delivery_key lc \<notin> or_delivery_key ` set (fd_outbox db)"
  shows "fire_store_ok db'"
proof -
  have rows: "set (fd_states db') = insert new {r \<in> set (fd_states db). sr_channel_id r \<noteq> c}"
    using set_put_state [OF s] db'(1) by simp
  have old: "r = s" if "r \<in> set (fd_states db)" "sr_channel_id r = c" for r
    using fire_state_unique [OF ok that(1) s(1)] that(2) s(2) by simp
  let ?k = "\<lambda>d. or_delivery_key d = retainedDeliveryId c"
  let ?g = "\<lambda>d. if ?k d then f d else d"
  have outbox: "set (fd_outbox db') = insert lc (?g ` set (fd_outbox db))"
    using db'(2) by (auto simp: update_rows_def)
  have kept: "?g d = d" if "lifecycle_of r d" for r d
    using that by (simp add: lifecycle_of_def)
  have grown: "lifecycle_of new d" if "lifecycle_of s d" for d
    using that same s(2) by (auto simp: lifecycle_of_def)
  have keyed: "retained_of r d \<Longrightarrow> ?k d \<longleftrightarrow> sr_channel_id r = c" for r d
    by (auto simp: retained_of_def)
  have retained: "retained_of (if sr_channel_id r = c then new else r) (?g d)"
    if "r \<in> set (fd_states db)" "retained_of r d" for r d
    using that keyed [OF that(2)] old [OF that(1)] f [of d] by auto
  have dist: "distinct (map or_delivery_key (fd_outbox db'))"
    using ok fresh update_rows_map [of ?k or_delivery_key f] keyf db'(2) by (auto simp: fire_store_ok_def)
  have w: "written_state new" using new by (auto simp: written_state_def)
  have keys: "map sr_channel_id (fd_states db') = map sr_channel_id (fd_states db)"
    using keys_put_state [OF same(1)] db'(1) by simp
  have row: "readable_delivery (?g d) \<and> (\<exists>r \<in> set (fd_states db'). retained_of r (?g d) \<or> lifecycle_of r (?g d))"
    if d: "d \<in> set (fd_outbox db)" for d
  proof -
    from ok d obtain r where r: "readable_delivery d" "r \<in> set (fd_states db)" "retained_of r d \<or> lifecycle_of r d"
      unfolding fire_store_ok_def by blast
    from r(3) show ?thesis
    proof
      assume l: "lifecycle_of r d"
      then have "lifecycle_of (if sr_channel_id r = c then new else r) d" using grown old [OF r(2)] by auto
      moreover have "(if sr_channel_id r = c then new else r) \<in> set (fd_states db')" using r(2) rows by simp
      ultimately show ?thesis using kept [OF l] r(1) by auto
    next
      assume d': "retained_of r d"
      moreover have "(if sr_channel_id r = c then new else r) \<in> set (fd_states db')" using r(2) rows by simp
      moreover have "readable_delivery (?g d)"
        using keyed [OF d'] old [OF r(2)] f [of d] d' r(1) by auto
      ultimately show ?thesis using retained [OF r(2) d'] by blast
    qed
  qed
  have moved: "?g d \<in> set (fd_outbox db')" if "d \<in> set (fd_outbox db)" for d
    using that unfolding outbox by blast
  have has_retained: "\<exists>d \<in> set (fd_outbox db'). retained_of r d" if "r \<in> set (fd_states db')" for r
  proof (cases "r = new")
    case True
    obtain d where d: "d \<in> set (fd_outbox db)" "retained_of s d" using ok s(1) unfolding fire_store_ok_def by blast
    have "retained_of new (?g d)" using retained [OF s(1) d(2)] s(2) by simp
    then show ?thesis using moved [OF d(1)] True by blast
  next
    case False
    then have r: "r \<in> set (fd_states db)" "sr_channel_id r \<noteq> c" using that rows by auto
    then obtain d where d: "d \<in> set (fd_outbox db)" "retained_of r d" using ok unfolding fire_store_ok_def by blast
    have "retained_of r (?g d)" using retained [OF r(1) d(2)] r(2) by simp
    then show ?thesis using moved [OF d(1)] by blast
  qed
  have has_lifecycle: "\<exists>d \<in> set (fd_outbox db'). lifecycle_of r d \<and> or_fire_revision d = k"
    if r: "r \<in> set (fd_states db')" and k: "2 \<le> k" "k \<le> sr_fire_revision r" for r k
  proof -
    have old_row: "\<exists>d \<in> set (fd_outbox db'). lifecycle_of t d \<and> or_fire_revision d = k"
      if t: "t \<in> set (fd_states db)" "k \<le> sr_fire_revision t" for t
    proof -
      obtain d where d: "d \<in> set (fd_outbox db)" "lifecycle_of t d" "or_fire_revision d = k"
        using ok t k(1) unfolding fire_store_ok_def by blast
      have "d \<in> set (fd_outbox db')" using moved [OF d(1)] kept [OF d(2)] by simp
      then show ?thesis using d by blast
    qed
    show ?thesis
    proof (cases "r = new")
      case True
      then have "k = sr_fire_revision new \<or> k \<le> sr_fire_revision s" using k(2) same(4) by auto
      then consider "k = sr_fire_revision new" | "k \<le> sr_fire_revision s" by blast
      then show ?thesis
      proof cases
        case 1
        then show ?thesis using lc True outbox by auto
      next
        case 2
        then show ?thesis using old_row [OF s(1)] grown True by blast
      qed
    next
      case False
      then show ?thesis using r rows old_row k(2) by auto
    qed
  qed
  have all_rows: "\<forall>d \<in> set (fd_outbox db'). readable_delivery d \<and>
      (\<exists>r \<in> set (fd_states db'). retained_of r d \<or> lifecycle_of r d)"
  proof
    fix d
    assume "d \<in> set (fd_outbox db')"
    then consider "d = lc" | e where "e \<in> set (fd_outbox db)" "d = ?g e" unfolding outbox by blast
    then show "readable_delivery d \<and> (\<exists>r \<in> set (fd_states db'). retained_of r d \<or> lifecycle_of r d)"
    proof cases
      case 1
      then show ?thesis using lc rows by blast
    next
      case 2
      then show ?thesis using row [of e] by blast
    qed
  qed
  have "\<forall>r \<in> set (fd_states db'). written_state r" using ok w rows by (auto simp: fire_store_ok_def)
  moreover have "distinct (map sr_channel_id (fd_states db'))" using ok keys by (simp add: fire_store_ok_def)
  ultimately show ?thesis
    using dist all_rows has_retained has_lifecycle unfolding fire_store_ok_def by blast
qed

section \<open>Transactions\<close>

lemma advance_cursor_frame:
  assumes "advance_cursor db current next = Inr db1"
  shows "fd_states db1 = fd_states db" "fd_outbox db1 = fd_outbox db" "fd_opened db1 = fd_opened db"
    "set (fd_retired db) \<subseteq> set (fd_retired db1)"
  using assms by (auto simp: advance_cursor_def Let_def split: if_splits option.splits)

lemma updateState_put:
  assumes ok: "fire_store_ok db" and cur: "alarm_of db c = Some current"
    and m: "fm_expectedRevision m = fs_fireRevision current" "fs_channelId (fm_nextState m) = c"
      "fs_sensorId (fm_nextState m) = fs_sensorId current"
      "fs_retainedTopic (fm_nextState m) = fs_retainedTopic current"
    and st: "fd_states db1 = fd_states db"
    and upd: "updateState db1 m = Inr db2"
  obtains new s where "stateColumns (fm_nextState m) = Inr new" "s \<in> set (fd_states db)"
    "sr_channel_id s = c" "stateColumns current = Inr s"
    "db2 = db1\<lparr>fd_states := put_state c new (fd_states db)\<rparr>"
    "0 < sr_fire_revision new"
proof -
  from upd obtain new where new: "stateColumns (fm_nextState m) = Inr new"
    by (auto simp: updateState_def)
  obtain s where s: "s \<in> set (fd_states db)" "stateColumns current = Inr s" "sr_channel_id s = c"
    using selectState_row [OF ok cur] by metis
  let ?p = "\<lambda>r. sr_channel_id r = sr_channel_id new \<and> sr_fire_revision r = uint (fs_fireRevision current)"
  let ?f = "\<lambda>r. new\<lparr>sr_channel_id := sr_channel_id r, sr_sensor_id := sr_sensor_id r,
                  sr_retained_topic := sr_retained_topic r\<rparr>"
  have only: "?p r \<longleftrightarrow> r = s" if "r \<in> set (fd_states db)" for r
    using fire_state_unique [OF ok that s(1)] s(2,3) new m(2) by (auto simp: stateColumns_Inr)
  have chan: "sr_channel_id r = c \<longleftrightarrow> r = s" if "r \<in> set (fd_states db)" for r
    using fire_state_unique [OF ok that s(1)] s(3) by auto
  have "?f s = new" using s(2,3) new m by (auto simp: stateColumns_Inr)
  then have rows: "update_rows ?p ?f (fd_states db) = put_state c new (fd_states db)"
    unfolding put_state_def update_rows_def using only chan by (intro map_cong) auto
  have "list_ex ?p (fd_states db)" using s(1) only by (auto simp: list_ex_iff)
  then have "0 < count_rows ?p (fd_states db)"
    by (auto simp: count_rows_def list_ex_iff filter_empty_conv)
  then have pos: "0 < sr_fire_revision new"
    using upd new st m(1) by (auto simp: updateState_def checkedInt64_Inr Let_def split: if_splits)
  have "db2 = db1\<lparr>fd_states := update_rows ?p ?f (fd_states db)\<rparr>"
    using upd new st m(1) by (auto simp: updateState_def checkedInt64_Inr Let_def split: if_splits)
  then show thesis using that [OF new s(1,3,2)] rows pos by simp
qed

lemma retained_key:
  assumes "fire_store_ok db" and "d \<in> set (fd_outbox db)" and "or_delivery_key d = retainedDeliveryId c"
  obtains s where "s \<in> set (fd_states db)" "sr_channel_id s = c" "retained_of s d"
proof -
  from assms(1,2) obtain s where "s \<in> set (fd_states db)" "retained_of s d \<or> lifecycle_of s d"
    unfolding fire_store_ok_def by blast
  then show thesis using that assms(3) by (auto simp: retained_of_def lifecycle_of_def)
qed

lemma fresh_event:
  assumes ok: "fire_store_ok db" and s: "s \<in> set (fd_states db)" "sr_channel_id s = c"
    and new: "uint r = sr_fire_revision s + 1"
  shows "lifecycleDeliveryId (fireEventId c r) \<notin> or_delivery_key ` set (fd_outbox db)"
proof
  assume "lifecycleDeliveryId (fireEventId c r) \<in> or_delivery_key ` set (fd_outbox db)"
  then obtain d where d: "d \<in> set (fd_outbox db)" "or_delivery_key d = lifecycleDeliveryId (fireEventId c r)"
    by auto
  from ok d(1) obtain t where t: "t \<in> set (fd_states db)" "retained_of t d \<or> lifecycle_of t d"
    unfolding fire_store_ok_def by blast
  then have l: "lifecycle_of t d" "sr_channel_id t = c" "r = word_of_int (or_fire_revision d)"
    using d(2) by (auto simp: retained_of_def lifecycle_of_def)
  have "t = s" using fire_state_unique [OF ok t(1) s(1)] l(2) s(2) by simp
  then have bound: "0 \<le> or_fire_revision d" "or_fire_revision d \<le> sr_fire_revision s"
    using l(1) by (auto simp: lifecycle_of_def)
  have "or_fire_revision d < 2 ^ 64" using bound new uint_bounded [of r] by simp
  then have "uint r = or_fire_revision d" using l(3) bound by (simp add: word_of_int_inverse)
  then show False using new bound by simp
qed

lemma transaction_cases:
  assumes ok: "fire_store_ok db" and cur: "alarm_of db (fs_channelId (fm_nextState m)) = Some current"
    and run: "mutation_transaction db m = Inr (db', res)"
  obtains "db' = db" "mr_outcome res \<noteq> MutCommitted"
  | db1 db2 where "advance_cursor db current (fm_nextState m) = Inr db1" "updateState db1 m = Inr db2"
      "(case (fm_retainedDelivery m, fm_lifecycleDelivery m) of
          (Some retained, Some lifecycle) \<Rightarrow> store_deliveries db2 (fm_nextState m) retained lifecycle
        | _ \<Rightarrow> Inr db2) = Inr db'"
      "fm_expectedRevision m = fs_fireRevision current"
      "fs_sensorId (fm_nextState m) = fs_sensorId current"
      "fs_retainedTopic (fm_nextState m) = fs_retainedTopic current"
      "res = mutation_result MutCommitted (fs_fireRevision (fm_nextState m)) []"
proof -
  have refused: "mr_outcome r \<noteq> MutCommitted" if "advance_cursor db current (fm_nextState m) = Inl r" for r
    using that by (auto simp: advance_cursor_def Let_def mutation_result_def split: if_splits option.splits)
  show thesis
    using run that refused selectState_ok [OF ok, of "fs_channelId (fm_nextState m)"] cur
    unfolding mutation_transaction_def Let_def
    by (auto simp: mutation_result_def split: if_splits sum.splits)
qed

lemma apply_mutation_cases:
  assumes "applyFireStateMutation sql db m = Inr (db', res)"
  obtains "db' = db" "mr_outcome res \<noteq> MutCommitted"
  | "\<not> invalid_mutation m" "mutation_transaction db m = Inr (db', res)" "fd_opened db" "sql = SqlWorks"
  using assms
  by (auto simp: applyFireStateMutation_def mutation_result_def split: if_splits FireSql.splits sum.splits)

text \<open>The frame of a committed mutation: what it says of the cursor is what \<open>advance_cursor\<close> did.\<close>

definition committed_to ::
  "FireDb \<Rightarrow> string \<Rightarrow> FireAlarmStateRecord \<Rightarrow> FireAlarmStateRecord \<Rightarrow> FireDb \<Rightarrow> bool" where
  "committed_to db c current next db' \<longleftrightarrow>
     fire_store_ok db' \<and> (\<forall>x. alarm_of db' x = (if x = c then Some (stored_state next) else alarm_of db x)) \<and>
     (\<exists>db1. advance_cursor db current next = Inr db1 \<and> fd_retired db' = fd_retired db1) \<and>
     fd_opened db' = fd_opened db"

lemma cursor_mutation:
  assumes ok: "fire_store_ok db" and cur: "alarm_of db c = Some current"
    and "next": "fs_channelId next = c" "fs_lastEventId next = fs_lastEventId current"
      "fs_fireRevision next = fs_fireRevision current"
    and run: "applyFireStateMutation sql db \<lparr>fm_expectedRevision = fs_fireRevision current,
        fm_nextState = next, fm_retainedDelivery = None, fm_lifecycleDelivery = None\<rparr> = Inr (db', res)"
  shows "(mr_outcome res = MutCommitted \<and> mr_fireRevision res = fs_fireRevision next \<and>
            committed_to db c current next db' \<and> fd_outbox db' = fd_outbox db) \<or>
         (mr_outcome res \<noteq> MutCommitted \<and> db' = db)"
  using run
proof (cases rule: apply_mutation_cases)
  case 2
  let ?m = "\<lparr>fm_expectedRevision = fs_fireRevision current, fm_nextState = next,
        fm_retainedDelivery = None, fm_lifecycleDelivery = None\<rparr>"
  have at: "alarm_of db (fs_channelId (fm_nextState ?m)) = Some current" using cur "next"(1) by simp
  show ?thesis using ok at 2(2)
  proof (cases rule: transaction_cases)
    case (2 db1 db2)
    have frame: "fd_states db1 = fd_states db" "fd_outbox db1 = fd_outbox db" "fd_opened db1 = fd_opened db"
      using advance_cursor_frame 2(1) by simp_all
    have u: "updateState db1 ?m = Inr db2" using 2(2) .
    obtain new s where n: "stateColumns next = Inr new" "s \<in> set (fd_states db)" "sr_channel_id s = c"
      "stateColumns current = Inr s" "db2 = db1\<lparr>fd_states := put_state c new (fd_states db)\<rparr>"
      "0 < sr_fire_revision new"
      using updateState_put [OF ok cur _ _ _ _ frame(1) u] "next"(1) 2(5,6) by auto
    have db': "db' = db2" using 2(3) by simp
    have pos: "0 < fs_fireRevision next" using n(1,6) by (simp add: stateColumns_Inr word_less_def)
    have "fire_store_ok db'"
      using cursor_update_ok [OF ok n(2,3,1) pos] n(1,4,5) db' "next" 2(5,6) frame
      by (simp add: stateColumns_Inr)
    moreover have "\<forall>x. alarm_of db' x = (if x = c then Some (stored_state next) else alarm_of db x)"
      using alarm_of_put [OF n(2,3,1) pos "next"(1)] db' n(5) by simp
    ultimately show ?thesis
      using 2(1,7) db' n(5) frame by (auto simp: committed_to_def mutation_result_def)
  qed auto
qed auto

text \<open>What a transition leaves in the outbox: the retained row replaced, the lifecycle row added.\<close>

definition outbox_transition ::
  "FireDb \<Rightarrow> FireOutboxRecord \<Rightarrow> FireOutboxRecord \<Rightarrow> FireDb \<Rightarrow> bool" where
  "outbox_transition db retained lifecycle db' \<longleftrightarrow>
     (\<exists>row. deliveryColumns lifecycle = Inr row \<and>
        fd_outbox db' = update_rows (\<lambda>d. or_delivery_key d = fo_deliveryKey retained)
          (retained_row retained (uint (fo_fireRevision retained))) (fd_outbox db) @ [row])"

lemma try_bind_InrE:
  assumes "try_bind m f = Inr y"
  obtains x where "m = Inr x" "f x = Inr y"
  using assms by auto

lemma store_deliveries_rows:
  assumes run: "store_deliveries db next retained lifecycle = Inr db'"
    and fresh: "fo_deliveryKey lifecycle \<notin> or_delivery_key ` set (fd_outbox db)"
    and other: "fo_deliveryKey lifecycle \<noteq> fo_deliveryKey retained"
  shows "outbox_transition db retained lifecycle db'" "fd_states db' = fd_states db"
    "fd_retired db' = fd_retired db" "fd_opened db' = fd_opened db"
proof -
  from run obtain old where step: "try_bind (updateRetained db retained) (\<lambda>db1.
      try_bind (selectDelivery db1 (fo_deliveryKey lifecycle)) (\<lambda>existing.
        case existing of Some row \<Rightarrow> if sameDeliverySemantic row lifecycle then Inr db1
            else Inl ''same Fire lifecycle ID has different payload''
          | None \<Rightarrow> insertDelivery db1 lifecycle)) = Inr db'"
    by (fastforce simp: store_deliveries_def simp del: try_bind_Inr split: if_splits option.splits
        elim!: try_bind_InrE)
  then obtain db1 existing where db1: "updateRetained db retained = Inr db1"
    and sel: "selectDelivery db1 (fo_deliveryKey lifecycle) = Inr existing"
    and ins: "(case existing of Some row \<Rightarrow> if sameDeliverySemantic row lifecycle then Inr db1
            else Inl ''same Fire lifecycle ID has different payload''
          | None \<Rightarrow> insertDelivery db1 lifecycle) = Inr db'"
    by (auto elim!: try_bind_InrE simp del: try_bind_Inr)
  let ?p = "\<lambda>d. or_delivery_key d = fo_deliveryKey retained"
  have row: "db1 = db\<lparr>fd_outbox := update_rows ?p (retained_row retained (uint (fo_fireRevision retained)))
      (fd_outbox db)\<rparr>"
    using db1 by (auto simp: updateRetained_def checkedInt64_Inr Let_def split: if_splits)
  have keys: "or_delivery_key ` set (fd_outbox db1) = or_delivery_key ` set (fd_outbox db)"
    using update_rows_map [of ?p or_delivery_key "retained_row retained (uint (fo_fireRevision retained))"]
    by (simp add: row retained_row_def flip: set_map)
  have "\<not> (\<exists>d. d \<in> set (fd_outbox db1) \<and> or_delivery_key d = fo_deliveryKey lifecycle)"
  proof
    assume "\<exists>d. d \<in> set (fd_outbox db1) \<and> or_delivery_key d = fo_deliveryKey lifecycle"
    then have "fo_deliveryKey lifecycle \<in> or_delivery_key ` set (fd_outbox db1)" by force
    then show False using fresh keys by simp
  qed
  then have "find (\<lambda>d. or_delivery_key d = fo_deliveryKey lifecycle) (fd_outbox db1) = None"
    by (simp add: find_None_iff)
  then have none: "selectDelivery db1 (fo_deliveryKey lifecycle) = Inr None"
    by (simp add: selectDelivery_def)
  from ins have "insertDelivery db1 lifecycle = Inr db'"
    using none sel by simp
  then obtain columns where "deliveryColumns lifecycle = Inr columns"
    "db' = db1\<lparr>fd_outbox := fd_outbox db1 @ [columns]\<rparr>"
    by (auto simp: insertDelivery_def split: if_splits)
  then show "outbox_transition db retained lifecycle db'" "fd_states db' = fd_states db"
    "fd_retired db' = fd_retired db" "fd_opened db' = fd_opened db"
    by (simp_all add: outbox_transition_def row)
qed

lemma retained_row_ok:
  assumes "retained_of s d" and "readable_delivery d"
    and "stateColumns next = Inr new" and "0 < fs_fireRevision next"
    and "sr_channel_id new = sr_channel_id s" and "sr_sensor_id new = sr_sensor_id s"
    and "sr_retained_topic new = sr_retained_topic s"
    and "r = makeDelivery RetainedState key topic next (fs_lastEventId next) alarmId topic payload at"
    and "topic = sr_retained_topic s"
  shows "retained_of new (retained_row r (uint (fo_fireRevision r)) d)"
    "readable_delivery (retained_row r (uint (fo_fireRevision r)) d)"
proof -
  show "retained_of new (retained_row r (uint (fo_fireRevision r)) d)"
    using assms by (simp add: retained_of_def retained_row_def makeDelivery_def stateColumns_Inr)
  show "readable_delivery (retained_row r (uint (fo_fireRevision r)) d)"
    using assms(1,2,4)
    by (simp add: assms(8) readable_delivery_def readDelivery_def retained_row_def makeDelivery_def
        fireDeliveryStateFromString_def word_less_def split: option.splits if_splits)
qed

lemma lifecycle_row_ok:
  assumes "stateColumns next = Inr new" and "fs_lastEventId next = fireEventId (fs_channelId next) (fs_fireRevision next)"
    and "2 \<le> sr_fire_revision new"
    and "l = makeDelivery LifecycleEvent (lifecycleDeliveryId (fs_lastEventId next)) (fs_lastEventId next) next
        (fs_lastEventId next) alarmId topic payload at"
    and "deliveryColumns l = Inr row"
  shows "lifecycle_of new row" "or_fire_revision row = sr_fire_revision new" "readable_delivery row"
    "or_delivery_key row = fo_deliveryKey l"
proof -
  have row: "or_fire_revision row = uint (fs_fireRevision next)" "or_sink_kind row = ''LIFECYCLE_EVENT''"
    "or_channel_id row = fs_channelId next" "or_event_id row = fs_lastEventId next"
    "or_delivery_key row = lifecycleDeliveryId (fs_lastEventId next)" "or_logical_key row = fs_lastEventId next"
    using assms(4,5) by (auto simp: deliveryColumns_def makeDelivery_def checkedInt64_Inr)
  then show "lifecycle_of new row" "or_fire_revision row = sr_fire_revision new"
    "or_delivery_key row = fo_deliveryKey l"
    using assms(1-4) by (auto simp: lifecycle_of_def stateColumns_Inr makeDelivery_def)
  have "0 < fs_fireRevision next"
    using assms(1,3) by (auto simp: stateColumns_Inr word_less_def)
  then have "readDelivery row = Inr l"
    using read_written_delivery [OF assms(5)] assms(4) by (simp add: makeDelivery_def)
  then show "readable_delivery row" by (auto simp: readable_delivery_def)
qed

lemma transition_committed:
  assumes ok: "fire_store_ok db" and cur: "alarm_of db c = Some current"
    and binding: "fb_channelId binding = c" "fb_retainedTopic binding = fs_retainedTopic current"
    and "next": "fs_channelId next = c" "fs_lastEventId next = fireEventId c (fs_fireRevision next)"
      "fs_fireRevision next = fs_fireRevision current + 1" "fs_sensorId next = fs_sensorId current"
      "fs_retainedTopic next = fs_retainedTopic current"
    and m: "m = transition_mutation ctx binding (fs_fireRevision current) next signal alarmId"
    and run: "applyFireStateMutation sql db m = Inr (db', res)"
  shows "(mr_outcome res = MutCommitted \<and> mr_fireRevision res = fs_fireRevision next \<and>
            committed_to db c current next db' \<and>
            outbox_transition db (the (fm_retainedDelivery m)) (the (fm_lifecycleDelivery m)) db') \<or>
         (mr_outcome res \<noteq> MutCommitted \<and> db' = db)"
  using run
proof (cases rule: apply_mutation_cases)
  case 2
  have fields: "fm_nextState m = next" "fm_expectedRevision m = fs_fireRevision current"
    by (simp_all add: m transition_mutation_def Let_def)
  obtain r l where rl: "fm_retainedDelivery m = Some r" "fm_lifecycleDelivery m = Some l"
    by (simp add: m transition_mutation_def Let_def)
  then obtain payload1 payload2 topic2 where
    r: "r = makeDelivery RetainedState (retainedDeliveryId c) (fs_retainedTopic current) next (fs_lastEventId next)
         alarmId (fs_retainedTopic current) payload1 (fs_updatedAt next)" and
    l: "l = makeDelivery LifecycleEvent (lifecycleDeliveryId (fs_lastEventId next)) (fs_lastEventId next) next
         (fs_lastEventId next) alarmId topic2 payload2 (fs_updatedAt next)"
    using binding by (auto simp: m transition_mutation_def Let_def)
  have at: "alarm_of db (fs_channelId (fm_nextState m)) = Some current" using cur "next"(1) fields by simp
  show ?thesis using ok at 2(2)
  proof (cases rule: transaction_cases)
    case (2 db1 db2)
    have frame: "fd_states db1 = fd_states db" "fd_outbox db1 = fd_outbox db" "fd_opened db1 = fd_opened db"
      using advance_cursor_frame 2(1) by simp_all
    obtain new s where n: "stateColumns next = Inr new" "s \<in> set (fd_states db)" "sr_channel_id s = c"
      "stateColumns current = Inr s" "db2 = db1\<lparr>fd_states := put_state c new (fd_states db)\<rparr>"
      "0 < sr_fire_revision new"
      using updateState_put [OF ok cur _ _ _ _ frame(1) 2(2)] "next"(1) 2(4-6) fields by auto
    have pos: "0 < fs_fireRevision next" using n(1,6) by (simp add: stateColumns_Inr word_less_def)
    have same: "sr_channel_id new = c" "sr_sensor_id new = sr_sensor_id s" "sr_retained_topic new = sr_retained_topic s"
      using n(1,4) "next" by (auto simp: stateColumns_Inr)
    have bound: "fs_fireRevision current \<le> kMaxFireRevision" "0 < fs_fireRevision current"
      using n(4) selectState_row [OF ok cur] by (auto simp: stateColumns_Inr)
    then have rev: "uint (fs_fireRevision next) = uint (fs_fireRevision current) + 1"
      using "next"(3) by (simp add: kMaxFireRevision_def word_le_def uint_plus_if')
    then have step: "sr_fire_revision new = sr_fire_revision s + 1" "2 \<le> sr_fire_revision new"
      using n(1,4) bound(2) by (auto simp: stateColumns_Inr word_less_def)
    have key: "fo_deliveryKey l = lifecycleDeliveryId (fireEventId c (fs_fireRevision next))"
      "fo_deliveryKey r = retainedDeliveryId c" using l r "next"(2) by (simp_all add: makeDelivery_def)
    have fresh: "fo_deliveryKey l \<notin> or_delivery_key ` set (fd_outbox db)"
      using fresh_event [OF ok n(2,3), of "fs_fireRevision next"] rev n(4) key(1) by (simp add: stateColumns_Inr)
    have del: "store_deliveries db2 next r l = Inr db'" using 2(3) rl fields by simp
    have rows: "outbox_transition db2 r l db'" "fd_states db' = fd_states db2" "fd_retired db' = fd_retired db2"
      "fd_opened db' = fd_opened db2"
      using store_deliveries_rows [OF del] fresh key n(5) frame by simp_all
    then obtain row where row: "deliveryColumns l = Inr row" "fd_outbox db' =
        update_rows (\<lambda>d. or_delivery_key d = retainedDeliveryId c) (retained_row r (uint (fo_fireRevision r)))
          (fd_outbox db) @ [row]"
      using n(5) frame key(2) by (auto simp: outbox_transition_def)
    have lrow: "lifecycle_of new row" "or_fire_revision row = sr_fire_revision new" "readable_delivery row"
      "or_delivery_key row = fo_deliveryKey l"
      using lifecycle_row_ok [OF n(1) _ step(2) l row(1)] "next"(1,2) by simp_all
    have states: "fd_states db' = put_state c new (fd_states db)" using rows(2) n(5) by simp
    have readable: "readable_delivery d" if "retained_of s d" "d \<in> set (fd_outbox db)" for d
      using ok that unfolding fire_store_ok_def by blast
    have topic: "fs_retainedTopic current = sr_retained_topic s" using n(4) by (auto simp: stateColumns_Inr)
    have id: "sr_channel_id new = sr_channel_id s" using same(1) n(3) by simp
    note f = retained_row_ok [OF _ _ n(1) pos id same(2,3) r topic]
    have f1: "retained_of new (retained_row r (uint (fo_fireRevision r)) d)" if "retained_of s d" for d
      using that n(1,3) same r topic by (simp add: retained_of_def retained_row_def makeDelivery_def stateColumns_Inr)
    have f2: "or_delivery_key (retained_row r (uint (fo_fireRevision r)) d) = or_delivery_key d" for d
      by (simp add: retained_row_def)
    have nofresh: "or_delivery_key row \<notin> or_delivery_key ` set (fd_outbox db)" using fresh lrow(4) by simp
    have "fire_store_ok db'"
      by (rule transition_update_ok [OF ok n(2,3,1) pos same step(1) states row(2) f1 f(2) f2 lrow(1-3) nofresh])
    moreover have "\<forall>x. alarm_of db' x = (if x = c then Some (stored_state next) else alarm_of db x)"
      using alarm_of_put [OF n(2,3,1) pos "next"(1) states] by simp
    ultimately show ?thesis
      using 2(1,7) n(5) frame rows fields rl by (auto simp: committed_to_def mutation_result_def outbox_transition_def)
  qed auto
qed auto

section \<open>Commands\<close>

text \<open>The abstract alarm of a channel, and what a command means for it.\<close>

type_synonym AlarmStatus = "FireAlarmLifecycle \<times> string \<times> 64 word"

definition status_of :: "FireAlarmStateRecord \<Rightarrow> AlarmStatus" where
  "status_of r = (fs_desiredLifecycle r, fs_activeAlarmId r, fs_fireRevision r)"

lemma status_of_stored [simp]: "status_of (stored_state r) = status_of r"
  by (simp add: status_of_def)

fun alarm_raised :: "string \<Rightarrow> AlarmStatus \<Rightarrow> AlarmStatus" where
  "alarm_raised c (AlarmResolved, a, n) = (AlarmOpen, fireAlarmId c (n + 1), n + 1)"
| "alarm_raised c st = st"

fun alarm_cleared :: "AlarmStatus \<Rightarrow> AlarmStatus" where
  "alarm_cleared (AlarmResolved, a, n) = (AlarmResolved, a, n)"
| "alarm_cleared (l, a, n) = (AlarmResolved, [], n + 1)"

fun alarm_seen :: "string \<Rightarrow> AlarmStatus \<Rightarrow> AlarmStatus" where
  "alarm_seen b (AlarmOpen, a, n) = (if a = b then (AlarmAcknowledged, a, n + 1) else (AlarmOpen, a, n))"
| "alarm_seen b st = st"

definition command_meaning :: "FireCommand \<Rightarrow> string \<Rightarrow> AlarmStatus \<Rightarrow> AlarmStatus" where
  "command_meaning cmd c st =
     (case fc_kind cmd of
        SignalCommand \<Rightarrow> if fg_detected (fc_signal cmd) then alarm_raised c st else alarm_cleared st
      | AcknowledgeCommand \<Rightarrow> alarm_seen (fc_alarmId cmd) st
      | ManualClearCommand \<Rightarrow> alarm_cleared st)"

definition mapped :: "'j FireContext \<Rightarrow> FireDb \<Rightarrow> bool" where
  "mapped ctx db \<longleftrightarrow> (\<forall>b \<in> set (fx_bindings ctx). \<forall>r. alarm_of db (fb_channelId b) = Some r \<longrightarrow>
     fs_sensorId r = fb_sensorId b \<and> fs_retainedTopic r = fb_retainedTopic b)"

lemma mutation_finished:
  assumes "finish_mutation t c r = Inr (db', res)"
  obtains result where "r = Inr (db', result)" "res = mutationResult t c result"
  using assms by (auto simp: finish_mutation_def)

lemma mutationResult_status:
  "fr_status (mutationResult t c r) = FireDurablyCommitted \<longleftrightarrow> mr_outcome r = MutCommitted"
  "fr_channelId (mutationResult t c r) = c"
  "fr_fireRevision (mutationResult t c r) = mr_fireRevision r"
  by (auto simp: mutationResult_def fire_result_def retryableResult_def split: FireStoreMutationOutcome.splits)

text \<open>The two outcomes of a command on channel \<open>c\<close>: nothing happened, or \<open>next\<close> was committed.\<close>

definition unchanged_by :: "FireDb \<Rightarrow> FireDb \<times> FireCommandResult \<Rightarrow> bool" where
  "unchanged_by db r \<longleftrightarrow> fst r = db \<and> fr_status (snd r) \<noteq> FireDurablyCommitted"

definition committed_by ::
  "FireDb \<Rightarrow> string \<Rightarrow> FireAlarmStateRecord \<Rightarrow> FireAlarmStateRecord \<Rightarrow> FireDb \<times> FireCommandResult \<Rightarrow> bool" where
  "committed_by db c current next r \<longleftrightarrow>
     committed_to db c current next (fst r) \<and> fr_status (snd r) = FireDurablyCommitted \<and>
     fr_channelId (snd r) = c \<and> fr_fireRevision (snd r) = fs_fireRevision next \<and>
     fs_sensorId next = fs_sensorId current \<and> fs_retainedTopic next = fs_retainedTopic current"

text \<open>A transition carries its two deliveries; \<open>alarmId\<close> is the alarm they are about.\<close>

definition announced ::
  "'j FireContext \<Rightarrow> FireDb \<Rightarrow> FireChannelBinding \<Rightarrow> FireAlarmStateRecord \<Rightarrow> FireAlarmStateRecord \<Rightarrow> string \<Rightarrow>
     FireDb \<Rightarrow> bool" where
  "announced ctx db b current next alarmId db' \<longleftrightarrow>
     (\<exists>signal. let m = transition_mutation ctx b (fs_fireRevision current) next signal alarmId in
        outbox_transition db (the (fm_retainedDelivery m)) (the (fm_lifecycleDelivery m)) db')"

lemma transition_run:
  assumes ok: "fire_store_ok db" and cur: "alarm_of db (fb_channelId b) = Some current"
    and b: "fb_retainedTopic b = fs_retainedTopic current"
    and "next": "fs_channelId next = fb_channelId b"
      "fs_lastEventId next = fireEventId (fb_channelId b) (fs_fireRevision next)"
      "fs_fireRevision next = fs_fireRevision current + 1" "fs_sensorId next = fs_sensorId current"
      "fs_retainedTopic next = fs_retainedTopic current"
    and run: "finish_mutation t (fb_channelId b) (snd (applyTransition ctx env db
        (transition_mutation ctx b (fs_fireRevision current) next signal alarmId))) = Inr r"
  shows "unchanged_by db r \<or>
    (committed_by db (fb_channelId b) current next r \<and> announced ctx db b current next alarmId (fst r))"
proof -
  obtain db' res where r: "r = (db', res)" by (cases r)
  let ?m = "transition_mutation ctx b (fs_fireRevision current) next signal alarmId"
  obtain result where res: "snd (applyTransition ctx env db ?m) = Inr (db', result)"
    "res = mutationResult t (fb_channelId b) result"
    using run unfolding r by (rule mutation_finished)
  show ?thesis
  proof (cases "fx_hasBoundary ctx \<and> \<not> fe_beginOk env")
    case True
    then have "db' = db" "mr_outcome result = MutFailed"
      using res(1) by (auto simp: applyTransition_def mutation_result_def)
    then show ?thesis using res(2) by (simp add: unchanged_by_def r mutationResult_status)
  next
    case False
    then have "applyFireStateMutation (fe_write env) db ?m = Inr (db', result)"
      using res(1) by (auto simp: applyTransition_def split: if_splits)
    from transition_committed [OF ok cur refl b "next" refl this] show ?thesis
      using res(2) "next"(4,5)
      by (auto simp: unchanged_by_def committed_by_def announced_def r mutationResult_status Let_def)
  qed
qed


lemma cursor_run:
  assumes ok: "fire_store_ok db" and cur: "alarm_of db c = Some current"
    and "next": "next = next_cursor current signal encoded at" "fs_channelId current = c"
    and run: "finish_mutation t c (applyFireStateMutation sql db
       \<lparr>fm_expectedRevision = fs_fireRevision current, fm_nextState = next,
        fm_retainedDelivery = None, fm_lifecycleDelivery = None\<rparr>) = Inr r"
  shows "unchanged_by db r \<or> (committed_by db c current next r \<and> fd_outbox (fst r) = fd_outbox db)"
proof -
  obtain db' res where r: "r = (db', res)" by (cases r)
  obtain result where res: "applyFireStateMutation sql db
       \<lparr>fm_expectedRevision = fs_fireRevision current, fm_nextState = next,
        fm_retainedDelivery = None, fm_lifecycleDelivery = None\<rparr> = Inr (db', result)"
    "res = mutationResult t c result"
    using run unfolding r by (rule mutation_finished)
  have "fs_channelId next = c" "fs_lastEventId next = fs_lastEventId current"
    "fs_fireRevision next = fs_fireRevision current" "fs_sensorId next = fs_sensorId current"
    "fs_retainedTopic next = fs_retainedTopic current"
    using "next" by (simp_all add: next_cursor_def)
  with cursor_mutation [OF ok cur _ _ _ res(1)] show ?thesis
    by (auto simp: unchanged_by_def committed_by_def r res(2) mutationResult_status)
qed

text \<open>What a signal that reached the second half does.\<close>

lemma commit_signal_sound:
  assumes ok: "fire_store_ok db" and cur: "alarm_of db (fb_channelId b) = Some current"
    and b: "fb_retainedTopic b = fs_retainedTopic current"
    and "next": "next = next_cursor current signal encoded at"
    and run: "commit_signal ctx env db t signal b current next = Inr r"
  shows "unchanged_by db r \<or>
    (\<exists>new. committed_by db (fb_channelId b) current new r \<and>
       \<not> cursor_differs next new \<and>
       status_of new = (if fg_detected signal then alarm_raised (fb_channelId b) (status_of current)
         else alarm_cleared (status_of current)) \<and>
       (fs_fireRevision new = fs_fireRevision current \<and> fd_outbox (fst r) = fd_outbox db \<or>
        fs_fireRevision new = fs_fireRevision current + 1 \<and>
        announced ctx db b current new
          (if fg_detected signal then fs_activeAlarmId new else fs_activeAlarmId current) (fst r)))"
proof -
  let ?c = "fb_channelId b"
  have chan: "fs_channelId current = ?c" using selectState_row [OF ok cur] by blast
  have fields: "status_of next = status_of current" "fs_channelId next = ?c" "fs_sensorId next = fs_sensorId current"
    "fs_retainedTopic next = fs_retainedTopic current" "fs_fireRevision next = fs_fireRevision current"
    using "next" chan by (simp_all add: next_cursor_def status_of_def)
  show ?thesis
  proof (cases "fg_detected signal = activeLifecycle (fs_desiredLifecycle current)")
    case True
    have same: "status_of next = (if fg_detected signal then alarm_raised ?c (status_of current)
         else alarm_cleared (status_of current))"
      using True fields(1) by (cases "fs_desiredLifecycle current") (simp_all add: status_of_def activeLifecycle_def)
    have "unchanged_by db r \<or> (committed_by db ?c current next r \<and> fd_outbox (fst r) = fd_outbox db)"
    proof (cases "fs_protocolMode next \<noteq> fs_protocolMode current \<or> fs_activeBootId next \<noteq> fs_activeBootId current \<or>
          fs_lastSourceSequence next \<noteq> fs_lastSourceSequence current")
      case changed: True
      show ?thesis
        by (rule cursor_run [OF ok cur "next" chan, where t = t and sql = "fe_write env"])
          (use run True changed in \<open>simp add: commit_signal_def Let_def\<close>)
    next
      case False
      then show ?thesis using run True
        by (auto simp: commit_signal_def Let_def unchanged_by_def fire_result_def)
    qed
    then show ?thesis using same fields by (auto simp: cursor_differs_def)
  next
    case False
    let ?rev = "fs_fireRevision current + 1"
    let ?id = "if fg_detected signal then fireAlarmId ?c ?rev else fs_activeAlarmId current"
    let ?new = "next\<lparr>fs_fireRevision := ?rev, fs_lastEventId := fireEventId ?c ?rev,
        fs_desiredLifecycle := (if fg_detected signal then AlarmOpen else AlarmResolved),
        fs_activeAlarmId := (if fg_detected signal then ?id else [])\<rparr>"
    have same: "status_of ?new = (if fg_detected signal then alarm_raised ?c (status_of current)
         else alarm_cleared (status_of current))"
      using False by (cases "fs_desiredLifecycle current") (simp_all add: status_of_def activeLifecycle_def)
    show ?thesis
    proof (cases "fs_fireRevision current = kMaxFireRevision \<or> ?id = []")
      case True
      then show ?thesis using run False
        by (auto simp: commit_signal_def Let_def unchanged_by_def fire_result_def split: if_splits)
    next
      case ok_id: False
      then have k: "(fs_fireRevision current = kMaxFireRevision) = False" "(?id = []) = False" by simp_all
      have tail: "finish_mutation t ?c (snd (applyTransition ctx env db
          (transition_mutation ctx b (fs_fireRevision current) ?new signal ?id))) = Inr r"
        using run unfolding commit_signal_def Let_def by (simp only: False k if_False)
      have "unchanged_by db r \<or> (committed_by db ?c current ?new r \<and> announced ctx db b current ?new ?id (fst r))"
        by (rule transition_run [OF ok cur b _ _ _ _ _ tail]) (use fields in simp_all)
      then show ?thesis using same by (auto simp: cursor_differs_def)
    qed
  qed
qed

text \<open>A signal that was taken: its frame was accepted against the durable cursor and is the new cursor.\<close>

definition frame_taken :: "FireDb \<Rightarrow> FireSignal \<Rightarrow> FireAlarmStateRecord \<Rightarrow> FireAlarmStateRecord \<Rightarrow> bool" where
  "frame_taken db signal current new \<longleftrightarrow> \<not> fields_disagree signal \<and>
     (\<exists>retired. accepted (evaluateSensorSequence (signal_cursor current signal retired) (signal_fact signal)) \<and>
        (fg_sourceProtocolVersion signal = BootEpochV2 \<longrightarrow>
           (\<forall>boot. fg_sourceBootId signal = Some boot \<longrightarrow> boot_retired db (fg_sensorId signal) boot \<longrightarrow> retired))) \<and>
     fs_protocolMode new = protocolFor signal \<and> fs_activeBootId new = fg_sourceBootId signal \<and>
     fs_lastSourceSequence new = fg_sourceSequence signal"

text \<open>The outcomes of a command, with the part of the outbox.\<close>

definition fire_step ::
  "'j FireContext \<Rightarrow> FireDb \<Rightarrow> FireChannelBinding \<Rightarrow> (AlarmStatus \<Rightarrow> AlarmStatus) \<Rightarrow>
     (FireAlarmStateRecord \<Rightarrow> FireAlarmStateRecord \<Rightarrow> bool) \<Rightarrow> FireDb \<times> FireCommandResult \<Rightarrow> bool" where
  "fire_step ctx db b meaning cursor r \<longleftrightarrow> unchanged_by db r \<or>
     (\<exists>current new. alarm_of db (fb_channelId b) = Some current \<and>
        committed_by db (fb_channelId b) current new r \<and> status_of new = meaning (status_of current) \<and>
        cursor current new \<and>
        (fs_fireRevision new = fs_fireRevision current \<and> fd_outbox (fst r) = fd_outbox db \<or>
         fs_fireRevision new = fs_fireRevision current + 1 \<and>
         announced ctx db b current new
          (if fs_desiredLifecycle new = AlarmResolved then fs_activeAlarmId current else fs_activeAlarmId new)
          (fst r)))"

lemma read_current:
  assumes "fire_store_ok db" and "getFireAlarmState sql db c = Inr (Some current)"
  shows "alarm_of db c = Some current" "fd_opened db"
  using assms by (auto simp: getFireAlarmState_def selectState_ok split: if_splits)

lemma judge_reaches:
  assumes "judge_signal ctx env db t signal b current retired = Inr r" and "\<not> unchanged_by db r"
  obtains encoded where
    "accepted (evaluateSensorSequence (signal_cursor current signal retired) (signal_fact signal))"
    "serializeSignal (fx_api ctx) signal = Inr encoded"
    "commit_signal ctx env db t signal b current
       (next_cursor current signal encoded (fa_iso (fx_api ctx) (fe_now env))) = Inr r"
proof -
  have quiet: "Inr (db, fire_result t st c v e) \<noteq> Inr r" if "st \<noteq> FireDurablyCommitted" for st c v e
    using assms(2) that by (auto simp: unchanged_by_def fire_result_def)
  have "accepted (evaluateSensorSequence (signal_cursor current signal retired) (signal_fact signal))"
    and "try_bind (serializeSignal (fx_api ctx) signal) (\<lambda>encoded. commit_signal ctx env db t signal b current
       (next_cursor current signal encoded (fa_iso (fx_api ctx) (fe_now env)))) = Inr r"
    using assms(1) quiet unfolding judge_signal_def Let_def
    by (simp_all del: try_bind_Inr split: option.splits if_splits)
  then show thesis using that by (elim try_bind_InrE)
qed

lemma processSignal_reaches:
  assumes "processSignal ctx env db t signal b = Inr r" and "\<not> unchanged_by db r"
  obtains current retired where
    "getFireAlarmState (fe_read env) db (fb_channelId b) = Inr (Some current)" "\<not> fields_disagree signal"
    "lookup_retired env db signal = Inr retired" "judge_signal ctx env db t signal b current retired = Inr r"
proof -
  have quiet: "Inr (db, fire_result t FireRejected c v e) \<noteq> Inr r" "Inr (db, retryableResult t c v e w) \<noteq> Inr r"
    for c v e w
    using assms(2) by (auto simp: unchanged_by_def fire_result_def retryableResult_def)
  from assms(1) obtain found where found: "getFireAlarmState (fe_read env) db (fb_channelId b) = Inr found"
    and rest: "(case found of
         None \<Rightarrow> Inr (db, retryableResult t (fb_channelId b) 0 ''Fire durable state is unavailable'' True)
       | Some current \<Rightarrow>
           if fields_disagree signal
           then Inr (db, fire_result t FireRejected (fb_channelId b) (fs_fireRevision current)
                  ''Fire protocol version, boot ID, and sequence disagree'')
           else try_bind (lookup_retired env db signal) (judge_signal ctx env db t signal b current)) = Inr r"
    unfolding processSignal_def by (rule try_bind_InrE)
  then obtain current where current: "found = Some current" "\<not> fields_disagree signal"
    "try_bind (lookup_retired env db signal) (judge_signal ctx env db t signal b current) = Inr r"
    using quiet by (cases found) (simp_all del: try_bind_Inr split: if_splits)
  then show thesis using that found by (elim try_bind_InrE) simp
qed

lemma processSignal_sound:
  assumes ok: "fire_store_ok db"
    and b: "\<And>r. alarm_of db (fb_channelId b) = Some r \<Longrightarrow> fb_retainedTopic b = fs_retainedTopic r"
    and run: "processSignal ctx env db t signal b = Inr r"
  shows "fire_step ctx db b (if fg_detected signal then alarm_raised (fb_channelId b) else alarm_cleared)
     (frame_taken db signal) r"
proof (cases "unchanged_by db r")
  case False
  obtain current retired where
    cur: "getFireAlarmState (fe_read env) db (fb_channelId b) = Inr (Some current)"
    and agree: "\<not> fields_disagree signal" and ret: "lookup_retired env db signal = Inr retired"
    and judge: "judge_signal ctx env db t signal b current retired = Inr r"
    using processSignal_reaches [OF run False] .
  obtain encoded where
    acc: "accepted (evaluateSensorSequence (signal_cursor current signal retired) (signal_fact signal))"
    and tail: "commit_signal ctx env db t signal b current
       (next_cursor current signal encoded (fa_iso (fx_api ctx) (fe_now env))) = Inr r"
    using judge_reaches [OF judge False] .
  note read = read_current [OF ok cur]
  have stale: "boot_retired db (fg_sensorId signal) boot \<Longrightarrow> retired"
    if "fg_sourceProtocolVersion signal = BootEpochV2" "fg_sourceBootId signal = Some boot" for boot
    using ret that read(2) by (auto simp: lookup_retired_def isSensorBootIdRetired_def boot_retired_def split: if_splits)
  from commit_signal_sound [OF ok read(1) b [OF read(1)] refl tail] False obtain new where
    new: "committed_by db (fb_channelId b) current new r"
    "\<not> cursor_differs (next_cursor current signal encoded (fa_iso (fx_api ctx) (fe_now env))) new"
    "status_of new = (if fg_detected signal then alarm_raised (fb_channelId b) (status_of current)
         else alarm_cleared (status_of current))"
    "fs_fireRevision new = fs_fireRevision current \<and> fd_outbox (fst r) = fd_outbox db \<or>
     fs_fireRevision new = fs_fireRevision current + 1 \<and>
     announced ctx db b current new
          (if fg_detected signal then fs_activeAlarmId new else fs_activeAlarmId current) (fst r)"
    by blast
  have "frame_taken db signal current new"
    using agree acc stale new(2) by (auto simp: frame_taken_def cursor_differs_def next_cursor_def)
  moreover have "fg_detected signal \<longleftrightarrow> fs_desiredLifecycle new \<noteq> AlarmResolved"
    if "fs_fireRevision new = fs_fireRevision current + 1"
    using new(3) that by (cases "fs_desiredLifecycle current") (auto simp: status_of_def split: if_splits)
  ultimately show ?thesis
    using new read(1) unfolding fire_step_def
    by (intro disjI2 exI [of _ current] exI [of _ new]) auto
qed (simp add: fire_step_def)

lemma findByChannel_Some:
  "findByChannel bs c = Some b \<Longrightarrow> b \<in> set bs \<and> fb_channelId b = c"
  by (auto simp: findByChannel_def find_Some_iff)

lemma findBySensor_Some:
  "findBySensor bs s = Some b \<Longrightarrow> b \<in> set bs \<and> fb_sensorId b = s"
  by (auto simp: findBySensor_def find_Some_iff)

lemma quiet_results:
  assumes "\<not> unchanged_by db r"
  shows "st \<noteq> FireDurablyCommitted \<Longrightarrow> Inr (db, fire_result t st c v e) \<noteq> Inr r"
    "Inr (db, retryableResult t c v e w) \<noteq> Inr r"
  using assms by (auto simp: unchanged_by_def fire_result_def retryableResult_def)

lemma transition_step:
  assumes ok: "fire_store_ok db" and m: "mapped ctx db" and b: "b \<in> set (fx_bindings ctx)"
    and cur: "alarm_of db (fb_channelId b) = Some current"
    and "next": "fs_channelId next = fs_channelId current" "fs_fireRevision next = fs_fireRevision current + 1"
      "fs_lastEventId next = fireEventId (fb_channelId b) (fs_fireRevision next)"
      "fs_sensorId next = fs_sensorId current" "fs_retainedTopic next = fs_retainedTopic current"
    and meaning: "status_of next = meaning (status_of current)" "cursor current next"
    and alarm: "alarmId = (if fs_desiredLifecycle next = AlarmResolved then fs_activeAlarmId current
        else fs_activeAlarmId next)"
    and run: "finish_mutation t (fb_channelId b) (snd (applyTransition ctx env db
        (transition_mutation ctx b (fs_fireRevision current) next signal alarmId))) = Inr r"
  shows "fire_step ctx db b meaning cursor r"
proof -
  have topic: "fb_retainedTopic b = fs_retainedTopic current" using m b cur by (simp add: mapped_def)
  have chan: "fs_channelId next = fb_channelId b" using selectState_row [OF ok cur] "next"(1) by metis
  show ?thesis
    using transition_run [OF ok cur topic chan "next"(3,2,4,5) run] cur meaning "next"(2) alarm
    unfolding fire_step_def by blast
qed

lemma processAcknowledge_sound:
  assumes ok: "fire_store_ok db" and m: "mapped ctx db"
    and run: "processAcknowledge ctx env db t c alarmId = Inr r"
  shows "unchanged_by db r \<or>
    (\<exists>b \<in> set (fx_bindings ctx). fb_channelId b = c \<and> (fx_hasAckReadiness ctx \<longrightarrow> fe_ackReady env) \<and>
       fire_step ctx db b (alarm_seen alarmId) (\<lambda>cur new. \<not> cursor_differs cur new) r)"
proof (cases "unchanged_by db r")
  case False
  note quiet = quiet_results [OF False]
  from run obtain b where b: "findByChannel (fx_bindings ctx) c = Some b" and id: "alarmId \<noteq> []"
    using quiet by (auto simp: processAcknowledge_def split: option.splits if_splits)
  note bc = findByChannel_Some [OF b]
  from run obtain found where found: "getFireAlarmState (fe_read env) db c = Inr found"
    unfolding processAcknowledge_def by (auto simp: b id elim!: try_bind_InrE)
  from run obtain current signal where cur: "found = Some current"
    and live: "fs_activeAlarmId current = alarmId" "fs_desiredLifecycle current = AlarmOpen"
      "fx_hasAckReadiness ctx \<longrightarrow> fe_ackReady env"
    and tail: "finish_mutation t c (snd (applyTransition ctx env db
          (transition_mutation ctx b (fs_fireRevision current)
            (current\<lparr>fs_desiredLifecycle := AlarmAcknowledged, fs_fireRevision := fs_fireRevision current + 1,
               fs_lastEventId := fireEventId c (fs_fireRevision current + 1),
               fs_updatedAt := fa_iso (fx_api ctx) (fe_now env)\<rparr>)
            (signal\<lparr>fg_occurredAt := fe_now env\<rparr>) alarmId))) = Inr r"
    using quiet unfolding processAcknowledge_def Let_def
    by (cases found; cases "fs_desiredLifecycle (the found)")
      (simp_all add: b id found activeLifecycle_def split: if_splits option.splits)
  have "fire_step ctx db b (alarm_seen alarmId) (\<lambda>cur new. \<not> cursor_differs cur new) r"
    by (rule transition_step [OF ok m _ _ _ _ _ _ _ _ _ _ tail [folded bc [THEN conjunct2]]])
      (use bc read_current(1) [OF ok] found cur live in \<open>simp_all add: status_of_def cursor_differs_def\<close>)
  then show ?thesis using bc live by blast
qed simp

lemma processManualClear_sound:
  assumes ok: "fire_store_ok db" and m: "mapped ctx db"
    and run: "processManualClear ctx env db t c = Inr r"
  shows "unchanged_by db r \<or>
    (\<exists>b \<in> set (fx_bindings ctx). fb_channelId b = c \<and>
       fire_step ctx db b alarm_cleared (\<lambda>cur new. \<not> cursor_differs cur new) r)"
proof (cases "unchanged_by db r")
  case False
  note quiet = quiet_results [OF False]
  from run obtain b where b: "findByChannel (fx_bindings ctx) c = Some b"
    using quiet by (auto simp: processManualClear_def split: option.splits)
  note bc = findByChannel_Some [OF b]
  from run obtain found where found: "getFireAlarmState (fe_read env) db c = Inr found"
    unfolding processManualClear_def by (auto simp: b elim!: try_bind_InrE)
  from run obtain current signal where cur: "found = Some current"
    and live: "activeLifecycle (fs_desiredLifecycle current)"
    and tail: "finish_mutation t c (snd (applyTransition ctx env db
          (transition_mutation ctx b (fs_fireRevision current)
            (current\<lparr>fs_desiredLifecycle := AlarmResolved, fs_fireRevision := fs_fireRevision current + 1,
               fs_lastEventId := fireEventId c (fs_fireRevision current + 1), fs_activeAlarmId := [],
               fs_updatedAt := fa_iso (fx_api ctx) (fe_now env)\<rparr>)
            signal (fs_activeAlarmId current)))) = Inr r"
    using quiet unfolding processManualClear_def Let_def
    by (cases found) (simp_all add: b found split: if_splits)
  have meaning: "(AlarmResolved, [], fs_fireRevision current + 1) = alarm_cleared (status_of current)"
    using live by (cases "fs_desiredLifecycle current") (simp_all add: status_of_def activeLifecycle_def)
  have "fire_step ctx db b alarm_cleared (\<lambda>cur new. \<not> cursor_differs cur new) r"
    by (rule transition_step [OF ok m _ _ _ _ _ _ _ _ _ _ tail [folded bc [THEN conjunct2]]])
      (use bc read_current(1) [OF ok] found cur meaning in \<open>simp_all add: status_of_def cursor_differs_def\<close>)
  then show ?thesis using bc by blast
qed simp

end
