(* ===== verification/FireQueue.thy ===== *)
theory FireQueue
  imports FireLaws
begin

text \<open>
  The fire alarm service as an object: its calls, the worker's rounds, and the laws of its queue. A call is
  one critical section of the mutex of \<^verbatim>\<open>src/event/FireAlarmService.cpp\<close>: a submission, the selection of
  the next command, or the completion of the selected one.
\<close>

section \<open>Calls\<close>

datatype fire_call = SubmitSignal FireSignal | SubmitAcknowledge string string | SubmitManualClear string
  | SelectCommand int | FinishCommand FireEnv int | CloseIngress

datatype fire_output = Answered FireCommandResult | Waits FireWait
  | Finished "(FireCommand \<times> FireCommandResult) option" | Silent

definition fire_call_step ::
  "'j FireContext \<Rightarrow> FireWorker \<times> FireDb \<Rightarrow> fire_call \<Rightarrow> (FireWorker \<times> FireDb) \<times> fire_output" where
  "fire_call_step ctx s call =
     (case s of (w, db) \<Rightarrow>
      case call of
        SubmitSignal signal \<Rightarrow> (let r = submitSignal ctx w signal in ((fst r, db), Answered (snd r)))
      | SubmitAcknowledge c a \<Rightarrow> (let r = submitAcknowledge ctx w c a in ((fst r, db), Answered (snd r)))
      | SubmitManualClear c \<Rightarrow> (let r = submitManualClear ctx w c in ((fst r, db), Answered (snd r)))
      | SelectCommand now \<Rightarrow>
          if fw_current w = None then (let r = select_command now w in ((fst r, db), Waits (snd r)))
          else ((w, db), Silent)
      | FinishCommand env now \<Rightarrow>
          (let r = finish_fire_command ctx env now w db in
           ((fst r, fst (snd r)), Finished (case (fw_current w, snd (snd r)) of
              (Some c, Some res) \<Rightarrow> Some (c, res) | _ \<Rightarrow> None)))
      | CloseIngress \<Rightarrow> ((fire_closeIngress w, db), Silent))"

definition command_pool :: "FireWorker \<Rightarrow> FireCommand list" where
  "command_pool w = (case fw_current w of None \<Rightarrow> [] | Some c \<Rightarrow> [c]) @ fw_queue w"

section \<open>The blocks are held\<close>

definition blocks_ok :: "FireWorker \<Rightarrow> bool" where
  "blocks_ok w \<longleftrightarrow> (\<forall>ch t. um_find (fw_blocked w) ch = Some t \<longrightarrow>
     (\<exists>c \<in> set (command_pool w). fc_channelId c = ch \<and> fc_ticket c = t \<and> fc_holdsChannelBlock c))"

lemma blocks_ok_grow:
  "blocks_ok w \<Longrightarrow> fw_blocked w' = fw_blocked w \<Longrightarrow> set (command_pool w) \<subseteq> set (command_pool w') \<Longrightarrow> blocks_ok w'"
  unfolding blocks_ok_def by (metis subsetD)

lemma enqueue_cases:
  obtains w1 where "fst (enqueue ctx w c) = w1" "fw_queue w1 = fw_queue w" "fw_pendingAcks w1 = fw_pendingAcks w"
      "fw_nextTicket w1 = fw_nextTicket w + 1" "fw_blocked w1 = fw_blocked w" "fw_current w1 = fw_current w"
  | w1 where "fst (enqueue ctx w c) = w1" "fw_queue w1 = fw_queue w @ [c\<lparr>fc_ticket := fw_nextTicket w\<rparr>]"
      "fw_nextTicket w1 = fw_nextTicket w + 1" "fw_blocked w1 = fw_blocked w" "fw_current w1 = fw_current w"
      "fc_channelId c \<noteq> []" "length (fw_queue w) < fcf_commandQueueCapacity (fx_config ctx)"
  by (fastforce simp: enqueue_def Let_def not_le split: option.splits if_splits)

lemma takeWhile_split:
  assumes "dropWhile (\<lambda>c. \<not> p c) xs = c # rest"
  shows "xs = takeWhile (\<lambda>c. \<not> p c) xs @ c # rest" "p c" "\<forall>x \<in> set (takeWhile (\<lambda>c. \<not> p c) xs). \<not> p x"
  using assms takeWhile_dropWhile_id [of "\<lambda>c. \<not> p c" xs] hd_dropWhile [of "\<lambda>c. \<not> p c" xs]
  by (force dest: set_takeWhileD)+

lemma select_cases:
  obtains r where "select_command now w = (w, r)" "r \<noteq> RunCommand"
  | before c rest where "fw_queue w = before @ c # rest" "selectable now (fw_blocked w) c"
      "\<forall>x \<in> set before. \<not> selectable now (fw_blocked w) x"
      "select_command now w = (w\<lparr>fw_queue := before @ rest, fw_current := Some c\<rparr>, RunCommand)"
proof (cases "dropWhile (\<lambda>c. \<not> selectable now (fw_blocked w) c) (fw_queue w)")
  case Nil
  have "fst (select_command now w) = w" "snd (select_command now w) \<noteq> RunCommand"
    by (simp_all add: select_command_def Let_def Nil del: dropWhile_eq_Nil_conv split: option.splits)
  then show thesis using that(1) [of "snd (select_command now w)"] by (metis prod.collapse)
next
  case (Cons c rest)
  then have "fw_queue w \<noteq> []" by auto
  then have "select_command now w = (w\<lparr>fw_queue := takeWhile (\<lambda>c. \<not> selectable now (fw_blocked w) c) (fw_queue w) @ rest,
      fw_current := Some c\<rparr>, RunCommand)"
    using Cons by (simp add: select_command_def Let_def)
  then show thesis using that(2) takeWhile_split [OF Cons] by blast
qed

lemma finish_cases:
  assumes "fw_current w = Some c"
  obtains db1 res where "finish_fire_command ctx env now w db = (settle_command w c, db1, Some res)"
      "process_fire ctx env db c = Inr (db1, res)" "\<not> fr_retryable res"
  | db1 res where "finish_fire_command ctx env now w db = (requeue_command ctx now w c (fr_blocksChannel res), db1, None)"
      "process_fire ctx env db c = Inr (db1, res)" "fr_retryable res"
  | e where "finish_fire_command ctx env now w db = (requeue_command ctx now w c True, db, None)"
      "process_fire ctx env db c = Inl e"
  using assms
  by (cases "process_fire ctx env db c")
    (auto simp: finish_fire_command_def retryableResult_def fire_result_def split: prod.splits if_splits)

lemma blocks_ok_requeue:
  assumes "blocks_ok w" and "fw_current w = Some c"
  shows "blocks_ok (requeue_command ctx now w c blocks)"
proof -
  let ?w = "requeue_command ctx now w c blocks"
  obtain again where again: "fw_queue ?w = fw_queue w @ [again]" "fc_channelId again = fc_channelId c"
    "fc_ticket again = fc_ticket c" "fc_holdsChannelBlock again = blocks" "fw_current ?w = None"
    by (simp add: requeue_command_def Let_def)
  have old: "\<exists>d \<in> set (c # fw_queue w). fc_channelId d = ch \<and> fc_ticket d = t \<and> fc_holdsChannelBlock d"
    if "um_find (fw_blocked w) ch = Some t" for ch t
    using assms that by (auto simp: blocks_ok_def command_pool_def)
  have found: "um_find (fw_blocked ?w) ch = Some t \<Longrightarrow>
      (ch = fc_channelId c \<and> t = fc_ticket c \<and> blocks) \<or>
      (um_find (fw_blocked w) ch = Some t \<and> \<not> (ch = fc_channelId c \<and> t = fc_ticket c \<and> fc_holdsChannelBlock c))" for ch t
    by (auto simp: requeue_command_def Let_def release_block_def um_simps split: if_splits)
  show ?thesis
    unfolding blocks_ok_def
  proof (intro allI impI)
    fix ch t
    assume "um_find (fw_blocked ?w) ch = Some t"
    then show "\<exists>d \<in> set (command_pool ?w). fc_channelId d = ch \<and> fc_ticket d = t \<and> fc_holdsChannelBlock d"
      using found [of ch t] old [of ch t] again by (auto simp: command_pool_def)
  qed
qed

lemma blocks_ok_settle:
  assumes "blocks_ok w" and "fw_current w = Some c"
  shows "blocks_ok (settle_command w c)"
proof -
  have old: "\<exists>d \<in> set (c # fw_queue w). fc_channelId d = ch \<and> fc_ticket d = t \<and> fc_holdsChannelBlock d"
    if "um_find (fw_blocked w) ch = Some t" for ch t
    using assms that by (auto simp: blocks_ok_def command_pool_def)
  have found: "um_find (fw_blocked (settle_command w c)) ch = Some t \<Longrightarrow>
      um_find (fw_blocked w) ch = Some t \<and> \<not> (ch = fc_channelId c \<and> t = fc_ticket c \<and> fc_holdsChannelBlock c)" for ch t
    by (auto simp: settle_command_def Let_def release_block_def um_simps split: if_splits)
  have pool: "command_pool (settle_command w c) = fw_queue w"
    by (simp add: settle_command_def command_pool_def Let_def)
  show ?thesis
    unfolding blocks_ok_def pool
  proof (intro allI impI)
    fix ch t
    assume "um_find (fw_blocked (settle_command w c)) ch = Some t"
    then show "\<exists>d \<in> set (fw_queue w). fc_channelId d = ch \<and> fc_ticket d = t \<and> fc_holdsChannelBlock d"
      using found [of ch t] old [of ch t] by auto
  qed
qed

lemma blocks_ok_enqueue: "blocks_ok w \<Longrightarrow> blocks_ok (fst (enqueue ctx w c))"
  by (rule enqueue_cases [of ctx w c]) (auto elim!: blocks_ok_grow simp: command_pool_def split: option.splits)

lemma blocks_ok_select:
  assumes "blocks_ok w" and "fw_current w = None"
  shows "blocks_ok (fst (select_command now w))"
  by (rule select_cases [of now w])
    (use assms in \<open>auto elim!: blocks_ok_grow simp: command_pool_def\<close>)

text \<open>The worker after a call.\<close>

lemma call_cases:
  obtains c where "fst (fst (fire_call_step ctx (w, db) call)) = fst (enqueue ctx w c)"
      "snd (fst (fire_call_step ctx (w, db) call)) = db" "fc_retryAfter c = None" "\<not> fc_holdsChannelBlock c"
      "\<And>r. snd (fire_call_step ctx (w, db) call) \<noteq> Finished r"
      "fc_kind c = SignalCommand \<Longrightarrow> fc_channelId c =
         (case findBySensor (fx_bindings ctx) (fg_sensorId (fc_signal c)) of None \<Rightarrow> [] | Some b \<Rightarrow> fb_channelId b)"
  | now where "fst (fst (fire_call_step ctx (w, db) call)) = fst (select_command now w)"
      "snd (fst (fire_call_step ctx (w, db) call)) = db" "fw_current w = None"
      "\<And>r. snd (fire_call_step ctx (w, db) call) \<noteq> Finished r"
  | env now c where "call = FinishCommand env now" "fw_current w = Some c"
  | "fst (fst (fire_call_step ctx (w, db) call)) = w\<lparr>fw_accepting := fw_accepting (fst (fst (fire_call_step ctx (w, db) call)))\<rparr>"
      "snd (fst (fire_call_step ctx (w, db) call)) = db"
      "\<And>c r. snd (fire_call_step ctx (w, db) call) \<noteq> Finished (Some (c, r))"
proof (cases call)
  case (SubmitSignal signal)
  then show thesis
    using that(1) [of "new_command SignalCommand signal
       (case findBySensor (fx_bindings ctx) (fg_sensorId signal) of None \<Rightarrow> [] | Some b \<Rightarrow> fb_channelId b) []"]
    by (simp add: fire_call_step_def submitSignal_def Let_def new_command_def)
next
  case (SubmitAcknowledge ch a)
  then show thesis using that(1) [of "new_command AcknowledgeCommand blank_signal ch a"]
    by (simp add: fire_call_step_def submitAcknowledge_def Let_def new_command_def)
next
  case (SubmitManualClear ch)
  then show thesis using that(1) [of "new_command ManualClearCommand blank_signal ch []"]
    by (simp add: fire_call_step_def submitManualClear_def Let_def new_command_def)
next
  case (SelectCommand now)
  then show thesis using that(2) [of now] that(4)
    by (cases "fw_current w = None") (simp_all add: fire_call_step_def Let_def)
next
  case (FinishCommand env now)
  then show thesis using that(3) [of env now] that(4)
    by (cases "fw_current w") (simp_all add: fire_call_step_def finish_fire_command_def Let_def)
next
  case CloseIngress
  then show thesis using that(4) by (simp add: fire_call_step_def fire_closeIngress_def)
qed

lemma call_finish:
  "fire_call_step ctx (w, db) (FinishCommand env now) =
     ((fst (finish_fire_command ctx env now w db), fst (snd (finish_fire_command ctx env now w db))),
      Finished (case (fw_current w, snd (snd (finish_fire_command ctx env now w db))) of
        (Some c, Some res) \<Rightarrow> Some (c, res) | _ \<Rightarrow> None))"
  by (simp add: fire_call_step_def Let_def)

lemma blocks_ok_step: "blocks_ok (fst s) \<Longrightarrow> blocks_ok (fst (fst (fire_call_step ctx s call)))"
proof -
  obtain w db where s: "s = (w, db)" by (cases s)
  assume "blocks_ok (fst s)"
  then have ok: "blocks_ok w" by (simp add: s)
  show ?thesis unfolding s
  proof (rule call_cases [of ctx w db call])
    fix env now c
    assume call: "call = FinishCommand env now" and c: "fw_current w = Some c"
    show "blocks_ok (fst (fst (fire_call_step ctx (w, db) call)))"
      by (rule finish_cases [OF c, of ctx env now db])
        (use ok blocks_ok_requeue [OF ok c] blocks_ok_settle [OF ok c] in \<open>simp_all add: call call_finish\<close>)
  next
    assume *: "fst (fst (fire_call_step ctx (w, db) call)) = w\<lparr>fw_accepting := fw_accepting (fst (fst (fire_call_step ctx (w, db) call)))\<rparr>"
    show "blocks_ok (fst (fst (fire_call_step ctx (w, db) call)))"
      by (subst *, rule blocks_ok_grow [OF ok]) (simp_all add: command_pool_def)
  qed (use ok blocks_ok_enqueue blocks_ok_select in auto)
qed

text \<open>An idle worker with a non-empty queue always has a command to run, now or at a known time.\<close>

lemma idle_never_stuck:
  assumes ok: "blocks_ok w" and idle: "fw_current w = None" and "fw_queue w \<noteq> []"
  shows "snd (select_command now w) = RunCommand \<or>
    (\<exists>t. snd (select_command now w) = WaitUntil t \<and> now < t \<and> snd (select_command t w) = RunCommand)"
proof (cases "\<exists>c \<in> set (fw_queue w). selectable now (fw_blocked w) c")
  case True
  then have "dropWhile (\<lambda>c. \<not> selectable now (fw_blocked w) c) (fw_queue w) \<noteq> []" by (auto simp: dropWhile_eq_Nil_conv)
  then show ?thesis using assms(3) by (auto simp: select_command_def Let_def simp del: dropWhile_eq_Nil_conv split: list.splits)
next
  case False
  let ?ts = "[t. c \<leftarrow> filter (unblocked (fw_blocked w)) (fw_queue w),
      t \<leftarrow> (case fc_retryAfter c of None \<Rightarrow> [] | Some t \<Rightarrow> [t])]"
  have "\<exists>c \<in> set (fw_queue w). unblocked (fw_blocked w) c"
  proof -
    obtain d where d: "d \<in> set (fw_queue w)" using assms(3) by (cases "fw_queue w") auto
    show ?thesis
    proof (cases "um_find (fw_blocked w) (fc_channelId d)")
      case None
      then show ?thesis using d by (intro bexI [of _ d]) (auto simp: unblocked_def)
    next
      case (Some t)
      then obtain c where "c \<in> set (fw_queue w)" "fc_channelId c = fc_channelId d" "fc_ticket c = t"
        using ok idle by (auto simp: blocks_ok_def command_pool_def)
      then show ?thesis using Some by (intro bexI [of _ c]) (auto simp: unblocked_def)
    qed
  qed
  then obtain c where c: "c \<in> set (fw_queue w)" "unblocked (fw_blocked w) c" by blast
  then obtain t0 where "fc_retryAfter c = Some t0" using False by (fastforce simp: selectable_def split: option.splits)
  then have "t0 \<in> set ?ts" using c by auto
  moreover have "x \<in> set xs \<Longrightarrow> xs \<noteq> []" for x :: int and xs by auto
  ultimately have "?ts \<noteq> []" by blast
  then obtain t where t: "earliest_of ?ts = Some t" by (auto simp: earliest_of_eq)
  have "t \<in> set ?ts" using t by (rule earliest_of_mem)
  then obtain e where e: "e \<in> set (fw_queue w)" "unblocked (fw_blocked w) e" "fc_retryAfter e = Some t"
    by (auto split: option.splits)
  have late: "now < t" using False e by (force simp: selectable_def)
  have none: "dropWhile (\<lambda>c. \<not> selectable now (fw_blocked w) c) (fw_queue w) = []" using False by simp
  have "snd (select_command now w) = WaitUntil t"
    using assms(3) none t by (simp add: select_command_def Let_def del: dropWhile_eq_Nil_conv)
  moreover have "\<exists>c \<in> set (fw_queue w). selectable t (fw_blocked w) c" using e by (auto simp: selectable_def)
  then have "dropWhile (\<lambda>c. \<not> selectable t (fw_blocked w) c) (fw_queue w) \<noteq> []" by auto
  then have "snd (select_command t w) = RunCommand"
    using assms(3) by (auto simp: select_command_def Let_def simp del: dropWhile_eq_Nil_conv split: list.splits)
  ultimately show ?thesis using late by blast
qed

section \<open>Commands of a channel stay in order\<close>

text \<open>Only an acknowledgement that waits for the retained state is retried without the channel's block.\<close>

definition retry_blocks :: "FireDb \<times> FireCommandResult \<Rightarrow> bool" where
  "retry_blocks r \<longleftrightarrow> (fr_retryable (snd r) \<longrightarrow> fr_blocksChannel (snd r))"

lemma retry_blocks_results [simp]:
  "retry_blocks (db, fire_result t st c v e)" "retry_blocks (db, retryableResult t c v e True)"
  "retry_blocks (db, mutationResult t c m)"
  by (auto simp: retry_blocks_def fire_result_def retryableResult_def mutationResult_def
      split: FireStoreMutationOutcome.splits)

lemma retry_blocks_finish: "finish_mutation t c m = Inr r \<Longrightarrow> retry_blocks r"
  by (auto simp: finish_mutation_def)

lemma retry_blocks_signal:
  assumes "processSignal ctx env db t signal b = Inr r"
  shows "retry_blocks r"
proof -
  have commit: "retry_blocks r" if "commit_signal ctx env db t signal b cur next = Inr r" for cur "next"
    using that by (auto simp: commit_signal_def Let_def dest: retry_blocks_finish split: if_splits)
  have judge: "retry_blocks r" if "judge_signal ctx env db t signal b cur ret = Inr r" for cur ret
    using that commit by (auto simp: judge_signal_def Let_def split: if_splits option.splits)
  show ?thesis
    using assms judge by (auto simp: processSignal_def split: if_splits option.splits)
qed

lemma retry_blocks_clear:
  assumes "processManualClear ctx env db t c = Inr r"
  shows "retry_blocks r"
proof (cases "findByChannel (fx_bindings ctx) c")
  case (Some b)
  from assms obtain found where found: "getFireAlarmState (fe_read env) db c = Inr found"
    unfolding processManualClear_def by (auto simp: Some elim!: try_bind_InrE)
  show ?thesis
    using assms unfolding processManualClear_def Let_def
    by (cases found) (auto simp: Some found dest: retry_blocks_finish simp del: not_None_eq split: if_splits)
qed (use assms in \<open>auto simp: processManualClear_def\<close>)

lemma process_retry_blocks:
  "process_fire ctx env db c = Inr r \<Longrightarrow> fc_kind c \<noteq> AcknowledgeCommand \<Longrightarrow> retry_blocks r"
  by (auto simp: process_fire_def dest: retry_blocks_signal retry_blocks_clear
      split: FireCommandKind.splits option.splits)

text \<open>\<open>ordered_pair\<close>: two signals or clears of one channel.\<close>

definition same_line :: "FireCommand \<Rightarrow> FireCommand \<Rightarrow> bool" where
  "same_line c d \<longleftrightarrow> fc_channelId c = fc_channelId d \<and>
     fc_kind c \<noteq> AcknowledgeCommand \<and> fc_kind d \<noteq> AcknowledgeCommand"

abbreviation blocker :: "FireWorker \<Rightarrow> FireCommand \<Rightarrow> 64 word option" where
  "blocker w c \<equiv> um_find (fw_blocked w) (fc_channelId c)"

abbreviation earlier :: "FireCommand \<Rightarrow> FireCommand \<Rightarrow> bool" where
  "earlier c d \<equiv> fc_ticket c < fc_ticket d"

definition order_ok :: "FireWorker \<Rightarrow> bool" where
  "order_ok w \<longleftrightarrow>
     distinct (map fc_ticket (command_pool w)) \<and>
     (\<forall>c \<in> set (command_pool w). fc_ticket c < fw_nextTicket w) \<and>
     sorted_wrt (\<lambda>c d. same_line c d \<longrightarrow>
       blocker w c = Some (fc_ticket c) \<or> blocker w c = Some (fc_ticket d) \<or> earlier c d) (fw_queue w) \<and>
     (\<forall>c \<in> set (fw_queue w). \<forall>d \<in> set (fw_queue w).
        same_line c d \<and> c \<noteq> d \<and> blocker w c = Some (fc_ticket c) \<longrightarrow> earlier c d) \<and>
     (\<forall>c \<in> set (fw_queue w). fc_kind c \<noteq> AcknowledgeCommand \<and> fc_retryAfter c \<noteq> None \<longrightarrow>
        blocker w c = Some (fc_ticket c)) \<and>
     (\<forall>c. fw_current w = Some c \<longrightarrow> (blocker w c = None \<or> blocker w c = Some (fc_ticket c)) \<and>
        (\<forall>d \<in> set (fw_queue w). same_line c d \<longrightarrow> earlier c d))"

lemma order_ok_enqueue:
  assumes ok: "order_ok w" and bound: "unat (fw_nextTicket w) + 1 < 2 ^ 64" and fresh: "fc_retryAfter c = None"
    and block: "blocks_ok w"
  shows "order_ok (fst (enqueue ctx w c))"
proof (rule enqueue_cases [of ctx w c])
  have grow: "fw_nextTicket w < fw_nextTicket w + 1"
    using bound by (simp add: word_less_nat_alt unat_word_ariths)
  fix w1
  assume w1: "fst (enqueue ctx w c) = w1" "fw_nextTicket w1 = fw_nextTicket w + 1" "fw_blocked w1 = fw_blocked w"
    "fw_current w1 = fw_current w"
  show "order_ok (fst (enqueue ctx w c))" if "fw_queue w1 = fw_queue w"
    using ok grow w1 that by (auto simp: order_ok_def command_pool_def intro: less_trans)
  show "order_ok (fst (enqueue ctx w c))" if q: "fw_queue w1 = fw_queue w @ [c\<lparr>fc_ticket := fw_nextTicket w\<rparr>]"
  proof -
    have pool: "set (command_pool w1) = insert (c\<lparr>fc_ticket := fw_nextTicket w\<rparr>) (set (command_pool w))"
      "map fc_ticket (command_pool w1) = map fc_ticket (command_pool w) @ [fw_nextTicket w]"
      using w1 q by (auto simp: command_pool_def)
    have bounds: "\<forall>d \<in> set (command_pool w). fc_ticket d < fw_nextTicket w" using ok by (simp add: order_ok_def)
    then have "fw_nextTicket w \<notin> fc_ticket ` set (command_pool w)" by auto
    moreover have unblocked: "um_find (fw_blocked w) x \<noteq> Some (fw_nextTicket w)" for x
      using block bounds unfolding blocks_ok_def by (metis less_irrefl)
    moreover have "set (fw_queue w) \<subseteq> set (command_pool w)" by (auto simp: command_pool_def)
    moreover have "fw_current w = Some d \<Longrightarrow> fc_ticket d < fw_nextTicket w" for d
      using bounds by (simp add: command_pool_def)
    ultimately show ?thesis
      using ok grow w1 pool q bounds fresh unfolding order_ok_def
      by (auto simp: sorted_wrt_append subset_iff intro: less_trans)
  qed
qed


lemma order_ok_select:
  assumes ok: "order_ok w" and idle: "fw_current w = None"
  shows "order_ok (fst (select_command now w))"
proof (rule select_cases [of now w])
  fix before c rest
  assume q: "fw_queue w = before @ c # rest" and sel: "selectable now (fw_blocked w) c"
    and skip: "\<forall>x \<in> set before. \<not> selectable now (fw_blocked w) x"
    and run: "select_command now w = (w\<lparr>fw_queue := before @ rest, fw_current := Some c\<rparr>, RunCommand)"
  let ?w = "w\<lparr>fw_queue := before @ rest, fw_current := Some c\<rparr>"
  have pool: "command_pool w = before @ c # rest" "command_pool ?w = c # before @ rest"
    using idle q by (simp_all add: command_pool_def)
  have free: "blocker w c = None \<or> blocker w c = Some (fc_ticket c)"
    using sel by (auto simp: selectable_def unblocked_def split: option.splits)
  have "earlier c d" if d: "d \<in> set (before @ rest)" "same_line c d" for d
  proof (cases "blocker w c")
    case (Some t)
    moreover have "c \<noteq> d" using ok d(1) by (auto simp: order_ok_def pool)
    ultimately show ?thesis using ok d free q by (auto simp: order_ok_def)
  next
    case None
    then have "blocker w d = None" using d(2) by (simp add: same_line_def)
    moreover have "d \<in> set (fw_queue w)" using d q by auto
    moreover have "fc_kind d \<noteq> AcknowledgeCommand" using d(2) by (simp add: same_line_def)
    ultimately have "fc_retryAfter d = None" using ok by (force simp: order_ok_def)
    then have "selectable now (fw_blocked w) d" using \<open>blocker w d = None\<close>
      by (simp add: selectable_def unblocked_def)
    then have "d \<in> set rest" using skip d(1) by auto
    then show ?thesis using ok q d(2) None by (auto simp: order_ok_def sorted_wrt_append)
  qed
  then show "order_ok (fst (select_command now w))"
    using ok q free unfolding order_ok_def run fst_conv pool
    by (auto simp: sorted_wrt_append)
qed (use ok in auto)

lemma order_retry:
  "order_ok w \<Longrightarrow> d \<in> set (fw_queue w) \<Longrightarrow> fc_kind d \<noteq> AcknowledgeCommand \<Longrightarrow> fc_retryAfter d \<noteq> None \<Longrightarrow>
     blocker w d = Some (fc_ticket d)"
  by (simp add: order_ok_def)

lemma order_holder:
  "order_ok w \<Longrightarrow> d \<in> set (fw_queue w) \<Longrightarrow> e \<in> set (fw_queue w) \<Longrightarrow> same_line d e \<Longrightarrow> d \<noteq> e \<Longrightarrow>
     blocker w d = Some (fc_ticket d) \<Longrightarrow> earlier d e"
  by (simp add: order_ok_def)

text \<open>The command leaves the worker: the queue is back in order.\<close>

lemma order_after:
  assumes ok: "order_ok w" and cur: "fw_current w = Some c"
  shows "distinct (map fc_ticket (c # fw_queue w))" "fc_ticket c < fw_nextTicket w"
    "\<forall>d \<in> set (fw_queue w). fc_ticket d < fw_nextTicket w"
    "sorted_wrt (\<lambda>d e. same_line d e \<and> fc_channelId d = fc_channelId c \<longrightarrow> earlier d e) (fw_queue w)"
    "\<forall>d \<in> set (fw_queue w). fc_channelId d = fc_channelId c \<longrightarrow> fc_kind d \<noteq> AcknowledgeCommand \<longrightarrow>
       fc_retryAfter d = None"
    "\<forall>d \<in> set (fw_queue w). same_line c d \<longrightarrow> earlier c d"
    "\<And>d. d \<in> set (fw_queue w) \<Longrightarrow> fc_ticket d \<noteq> fc_ticket c"
proof -
  have pool: "command_pool w = c # fw_queue w" using cur by (simp add: command_pool_def)
  have free: "blocker w c = None \<or> blocker w c = Some (fc_ticket c)" using ok cur by (simp add: order_ok_def)
  have diff: "fc_ticket d \<noteq> fc_ticket c" if "d \<in> set (fw_queue w)" for d
  proof -
    have "distinct (map fc_ticket (c # fw_queue w))" using ok unfolding order_ok_def pool by blast
    then show ?thesis using that by (force simp: image_iff)
  qed
  show "\<And>d. d \<in> set (fw_queue w) \<Longrightarrow> fc_ticket d \<noteq> fc_ticket c" by (rule diff)
  show "distinct (map fc_ticket (c # fw_queue w))"
    using ok unfolding order_ok_def pool by blast
  show "fc_ticket c < fw_nextTicket w" "\<forall>d \<in> set (fw_queue w). fc_ticket d < fw_nextTicket w"
    using ok unfolding order_ok_def pool by simp_all
  show "\<forall>d \<in> set (fw_queue w). same_line c d \<longrightarrow> earlier c d"
    using ok cur unfolding order_ok_def by blast
  have "sorted_wrt (\<lambda>d e. same_line d e \<longrightarrow> blocker w d = Some (fc_ticket d) \<or> blocker w d = Some (fc_ticket e) \<or> earlier d e)
      (fw_queue w)" using ok by (simp add: order_ok_def)
  then show "sorted_wrt (\<lambda>d e. same_line d e \<and> fc_channelId d = fc_channelId c \<longrightarrow> earlier d e) (fw_queue w)"
    by (rule sorted_wrt_mono_rel [rotated]) (use free in \<open>auto dest: diff\<close>)
  show "\<forall>d \<in> set (fw_queue w). fc_channelId d = fc_channelId c \<longrightarrow> fc_kind d \<noteq> AcknowledgeCommand \<longrightarrow>
       fc_retryAfter d = None"
    using ok free diff by (force simp: order_ok_def)
qed


lemma sorted_line:
  assumes ok: "order_ok w" and cur: "fw_current w = Some c"
    and same: "\<And>ch. ch \<noteq> fc_channelId c \<Longrightarrow> um_find blocked ch = um_find (fw_blocked w) ch"
  shows "sorted_wrt (\<lambda>d e. same_line d e \<longrightarrow> um_find blocked (fc_channelId d) = Some (fc_ticket d) \<or>
    um_find blocked (fc_channelId d) = Some (fc_ticket e) \<or> earlier d e) (fw_queue w)"
proof -
  have a: "sorted_wrt (\<lambda>d e. same_line d e \<longrightarrow> blocker w d = Some (fc_ticket d) \<or> blocker w d = Some (fc_ticket e) \<or>
      earlier d e) (fw_queue w)" using ok by (simp add: order_ok_def)
  have b: "sorted_wrt (\<lambda>d e. same_line d e \<and> fc_channelId d = fc_channelId c \<longrightarrow> earlier d e) (fw_queue w)"
    using order_after(4) [OF ok cur] .
  show ?thesis
    using a b same unfolding sorted_wrt_iff_nth_less by (metis (no_types, lifting))
qed

lemma order_ok_release:
  assumes ok: "order_ok w" and cur: "fw_current w = Some c"
    and blocked: "\<And>ch. ch \<noteq> fc_channelId c \<Longrightarrow> um_find (fw_blocked w') ch = um_find (fw_blocked w) ch"
      "um_find (fw_blocked w') (fc_channelId c) = None \<or>
       um_find (fw_blocked w') (fc_channelId c) = um_find (fw_blocked w) (fc_channelId c)"
    and w': "fw_queue w' = fw_queue w" "fw_current w' = None" "fw_nextTicket w' = fw_nextTicket w"
  shows "order_ok w'"
proof -
  note after = order_after [OF ok cur]
  have free: "blocker w c = None \<or> blocker w c = Some (fc_ticket c)" using ok cur by (simp add: order_ok_def)
  note diff = after(7)
  have block: "blocker w' d = Some (fc_ticket d) \<longleftrightarrow> fc_channelId d \<noteq> fc_channelId c \<and> blocker w d = Some (fc_ticket d)"
    if "d \<in> set (fw_queue w)" for d
    using blocked(1) [of "fc_channelId d"] blocked(2) free diff [OF that]
    by (cases "fc_channelId d = fc_channelId c") auto
  have pool: "command_pool w' = fw_queue w" using w' by (simp add: command_pool_def)
  have holder: "earlier d e" if "d \<in> set (fw_queue w)" "e \<in> set (fw_queue w)" "same_line d e" "d \<noteq> e"
      "blocker w' d = Some (fc_ticket d)" for d e
    using order_holder [OF ok that(1-4)] block [OF that(1)] that(5) by simp
  have retry: "blocker w' d = Some (fc_ticket d)" if "d \<in> set (fw_queue w)" "fc_kind d \<noteq> AcknowledgeCommand"
      "fc_retryAfter d \<noteq> None" for d
  proof -
    have "fc_channelId d \<noteq> fc_channelId c" using bspec [OF after(5) that(1)] that(2,3) by argo
    then show ?thesis using block [OF that(1)] order_retry [OF ok that] by blast
  qed
  have "distinct (map fc_ticket (fw_queue w))" using after(1) by simp
  then show ?thesis
    using after(3) sorted_line [OF ok cur blocked(1)] holder retry w' unfolding order_ok_def pool by simp
qed

lemma order_ok_settle: "order_ok w \<Longrightarrow> fw_current w = Some c \<Longrightarrow> order_ok (settle_command w c)"
  by (rule order_ok_release [of w c]) (auto simp: settle_command_def Let_def release_block_def um_simps)

lemma order_ok_requeue:
  assumes ok: "order_ok w" and cur: "fw_current w = Some c"
    and kind: "fc_kind c \<noteq> AcknowledgeCommand \<Longrightarrow> blocks"
  shows "order_ok (requeue_command ctx now w c blocks)"
proof -
  let ?w = "requeue_command ctx now w c blocks"
  note after = order_after [OF ok cur]
  have free: "blocker w c = None \<or> blocker w c = Some (fc_ticket c)" using ok cur by (simp add: order_ok_def)
  note diff = after(7)
  obtain a where a: "fw_queue ?w = fw_queue w @ [a]" "fc_ticket a = fc_ticket c" "fc_channelId a = fc_channelId c"
    "fc_kind a = fc_kind c" "fw_current ?w = None" "fw_nextTicket ?w = fw_nextTicket w"
    by (simp add: requeue_command_def Let_def)
  have other: "um_find (fw_blocked ?w) ch = um_find (fw_blocked w) ch" if "ch \<noteq> fc_channelId c" for ch
    using that by (auto simp: requeue_command_def Let_def release_block_def um_simps)
  have own: "um_find (fw_blocked ?w) (fc_channelId c) = None \<or> um_find (fw_blocked ?w) (fc_channelId c) = Some (fc_ticket c)"
    using free by (auto simp: requeue_command_def Let_def release_block_def um_simps)
  have mine: "um_find (fw_blocked ?w) (fc_channelId c) = Some (fc_ticket c)" if "fc_kind c \<noteq> AcknowledgeCommand"
    using kind [OF that] by (simp add: requeue_command_def Let_def um_simps)
  have block: "blocker ?w d = Some (fc_ticket d) \<longleftrightarrow> fc_channelId d \<noteq> fc_channelId c \<and> blocker w d = Some (fc_ticket d)"
    if "d \<in> set (fw_queue w)" for d
    using other [of "fc_channelId d"] own diff [OF that] by (cases "fc_channelId d = fc_channelId c") auto
  have line: "same_line d a = same_line d c" "same_line a d = same_line c d" for d
    using a by (auto simp: same_line_def)
  have pool: "command_pool ?w = fw_queue w @ [a]" using a by (simp add: command_pool_def)
  have "sorted_wrt (\<lambda>d e. same_line d e \<longrightarrow> blocker ?w d = Some (fc_ticket d) \<or> blocker ?w d = Some (fc_ticket e) \<or>
      earlier d e) (fw_queue ?w)"
    using sorted_line [OF ok cur other] mine line a unfolding a(1) sorted_wrt_append
    by (auto simp: same_line_def)
  moreover have "earlier d e" if "d \<in> set (fw_queue ?w)" "e \<in> set (fw_queue ?w)" "same_line d e" "d \<noteq> e"
      "blocker ?w d = Some (fc_ticket d)" for d e
  proof (cases "d = a")
    case True
    then show ?thesis using that a line after(6) by (auto simp: same_line_def)
  next
    case False
    then have d: "d \<in> set (fw_queue w)" using that(1) a(1) by simp
    then have b: "fc_channelId d \<noteq> fc_channelId c" "blocker w d = Some (fc_ticket d)" using block that(5) by blast+
    then have "e \<in> set (fw_queue w)" using that(2,3) a(1,3) by (auto simp: same_line_def)
    then show ?thesis using order_holder [OF ok d _ that(3,4) b(2)] by simp
  qed
  moreover have "blocker ?w d = Some (fc_ticket d)" if "d \<in> set (fw_queue ?w)" "fc_kind d \<noteq> AcknowledgeCommand"
      "fc_retryAfter d \<noteq> None" for d
  proof (cases "d = a")
    case True
    then show ?thesis using mine that(2) a by simp
  next
    case False
    then have d: "d \<in> set (fw_queue w)" using that(1) a(1) by simp
    then have "fc_channelId d \<noteq> fc_channelId c" using bspec [OF after(5) d] that(2,3) by argo
    then show ?thesis using block [OF d] order_retry [OF ok d that(2,3)] by blast
  qed
  moreover have "distinct (map fc_ticket (fw_queue w @ [a]))" using after(1) a(2) by auto
  moreover have "\<forall>d \<in> set (fw_queue w @ [a]). fc_ticket d < fw_nextTicket w" using after(2,3) a(2) by auto
  ultimately show ?thesis
    unfolding order_ok_def pool a(5,6) by blast
qed

text \<open>\<open>floor_of w ch t\<close>: every signal or clear of \<open>ch\<close> that is still to be settled has a larger ticket than \<open>t\<close>.\<close>

definition floor_of :: "FireWorker \<Rightarrow> string \<Rightarrow> 64 word \<Rightarrow> bool" where
  "floor_of w ch t \<longleftrightarrow> t < fw_nextTicket w \<and>
     (\<forall>c \<in> set (command_pool w). fc_channelId c = ch \<and> fc_kind c \<noteq> AcknowledgeCommand \<longrightarrow> t < fc_ticket c)"

definition settled_tickets :: "string \<Rightarrow> fire_output \<Rightarrow> 64 word list" where
  "settled_tickets ch out =
     (case out of
        Finished (Some (c, r)) \<Rightarrow>
          if fc_channelId c = ch \<and> fc_kind c \<noteq> AcknowledgeCommand then [fc_ticket c] else []
      | _ \<Rightarrow> [])"

lemma enqueue_ticket:
  assumes "unat (fw_nextTicket w) + 1 < 2 ^ 64"
  shows "fw_nextTicket w < fw_nextTicket w + 1" "unat (fw_nextTicket w + 1) = unat (fw_nextTicket w) + 1"
  using assms by (simp_all add: word_less_nat_alt unat_word_ariths)

lemma floor_enqueue:
  assumes "floor_of w ch t" and "unat (fw_nextTicket w) + 1 < 2 ^ 64"
  shows "floor_of (fst (enqueue ctx w c)) ch t"
  by (rule enqueue_cases [of ctx w c])
    (use assms enqueue_ticket [OF assms(2)] in \<open>auto simp: floor_of_def command_pool_def split: option.splits\<close>)

lemma floor_select:
  assumes "floor_of w ch t" and "fw_current w = None"
  shows "floor_of (fst (select_command now w)) ch t"
  by (rule select_cases [of now w]) (use assms in \<open>auto simp: floor_of_def command_pool_def\<close>)

lemma floor_requeue:
  "floor_of w ch t \<Longrightarrow> fw_current w = Some c \<Longrightarrow> floor_of (requeue_command ctx now w c blocks) ch t"
  by (auto simp: floor_of_def command_pool_def requeue_command_def Let_def)

lemma floor_settle:
  "floor_of w ch t \<Longrightarrow> fw_current w = Some c \<Longrightarrow> floor_of (settle_command w c) ch t"
  by (auto simp: floor_of_def command_pool_def settle_command_def Let_def)

lemma settle_floor:
  assumes "order_ok w" and "fw_current w = Some c" and "fc_kind c \<noteq> AcknowledgeCommand"
  shows "floor_of (settle_command w c) (fc_channelId c) (fc_ticket c)"
  using order_after(2,6) [OF assms(1,2)] assms(3)
  by (auto simp: floor_of_def command_pool_def settle_command_def Let_def same_line_def)

lemma next_ticket_kept [simp]:
  "fw_nextTicket (requeue_command ctx now w c blocks) = fw_nextTicket w"
  "fw_nextTicket (settle_command w c) = fw_nextTicket w"
  by (simp_all add: requeue_command_def settle_command_def Let_def)

lemma order_call:
  assumes ok: "blocks_ok w" "order_ok w" and bound: "unat (fw_nextTicket w) + 1 < 2 ^ 64"
    and s': "s' = fst (fire_call_step ctx (w, db) call)"
  shows "order_ok (fst s') \<and> unat (fw_nextTicket (fst s')) \<le> unat (fw_nextTicket w) + 1 \<and>
     (\<forall>ch t. floor_of w ch t \<longrightarrow> floor_of (fst s') ch t \<and>
        (\<forall>u \<in> set (settled_tickets ch (snd (fire_call_step ctx (w, db) call))). t < u)) \<and>
     (\<forall>ch. settled_tickets ch (snd (fire_call_step ctx (w, db) call)) = [] \<or>
        (\<exists>u. settled_tickets ch (snd (fire_call_step ctx (w, db) call)) = [u] \<and> floor_of (fst s') ch u))"
proof -
  have silent: "settled_tickets ch out = []" if "\<And>c r. out \<noteq> Finished (Some (c, r))" for ch out
    using that by (auto simp: settled_tickets_def split: fire_output.splits option.splits)
  show ?thesis
  proof (rule call_cases [of ctx w db call])
    fix c
    assume e: "fst (fst (fire_call_step ctx (w, db) call)) = fst (enqueue ctx w c)" "fc_retryAfter c = None"
      "\<And>r. snd (fire_call_step ctx (w, db) call) \<noteq> Finished r"
    have "unat (fw_nextTicket (fst (enqueue ctx w c))) \<le> unat (fw_nextTicket w) + 1"
      by (rule enqueue_cases [of ctx w c]) (use enqueue_ticket [OF bound] in auto)
    then show ?thesis
      using e order_ok_enqueue [OF ok(2) bound e(2) ok(1)] floor_enqueue [OF _ bound] silent s' by auto
  next
    fix now
    assume e: "fst (fst (fire_call_step ctx (w, db) call)) = fst (select_command now w)" "fw_current w = None"
      "\<And>r. snd (fire_call_step ctx (w, db) call) \<noteq> Finished r"
    have "fw_nextTicket (fst (select_command now w)) = fw_nextTicket w"
      by (rule select_cases [of now w]) auto
    then show ?thesis
      using e order_ok_select [OF ok(2) e(2)] floor_select [OF _ e(2)] silent s' by auto
  next
    assume e: "fst (fst (fire_call_step ctx (w, db) call)) = w\<lparr>fw_accepting := fw_accepting (fst (fst (fire_call_step ctx (w, db) call)))\<rparr>"
      "\<And>c r. snd (fire_call_step ctx (w, db) call) \<noteq> Finished (Some (c, r))"
    obtain b where b: "fst s' = w\<lparr>fw_accepting := b\<rparr>" using e(1) s' by blast
    then show ?thesis using ok(2) silent [OF e(2)]
      by (simp add: order_ok_def floor_of_def command_pool_def)
  next
    fix env now c
    assume call: "call = FinishCommand env now" and cur: "fw_current w = Some c"
    show ?thesis
    proof (rule finish_cases [OF cur, of ctx env now db])
      fix db1 res
      assume run: "finish_fire_command ctx env now w db = (settle_command w c, db1, Some res)"
      have out: "settled_tickets ch (snd (fire_call_step ctx (w, db) call)) =
          (if fc_channelId c = ch \<and> fc_kind c \<noteq> AcknowledgeCommand then [fc_ticket c] else [])" for ch
        using cur run by (simp add: call call_finish settled_tickets_def)
      have st: "fst s' = settle_command w c" using s' run by (simp add: call call_finish)
      show ?thesis
        unfolding st out
      proof (intro conjI allI impI)
        show "order_ok (settle_command w c)" by (rule order_ok_settle [OF ok(2) cur])
        fix ch t
        assume fl: "floor_of w ch t"
        show "floor_of (settle_command w c) ch t" by (rule floor_settle [OF fl cur])
        show "\<forall>u \<in> set (if fc_channelId c = ch \<and> fc_kind c \<noteq> AcknowledgeCommand then [fc_ticket c] else []). t < u"
          using fl by (simp add: floor_of_def command_pool_def cur)
      next
        fix ch
        show "(if fc_channelId c = ch \<and> fc_kind c \<noteq> AcknowledgeCommand then [fc_ticket c] else []) = [] \<or>
            (\<exists>u. (if fc_channelId c = ch \<and> fc_kind c \<noteq> AcknowledgeCommand then [fc_ticket c] else []) = [u] \<and>
               floor_of (settle_command w c) ch u)"
          using settle_floor [OF ok(2) cur] by auto
      qed simp
    next
      fix db1 res
      assume run: "finish_fire_command ctx env now w db = (requeue_command ctx now w c (fr_blocksChannel res), db1, None)"
        "process_fire ctx env db c = Inr (db1, res)" "fr_retryable res"
      have "fr_blocksChannel res" if "fc_kind c \<noteq> AcknowledgeCommand"
        using process_retry_blocks [OF run(2) that] run(3) by (simp add: retry_blocks_def)
      then have "order_ok (requeue_command ctx now w c (fr_blocksChannel res))"
        by (rule order_ok_requeue [OF ok(2) cur])
      then show ?thesis
        using s' run(1) cur by (auto simp: call call_finish settled_tickets_def intro: floor_requeue)
    next
      fix e
      assume run: "finish_fire_command ctx env now w db = (requeue_command ctx now w c True, db, None)"
      show ?thesis
        using order_ok_requeue [OF ok(2) cur] s' run cur
        by (auto simp: call call_finish settled_tickets_def intro: floor_requeue)
    qed
  qed
qed

lemma settled_in_order:
  assumes "blocks_ok (fst s)" and "order_ok (fst s)" and "unat (fw_nextTicket (fst s)) + length calls < 2 ^ 64"
  shows "sorted_wrt (<) (concat (map (settled_tickets ch) (snd (run_steps (fire_call_step ctx) s calls)))) \<and>
    (\<forall>t. floor_of (fst s) ch t \<longrightarrow>
       (\<forall>u \<in> set (concat (map (settled_tickets ch) (snd (run_steps (fire_call_step ctx) s calls)))). t < u))"
  using assms
proof (induction calls arbitrary: s)
  case (Cons call calls)
  obtain w db where s: "s = (w, db)" by (cases s)
  obtain s' out where step: "fire_call_step ctx s call = (s', out)" by (cases "fire_call_step ctx s call")
  have bound: "unat (fw_nextTicket w) + 1 < 2 ^ 64" using Cons.prems(3) s by simp
  have call: "order_ok (fst s')" "unat (fw_nextTicket (fst s')) \<le> unat (fw_nextTicket w) + 1"
    "\<forall>ch t. floor_of w ch t \<longrightarrow> floor_of (fst s') ch t \<and> (\<forall>u \<in> set (settled_tickets ch out). t < u)"
    "\<forall>ch. settled_tickets ch out = [] \<or> (\<exists>u. settled_tickets ch out = [u] \<and> floor_of (fst s') ch u)"
    using order_call [OF _ _ bound refl, of ctx db call] Cons.prems(1,2) step s by simp_all
  have "blocks_ok (fst s')" using blocks_ok_step [OF Cons.prems(1), of ctx call] step by simp
  note IH = Cons.IH [OF this call(1)]
  have rest: "snd (run_steps (fire_call_step ctx) s (call # calls)) = out # snd (run_steps (fire_call_step ctx) s' calls)"
    by (simp add: step split_beta)
  have "unat (fw_nextTicket (fst s')) + length calls < 2 ^ 64" using Cons.prems(3) call(2) s by simp
  note IH = IH [OF this]
  from call(4) [THEN spec, of ch] show ?case
  proof
    assume "settled_tickets ch out = []"
    then show ?thesis using IH call(3) unfolding rest by (simp add: s del: run_steps.simps)
  next
    assume "\<exists>u. settled_tickets ch out = [u] \<and> floor_of (fst s') ch u"
    then obtain u where u: "settled_tickets ch out = [u]" "floor_of (fst s') ch u" by blast
    have one: "t < u" if "floor_of w ch t" for t using call(3) that u(1) by auto
    show ?thesis
      using IH u one call(3) unfolding rest by (auto simp: sorted_wrt_append s simp del: run_steps.simps)
  qed
qed simp

end
