(* ===== verification/FireHistory.thy ===== *)
theory FireHistory
  imports FireQueue
begin

text \<open>
  Histories of the fire database: everything that the service of \<^verbatim>\<open>src/event/FireAlarmService.cpp\<close> and the
  delivery marks of \<^verbatim>\<open>src/database/EventDatabaseFire.cpp\<close> can do to it over any number of restarts, and the
  invariants that every history keeps.
\<close>

section \<open>One command\<close>

definition command_ok :: "'j FireContext \<Rightarrow> FireCommand \<Rightarrow> bool" where
  "command_ok ctx c \<longleftrightarrow> (fc_kind c = SignalCommand \<longrightarrow>
     (\<exists>b. findBySensor (fx_bindings ctx) (fg_sensorId (fc_signal c)) = Some b \<and> fc_channelId c = fb_channelId b))"

definition command_cursor :: "FireDb \<Rightarrow> FireCommand \<Rightarrow> FireAlarmStateRecord \<Rightarrow> FireAlarmStateRecord \<Rightarrow> bool" where
  "command_cursor db c current new \<longleftrightarrow>
     (if fc_kind c = SignalCommand then frame_taken db (fc_signal c) current new
      else \<not> cursor_differs current new)"

lemma process_fire_sound:
  assumes ok: "fire_store_ok db" and m: "mapped ctx db" and c: "command_ok ctx c"
    and run: "process_fire ctx env db c = Inr r"
  shows "unchanged_by db r \<or>
    (\<exists>b \<in> set (fx_bindings ctx). fb_channelId b = fc_channelId c \<and>
       fire_step ctx db b (command_meaning c (fc_channelId c)) (command_cursor db c) r)"
proof (cases "fc_kind c")
  case SignalCommand
  then obtain b where b: "findBySensor (fx_bindings ctx) (fg_sensorId (fc_signal c)) = Some b"
    "fc_channelId c = fb_channelId b" using c by (auto simp: command_ok_def)
  note bs = findBySensor_Some [OF b(1)]
  have "processSignal ctx env db (fc_ticket c) (fc_signal c) b = Inr r"
    using run SignalCommand b by (simp add: process_fire_def)
  moreover have "fb_retainedTopic b = fs_retainedTopic x" if "alarm_of db (fb_channelId b) = Some x" for x
    using m bs that unfolding mapped_def by metis
  ultimately have "fire_step ctx db b (if fg_detected (fc_signal c) then alarm_raised (fb_channelId b) else alarm_cleared)
      (frame_taken db (fc_signal c)) r"
    using processSignal_sound [OF ok] by blast
  moreover have "(if fg_detected (fc_signal c) then alarm_raised (fb_channelId b) else alarm_cleared) =
      command_meaning c (fc_channelId c)"
    using SignalCommand b(2) by (auto simp: command_meaning_def)
  moreover have "frame_taken db (fc_signal c) = command_cursor db c"
    using SignalCommand by (simp add: command_cursor_def fun_eq_iff)
  ultimately show ?thesis using bs b(2) by auto
next
  case AcknowledgeCommand
  then have "processAcknowledge ctx env db (fc_ticket c) (fc_channelId c) (fc_alarmId c) = Inr r"
    using run by (simp add: process_fire_def)
  moreover have "alarm_seen (fc_alarmId c) = command_meaning c (fc_channelId c)"
    "(\<lambda>cur new. \<not> cursor_differs cur new) = command_cursor db c"
    using AcknowledgeCommand by (simp_all add: command_meaning_def command_cursor_def fun_eq_iff)
  ultimately show ?thesis using processAcknowledge_sound [OF ok m] by metis
next
  case ManualClearCommand
  then have "processManualClear ctx env db (fc_ticket c) (fc_channelId c) = Inr r"
    using run by (simp add: process_fire_def)
  moreover have "alarm_cleared = command_meaning c (fc_channelId c)"
    "(\<lambda>cur new. \<not> cursor_differs cur new) = command_cursor db c"
    using ManualClearCommand by (simp_all add: command_meaning_def command_cursor_def fun_eq_iff)
  ultimately show ?thesis using processManualClear_sound [OF ok m] by metis
qed

section \<open>Invariant of the running service\<close>

text \<open>The channels of the state table are channels of the mapping.\<close>

definition known_channels :: "'j FireContext \<Rightarrow> FireDb \<Rightarrow> bool" where
  "known_channels ctx db \<longleftrightarrow> (\<forall>ch. alarm_of db ch \<noteq> None \<longrightarrow> ch \<in> fb_channelId ` set (fx_bindings ctx))"

definition fire_db_ok :: "'j FireContext \<Rightarrow> FireDb \<Rightarrow> bool" where
  "fire_db_ok ctx db \<longleftrightarrow> fire_store_ok db \<and> mapped ctx db \<and> known_channels ctx db"

definition fire_system_ok :: "'j FireContext \<Rightarrow> FireWorker \<times> FireDb \<Rightarrow> bool" where
  "fire_system_ok ctx s \<longleftrightarrow> fire_db_ok ctx (snd s) \<and> list_all (command_ok ctx) (command_pool (fst s))"

lemma fire_db_ok_process:
  assumes "fire_db_ok ctx db" and "command_ok ctx c" and "process_fire ctx env db c = Inr r"
  shows "fire_db_ok ctx (fst r)"
proof -
  have ok: "fire_store_ok db" "mapped ctx db" "known_channels ctx db" using assms(1) by (simp_all add: fire_db_ok_def)
  consider "unchanged_by db r" | b :: FireChannelBinding and current new where "alarm_of db (fb_channelId b) = Some current"
      "committed_by db (fb_channelId b) current new r"
    using process_fire_sound [OF ok(1,2) assms(2,3)] unfolding fire_step_def by blast
  then show ?thesis
  proof cases
    case 1
    then show ?thesis using assms(1) by (simp add: unchanged_by_def)
  next
    case 2
    then show ?thesis using ok
      unfolding fire_db_ok_def mapped_def known_channels_def committed_by_def committed_to_def by auto
  qed
qed

lemma command_ok_requeue:
  assumes "fw_current w = Some c" and "list_all (command_ok ctx) (command_pool w)"
  shows "list_all (command_ok ctx) (command_pool (requeue_command ctx now w c blocks))"
    "list_all (command_ok ctx) (command_pool (settle_command w c))"
  using assms by (auto simp: command_pool_def requeue_command_def settle_command_def Let_def command_ok_def)

lemma fire_system_ok_step: "fire_system_ok ctx s \<Longrightarrow> fire_system_ok ctx (fst (fire_call_step ctx s call))"
proof -
  obtain w db where s: "s = (w, db)" by (cases s)
  assume "fire_system_ok ctx s"
  then have db: "fire_db_ok ctx db" and pool: "list_all (command_ok ctx) (command_pool w)"
    by (simp_all add: fire_system_ok_def s)
  show ?thesis
  proof (rule call_cases [of ctx w db call])
    fix c
    assume e: "fst (fst (fire_call_step ctx (w, db) call)) = fst (enqueue ctx w c)"
      "snd (fst (fire_call_step ctx (w, db) call)) = db"
      "fc_kind c = SignalCommand \<Longrightarrow> fc_channelId c =
         (case findBySensor (fx_bindings ctx) (fg_sensorId (fc_signal c)) of None \<Rightarrow> [] | Some b \<Rightarrow> fb_channelId b)"
    have "list_all (command_ok ctx) (command_pool (fst (enqueue ctx w c)))"
    proof (rule enqueue_cases [of ctx w c])
      fix w1
      assume w1: "fst (enqueue ctx w c) = w1" "fw_queue w1 = fw_queue w @ [c\<lparr>fc_ticket := fw_nextTicket w\<rparr>]"
        "fw_current w1 = fw_current w" "fc_channelId c \<noteq> []"
      have "command_ok ctx (c\<lparr>fc_ticket := fw_nextTicket w\<rparr>)"
        using e(3) w1(4) by (auto simp: command_ok_def split: option.splits)
      then show ?thesis using pool w1 by (auto simp: command_pool_def)
    qed (use pool in \<open>auto simp: command_pool_def\<close>)
    then show ?thesis using db e by (simp add: fire_system_ok_def s)
  next
    fix now
    assume e: "fst (fst (fire_call_step ctx (w, db) call)) = fst (select_command now w)"
      "snd (fst (fire_call_step ctx (w, db) call)) = db" "fw_current w = None"
    have "list_all (command_ok ctx) (command_pool (fst (select_command now w)))"
      by (rule select_cases [of now w]) (use pool e(3) in \<open>auto simp: command_pool_def\<close>)
    then show ?thesis using db e by (simp add: fire_system_ok_def s)
  next
    assume e: "fst (fst (fire_call_step ctx (w, db) call)) = w\<lparr>fw_accepting := fw_accepting (fst (fst (fire_call_step ctx (w, db) call)))\<rparr>"
      "snd (fst (fire_call_step ctx (w, db) call)) = db"
    obtain b where "fst (fst (fire_call_step ctx (w, db) call)) = w\<lparr>fw_accepting := b\<rparr>" using e(1) by blast
    then show ?thesis using pool db e(2) by (simp add: fire_system_ok_def command_pool_def s)
  next
    fix env now c
    assume call: "call = FinishCommand env now" and cur: "fw_current w = Some c"
    have c: "command_ok ctx c" using pool cur by (simp add: command_pool_def)
    note pools = command_ok_requeue [OF cur pool]
    show ?thesis
      by (rule finish_cases [OF cur, of ctx env now db])
        (use db pools fire_db_ok_process [OF db c] in \<open>auto simp: call call_finish fire_system_ok_def s\<close>)
  qed
qed

interpretation fire_service: invariant_machine "fire_call_step ctx" "fire_system_ok ctx" for ctx
  by unfold_locales (rule fire_system_ok_step)

lemma started_service_ok: "fire_db_ok ctx db \<Longrightarrow> fire_system_ok ctx (started_worker, db)"
  by (simp add: fire_system_ok_def started_worker_def command_pool_def)

lemma started_queue_ok: "blocks_ok started_worker" "order_ok started_worker"
  by (simp_all add: started_worker_def blocks_ok_def order_ok_def command_pool_def)

section \<open>Bootstrap\<close>

text \<open>What \<open>initialize()\<close> puts into the topology for a binding.\<close>

definition boots :: "FireChannelBinding \<Rightarrow> FireChannelBootstrap \<Rightarrow> bool" where
  "boots b t \<longleftrightarrow>
     fs_channelId (fst t) = fb_channelId b \<and> fs_sensorId (fst t) = fb_sensorId b \<and>
     fs_retainedTopic (fst t) = fb_retainedTopic b \<and> fs_fireRevision (fst t) = 1 \<and>
     fs_activeBootId (fst t) = None \<and>
     fs_lastEventId (fst t) = fireEventId (fb_channelId b) 1 \<and>
     fo_deliveryKey (snd t) = retainedDeliveryId (fb_channelId b) \<and> fo_sinkKind (snd t) = RetainedState \<and>
     fo_logicalKey (snd t) = fb_retainedTopic b \<and> fo_sensorId (snd t) = fb_sensorId b \<and>
     fo_channelId (snd t) = fb_channelId b \<and> fo_eventId (snd t) = fireEventId (fb_channelId b) 1 \<and>
     fo_fireRevision (snd t) = 1 \<and> fo_topic (snd t) = fb_retainedTopic b \<and>
     fo_acknowledgedRevision (snd t) = None"

lemma bootstrap_of_boots: "bootstrap_of ctx now b = Inr t \<Longrightarrow> boots b t"
  by (auto simp: bootstrap_of_def boots_def makeDelivery_def Let_def)

lemma read_all_list: "read_all f xs = Inr ys \<Longrightarrow> list_all2 (\<lambda>x y. f x = Inr y) xs ys"
  by (induction f xs arbitrary: ys rule: read_all.induct) auto

lemma alarm_of_None:
  assumes "fire_store_ok db"
  shows "alarm_of db c = None \<longleftrightarrow> c \<notin> sr_channel_id ` set (fd_states db)"
proof
  assume "alarm_of db c = None"
  then show "c \<notin> sr_channel_id ` set (fd_states db)" using alarm_of_row [OF assms] by (metis image_iff option.distinct(1))
next
  assume no: "c \<notin> sr_channel_id ` set (fd_states db)"
  then have "find (\<lambda>r. sr_channel_id r = c) (fd_states db) = None" unfolding find_None_iff by (metis image_eqI)
  then show "alarm_of db c = None" by (simp add: alarm_of_def selectState_def)
qed

lemma bootstrap_insert:
  assumes ok: "fire_store_ok db" and b: "boots b t"
    and st: "insertState db (fst t) = Inr db1" and del: "insertDelivery db1 (snd t) = Inr db2"
  shows "fire_store_ok db2 \<and> (\<forall>x. alarm_of db2 x = (if x = fb_channelId b then Some (fst t) else alarm_of db x)) \<and>
    fd_opened db2 = fd_opened db \<and> fd_retired db2 = fd_retired db"
proof -
  from st obtain s where s: "stateColumns (fst t) = Inr s" "db1 = db\<lparr>fd_states := fd_states db @ [s]\<rparr>"
    "\<not> list_ex (\<lambda>r. sr_channel_id r = sr_channel_id s \<or> sr_sensor_id r = sr_sensor_id s \<or>
        sr_retained_topic r = sr_retained_topic s) (fd_states db)"
    by (auto simp: insertState_def split: if_splits)
  from del obtain d where d: "deliveryColumns (snd t) = Inr d" "db2 = db1\<lparr>fd_outbox := fd_outbox db1 @ [d]\<rparr>"
    "\<not> list_ex (\<lambda>r. or_delivery_key r = or_delivery_key d) (fd_outbox db1)"
    by (auto simp: insertDelivery_def list_ex_iff split: if_splits)
  have fields: "sr_channel_id s = fb_channelId b" "sr_sensor_id s = fb_sensorId b"
    "sr_retained_topic s = fb_retainedTopic b" "sr_fire_revision s = 1"
    "sr_last_event_id s = fireEventId (fb_channelId b) 1"
    using s(1) b by (auto simp: stateColumns_Inr boots_def)
  have new: "sr_channel_id r \<noteq> fb_channelId b" if "r \<in> set (fd_states db)" for r
    using s(3) that fields by (auto simp: list_ex_iff)
  have new': "fb_channelId b \<notin> sr_channel_id ` set (fd_states db)" using new by (metis imageE)
  have drow: "retained_of s d" "readable_delivery d"
  proof -
    show "retained_of s d"
      using d(1) b fields by (auto simp: retained_of_def boots_def deliveryColumns_def checkedInt64_Inr)
    have "readDelivery d = Inr (snd t)" using read_written_delivery [OF d(1)] b by (simp add: boots_def)
    then show "readable_delivery d" by (auto simp: readable_delivery_def)
  qed
  have w: "written_state s" using s(1) b by (auto simp: written_state_def boots_def)
  have fresh: "or_delivery_key d \<notin> or_delivery_key ` set (fd_outbox db)"
    using d(3) s(2) by (auto simp: list_ex_iff)
  have states: "fd_states db2 = fd_states db @ [s]" "fd_outbox db2 = fd_outbox db @ [d]"
    using d(2) s(2) by simp_all
  have dist: "distinct (map sr_channel_id (fd_states db2))" "distinct (map or_delivery_key (fd_outbox db2))"
    using ok new' fresh fields(1) unfolding states fire_store_ok_def by simp_all
  have links: "\<forall>e \<in> set (fd_outbox db2). readable_delivery e \<and>
      (\<exists>r \<in> set (fd_states db2). retained_of r e \<or> lifecycle_of r e)"
    using ok drow unfolding states fire_store_ok_def by auto
  have rets: "\<forall>r \<in> set (fd_states db2). \<exists>e \<in> set (fd_outbox db2). retained_of r e"
    using ok drow unfolding states fire_store_ok_def by auto
  have lifes: "\<forall>r \<in> set (fd_states db2). \<forall>k. 2 \<le> k \<and> k \<le> sr_fire_revision r \<longrightarrow>
      (\<exists>e \<in> set (fd_outbox db2). lifecycle_of r e \<and> or_fire_revision e = k)"
    using ok fields(4) unfolding states fire_store_ok_def by auto
  have "fire_store_ok db2"
    using dist links rets lifes w ok unfolding fire_store_ok_def states by auto
  moreover have "alarm_of db2 x = (if x = fb_channelId b then Some (fst t) else alarm_of db x)" for x
  proof -
    have "find (\<lambda>r. sr_channel_id r = x) (fd_states db @ [s]) =
        (if x = fb_channelId b then Some s else find (\<lambda>r. sr_channel_id r = x) (fd_states db))"
    proof (cases "x = fb_channelId b")
      case True
      then have "find (\<lambda>r. sr_channel_id r = x) (fd_states db) = None" using new by (simp add: find_None_iff)
      then show ?thesis using True fields(1) by (simp add: find_in_append)
    next
      case False
      then show ?thesis using fields(1) by (simp add: find_in_append split: option.split)
    qed
    then show ?thesis
      using read_written_state [OF s(1)] b stored_state_plain [of "fst t"]
      by (simp add: alarm_of_def selectState_def states boots_def)
  qed
  ultimately show ?thesis using d(2) s(2) by simp
qed

lemma bootstrap_channel_ok:
  assumes ok: "fire_store_ok db" and b: "boots b t"
    and run: "bootstrap_channel t (db, ins, hi) = Inr (Inr (db', ins', hi'))"
  shows "fire_store_ok db' \<and> fd_opened db' = fd_opened db \<and> fd_retired db' = fd_retired db \<and>
    (\<exists>r. alarm_of db' (fb_channelId b) = Some r \<and> fs_sensorId r = fb_sensorId b \<and>
       fs_retainedTopic r = fb_retainedTopic b) \<and>
    (\<forall>x. x \<noteq> fb_channelId b \<longrightarrow> alarm_of db' x = alarm_of db x)"
proof (cases "alarm_of db (fb_channelId b)")
  case (Some r)
  then show ?thesis
    using run ok b selectState_ok [OF ok, of "fb_channelId b"]
    by (auto simp: bootstrap_channel_def boots_def Let_def split: if_splits option.splits)
next
  case None
  have chan: "fs_channelId (fst t) = fb_channelId b" using b by (simp add: boots_def)
  from run obtain db1 where "insertState db (fst t) = Inr db1" "insertDelivery db1 (snd t) = Inr db'"
    using selectState_ok [OF ok, of "fb_channelId b"] None
    by (auto simp: bootstrap_channel_def chan Let_def)
  from bootstrap_insert [OF ok b this] show ?thesis using b by (auto simp: boots_def)
qed

lemma bootstrap_loop_ok:
  assumes "list_all2 boots bs ts" and "distinct (map fb_channelId bs)" and "fire_store_ok db"
    and "bootstrap_loop ts (db, ins, hi) = Inr (Inr (db', ins', hi'))"
  shows "fire_store_ok db' \<and> fd_opened db' = fd_opened db \<and> fd_retired db' = fd_retired db \<and>
    (\<forall>b \<in> set bs. \<exists>r. alarm_of db' (fb_channelId b) = Some r \<and> fs_sensorId r = fb_sensorId b \<and>
       fs_retainedTopic r = fb_retainedTopic b) \<and>
    (\<forall>x. x \<notin> fb_channelId ` set bs \<longrightarrow> alarm_of db' x = alarm_of db x)"
  using assms
proof (induction arbitrary: db ins hi rule: list_all2_induct)
  case (Cons b bs t ts)
  obtain x where x: "bootstrap_channel t (db, ins, hi) = Inr x"
    "(case x of Inl refused \<Rightarrow> Inr (Inl refused) | Inr st1 \<Rightarrow> bootstrap_loop ts st1) = Inr (Inr (db', ins', hi'))"
    using Cons.prems(3) unfolding bootstrap_loop.simps(2) by (rule try_bind_InrE)
  then obtain db1 ins1 hi1 where "x = Inr (db1, ins1, hi1)" by (cases x) auto
  with x have one: "bootstrap_channel t (db, ins, hi) = Inr (Inr (db1, ins1, hi1))"
    and rest: "bootstrap_loop ts (db1, ins1, hi1) = Inr (Inr (db', ins', hi'))"
    by simp_all
  note first = bootstrap_channel_ok [OF Cons.prems(2) Cons.hyps(1) one]
  have IH: "fire_store_ok db' \<and> fd_opened db' = fd_opened db1 \<and> fd_retired db' = fd_retired db1 \<and>
    (\<forall>b \<in> set bs. \<exists>r. alarm_of db' (fb_channelId b) = Some r \<and> fs_sensorId r = fb_sensorId b \<and>
       fs_retainedTopic r = fb_retainedTopic b) \<and>
    (\<forall>x. x \<notin> fb_channelId ` set bs \<longrightarrow> alarm_of db' x = alarm_of db1 x)"
    using Cons.IH [OF _ _ rest] Cons.prems(1) first by simp
  have "fb_channelId b \<notin> fb_channelId ` set bs" using Cons.prems(1) by simp
  then have "alarm_of db' (fb_channelId b) = alarm_of db1 (fb_channelId b)" using IH by blast
  then show ?case using IH first by auto
qed simp

lemma bootstrap_transaction_cases:
  assumes "bootstrap_transaction topology db = Inr (db', result)"
  shows "db' = db \<or> (\<exists>ins hi. bootstrap_loop topology (db, False, 0) = Inr (Inr (db', ins, hi)))"
proof -
  obtain x where x: "bootstrap_loop topology (db, False, 0) = Inr x"
    "(case x of Inl refused \<Rightarrow> Inr (db, refused)
      | Inr (db1, inserted, highest) \<Rightarrow>
          if length (fd_states db1) \<noteq> length topology \<or>
             count_rows (\<lambda>r. or_sink_kind r = ''RETAINED_STATE'') (fd_outbox db1) \<noteq> length topology
          then Inr (db, mutation_result MutConflict highest
                 ''durable Fire channels do not match configured topology'')
          else Inr (db1, mutation_result (if inserted then MutCommitted else MutIdempotent) highest [])) =
     (Inr (db', result) :: string + FireDb \<times> FireStoreMutationResult)"
    using assms unfolding bootstrap_transaction_def by (rule try_bind_InrE)
  then show ?thesis by (auto split: sum.splits if_splits)
qed

lemma topology_cases:
  assumes "initializeFireTopology sql db topology = (db', result)"
  obtains "db' = db" | ins hi where "bootstrap_loop topology (db, False, 0) = Inr (Inr (db', ins, hi))"
  using assms
  by (auto simp: initializeFireTopology_def dest: bootstrap_transaction_cases
      split: if_splits FireSql.splits sum.splits)

lemma fire_db_ok_initialize:
  assumes ok: "fire_db_ok ctx db" and one: "distinct (map fb_channelId (fx_bindings ctx))"
    and run: "fire_initialize ctx now write readBack db = Inr (db', done, e)"
  shows "fire_db_ok ctx db'" "fd_retired db' = fd_retired db" "fd_opened db' = fd_opened db"
proof -
  from run obtain topology where topology: "read_all (bootstrap_of ctx now) (fx_bindings ctx) = Inr topology"
    by (auto simp: fire_initialize_def)
  have boots: "list_all2 boots (fx_bindings ctx) topology"
    using read_all_list [OF topology] by (rule list_all2_mono) (rule bootstrap_of_boots)
  obtain db1 result where init: "initializeFireTopology write db topology = (db1, result)"
    by (cases "initializeFireTopology write db topology")
  have db': "db' = db1"
    using run init by (auto simp: fire_initialize_def topology split: if_splits)
  have store: "fire_store_ok db" and m: "mapped ctx db" and k: "known_channels ctx db"
    using ok by (simp_all add: fire_db_ok_def)
  have "fire_db_ok ctx db1 \<and> fd_retired db1 = fd_retired db \<and> fd_opened db1 = fd_opened db"
    using init
  proof (cases rule: topology_cases)
    case (2 ins hi)
    note loop = bootstrap_loop_ok [OF boots one store 2]
    have "mapped ctx db1" using loop unfolding mapped_def by (metis option.inject)
    moreover have "known_channels ctx db1" using loop k unfolding known_channels_def by metis
    ultimately show ?thesis using loop by (simp add: fire_db_ok_def)
  qed (use ok in simp)
  then show "fire_db_ok ctx db'" "fd_retired db' = fd_retired db" "fd_opened db' = fd_opened db"
    using db' by simp_all
qed

section \<open>Delivery marks\<close>

text \<open>A mark changes only the delivery columns of a row.\<close>

definition delivery_mark :: "(FireOutboxRow \<Rightarrow> FireOutboxRow) \<Rightarrow> bool" where
  "delivery_mark f \<longleftrightarrow> (\<forall>d. or_delivery_key (f d) = or_delivery_key d \<and> or_fire_revision (f d) = or_fire_revision d \<and>
     (\<forall>s. retained_of s (f d) = retained_of s d \<and> lifecycle_of s (f d) = lifecycle_of s d) \<and>
     (readable_delivery d \<longrightarrow> 0 < or_fire_revision d \<longrightarrow> readable_delivery (f d)))"

lemma delivery_mark_ok:
  assumes ok: "fire_store_ok db" and f: "delivery_mark f"
  shows "fire_store_ok (db\<lparr>fd_outbox := update_rows p f (fd_outbox db)\<rparr>)"
proof -
  define g where "g d = (if p d then f d else d)" for d
  have keys: "map or_delivery_key (update_rows p f (fd_outbox db)) = map or_delivery_key (fd_outbox db)"
    using f by (intro update_rows_map) (simp add: delivery_mark_def)
  have g: "retained_of s (g d) = retained_of s d" "lifecycle_of s (g d) = lifecycle_of s d"
    "or_fire_revision (g d) = or_fire_revision d" for s d
    using f by (simp_all add: delivery_mark_def g_def)
  have rd: "readable_delivery (g d)" if "readable_delivery d" for d
  proof -
    have "0 < or_fire_revision d"
      using that by (auto simp: readable_delivery_def readDelivery_def split: option.splits if_splits)
    then show ?thesis using f that by (simp add: delivery_mark_def g_def)
  qed
  have rows: "set (update_rows p f (fd_outbox db)) = g ` set (fd_outbox db)"
    by (auto simp: update_rows_def g_def)
  show ?thesis
    using ok g rd unfolding fire_store_ok_def by (simp add: keys rows)
qed

lemma delivery_marks:
  "delivery_mark (\<lambda>r. r\<lparr>or_delivery_state := ''IN_FLIGHT'', or_attempt_count := or_attempt_count r + 1,
     or_last_error := [], or_updated_at := at\<rparr>)"
  "delivery_mark (\<lambda>r. r\<lparr>or_delivery_state := ''PENDING'', or_last_error := e, or_next_attempt_at := at,
     or_updated_at := at\<rparr>)"
  "0 < v \<Longrightarrow> delivery_mark (\<lambda>r. r\<lparr>or_delivery_state := ''ACKED'', or_acked_revision := Some v, or_last_error := [],
     or_updated_at := at\<rparr>)"
  by (auto simp: delivery_mark_def retained_of_def lifecycle_of_def readable_delivery_def readDelivery_def
      fireDeliveryStateFromString_def split: option.splits if_splits)

definition same_alarms :: "FireDb \<Rightarrow> FireDb \<Rightarrow> bool" where
  "same_alarms db db' \<longleftrightarrow> fd_states db' = fd_states db \<and> fd_retired db' = fd_retired db \<and> fd_opened db' = fd_opened db"

lemma same_alarms_alarm: "same_alarms db db' \<Longrightarrow> alarm_of db' c = alarm_of db c"
  by (simp add: same_alarms_def alarm_of_def selectState_def)

text \<open>The marks as one kind of step.\<close>

datatype fire_mark = MarkInFlight string "64 word" | MarkPending string "64 word" string
  | MarkAcknowledged string "64 word" | ResetInFlight

definition apply_mark :: "FireSql \<Rightarrow> string \<Rightarrow> FireDb \<Rightarrow> fire_mark \<Rightarrow> FireDb \<times> bool" where
  "apply_mark sql at db mark =
     (case mark of
        MarkInFlight key revision \<Rightarrow> markFireDeliveryInFlight sql at db key revision
      | MarkPending key revision e \<Rightarrow> markFireDeliveryPending sql at db key revision e
      | MarkAcknowledged key revision \<Rightarrow> acknowledgeFireDelivery sql at db key revision
      | ResetInFlight \<Rightarrow> resetFireInFlightDeliveries sql at db)"

lemma mark_delivery_ok:
  assumes "fire_store_ok db" and "0 < uint revision \<Longrightarrow> delivery_mark f"
  shows "fire_store_ok (fst (mark_delivery sql extra f key revision db)) \<and>
    same_alarms db (fst (mark_delivery sql extra f key revision db))"
proof -
  have "revision \<noteq> 0 \<Longrightarrow> 0 < uint revision" by (simp add: word_neq_0_conv word_less_def)
  then show ?thesis
    using assms delivery_mark_ok
    by (auto simp: mark_delivery_def same_alarms_def Let_def split: sum.splits)
qed

lemma apply_mark_ok:
  assumes "fire_store_ok db"
  shows "fire_store_ok (fst (apply_mark sql at db mark)) \<and> same_alarms db (fst (apply_mark sql at db mark))"
proof (cases mark)
  case ResetInFlight
  then show ?thesis
    using delivery_mark_ok [OF assms delivery_marks(2)] assms
    by (auto simp: apply_mark_def resetFireInFlightDeliveries_def same_alarms_def)
qed (use assms in \<open>simp_all add: apply_mark_def markFireDeliveryInFlight_def markFireDeliveryPending_def
    acknowledgeFireDelivery_def mark_delivery_ok delivery_marks\<close>)

section \<open>Histories\<close>

text \<open>
  The steps of the database: a command of the worker, a (re)start of the service, a delivery mark of the
  coordinator. A history is any sequence of them: commands interleave with marks, and a restart may come
  at any point.
\<close>

inductive fire_db_step :: "'j FireContext \<Rightarrow> FireDb \<Rightarrow> FireDb \<Rightarrow> bool" for ctx where
  command_run: "command_ok ctx c \<Longrightarrow> process_fire ctx env db c = Inr (db', r) \<Longrightarrow> fire_db_step ctx db db'"
| restarted: "fire_initialize ctx now write readBack db = Inr (db', done, e) \<Longrightarrow> fire_db_step ctx db db'"
| marked: "apply_mark sql at db mark = (db', changed) \<Longrightarrow> fire_db_step ctx db db'"

inductive_cases fire_db_stepE: "fire_db_step ctx db db'"

abbreviation fire_history :: "'j FireContext \<Rightarrow> FireDb \<Rightarrow> FireDb \<Rightarrow> bool" where
  "fire_history ctx \<equiv> (fire_db_step ctx)\<^sup>*\<^sup>*"

lemma fire_db_ok_mark:
  assumes "fire_db_ok ctx db"
  shows "fire_db_ok ctx (fst (apply_mark sql at db mark))"
proof -
  have same: "alarm_of (fst (apply_mark sql at db mark)) c = alarm_of db c" for c
    using apply_mark_ok assms same_alarms_alarm unfolding fire_db_ok_def by blast
  moreover have "fire_store_ok (fst (apply_mark sql at db mark))"
    using apply_mark_ok assms unfolding fire_db_ok_def by blast
  ultimately show ?thesis using assms unfolding fire_db_ok_def mapped_def known_channels_def by simp
qed

lemma fire_db_ok_step:
  assumes "fire_db_step ctx db db'" and "distinct (map fb_channelId (fx_bindings ctx))" and "fire_db_ok ctx db"
  shows "fire_db_ok ctx db'"
  using assms
proof (cases rule: fire_db_step.cases)
  case (command_run c env r)
  then show ?thesis using fire_db_ok_process [OF assms(3)] by fastforce
next
  case (restarted now "write" readBack "done" e)
  then show ?thesis using fire_db_ok_initialize [OF assms(3,2)] by blast
next
  case (marked sql at mark changed)
  then show ?thesis using fire_db_ok_mark [OF assms(3), of sql at mark] by simp
qed

lemma fire_db_ok_history:
  assumes "fire_history ctx db db'" and "distinct (map fb_channelId (fx_bindings ctx))" and "fire_db_ok ctx db"
  shows "fire_db_ok ctx db'"
  using assms(1) by (induction rule: rtranclp_induct) (use assms fire_db_ok_step in blast)+

lemma empty_db_ok: "fd_states db = [] \<Longrightarrow> fd_outbox db = [] \<Longrightarrow> fire_db_ok ctx db"
  by (simp add: fire_db_ok_def fire_store_ok_def mapped_def known_channels_def alarm_of_def selectState_def)

text \<open>A run of the service on the database is a history of it.\<close>

lemma call_is_history:
  assumes "list_all (command_ok ctx) (command_pool w)"
  shows "fire_history ctx db (snd (fst (fire_call_step ctx (w, db) call)))"
proof (rule call_cases [of ctx w db call])
  fix env now c
  assume call: "call = FinishCommand env now" and cur: "fw_current w = Some c"
  have c: "command_ok ctx c" using assms cur by (simp add: command_pool_def)
  show ?thesis
    by (rule finish_cases [OF cur, of ctx env now db])
      (use c in \<open>auto simp: call call_finish intro: r_into_rtranclp fire_db_step.command_run\<close>)
qed simp_all

lemma run_is_history:
  assumes "fire_system_ok ctx s"
  shows "fire_history ctx (snd s) (snd (final_state (fire_call_step ctx) s calls))"
  using assms
proof (induction calls arbitrary: s)
  case (Cons call calls)
  have "list_all (command_ok ctx) (command_pool (fst s))" using Cons.prems by (simp add: fire_system_ok_def)
  then have "fire_history ctx (snd s) (snd (fst (fire_call_step ctx s call)))"
    using call_is_history [of ctx "fst s" "snd s" call] by simp
  moreover have "fire_history ctx (snd (fst (fire_call_step ctx s call)))
      (snd (final_state (fire_call_step ctx) (fst (fire_call_step ctx s call)) calls))"
    by (rule Cons.IH) (rule fire_system_ok_step [OF Cons.prems])
  ultimately show ?case by (simp add: split_beta)
qed simp

section \<open>The durable cursor\<close>

text \<open>The cursor of a channel with every retired boot id of its sensor.\<close>

definition durable_cursor :: "FireDb \<Rightarrow> FireAlarmStateRecord \<Rightarrow> SensorSequenceState" where
  "durable_cursor db r = \<lparr>seq_mode = sequenceModeFor (fs_protocolMode r), seq_activeBootId = fs_activeBootId r,
     seq_lastSequence = fs_lastSourceSequence r, seq_retiredBootIds = {b. boot_retired db (fs_sensorId r) b}\<rparr>"

definition frame_covered :: "FireDb \<Rightarrow> string \<Rightarrow> string \<Rightarrow> 64 word \<Rightarrow> bool" where
  "frame_covered db ch b n \<longleftrightarrow> (\<exists>r. alarm_of db ch = Some r \<and> covered (durable_cursor db r) b n)"

lemma covered_frame:
  assumes "frame_taken db signal current new" and "covered (durable_cursor db current) b n"
    and "fs_sensorId current = fg_sensorId signal"
    and "advance_cursor db current new = Inr db1" and "fs_sensorId new = fs_sensorId current"
    and "set (fd_retired db1) \<subseteq> set (fd_retired db')"
  shows "covered (durable_cursor db' new) b n"
proof -
  obtain retired where acc: "accepted (evaluateSensorSequence (signal_cursor current signal retired) (signal_fact signal))"
    and new: "fs_protocolMode new = protocolFor signal" "fs_activeBootId new = fg_sourceBootId signal"
      "fs_lastSourceSequence new = fg_sourceSequence signal"
    using assms(1) by (auto simp: frame_taken_def)
  have mode: "fs_protocolMode current = ProtocolVersioned"
    using assms(2) by (auto simp: covered_def durable_cursor_def sequenceModeFor_def split: FireProtocolMode.splits)
  then have v2: "fg_sourceProtocolVersion signal = BootEpochV2"
    using acc by (cases "fg_sourceProtocolVersion signal")
      (auto simp: evaluate_defs signal_cursor_def signal_fact_def sequenceModeFor_def split: if_splits)
  have grow: "set (fd_retired db) \<subseteq> set (fd_retired db')"
    using advance_cursor_frame(4) [OF assms(4)] assms(6) by blast
  show ?thesis
  proof (cases "boot_retired db (fs_sensorId current) b")
    case True
    then show ?thesis using grow new v2 assms(5)
      by (auto simp: covered_def durable_cursor_def sequenceModeFor_def protocolFor_def boot_retired_def)
  next
    case False
    then obtain l where l: "fs_activeBootId current = Some b" "fs_lastSourceSequence current = Some l" "n \<le> l"
      using assms(2) by (auto simp: covered_def durable_cursor_def)
    from acc v2 obtain b' n' where b': "fg_sourceBootId signal = Some b'" "fg_sourceSequence signal = Some n'"
      by (auto simp: evaluate_defs signal_fact_def split: option.splits)
    show ?thesis
    proof (cases "b' = b")
      case True
      then have "l < n'"
        using acc v2 b' l mode
        by (auto simp: evaluate_defs signal_cursor_def signal_fact_def sequenceModeFor_def split: if_splits)
      then show ?thesis using True b' l new v2
        by (auto simp: covered_def durable_cursor_def sequenceModeFor_def protocolFor_def)
    next
      case diff: False
      then have "boot_retired db1 (fs_sensorId new) b"
        using assms(4) l b' new mode
        by (auto simp: advance_cursor_def cursor_differs_def fire_cursor_def sequenceModeFor_def boot_retired_def Let_def
            split: if_splits)
      then show ?thesis using assms(6) new v2
        by (auto simp: covered_def durable_cursor_def sequenceModeFor_def protocolFor_def boot_retired_def)
    qed
  qed
qed

lemma bootstrap_keeps:
  assumes "list_all2 boots bs ts" and "distinct (map fb_channelId bs)" and "fire_store_ok db"
    and "bootstrap_loop ts (db, ins, hi) = Inr (Inr (db', ins', hi'))" and "alarm_of db x = Some r"
  shows "alarm_of db' x = Some r"
  using assms
proof (induction arbitrary: db ins hi rule: list_all2_induct)
  case (Cons b bs t ts)
  obtain y where y: "bootstrap_channel t (db, ins, hi) = Inr y"
    "(case y of Inl refused \<Rightarrow> Inr (Inl refused) | Inr st1 \<Rightarrow> bootstrap_loop ts st1) = Inr (Inr (db', ins', hi'))"
    using Cons.prems(3) unfolding bootstrap_loop.simps(2) by (rule try_bind_InrE)
  then obtain db1 ins1 hi1 where "y = Inr (db1, ins1, hi1)" by (cases y) auto
  with y have one: "bootstrap_channel t (db, ins, hi) = Inr (Inr (db1, ins1, hi1))"
    and rest: "bootstrap_loop ts (db1, ins1, hi1) = Inr (Inr (db', ins', hi'))"
    by simp_all
  note first = bootstrap_channel_ok [OF Cons.prems(2) Cons.hyps(1) one]
  have "alarm_of db1 x = Some r"
  proof (cases "x = fb_channelId b")
    case True
    have "db1 = db"
      using one Cons.hyps(1) Cons.prems(4) True selectState_ok [OF Cons.prems(2), of "fb_channelId b"]
      by (auto simp: bootstrap_channel_def boots_def Let_def split: if_splits option.splits)
    then show ?thesis using Cons.prems(4) by simp
  qed (use first Cons.prems(4) in simp)
  then show ?case using Cons.IH [OF _ _ rest] Cons.prems(1) first by simp
qed simp

lemma initialize_keeps:
  assumes ok: "fire_db_ok ctx db" and one: "distinct (map fb_channelId (fx_bindings ctx))"
    and run: "fire_initialize ctx now write readBack db = Inr (db', done, e)"
    and r: "alarm_of db x = Some r"
  shows "alarm_of db' x = Some r"
proof -
  from run obtain topology where topology: "read_all (bootstrap_of ctx now) (fx_bindings ctx) = Inr topology"
    by (auto simp: fire_initialize_def)
  have boots: "list_all2 boots (fx_bindings ctx) topology"
    using read_all_list [OF topology] by (rule list_all2_mono) (rule bootstrap_of_boots)
  obtain db1 result where init: "initializeFireTopology write db topology = (db1, result)"
    by (cases "initializeFireTopology write db topology")
  have db': "db' = db1"
    using run init by (auto simp: fire_initialize_def topology split: if_splits)
  have store: "fire_store_ok db" using ok by (simp add: fire_db_ok_def)
  from init show ?thesis
  proof (cases rule: topology_cases)
    case 1
    then show ?thesis using r db' by simp
  next
    case (2 ins hi)
    show ?thesis using bootstrap_keeps [OF boots one store 2 r] db' by simp
  qed
qed

text \<open>A cursor that has passed a frame keeps it: every step of the database only moves cursors forward.\<close>

lemma covered_same_cursor:
  assumes "\<not> cursor_differs current new" and "fs_sensorId new = fs_sensorId current"
    and "set (fd_retired db) \<subseteq> set (fd_retired db')" and "covered (durable_cursor db current) b n"
  shows "covered (durable_cursor db' new) b n"
  using assms by (auto simp: covered_def durable_cursor_def cursor_differs_def boot_retired_def)

lemma covered_stored:
  "covered (durable_cursor db r) b n \<Longrightarrow> sql_text b = b \<Longrightarrow> covered (durable_cursor db (stored_state r)) b n"
  by (auto simp: covered_def durable_cursor_def)

lemma frame_covered_process:
  assumes db: "fire_db_ok ctx db" and c: "command_ok ctx c" and run: "process_fire ctx env db c = Inr r"
    and cov: "frame_covered db ch b n" and whole: "sql_text b = b"
  shows "frame_covered (fst r) ch b n"
proof -
  have ok: "fire_store_ok db" "mapped ctx db" using db by (simp_all add: fire_db_ok_def)
  obtain old where old: "alarm_of db ch = Some old" "covered (durable_cursor db old) b n"
    using cov by (auto simp: frame_covered_def)
  consider "unchanged_by db r" | bd :: FireChannelBinding and current new where "bd \<in> set (fx_bindings ctx)"
      "fb_channelId bd = fc_channelId c" "alarm_of db (fb_channelId bd) = Some current"
      "committed_by db (fb_channelId bd) current new r" "command_cursor db c current new"
    using process_fire_sound [OF ok c run] unfolding fire_step_def by blast
  then show ?thesis
  proof cases
    case 1
    then show ?thesis using cov by (simp add: unchanged_by_def)
  next
    case 2
    obtain db1 where adv: "advance_cursor db current new = Inr db1" "fd_retired (fst r) = fd_retired db1"
      and now: "\<And>x. alarm_of (fst r) x = (if x = fb_channelId bd then Some (stored_state new) else alarm_of db x)"
      and sensor: "fs_sensorId new = fs_sensorId current"
      using 2(4) by (auto simp: committed_by_def committed_to_def)
    have grow: "set (fd_retired db) \<subseteq> set (fd_retired (fst r))"
      using advance_cursor_frame(4) [OF adv(1)] adv(2) by simp
    show ?thesis
    proof (cases "ch = fb_channelId bd")
      case False
      have "covered (durable_cursor (fst r) old) b n"
        by (rule covered_same_cursor [OF _ refl grow old(2)]) (simp add: cursor_differs_def)
      then show ?thesis using False now old(1) by (simp add: frame_covered_def)
    next
      case True
      have cur: "covered (durable_cursor db current) b n" using old 2(3) True by simp
      have "covered (durable_cursor (fst r) new) b n"
      proof (cases "fc_kind c = SignalCommand")
        case True
        then have frame: "frame_taken db (fc_signal c) current new" using 2(5) by (simp add: command_cursor_def)
        obtain bd' where bd': "findBySensor (fx_bindings ctx) (fg_sensorId (fc_signal c)) = Some bd'"
          "fc_channelId c = fb_channelId bd'" using c True by (auto simp: command_ok_def)
        have "fs_sensorId current = fg_sensorId (fc_signal c)"
          using findBySensor_Some [OF bd'(1)] ok(2) 2(2,3) bd'(2) unfolding mapped_def by metis
        then show ?thesis
          by (rule covered_frame [OF frame cur _ adv(1) sensor]) (simp add: adv(2))
      next
        case False
        then show ?thesis using 2(5) covered_same_cursor [OF _ sensor grow cur] by (simp add: command_cursor_def)
      qed
      then show ?thesis using True now covered_stored [OF _ whole] by (simp add: frame_covered_def)
    qed
  qed
qed

lemma frame_covered_step:
  assumes "fire_db_step ctx db db'" and one: "distinct (map fb_channelId (fx_bindings ctx))"
    and db: "fire_db_ok ctx db" and cov: "frame_covered db ch b n" and whole: "sql_text b = b"
  shows "frame_covered db' ch b n"
  using assms(1)
proof (cases rule: fire_db_step.cases)
  case (command_run c env r)
  then show ?thesis using frame_covered_process [OF db _ _ cov whole] by fastforce
next
  case (restarted now "write" readBack "done" e)
  have "alarm_of db' ch = Some r" if "alarm_of db ch = Some r" for r
    by (rule initialize_keeps [OF db one restarted that])
  moreover have "fd_retired db' = fd_retired db" by (rule fire_db_ok_initialize(2) [OF db one restarted])
  ultimately show ?thesis using cov by (auto simp: frame_covered_def durable_cursor_def boot_retired_def)
next
  case (marked sql at mark changed)
  have "same_alarms db db'"
    using apply_mark_ok [of db sql at mark] db marked by (simp add: fire_db_ok_def)
  then show ?thesis using cov
    by (auto simp: frame_covered_def durable_cursor_def boot_retired_def same_alarms_alarm) (simp add: same_alarms_def)
qed

lemma frame_covered_history:
  assumes "fire_history ctx db db'" and one: "distinct (map fb_channelId (fx_bindings ctx))"
    and db: "fire_db_ok ctx db" and cov: "frame_covered db ch b n" and whole: "sql_text b = b"
  shows "frame_covered db' ch b n"
  using assms(1)
proof (induction rule: rtranclp_induct)
  case (step y z)
  then show ?case using frame_covered_step [OF step.hyps(2) one _ _ whole] fire_db_ok_history [OF step.hyps(1) one db] by blast
qed (rule cov)

text \<open>A committed frame is passed, and a frame that the cursor has passed commits nothing.\<close>

lemma taken_frame_covered:
  assumes "frame_taken db signal current new" and "fg_sourceProtocolVersion signal = BootEpochV2"
    and "fg_sourceBootId signal = Some b" and "fg_sourceSequence signal = Some n"
  shows "covered (durable_cursor db' new) b n"
  using assms by (auto simp: frame_taken_def covered_def durable_cursor_def protocolFor_def sequenceModeFor_def)

lemma covered_frame_refused:
  assumes "frame_taken db signal current new" and "fg_sourceProtocolVersion signal = BootEpochV2"
    and "fg_sourceBootId signal = Some b" and "fg_sourceSequence signal = Some m" and "m \<le> n"
    and "fs_sensorId current = fg_sensorId signal"
  shows "\<not> covered (durable_cursor db current) b n"
  using assms
  by (auto simp: frame_taken_def covered_def durable_cursor_def evaluate_defs signal_cursor_def signal_fact_def
      split: if_splits)

end
