(* ===== verification/FireProps.thy ===== *)
theory FireProps
  imports FireHistory
begin

text \<open>
  Properties of the fire alarm service of \<^verbatim>\<open>src/event/FireAlarmService.cpp\<close> on the store of
  \<^verbatim>\<open>src/database/EventDatabaseFire.cpp\<close>, each over every database that a history of commands, delivery
  marks and restarts can reach.
\<close>

section \<open>A concrete service\<close>

text \<open>Two channels, a JSON library that prints every document as \<open>{}\<close>, SQLite without faults.\<close>

definition demo_fire_api :: "unit fire_api" where
  "demo_fire_api = \<lparr>fa_dump = (\<lambda>_. Inr ''{}''), fa_parse = (\<lambda>_. None), fa_string = (\<lambda>_ _ d. Inr d),
     fa_bool = (\<lambda>_ _ d. Inr d), fa_int = (\<lambda>_ _ d. Inr d), fa_opt_string = (\<lambda>_ _. None),
     fa_iso = (\<lambda>_. ''2026-01-01T00:00:00+09:00'')\<rparr>"

definition demo_fire :: "unit FireContext" where
  "demo_fire = \<lparr>fx_config = \<lparr>fcf_cameraId = ''cam'', fcf_lifecycleTopicPrefix = ''fire/events'',
       fcf_commandQueueCapacity = 8, fcf_transientFailureRetryDelay = 1000000000\<rparr>,
     fx_bindings = fst (parseFireChannelBindingsStrict ''F1=CH1, F2=CH2'' ''fire/state''),
     fx_hasAckReadiness = False, fx_hasBoundary = False, fx_api = demo_fire_api\<rparr>"

definition demo_fire_env :: FireEnv where
  "demo_fire_env = \<lparr>fe_now = 0, fe_read = SqlWorks, fe_bootRead = SqlWorks, fe_write = SqlWorks,
     fe_ackReady = True, fe_beginOk = True\<rparr>"

definition demo_signal :: "bool \<Rightarrow> 64 word \<Rightarrow> FireSignal" where
  "demo_signal detected n = \<lparr>fg_sensorId = ''F1'', fg_detected = detected, fg_occurredAt = 0,
     fg_sourceSequence = Some n, fg_sourceProtocolVersion = BootEpochV2, fg_sourceBootId = Some ''b1'',
     fg_sourceTransport = ''uart'', fg_rawPayload = ''FIRE''\<rparr>"

definition demo_command :: "64 word \<Rightarrow> bool \<Rightarrow> 64 word \<Rightarrow> FireCommand" where
  "demo_command t detected n = (new_command SignalCommand (demo_signal detected n) ''CH1'' [])\<lparr>fc_ticket := t\<rparr>"

definition demo_empty :: FireDb where
  "demo_empty = \<lparr>fd_opened = True, fd_states = [], fd_outbox = [], fd_retired = []\<rparr>"

definition demo_booted :: FireDb where
  "demo_booted =
     (case fire_initialize demo_fire 0 SqlWorks SqlWorks demo_empty of Inr (db, _) \<Rightarrow> db | Inl _ \<Rightarrow> demo_empty)"

definition demo_fire_run :: "FireCommand \<Rightarrow> FireDb \<Rightarrow> FireDb \<times> FireCommandResult" where
  "demo_fire_run c db = (case process_fire demo_fire demo_fire_env db c of Inr r \<Rightarrow> r
     | Inl e \<Rightarrow> (db, fire_result 0 FireFailed [] 0 e))"

definition demo_alarm :: "FireDb \<times> FireCommandResult" where
  "demo_alarm = demo_fire_run (demo_command 1 True 5) demo_booted"

lemma demo_starts: "fire_initialize demo_fire 0 SqlWorks SqlWorks demo_empty = Inr (demo_booted, True, [])"
  unfolding demo_booted_def by code_simp

lemma demo_rises: "process_fire demo_fire demo_fire_env demo_booted (demo_command 1 True 5) = Inr demo_alarm"
  "fr_status (snd demo_alarm) = FireDurablyCommitted"
proof -
  have "case process_fire demo_fire demo_fire_env demo_booted (demo_command 1 True 5) of
      Inr r \<Rightarrow> fr_status (snd r) = FireDurablyCommitted | Inl e \<Rightarrow> False"
    by code_simp
  then show "process_fire demo_fire demo_fire_env demo_booted (demo_command 1 True 5) = Inr demo_alarm"
    "fr_status (snd demo_alarm) = FireDurablyCommitted"
    by (auto simp: demo_alarm_def demo_fire_run_def split: sum.splits)
qed

lemma demo_command_ok: "command_ok demo_fire (demo_command t detected n)"
proof -
  have "findBySensor (fx_bindings demo_fire) ''F1'' = Some \<lparr>fb_sensorId = ''F1'', fb_channelId = ''CH1'',
      fb_retainedTopic = ''fire/state/CH1''\<rparr>" by code_simp
  then show ?thesis by (simp add: command_ok_def demo_command_def new_command_def demo_signal_def)
qed

section \<open>Reachable databases\<close>

text \<open>The databases that histories produce from empty fire tables, with one binding per channel.\<close>

definition fire_reached :: "'j FireContext \<Rightarrow> FireDb \<Rightarrow> bool" where
  "fire_reached ctx db \<longleftrightarrow> distinct (map fb_channelId (fx_bindings ctx)) \<and>
     (\<exists>db0. fd_states db0 = [] \<and> fd_outbox db0 = [] \<and> fire_history ctx db0 db)"

lemma reached_ok: "fire_reached ctx db \<Longrightarrow> fire_db_ok ctx db"
  unfolding fire_reached_def using fire_db_ok_history empty_db_ok by blast

lemma reached_history: "fire_reached ctx db \<Longrightarrow> fire_history ctx db db' \<Longrightarrow> fire_reached ctx db'"
  unfolding fire_reached_def by (meson rtranclp_trans)

lemma command_history: "command_ok ctx c \<Longrightarrow> process_fire ctx env db c = Inr r \<Longrightarrow> fire_history ctx db (fst r)"
  by (cases r) (auto intro: r_into_rtranclp fire_db_step.command_run)

lemma demo_booted_reached: "fire_reached demo_fire demo_booted"
proof -
  have "distinct (map fb_channelId (fx_bindings demo_fire))" by code_simp
  moreover have "fire_history demo_fire demo_empty demo_booted"
    using fire_db_step.restarted [OF demo_starts] by (rule r_into_rtranclp)
  ultimately show ?thesis unfolding fire_reached_def by (intro conjI exI [of _ demo_empty]) (simp_all add: demo_empty_def)
qed

lemma demo_alarm_reached: "fire_reached demo_fire (fst demo_alarm)"
  by (rule reached_history [OF demo_booted_reached command_history [OF demo_command_ok demo_rises(1)]])

section \<open>Commands and the alarm\<close>

text \<open>
  C11: A command that runs on a reachable database does what its specification says, or nothing. When the
  result is \<open>FireDurablyCommitted\<close>, the alarm of the command's channel (lifecycle, alarm id, revision) has
  changed from its durable state by exactly the meaning of the command: a detection opens a resolved
  alarm with a fresh id and the next revision, a clear resolves an active one, an acknowledgement marks
  an open alarm with the same id as seen. Under any other result the database is untouched. The alarms
  of the other channels never change.
\<close>

theorem fire_command_means_its_spec:
  assumes "fire_reached ctx db" and "command_ok ctx c" and "process_fire ctx env db c = Inr (db', r)"
  shows "if fr_status r = FireDurablyCommitted
    then \<exists>current new. alarm_of db (fc_channelId c) = Some current \<and> alarm_of db' (fc_channelId c) = Some new \<and>
      status_of new = command_meaning c (fc_channelId c) (status_of current) \<and>
      fr_channelId r = fc_channelId c \<and> fr_fireRevision r = fs_fireRevision new \<and>
      (\<forall>x. x \<noteq> fc_channelId c \<longrightarrow> alarm_of db' x = alarm_of db x)
    else db' = db"
proof -
  have "fire_store_ok db" "mapped ctx db" using reached_ok [OF assms(1)] by (simp_all add: fire_db_ok_def)
  from process_fire_sound [OF this assms(2,3)] show ?thesis
    by (auto simp: unchanged_by_def fire_step_def committed_by_def committed_to_def)
qed

theorem fire_command_means_its_spec_witness:
  "\<exists>current new. alarm_of demo_booted ''CH1'' = Some current \<and> alarm_of (fst demo_alarm) ''CH1'' = Some new \<and>
     status_of new = command_meaning (demo_command 1 True 5) ''CH1'' (status_of current)"
  using fire_command_means_its_spec [OF demo_booted_reached demo_command_ok, of demo_fire_env 1 True 5 "fst demo_alarm" "snd demo_alarm"]
    demo_rises by (auto simp: demo_command_def new_command_def)

text \<open>
  C12: A frame of the boot epoch protocol is applied at most once, over restarts and all interleavings. When
  a frame with boot id \<open>b\<close> and sequence \<open>n\<close> has been committed, then after any further history of commands,
  delivery marks and restarts, a frame of the same sensor with the same boot id and a sequence up to \<open>n\<close>
  changes nothing and is never answered with \<open>FireDurablyCommitted\<close>. The boot id \<open>b\<close> must hold no NUL
  byte, at which the database cuts it; the frames between may carry any boot id.
\<close>

theorem fire_frame_applied_once:
  assumes reached: "fire_reached ctx db" and c: "command_ok ctx c" "fc_kind c = SignalCommand"
    and frame: "fg_sourceProtocolVersion (fc_signal c) = BootEpochV2" "fg_sourceBootId (fc_signal c) = Some b"
      "fg_sourceSequence (fc_signal c) = Some n"
    and first: "process_fire ctx env db c = Inr (db', r)" "fr_status r = FireDurablyCommitted"
    and later: "fire_history ctx db' db''"
    and d: "command_ok ctx d" "fc_kind d = SignalCommand" "fg_sensorId (fc_signal d) = fg_sensorId (fc_signal c)"
    and again: "fg_sourceProtocolVersion (fc_signal d) = BootEpochV2" "fg_sourceBootId (fc_signal d) = Some b"
      "fg_sourceSequence (fc_signal d) = Some m" "m \<le> n"
    and no_nul: "CHR 0x00 \<notin> set b"
    and second: "process_fire ctx env' db'' d = Inr (end, r')"
  shows "end = db'' \<and> fr_status r' \<noteq> FireDurablyCommitted"
proof (rule ccontr)
  assume contra: "\<not> ?thesis"
  have one: "distinct (map fb_channelId (fx_bindings ctx))" using reached by (simp add: fire_reached_def)
  have ok: "fire_db_ok ctx db" by (rule reached_ok [OF reached])
  have ok': "fire_db_ok ctx db'" using fire_db_ok_process [OF ok c(1) first(1)] by simp
  have ok'': "fire_db_ok ctx db''" by (rule fire_db_ok_history [OF later one ok'])
  have chan: "fc_channelId d = fc_channelId c" using c d by (auto simp: command_ok_def)
  have sound: "\<exists>cur new. alarm_of db1 (fc_channelId e) = Some cur \<and> alarm_of (fst r1) (fc_channelId e) = Some (stored_state new) \<and>
      fs_sensorId cur = fg_sensorId (fc_signal e) \<and> frame_taken db1 (fc_signal e) cur new"
    if ok1: "fire_db_ok ctx db1" and e: "command_ok ctx e" "fc_kind e = SignalCommand"
      and run: "process_fire ctx env1 db1 e = Inr r1" and changed: "\<not> unchanged_by db1 r1" for db1 e r1 env1
  proof -
    have s: "fire_store_ok db1" "mapped ctx db1" using ok1 by (simp_all add: fire_db_ok_def)
    obtain bd where bd: "findBySensor (fx_bindings ctx) (fg_sensorId (fc_signal e)) = Some bd"
      "fc_channelId e = fb_channelId bd" using e by (auto simp: command_ok_def)
    note bs = findBySensor_Some [OF bd(1)]
    obtain cur new where "alarm_of db1 (fb_channelId bd) = Some cur" "committed_by db1 (fb_channelId bd) cur new r1"
      "command_cursor db1 e cur new"
      using process_fire_sound [OF s e(1) run] changed bd(2) unfolding fire_step_def by auto
    then show ?thesis
      using bs s(2) bd(2) e(2) by (auto simp: committed_by_def committed_to_def command_cursor_def mapped_def)
  qed
  have "\<not> unchanged_by db (db', r)" using first(2) by (simp add: unchanged_by_def)
  from sound [OF ok c first(1) this] obtain new cur where "alarm_of db' (fc_channelId c) = Some (stored_state new)"
    "frame_taken db (fc_signal c) cur new" by auto
  moreover have whole: "sql_text b = b" using no_nul by (rule sql_text_plain)
  ultimately have "frame_covered db' (fc_channelId c) b n"
    using covered_stored [OF taken_frame_covered [OF _ frame]] by (auto simp: frame_covered_def)
  then have cov: "frame_covered db'' (fc_channelId c) b n" by (rule frame_covered_history [OF later one ok' _ whole])
  have "\<not> unchanged_by db'' (end, r')" using contra by (simp add: unchanged_by_def)
  from sound [OF ok'' d(1,2) second this] obtain cur new where "alarm_of db'' (fc_channelId d) = Some cur"
    "fs_sensorId cur = fg_sensorId (fc_signal d)" "frame_taken db'' (fc_signal d) cur new" by auto
  then show False using covered_frame_refused [OF _ again] cov chan by (auto simp: frame_covered_def)
qed

theorem fire_frame_applied_once_witness:
  "\<exists>e r. process_fire demo_fire demo_fire_env (fst demo_alarm) (demo_command 2 False 5) = Inr (e, r) \<and>
     e = fst demo_alarm \<and> fr_status r \<noteq> FireDurablyCommitted"
proof -
  have "case process_fire demo_fire demo_fire_env (fst demo_alarm) (demo_command 2 False 5) of Inr r \<Rightarrow> True | Inl e \<Rightarrow> False"
    unfolding demo_alarm_def by code_simp
  then obtain e r where run: "process_fire demo_fire demo_fire_env (fst demo_alarm) (demo_command 2 False 5) = Inr (e, r)"
    by (auto split: sum.splits)
  have "e = fst demo_alarm \<and> fr_status r \<noteq> FireDurablyCommitted"
    by (rule fire_frame_applied_once [OF demo_booted_reached demo_command_ok [of 1 True 5], of "''b1''" 5 demo_fire_env
          "fst demo_alarm" "snd demo_alarm" "fst demo_alarm" "demo_command 2 False 5" 5, OF _ _ _ _ _ _ _ demo_command_ok _ _ _ _ _ _ _ run])
      (use demo_rises in \<open>simp_all add: demo_command_def new_command_def demo_signal_def\<close>)
  then show ?thesis using run by blast
qed

text \<open>
  The hypothesis on the boot id is needed: the frame of a boot id with a NUL byte is stored under the
  id up to that byte, so that the same frame looks like one of a new epoch and is committed again.
\<close>

definition demo_cut_command :: "64 word \<Rightarrow> FireCommand" where
  "demo_cut_command t = (new_command SignalCommand ((demo_signal True 5)\<lparr>fg_sourceBootId := Some [CHR ''b'', CHR 0x00]\<rparr>)
     ''CH1'' [])\<lparr>fc_ticket := t\<rparr>"

lemma cut_boot_frame_applied_twice:
  "fr_status (snd (demo_fire_run (demo_cut_command 1) demo_booted)) = FireDurablyCommitted \<and>
   fr_status (snd (demo_fire_run (demo_cut_command 2) (fst (demo_fire_run (demo_cut_command 1) demo_booted)))) =
     FireDurablyCommitted"
  by code_simp

section \<open>The outbox and the alarm\<close>

lemma count_one:
  assumes "distinct (map key rows)" and "\<And>r. r \<in> set rows \<Longrightarrow> p r \<Longrightarrow> key r = k"
  shows "count_rows p rows = (if list_ex p rows then 1 else 0)"
proof -
  have "count_rows p rows = count_rows (\<lambda>r. r \<in> set rows \<and> p r) rows"
    by (simp add: count_rows_def cong: filter_cong)
  also have "\<dots> = (if list_ex (\<lambda>r. r \<in> set rows \<and> p r) rows then 1 else 0)"
    by (rule count_key [OF assms(1)]) (use assms(2) in auto)
  finally show ?thesis by (auto simp: list_ex_iff)
qed

lemma outbox_row:
  assumes ok: "fire_store_ok db" and row: "s \<in> set (fd_states db)" and d: "d \<in> set (fd_outbox db)"
    and ch: "or_channel_id d = sr_channel_id s"
  shows "or_sink_kind d = ''RETAINED_STATE'' \<Longrightarrow> retained_of s d"
    "or_sink_kind d = ''LIFECYCLE_EVENT'' \<Longrightarrow> lifecycle_of s d"
proof -
  obtain t where t: "t \<in> set (fd_states db)" "retained_of t d \<or> lifecycle_of t d"
    using ok d by (auto simp: fire_store_ok_def)
  have "sr_channel_id t = sr_channel_id s" using t(2) ch by (auto simp: retained_of_def lifecycle_of_def)
  then have "t = s" by (rule fire_state_unique [OF ok t(1) row])
  then show "or_sink_kind d = ''RETAINED_STATE'' \<Longrightarrow> retained_of s d"
    "or_sink_kind d = ''LIFECYCLE_EVENT'' \<Longrightarrow> lifecycle_of s d"
    using t(2) by (auto simp: retained_of_def lifecycle_of_def)
qed

text \<open>The rows of a channel's retained message, and of the lifecycle message of a revision.\<close>

definition retained_rows :: "FireDb \<Rightarrow> string \<Rightarrow> FireOutboxRow list" where
  "retained_rows db ch = filter (\<lambda>d. or_sink_kind d = ''RETAINED_STATE'' \<and> or_channel_id d = ch) (fd_outbox db)"

definition lifecycle_rows :: "FireDb \<Rightarrow> string \<Rightarrow> int \<Rightarrow> FireOutboxRow list" where
  "lifecycle_rows db ch k = filter (\<lambda>d. or_sink_kind d = ''LIFECYCLE_EVENT'' \<and> or_channel_id d = ch \<and>
     or_fire_revision d = k) (fd_outbox db)"

lemma retained_rows_one:
  assumes ok: "fire_store_ok db" and r: "alarm_of db ch = Some r"
  shows "\<exists>d. retained_rows db ch = [d] \<and> or_event_id d = fs_lastEventId r \<and>
    or_fire_revision d = uint (fs_fireRevision r)"
proof -
  obtain s where s: "s \<in> set (fd_states db)" "stateColumns r = Inr s" "sr_channel_id s = ch"
    using selectState_row [OF ok r] by metis
  obtain d where d: "d \<in> set (fd_outbox db)" "retained_of s d" using ok s(1) by (auto simp: fire_store_ok_def)
  let ?p = "\<lambda>d. or_sink_kind d = ''RETAINED_STATE'' \<and> or_channel_id d = ch"
  have "count_rows ?p (fd_outbox db) = (if list_ex ?p (fd_outbox db) then 1 else 0)"
  proof (rule count_one [where key = or_delivery_key])
    show "distinct (map or_delivery_key (fd_outbox db))" using ok by (simp add: fire_store_ok_def)
    show "or_delivery_key x = retainedDeliveryId ch" if "x \<in> set (fd_outbox db)" "?p x" for x
      using outbox_row(1) [OF ok s(1) that(1)] that(2) s(3) by (simp add: retained_of_def)
  qed
  moreover have "list_ex ?p (fd_outbox db)" using d s(3) by (auto simp: list_ex_iff retained_of_def)
  ultimately have "length (retained_rows db ch) = 1" by (simp add: count_rows_def retained_rows_def)
  moreover have "d \<in> set (retained_rows db ch)" using d s(3) by (simp add: retained_rows_def retained_of_def)
  ultimately have "retained_rows db ch = [d]" by (cases "retained_rows db ch") auto
  then show ?thesis using d(2) s(2) by (auto simp: retained_of_def stateColumns_Inr)
qed

lemma lifecycle_rows_one:
  assumes ok: "fire_store_ok db" and r: "alarm_of db ch = Some r"
  shows "if 2 \<le> k \<and> k \<le> uint (fs_fireRevision r)
    then \<exists>d. lifecycle_rows db ch k = [d] \<and> or_event_id d = fireEventId ch (word_of_int k)
    else lifecycle_rows db ch k = []"
proof -
  obtain s where s: "s \<in> set (fd_states db)" "stateColumns r = Inr s" "sr_channel_id s = ch"
    using selectState_row [OF ok r] by metis
  have rev: "sr_fire_revision s = uint (fs_fireRevision r)" using s(2) by (auto simp: stateColumns_Inr)
  let ?p = "\<lambda>d. or_sink_kind d = ''LIFECYCLE_EVENT'' \<and> or_channel_id d = ch \<and> or_fire_revision d = k"
  have life: "lifecycle_of s x" if "x \<in> set (lifecycle_rows db ch k)" for x
    using outbox_row(2) [OF ok s(1)] that s(3) by (auto simp: lifecycle_rows_def)
  show ?thesis
  proof (cases "2 \<le> k \<and> k \<le> uint (fs_fireRevision r)")
    case True
    then obtain d where d: "d \<in> set (fd_outbox db)" "lifecycle_of s d" "or_fire_revision d = k"
      using ok s(1) rev unfolding fire_store_ok_def by metis
    have "count_rows ?p (fd_outbox db) = (if list_ex ?p (fd_outbox db) then 1 else 0)"
    proof (rule count_one [where key = or_delivery_key])
      show "distinct (map or_delivery_key (fd_outbox db))" using ok by (simp add: fire_store_ok_def)
      show "or_delivery_key x = lifecycleDeliveryId (fireEventId ch (word_of_int k))"
        if "x \<in> set (fd_outbox db)" "?p x" for x
        using life [of x] that s(3) by (simp add: lifecycle_rows_def lifecycle_of_def)
    qed
    moreover have mem: "d \<in> set (lifecycle_rows db ch k)"
      using d s(3) by (simp add: lifecycle_rows_def lifecycle_of_def)
    then have "list_ex ?p (fd_outbox db)" by (auto simp: list_ex_iff lifecycle_rows_def)
    ultimately have "length (lifecycle_rows db ch k) = 1" by (simp add: count_rows_def lifecycle_rows_def)
    with mem have "lifecycle_rows db ch k = [d]" by (cases "lifecycle_rows db ch k") auto
    then show ?thesis using True d s(3) by (simp add: lifecycle_of_def)
  next
    case False
    have "x \<notin> set (lifecycle_rows db ch k)" for x
      using life [of x] False rev by (auto simp: lifecycle_of_def lifecycle_rows_def)
    then show ?thesis using False by (metis list.set_intros(1) neq_Nil_conv)
  qed
qed

text \<open>
  C13: The outbox of a reachable database says exactly what happened to the alarms. For every channel with an
  alarm there is exactly one retained row, and it carries the alarm's last event and revision; for every
  revision from the second to the current one there is exactly one lifecycle row, under the event id of
  that revision; there is no lifecycle row of another revision. So no transition is unannounced, none is
  announced twice, and none is invented, whatever fails or restarts.
\<close>

theorem fire_transitions_recorded:
  assumes "fire_reached ctx db" and "alarm_of db ch = Some r"
  shows "(\<exists>d. retained_rows db ch = [d] \<and> or_event_id d = fs_lastEventId r \<and>
      or_fire_revision d = uint (fs_fireRevision r)) \<and>
    (if 2 \<le> k \<and> k \<le> uint (fs_fireRevision r)
     then \<exists>d. lifecycle_rows db ch k = [d] \<and> or_event_id d = fireEventId ch (word_of_int k)
     else lifecycle_rows db ch k = [])"
proof -
  have "fire_store_ok db" using reached_ok [OF assms(1)] by (simp add: fire_db_ok_def)
  then show ?thesis using retained_rows_one lifecycle_rows_one assms(2) by blast
qed

theorem fire_transitions_recorded_witness:
  "\<exists>d e. retained_rows (fst demo_alarm) ''CH1'' = [d] \<and> or_fire_revision d = 2 \<and>
     lifecycle_rows (fst demo_alarm) ''CH1'' 2 = [e] \<and> or_event_id e = ''fire-event:CH1:2''"
proof -
  have "case alarm_of (fst demo_alarm) ''CH1'' of Some r \<Rightarrow> fs_fireRevision r = 2 | None \<Rightarrow> False"
    unfolding demo_alarm_def by code_simp
  then obtain r where r: "alarm_of (fst demo_alarm) ''CH1'' = Some r" "fs_fireRevision r = 2"
    by (auto split: option.splits)
  have "fireEventId ''CH1'' 2 = ''fire-event:CH1:2''" by code_simp
  then show ?thesis using fire_transitions_recorded [OF demo_alarm_reached r(1), of 2] r(2) by auto
qed

section \<open>The queue\<close>

interpretation fire_blocks: invariant_machine "fire_call_step ctx" "\<lambda>s. blocks_ok (fst s)" for ctx
  by unfold_locales (rule blocks_ok_step)

abbreviation fire_worker_after :: "'j FireContext \<Rightarrow> FireDb \<Rightarrow> fire_call list \<Rightarrow> FireWorker" where
  "fire_worker_after ctx db calls \<equiv> fst (final_state (fire_call_step ctx) (started_worker, db) calls)"

text \<open>
  C15: The channel blocks of the worker never deadlock. After any run of calls, with any faults of the
  database, an idle worker with a non-empty queue either takes a command at once or knows a later time at
  which it takes one: every block belongs to a command that is still in the queue.
\<close>

theorem fire_worker_never_stuck:
  assumes "fw_current (fire_worker_after ctx db calls) = None" and "fw_queue (fire_worker_after ctx db calls) \<noteq> []"
  shows "snd (select_command now (fire_worker_after ctx db calls)) = RunCommand \<or>
    (\<exists>t. snd (select_command now (fire_worker_after ctx db calls)) = WaitUntil t \<and> now < t \<and>
       snd (select_command t (fire_worker_after ctx db calls)) = RunCommand)"
  using idle_never_stuck [OF fire_blocks.inv_run assms, of now] started_queue_ok(1) by simp

definition demo_fault_env :: FireEnv where
  "demo_fault_env = demo_fire_env\<lparr>fe_write := SqlBeginFails ''busy''\<rparr>"

definition demo_fire_calls :: "fire_call list" where
  "demo_fire_calls = [SubmitSignal (demo_signal True 5), SubmitSignal (demo_signal False 6), SelectCommand 0,
     FinishCommand demo_fault_env 0]"

theorem fire_worker_never_stuck_witness:
  "\<exists>t. snd (select_command 7 (fire_worker_after demo_fire demo_booted demo_fire_calls)) = WaitUntil t \<and>
     snd (select_command t (fire_worker_after demo_fire demo_booted demo_fire_calls)) = RunCommand"
proof -
  have "fw_current (fire_worker_after demo_fire demo_booted demo_fire_calls) = None" by code_simp
  moreover have "fw_queue (fire_worker_after demo_fire demo_booted demo_fire_calls) \<noteq> []" by code_simp
  moreover have "snd (select_command 7 (fire_worker_after demo_fire demo_booted demo_fire_calls)) \<noteq> RunCommand"
    by code_simp
  ultimately show ?thesis using fire_worker_never_stuck by blast
qed

text \<open>
  C16: Signals and manual clears of a channel are settled in the order of their submission, although a command
  that meets a transient fault goes to the back of the queue: in any run the tickets of the settled
  commands of a channel increase. (Acknowledgements wait for their alarm and may be overtaken.) The bound
  says that the ticket counter does not wrap.
\<close>

theorem fire_commands_settle_in_order:
  assumes "length calls + 1 < 2 ^ 64"
  shows "sorted_wrt (<) (concat (map (settled_tickets ch)
    (snd (run_steps (fire_call_step ctx) (started_worker, db) calls))))"
proof -
  have "unat (fw_nextTicket started_worker) = 1" by (simp add: started_worker_def)
  then have "unat (fw_nextTicket started_worker) + length calls < 2 ^ 64" using assms by linarith
  then show ?thesis
    using settled_in_order [of "(started_worker, db)" calls ch ctx] started_queue_ok unfolding fst_conv by blast
qed

text \<open>The first clear meets a read fault and is requeued; the second waits for it.\<close>

definition demo_clear_calls :: "fire_call list" where
  "demo_clear_calls = [SubmitManualClear ''CH1'', SubmitManualClear ''CH1'', SelectCommand 0,
     FinishCommand (demo_fire_env\<lparr>fe_read := SqlFails ''io''\<rparr>) 0, SelectCommand 9000000000,
     FinishCommand demo_fire_env 0, SelectCommand 9000000000, FinishCommand demo_fire_env 0]"

theorem fire_commands_settle_in_order_witness:
  "concat (map (settled_tickets ''CH1'') (snd (run_steps (fire_call_step demo_fire) (started_worker, demo_booted)
     demo_clear_calls))) = [1, 2] \<and>
   sorted_wrt (<) (concat (map (settled_tickets ''CH1'')
     (snd (run_steps (fire_call_step demo_fire) (started_worker, demo_booted) demo_clear_calls))))"
proof
  show "concat (map (settled_tickets ''CH1'') (snd (run_steps (fire_call_step demo_fire) (started_worker, demo_booted)
     demo_clear_calls))) = [1, 2]" by code_simp
  have "length demo_clear_calls + 1 < 2 ^ 64" by (simp add: demo_clear_calls_def)
  then show "sorted_wrt (<) (concat (map (settled_tickets ''CH1'')
     (snd (run_steps (fire_call_step demo_fire) (started_worker, demo_booted) demo_clear_calls))))"
    by (rule fire_commands_settle_in_order)
qed

section \<open>Rows\<close>

text \<open>
  A state record and a delivery record with positive revisions are read back from their columns as they
  were written, but for a boot id that is cut at a NUL byte: revisions as 64-bit integers, the sequence as
  decimal text, the empty alarm id as NULL, enumerations as their names. The code refuses a revision
  above the SQLite integer range instead of wrapping it.
\<close>

theorem fire_rows_roundtrip:
  assumes "0 < fs_fireRevision r" and "0 < fo_fireRevision d" and "\<forall>a. fo_acknowledgedRevision d = Some a \<longrightarrow> 0 < a"
  shows "(if fs_fireRevision r \<le> kMaxFireRevision
      then \<exists>row. stateColumns r = Inr row \<and> readState row = Inr (stored_state r) else \<exists>e. stateColumns r = Inl e) \<and>
    (if fo_fireRevision d \<le> kMaxFireRevision \<and> fo_attemptCount d \<le> kMaxFireRevision \<and>
       (\<forall>a. fo_acknowledgedRevision d = Some a \<longrightarrow> a \<le> kMaxFireRevision)
     then \<exists>row. deliveryColumns d = Inr row \<and> readDelivery row = Inr d
     else \<exists>e. deliveryColumns d = Inl e)"
proof
  show "if fs_fireRevision r \<le> kMaxFireRevision
      then \<exists>row. stateColumns r = Inr row \<and> readState row = Inr (stored_state r) else \<exists>e. stateColumns r = Inl e"
    using read_written_state [of r] assms(1) by (auto simp: stateColumns_def checkedInt64_def)
  show "if fo_fireRevision d \<le> kMaxFireRevision \<and> fo_attemptCount d \<le> kMaxFireRevision \<and>
       (\<forall>a. fo_acknowledgedRevision d = Some a \<longrightarrow> a \<le> kMaxFireRevision)
     then \<exists>row. deliveryColumns d = Inr row \<and> readDelivery row = Inr d
     else \<exists>e. deliveryColumns d = Inl e"
    using read_written_delivery [of d] assms(2,3)
    by (auto simp: deliveryColumns_def checkedInt64_def split: option.splits)
qed

definition demo_state :: FireAlarmStateRecord where
  "demo_state = \<lparr>fs_channelId = ''CH1'', fs_sensorId = ''F1'', fs_retainedTopic = ''t'', fs_desiredLifecycle = AlarmOpen,
     fs_activeAlarmId = ''a'', fs_lastEventId = ''e'', fs_fireRevision = 7, fs_protocolMode = ProtocolVersioned,
     fs_activeBootId = Some ''b'', fs_lastSourceSequence = Some 18446744073709551615, fs_lastSignalJson = ''{}'',
     fs_updatedAt = ''now''\<rparr>"

definition demo_delivery :: FireOutboxRecord where
  "demo_delivery = makeDelivery RetainedState ''k'' ''t'' demo_state ''e'' ''a'' ''t'' ''{}'' ''now''"

theorem fire_rows_roundtrip_witness:
  "(\<exists>row. stateColumns demo_state = Inr row \<and> readState row = Inr demo_state) \<and>
   (\<exists>row. deliveryColumns demo_delivery = Inr row \<and> readDelivery row = Inr demo_delivery)"
proof -
  have "stored_state demo_state = demo_state" by (simp add: stored_state_def demo_state_def sql_text_def)
  then show ?thesis using fire_rows_roundtrip [of demo_state demo_delivery]
    by (simp add: demo_delivery_def makeDelivery_def demo_state_def kMaxFireRevision_def)
qed

section \<open>The channel mapping\<close>

definition channel_binding_ok :: "string \<Rightarrow> FireChannelBinding \<Rightarrow> bool" where
  "channel_binding_ok prefix b \<longleftrightarrow> fb_sensorId b \<noteq> [] \<and> fb_channelId b \<noteq> [] \<and> CHR ''/'' \<notin> set (fb_sensorId b) \<and>
     CHR ''/'' \<notin> set (fb_channelId b) \<and> fb_retainedTopic b = joinTopic prefix (fb_channelId b)"

lemma parse_binding_Inr:
  assumes "parse_binding prefix entry bindings = Inr b"
  shows "channel_binding_ok prefix b" "fb_sensorId b \<notin> fb_sensorId ` set bindings" "fb_channelId b \<notin> fb_channelId ` set bindings"
    "fb_retainedTopic b \<notin> fb_retainedTopic ` set bindings"
  using assms by (auto simp: parse_binding_def channel_binding_ok_def Let_def split: if_splits)

lemma parse_channel_bindings_ok:
  assumes "parse_channel_bindings prefix entries bindings = (result, [])" and "list_all (channel_binding_ok prefix) bindings"
    and "distinct (map fb_sensorId bindings)" and "distinct (map fb_channelId bindings)"
    and "distinct (map fb_retainedTopic bindings)"
  shows "list_all (channel_binding_ok prefix) result \<and> distinct (map fb_sensorId result) \<and>
    distinct (map fb_channelId result) \<and> distinct (map fb_retainedTopic result)"
  using assms
proof (induction prefix entries bindings rule: parse_channel_bindings.induct)
  case (2 prefix entry entries bindings)
  have "\<exists>b. parse_binding prefix entry bindings = Inr b"
  proof (cases "parse_binding prefix entry bindings")
    case (Inl e)
    then have "e = []" using 2(2) by simp
    then show ?thesis using Inl by (auto simp: parse_binding_def Let_def split: if_splits)
  qed blast
  then obtain b where b: "parse_binding prefix entry bindings = Inr b" by blast
  show ?case
    using 2(1) [OF b] 2(2-) parse_binding_Inr [OF b] b by simp
qed (simp split: if_splits)

text \<open>
  C39: A mapping that the strict parser accepts is one the service accepts: it is not empty, sensors, channels
  and retained topics are one-to-one, no identifier is empty or holds a topic separator, and every
  retained topic is the prefix joined with its channel. So a started process never runs the constructor
  into its mapping errors.
\<close>

theorem parsed_mapping_is_accepted:
  assumes "bindings_valid (parseFireChannelBindingsStrict spec prefix)"
  shows "fst (parseFireChannelBindingsStrict spec prefix) \<noteq> [] \<and> one_to_one (fst (parseFireChannelBindingsStrict spec prefix)) \<and>
    list_all (channel_binding_ok prefix) (fst (parseFireChannelBindingsStrict spec prefix))"
proof -
  obtain bs where bs: "parseFireChannelBindingsStrict spec prefix = (bs, [])" "bs \<noteq> []"
    using assms by (cases "parseFireChannelBindingsStrict spec prefix") (auto simp: bindings_valid_def)
  then have run: "parse_channel_bindings prefix (comma_entries [] spec) [] = (bs, [])" and "fire_trim prefix \<noteq> []"
    by (auto simp: parseFireChannelBindingsStrict_def split: if_splits)
  then have "prefix \<noteq> []" by (auto simp: fire_trim_def)
  moreover have "list_all (channel_binding_ok prefix) bs \<and> distinct (map fb_sensorId bs) \<and> distinct (map fb_channelId bs) \<and>
      distinct (map fb_retainedTopic bs)"
    using parse_channel_bindings_ok [OF run] by simp
  ultimately show ?thesis
    using bs by (auto simp: one_to_one_def list_all_iff channel_binding_ok_def joinTopic_def)
qed

theorem parsed_mapping_is_accepted_witness:
  "fst (parseFireChannelBindingsStrict ''F1=CH1, F2=CH2'' ''fire/state'') \<noteq> [] \<and>
   one_to_one (fst (parseFireChannelBindingsStrict ''F1=CH1, F2=CH2'' ''fire/state''))"
proof -
  have "bindings_valid (parseFireChannelBindingsStrict ''F1=CH1, F2=CH2'' ''fire/state'')" by code_simp
  then show ?thesis using parsed_mapping_is_accepted by blast
qed

end
