(* ===== verification/FireProgress.thy ===== *)
theory FireProgress
  imports FireProps
begin

text \<open>
  Progress of the fire alarm service: with a working database a transition that the rules allow is
  committed. The lemmas walk \<open>applyFireStateMutation\<close> of \<^verbatim>\<open>src/database/EventDatabaseFire.cpp\<close> forward, statement
  by statement.
\<close>

section \<open>The statements succeed\<close>

lemma updateState_works:
  assumes ok: "fire_store_ok db" and cur: "alarm_of db c = Some current" and new: "stateColumns (fm_nextState m) = Inr new"
    and m: "fm_expectedRevision m = fs_fireRevision current" "fs_channelId (fm_nextState m) = c"
      "0 < fs_fireRevision (fm_nextState m)"
    and st: "fd_states db1 = fd_states db"
  shows "\<exists>db2. updateState db1 m = Inr db2"
proof -
  obtain s where s: "s \<in> set (fd_states db)" "stateColumns current = Inr s" "sr_channel_id s = c"
    "fs_fireRevision current \<le> kMaxFireRevision"
    using selectState_row [OF ok cur] by metis
  have id: "sr_channel_id new = c" "0 < sr_fire_revision new"
    using new m(2,3) by (auto simp: stateColumns_Inr word_less_def)
  let ?p = "\<lambda>r. sr_channel_id r = sr_channel_id new \<and> sr_fire_revision r = uint (fs_fireRevision current)"
  have "count_rows ?p (fd_states db) = (if list_ex ?p (fd_states db) then 1 else 0)"
    by (rule count_key [where key = sr_channel_id and k = "sr_channel_id new"]) (use ok in \<open>auto simp: fire_store_ok_def\<close>)
  moreover have "list_ex ?p (fd_states db)"
    using s(1-3) id(1) by (auto simp: list_ex_iff stateColumns_Inr intro!: bexI [of _ s])
  ultimately show ?thesis using s(4) id(2) m(1) by (simp add: updateState_def new st checkedInt64_def)
qed

lemma retained_found:
  assumes ok: "fire_store_ok db" and s: "s \<in> set (fd_states db)" "sr_channel_id s = c"
  obtains d old where "d \<in> set (fd_outbox db)" "retained_of s d" "or_delivery_key d = retainedDeliveryId c"
    "find (\<lambda>d. or_delivery_key d = retainedDeliveryId c) (fd_outbox db) = Some d" "readDelivery d = Inr old"
    "fo_sinkKind old = RetainedState" "fo_channelId old = c" "fo_logicalKey old = sr_retained_topic s"
proof -
  obtain d where d: "d \<in> set (fd_outbox db)" "retained_of s d" using ok s(1) by (auto simp: fire_store_ok_def)
  have key: "or_delivery_key d = retainedDeliveryId c" using d(2) s(2) by (simp add: retained_of_def)
  have "find (\<lambda>x. or_delivery_key x = or_delivery_key d) (fd_outbox db) = Some d"
    using ok d(1) by (intro find_distinct) (simp add: fire_store_ok_def)
  moreover obtain old where old: "readDelivery d = Inr old"
    using ok d(1) by (auto simp: fire_store_ok_def readable_delivery_def)
  moreover have "fo_sinkKind old = RetainedState" "fo_channelId old = c" "fo_logicalKey old = sr_retained_topic s"
    using old d(2) s(2)
    by (auto simp: readDelivery_def retained_of_def fireDeliverySinkFromString_def split: option.splits if_splits)
  ultimately show thesis using that d key by simp
qed

lemma insert_lifecycle_works:
  assumes ok: "fire_store_ok db" and l: "deliveryColumns l = Inr row" "0 < or_fire_revision row" "or_qos row = 1"
      "or_sink_kind row = ''LIFECYCLE_EVENT''" "or_logical_key row = or_event_id row"
      "or_delivery_key row = lifecycleDeliveryId (or_event_id row)"
    and fresh: "or_delivery_key row \<notin> or_delivery_key ` set (fd_outbox db)"
    and keys: "map or_delivery_key (fd_outbox db1) = map or_delivery_key (fd_outbox db)"
      "\<forall>d \<in> set (fd_outbox db1). or_sink_kind d = ''LIFECYCLE_EVENT'' \<longrightarrow> d \<in> set (fd_outbox db)"
    and chan: "\<exists>r \<in> set (fd_states db1). sr_channel_id r = or_channel_id row"
  shows "\<exists>db2. insertDelivery db1 l = Inr db2"
proof -
  have clash: False if d: "d \<in> set (fd_outbox db1)"
    and same: "or_delivery_key d = or_delivery_key row \<or> or_sink_kind d = or_sink_kind row \<and> or_logical_key d = or_logical_key row \<or>
        or_sink_kind d = ''LIFECYCLE_EVENT'' \<and> or_event_id d = or_event_id row" for d
  proof -
    have "or_delivery_key ` set (fd_outbox db1) = or_delivery_key ` set (fd_outbox db)"
      using keys(1) by (metis set_map)
    then have no: "or_delivery_key d \<noteq> or_delivery_key row" using d fresh by (metis imageI)
    with same l(4) have life: "or_sink_kind d = ''LIFECYCLE_EVENT''"
      "or_logical_key d = or_logical_key row \<or> or_event_id d = or_event_id row" by auto
    then have "d \<in> set (fd_outbox db)" using keys(2) d by blast
    then obtain s where "retained_of s d \<or> lifecycle_of s d" using ok unfolding fire_store_ok_def by blast
    then have "lifecycle_of s d" using life(1) by (auto simp: retained_of_def)
    then have "or_delivery_key d = or_delivery_key row" using life(2) l(5,6) by (auto simp: lifecycle_of_def)
    then show False using no by simp
  qed
  have "\<not> list_ex (\<lambda>r. or_delivery_key r = or_delivery_key row \<or>
      (or_sink_kind r = or_sink_kind row \<and> or_logical_key r = or_logical_key row) \<or>
      (or_sink_kind r = ''LIFECYCLE_EVENT'' \<and> or_sink_kind row = ''LIFECYCLE_EVENT'' \<and> or_event_id r = or_event_id row))
      (fd_outbox db1)"
    using clash unfolding list_ex_iff by blast
  moreover have "list_ex (\<lambda>r. sr_channel_id r = or_channel_id row) (fd_states db1)"
    using chan by (simp add: list_ex_iff)
  ultimately show ?thesis using l(1-3) by (simp add: insertDelivery_def)
qed

lemma updateRetained_works:
  assumes ok: "fire_store_ok db" and s: "s \<in> set (fd_states db)" "sr_channel_id s = c"
    and r: "fo_deliveryKey r = retainedDeliveryId c" "fo_fireRevision r \<le> kMaxFireRevision" "0 < fo_fireRevision r"
    and db2: "fd_outbox db2 = fd_outbox db" "\<exists>x \<in> set (fd_states db2). sr_channel_id x = fo_channelId r"
  shows "updateRetained db2 r = Inr (db2\<lparr>fd_outbox := update_rows (\<lambda>d. or_delivery_key d = retainedDeliveryId c)
     (retained_row r (uint (fo_fireRevision r))) (fd_outbox db)\<rparr>)"
proof -
  obtain d where d: "d \<in> set (fd_outbox db)" "or_delivery_key d = retainedDeliveryId c"
    by (rule retained_found [OF ok s])
  let ?p = "\<lambda>d. or_delivery_key d = retainedDeliveryId c"
  have "count_rows ?p (fd_outbox db) = (if list_ex ?p (fd_outbox db) then 1 else 0)"
    by (rule count_key [where key = or_delivery_key]) (use ok in \<open>auto simp: fire_store_ok_def\<close>)
  moreover have "list_ex ?p (fd_outbox db)" using d by (auto simp: list_ex_iff)
  ultimately have one: "count_rows ?p (fd_outbox db) = 1" by simp
  have "list_ex (\<lambda>x. sr_channel_id x = fo_channelId r) (fd_states db2)" using db2(2) by (simp add: list_ex_iff)
  then show ?thesis
    using r one by (simp add: updateRetained_def checkedInt64_Inr checkedInt64_def db2(1) word_less_def word_le_def Let_def not_le not_less)
qed

lemma store_deliveries_works:
  assumes ok: "fire_store_ok db" and s: "s \<in> set (fd_states db)" "sr_channel_id s = c"
    and r: "r = makeDelivery RetainedState (retainedDeliveryId c) (sr_retained_topic s) next e alarmId topic payload at"
    and l: "l = makeDelivery LifecycleEvent (lifecycleDeliveryId e) e next e alarmId topic' payload' at"
    and "next": "fs_channelId next = c" "0 < fs_fireRevision next" "fs_fireRevision next \<le> kMaxFireRevision"
    and fresh: "lifecycleDeliveryId e \<notin> or_delivery_key ` set (fd_outbox db)"
    and db2: "fd_outbox db2 = fd_outbox db" "\<exists>x \<in> set (fd_states db2). sr_channel_id x = c"
  shows "\<exists>db3. store_deliveries db2 next r l = Inr db3"
proof -
  let ?p = "\<lambda>d. or_delivery_key d = retainedDeliveryId c"
  let ?f = "retained_row r (uint (fo_fireRevision r))"
  obtain d old where old: "find ?p (fd_outbox db) = Some d" "readDelivery d = Inr old"
    "fo_sinkKind old = RetainedState" "fo_channelId old = c" "fo_logicalKey old = sr_retained_topic s"
    by (rule retained_found [OF ok s])
  have sel: "selectDelivery db2 (retainedDeliveryId c) = Inr (Some old)"
    using old(1,2) by (simp add: selectDelivery_def db2(1))
  define db1 where "db1 = db2\<lparr>fd_outbox := update_rows ?p ?f (fd_outbox db)\<rparr>"
  have upd: "updateRetained db2 r = Inr db1"
    unfolding db1_def using "next" db2 r by (intro updateRetained_works [OF ok s]) (simp_all add: makeDelivery_def)
  have keys: "map or_delivery_key (fd_outbox db1) = map or_delivery_key (fd_outbox db)"
    unfolding db1_def by (simp add: update_rows_map retained_row_def)
  have kinds: "x \<in> set (fd_outbox db)" if x: "x \<in> set (fd_outbox db1)" "or_sink_kind x = ''LIFECYCLE_EVENT''" for x
  proof -
    obtain y where y: "y \<in> set (fd_outbox db)" "x = (if ?p y then ?f y else y)"
      using set_update_rows [of x ?p ?f "fd_outbox db"] x(1) by (auto simp: db1_def)
    have "\<not> ?p y"
    proof
      assume p: "?p y"
      then obtain t where "retained_of t y" by (rule retained_key [OF ok y(1)])
      then show False using y(2) p x(2) by (simp add: retained_of_def retained_row_def)
    qed
    then show ?thesis using y by simp
  qed
  have "lifecycleDeliveryId e \<notin> or_delivery_key ` set (fd_outbox db1)" using fresh keys by (metis set_map)
  then have "find (\<lambda>d. or_delivery_key d = lifecycleDeliveryId e) (fd_outbox db1) = None"
    by (simp add: find_None_iff) (metis imageI)
  then have none: "selectDelivery db1 (lifecycleDeliveryId e) = Inr None" by (simp add: selectDelivery_def)
  have int64: "checkedInt64 (fs_fireRevision next) f = Inr (uint (fs_fireRevision next))" "checkedInt64 0 f = Inr 0" for f
    using "next"(3) by (simp_all add: checkedInt64_Inr)
  obtain row where row: "deliveryColumns l = Inr row" "0 < or_fire_revision row" "or_qos row = 1"
    "or_sink_kind row = ''LIFECYCLE_EVENT''" "or_logical_key row = or_event_id row" "or_event_id row = e"
    "or_delivery_key row = lifecycleDeliveryId (or_event_id row)" "or_channel_id row = c"
    using "next"(1,2) by (simp add: l makeDelivery_def deliveryColumns_def int64 word_less_def)
  have "\<exists>db3. insertDelivery db1 l = Inr db3"
    by (rule insert_lifecycle_works [OF ok row(1-5,7)]) (use fresh keys kinds row db2 in \<open>simp_all add: db1_def\<close>)
  then show ?thesis
    using sel upd none old(3-5) "next"(1)
    by (simp add: store_deliveries_def r l makeDelivery_def del: try_bind_Inr)
qed

section \<open>The mutation succeeds\<close>

definition ready_state :: "FireAlarmStateRecord \<Rightarrow> bool" where
  "ready_state r \<longleftrightarrow> fs_channelId r \<noteq> [] \<and> fs_sensorId r \<noteq> [] \<and> fs_retainedTopic r \<noteq> [] \<and>
     fs_lastEventId r \<noteq> [] \<and> fs_lastSignalJson r \<noteq> [] \<and> fs_updatedAt r \<noteq> []"

lemma payload_nonempty [simp]: "buildFireJson isoS cam ch sig lc e a v d \<noteq> []"
  by (simp add: buildFireJson_def Let_def)

lemma joinTopic_nonempty: "prefix \<noteq> [] \<Longrightarrow> joinTopic prefix suffix \<noteq> []"
  by (simp add: joinTopic_def)

lemma transition_valid:
  assumes "ready_state next" and "fs_fireRevision next = expected + 1" and "expected < kMaxFireRevision"
    and "fb_channelId b = fs_channelId next" "fb_retainedTopic b = fs_retainedTopic next"
    and "alarmId \<noteq> []" and "fcf_lifecycleTopicPrefix (fx_config ctx) \<noteq> []"
  shows "\<not> invalid_mutation (transition_mutation ctx b expected next signal alarmId)"
proof -
  have rev: "0 < expected + 1" "expected + 1 \<le> kMaxFireRevision" "\<not> kMaxFireRevision < expected" "expected \<noteq> kMaxFireRevision"
    using assms(3) by (auto simp: kMaxFireRevision_def word_less_def word_le_def uint_plus_if')
  then show ?thesis
    using assms joinTopic_nonempty
    by (simp add: invalid_mutation_def transition_mutation_def makeDelivery_def validDelivery_def ready_state_def Let_def not_less)
qed

lemma transition_works:
  assumes ok: "fire_store_ok db" and opened: "fd_opened db" and cur: "alarm_of db c = Some current"
    and binding: "fb_channelId b = c" "fb_retainedTopic b = fs_retainedTopic current"
    and "next": "fs_channelId next = c" "fs_lastEventId next = fireEventId c (fs_fireRevision next)"
      "fs_fireRevision next = fs_fireRevision current + 1" "fs_sensorId next = fs_sensorId current"
      "fs_retainedTopic next = fs_retainedTopic current"
    and room: "fs_fireRevision current < kMaxFireRevision"
    and ready: "ready_state next" "alarmId \<noteq> []" "fcf_lifecycleTopicPrefix (fx_config ctx) \<noteq> []"
    and adv: "advance_cursor db current next = Inr db1"
    and m: "m = transition_mutation ctx b (fs_fireRevision current) next signal alarmId"
  shows "\<exists>db'. applyFireStateMutation SqlWorks db m = Inr (db', mutation_result MutCommitted (fs_fireRevision next) [])"
proof -
  have valid: "\<not> invalid_mutation m"
    unfolding m by (rule transition_valid) (use ready "next" room binding in simp_all)
  have rev: "0 < fs_fireRevision next" "fs_fireRevision next \<le> kMaxFireRevision"
    "fs_fireRevision current \<noteq> fs_fireRevision next" "uint (fs_fireRevision next) = uint (fs_fireRevision current) + 1"
    using room "next"(3) by (auto simp: kMaxFireRevision_def word_less_def word_le_def uint_plus_if')
  obtain new where new: "stateColumns next = Inr new" using rev(2) by (simp add: stateColumns_Inr)
  obtain s where s: "s \<in> set (fd_states db)" "stateColumns current = Inr s" "sr_channel_id s = c"
    using selectState_row [OF ok cur] by metis
  have fields: "fm_nextState m = next" "fm_expectedRevision m = fs_fireRevision current"
    by (simp_all add: m transition_mutation_def Let_def)
  obtain r l payload payload' topic' where rl: "fm_retainedDelivery m = Some r" "fm_lifecycleDelivery m = Some l"
    "r = makeDelivery RetainedState (retainedDeliveryId c) (fs_retainedTopic current) next (fs_lastEventId next)
       alarmId (fs_retainedTopic current) payload (fs_updatedAt next)"
    "l = makeDelivery LifecycleEvent (lifecycleDeliveryId (fs_lastEventId next)) (fs_lastEventId next) next
       (fs_lastEventId next) alarmId topic' payload' (fs_updatedAt next)"
    using binding by (simp add: m transition_mutation_def Let_def)
  have frame: "fd_states db1 = fd_states db" "fd_outbox db1 = fd_outbox db" using advance_cursor_frame [OF adv] by simp_all
  obtain db2 where upd: "updateState db1 m = Inr db2"
    using updateState_works [OF ok cur, of m new db1] fields new "next"(1) rev(1) frame(1) by auto
  obtain new' where put: "stateColumns next = Inr new'" "db2 = db1\<lparr>fd_states := put_state c new' (fd_states db)\<rparr>"
    by (rule updateState_put [OF ok cur _ _ _ _ frame(1) upd]) (use fields "next" in auto)
  have topic: "fs_retainedTopic current = sr_retained_topic s" using s(2) by (auto simp: stateColumns_Inr)
  have fresh: "lifecycleDeliveryId (fs_lastEventId next) \<notin> or_delivery_key ` set (fd_outbox db)"
    using fresh_event [OF ok s(1,3), of "fs_fireRevision next"] rev(4) s(2) "next"(2) by (auto simp: stateColumns_Inr)
  have chan: "\<exists>x \<in> set (fd_states db2). sr_channel_id x = c"
    using put set_put_state [OF s(1,3), of new'] "next"(1) by (auto simp: stateColumns_Inr)
  obtain db3 where del: "store_deliveries db2 next r l = Inr db3"
    using store_deliveries_works [OF ok s(1,3) rl(3)[unfolded topic] rl(4) "next"(1) rev(1,2) fresh _ chan] put(2) frame(2)
    by auto
  have "mutation_transaction db m = Inr (db3, mutation_result MutCommitted (fs_fireRevision next) [])"
    using selectState_ok [OF ok, of c] cur rev(3) upd del fields rl(1,2) adv "next"
    by (simp add: mutation_transaction_def Let_def del: try_bind_Inr)
  then show ?thesis using valid opened by (simp add: applyFireStateMutation_def)
qed

section \<open>A frame that the rules accept\<close>

lemma evaluate_local:
  assumes "seq_mode s = seq_mode t" and "seq_activeBootId s = seq_activeBootId t"
    and "seq_lastSequence s = seq_lastSequence t"
    and "\<And>b. fact_bootId f = Some b \<Longrightarrow> b \<in> seq_retiredBootIds s \<longleftrightarrow> b \<in> seq_retiredBootIds t"
  shows "evaluateSensorSequence s f = evaluateSensorSequence t f"
  using assms by (auto simp: evaluateSensorSequence_def evaluateLegacySequence_def evaluateVersionedSequence_def split: option.splits)

lemma advance_works:
  assumes acc: "accepted (evaluateSensorSequence (durable_cursor db current) (signal_fact signal))"
    and "next": "fs_protocolMode next = protocolFor signal" "fs_activeBootId next = fg_sourceBootId signal"
      "fs_lastSourceSequence next = fg_sourceSequence signal" "fs_sensorId next = fs_sensorId current"
  shows "\<exists>db1. advance_cursor db current next = Inr db1"
proof -
  have "state_fact next = signal_fact signal"
    using "next" by (cases "fg_sourceProtocolVersion signal") (simp_all add: state_fact_def signal_fact_def protocolFor_def)
  moreover have "evaluateSensorSequence (fire_cursor db (fs_sensorId next) current (fs_activeBootId next)) (signal_fact signal) =
      evaluateSensorSequence (durable_cursor db current) (signal_fact signal)"
    by (rule evaluate_local) (auto simp: fire_cursor_def durable_cursor_def signal_fact_def "next")
  moreover have "fs_protocolMode next \<noteq> ProtocolUnseen" by (simp add: "next" protocolFor_def)
  ultimately show ?thesis using acc by (simp add: advance_cursor_def Let_def split: option.splits)
qed

lemma accepted_not_duplicate: "accepted d \<Longrightarrow> fst d \<noteq> Duplicate"
  by (auto simp: accepted_def)

lemma signal_cursor_durable:
  assumes agree: "\<not> fields_disagree signal"
    and ret: "\<And>boot. fg_sourceBootId signal = Some boot \<Longrightarrow> fg_sourceProtocolVersion signal = BootEpochV2 \<Longrightarrow>
        retired = boot_retired db (fs_sensorId current) boot"
  shows "evaluateSensorSequence (signal_cursor current signal retired) (signal_fact signal) =
    evaluateSensorSequence (durable_cursor db current) (signal_fact signal)"
proof (cases "fg_sourceProtocolVersion signal")
  case LegacyV1
  then have "fg_sourceBootId signal = None" using agree by (auto simp: fields_disagree_def Let_def)
  then show ?thesis by (intro evaluate_local) (auto simp: signal_cursor_def durable_cursor_def signal_fact_def)
next
  case BootEpochV2
  show ?thesis
    by (rule evaluate_local) (use ret BootEpochV2 in \<open>auto simp: signal_cursor_def durable_cursor_def signal_fact_def\<close>)
qed

lemma judge_accepts:
  assumes acc: "accepted (evaluateSensorSequence (durable_cursor db current) (signal_fact signal))"
    and ret: "\<And>boot. fg_sourceBootId signal = Some boot \<Longrightarrow> fg_sourceProtocolVersion signal = BootEpochV2 \<Longrightarrow>
        retired = boot_retired db (fs_sensorId current) boot"
    and doc: "serializeSignal (fx_api ctx) signal = Inr encoded" and agree: "\<not> fields_disagree signal"
  shows "judge_signal ctx env db t signal b current retired = commit_signal ctx env db t signal b current
     (next_cursor current signal encoded (fa_iso (fx_api ctx) (fe_now env)))"
proof -
  have "evaluateSensorSequence (signal_cursor current signal retired) (signal_fact signal) =
      evaluateSensorSequence (durable_cursor db current) (signal_fact signal)"
    by (rule signal_cursor_durable [OF agree ret])
  then show ?thesis using acc doc accepted_not_duplicate [OF acc] by (simp add: judge_signal_def Let_def)
qed

text \<open>The outside cooperates: SQLite works, the boundary opens, the clock prints a non-empty text.\<close>

definition fire_env_works :: "'j FireContext \<Rightarrow> FireEnv \<Rightarrow> bool" where
  "fire_env_works ctx env \<longleftrightarrow> fe_read env = SqlWorks \<and> fe_bootRead env = SqlWorks \<and> fe_write env = SqlWorks \<and>
     (fx_hasBoundary ctx \<longrightarrow> fe_beginOk env) \<and> fa_iso (fx_api ctx) (fe_now env) \<noteq> []"

definition fire_configured :: "'j FireContext \<Rightarrow> bool" where
  "fire_configured ctx \<longleftrightarrow> configuration_error (fx_config ctx) (fx_bindings ctx) True = []"

lemma commit_detection:
  assumes ok: "fire_store_ok db" and opened: "fd_opened db" and prefix: "fcf_lifecycleTopicPrefix (fx_config ctx) \<noteq> []"
    and names: "fb_channelId b \<noteq> []" "fb_sensorId b \<noteq> []" "fb_retainedTopic b \<noteq> []"
    and sensor: "fs_sensorId current = fb_sensorId b" "fs_retainedTopic current = fb_retainedTopic b"
    and s: "fg_detected s" and acc: "accepted (evaluateSensorSequence (durable_cursor db current) (signal_fact s))"
    and cur: "alarm_of db (fb_channelId b) = Some current" "fs_desiredLifecycle current = AlarmResolved"
      "fs_fireRevision current < kMaxFireRevision"
    and doc: "encoded \<noteq> []" and env: "fire_env_works ctx env"
  obtains db' new where "commit_signal ctx env db t s b current (next_cursor current s encoded (fa_iso (fx_api ctx) (fe_now env))) =
      Inr (db', fire_result t FireDurablyCommitted (fb_channelId b) (fs_fireRevision current + 1) [])"
    "alarm_of db' (fb_channelId b) = Some new"
    "status_of new = (AlarmOpen, fireAlarmId (fb_channelId b) (fs_fireRevision current + 1), fs_fireRevision current + 1)"
proof -
  let ?ch = "fb_channelId b" and ?rev = "fs_fireRevision current + 1"
  define next0 where "next0 = next_cursor current s encoded (fa_iso (fx_api ctx) (fe_now env))"
  define next1 where "next1 = next0\<lparr>fs_fireRevision := ?rev, fs_lastEventId := fireEventId ?ch ?rev,
      fs_desiredLifecycle := AlarmOpen, fs_activeAlarmId := fireAlarmId ?ch ?rev\<rparr>"
  have chan: "fs_channelId current = ?ch" using selectState_row [OF ok cur(1)] by metis
  have n: "fs_channelId next1 = ?ch" "fs_lastEventId next1 = fireEventId ?ch (fs_fireRevision next1)" "fs_fireRevision next1 = ?rev"
    "fs_sensorId next1 = fs_sensorId current" "fs_retainedTopic next1 = fs_retainedTopic current"
    "fs_protocolMode next1 = protocolFor s" "fs_activeBootId next1 = fg_sourceBootId s"
    "fs_lastSourceSequence next1 = fg_sourceSequence s" "ready_state next1"
    "status_of next1 = (AlarmOpen, fireAlarmId ?ch ?rev, ?rev)"
    using chan names sensor doc env
    by (simp_all add: next1_def next0_def next_cursor_def ready_state_def fire_env_works_def status_of_def)
  obtain db1 where adv: "advance_cursor db current next1 = Inr db1"
    using advance_works [OF acc n(6-8,4)] by blast
  obtain db' where apply_ok: "applyFireStateMutation SqlWorks db
      (transition_mutation ctx b (fs_fireRevision current) next1 s (fireAlarmId ?ch ?rev)) =
      Inr (db', mutation_result MutCommitted ?rev [])"
    using transition_works [OF ok opened cur(1) refl sensor(2)[symmetric] n(1-5) cur(3) n(9) _ prefix adv refl]
      fire_ids_nonempty(2) n(3) by metis
  have "fs_fireRevision current \<noteq> kMaxFireRevision" "\<not> (fx_hasBoundary ctx \<and> \<not> fe_beginOk env)" "fe_write env = SqlWorks"
    using cur(3) env by (auto simp: fire_env_works_def)
  then have "commit_signal ctx env db t s b current next0 = Inr (db', fire_result t FireDurablyCommitted ?ch ?rev [])"
    using apply_ok s cur(2)
    by (simp add: commit_signal_def Let_def activeLifecycle_def next1_def [symmetric] applyTransition_def
        finish_mutation_def mutationResult_def mutation_result_def fire_result_def del: de_Morgan_conj)
  moreover have "alarm_of db' ?ch = Some (stored_state next1)"
    using transition_committed [OF ok cur(1) refl sensor(2)[symmetric] n(1-5) refl apply_ok]
    by (auto simp: mutation_result_def committed_to_def)
  ultimately show thesis using that [of db' "stored_state next1"] n(10) unfolding next0_def by simp
qed

text \<open>
  C14: A fire is not missed. On a reachable, open database, when a mapped sensor reports a detection while the
  channel's alarm is resolved, the frame's protocol fields agree, the durable cursor of the channel
  accepts it, the signal serializes and the database works, then the command commits: the alarm is open
  under a fresh id with the next revision, whatever happened before.
\<close>

theorem fire_detection_opens_alarm:
  assumes reached: "fire_reached ctx db" and opened: "fd_opened db" and conf: "fire_configured ctx"
    and b: "findBySensor (fx_bindings ctx) (fg_sensorId (fc_signal c)) = Some b"
    and c: "fc_kind c = SignalCommand" "fg_detected (fc_signal c)" "\<not> fields_disagree (fc_signal c)"
    and cur: "alarm_of db (fb_channelId b) = Some current" "fs_desiredLifecycle current = AlarmResolved"
      "fs_fireRevision current < kMaxFireRevision"
    and acc: "accepted (evaluateSensorSequence (durable_cursor db current) (signal_fact (fc_signal c)))"
    and doc: "serializeSignal (fx_api ctx) (fc_signal c) = Inr encoded" "encoded \<noteq> []"
    and env: "fire_env_works ctx env"
  shows "\<exists>db' r new. process_fire ctx env db c = Inr (db', r) \<and> fr_status r = FireDurablyCommitted \<and>
    alarm_of db' (fb_channelId b) = Some new \<and>
    status_of new = (AlarmOpen, fireAlarmId (fb_channelId b) (fs_fireRevision current + 1), fs_fireRevision current + 1)"
proof -
  let ?s = "fc_signal c" and ?ch = "fb_channelId b"
  have ok: "fire_store_ok db" "mapped ctx db" using reached_ok [OF reached] by (simp_all add: fire_db_ok_def)
  note bs = findBySensor_Some [OF b]
  have names: "?ch \<noteq> []" "fb_sensorId b \<noteq> []" "fb_retainedTopic b \<noteq> []" and prefix: "fcf_lifecycleTopicPrefix (fx_config ctx) \<noteq> []"
    using conf bs by (auto simp: fire_configured_def configuration_error_def one_to_one_def list_all_iff split: if_splits)
  have sensor: "fs_sensorId current = fb_sensorId b" "fs_retainedTopic current = fb_retainedTopic b" "fg_sensorId ?s = fb_sensorId b"
    using ok(2) bs cur(1) by (auto simp: mapped_def)
  obtain db' new where commit: "commit_signal ctx env db (fc_ticket c) ?s b current
        (next_cursor current ?s encoded (fa_iso (fx_api ctx) (fe_now env))) =
      Inr (db', fire_result (fc_ticket c) FireDurablyCommitted ?ch (fs_fireRevision current + 1) [])"
    "alarm_of db' ?ch = Some new"
    "status_of new = (AlarmOpen, fireAlarmId ?ch (fs_fireRevision current + 1), fs_fireRevision current + 1)"
    by (rule commit_detection [OF ok(1) opened prefix names sensor(1,2) c(2) acc cur doc(2) env])
  have "\<exists>x. lookup_retired env db ?s = Inr x \<and>
      (\<forall>boot. fg_sourceBootId ?s = Some boot \<longrightarrow> fg_sourceProtocolVersion ?s = BootEpochV2 \<longrightarrow>
         x = boot_retired db (fs_sensorId current) boot)"
    using c(3) names(2) sensor env opened
    by (auto simp: lookup_retired_def isSensorBootIdRetired_def boot_retired_def fields_disagree_def fire_env_works_def
        Let_def split: option.splits)
  then obtain x where x: "lookup_retired env db ?s = Inr x" "judge_signal ctx env db (fc_ticket c) ?s b current x =
      commit_signal ctx env db (fc_ticket c) ?s b current (next_cursor current ?s encoded (fa_iso (fx_api ctx) (fe_now env)))"
    using judge_accepts [OF acc _ doc(1) c(3)] by blast
  have "getFireAlarmState (fe_read env) db ?ch = Inr (Some current)"
    using env opened names selectState_ok [OF ok(1)] cur(1) by (simp add: getFireAlarmState_def fire_env_works_def)
  then have "process_fire ctx env db c = Inr (db', fire_result (fc_ticket c) FireDurablyCommitted ?ch (fs_fireRevision current + 1) [])"
    using c(1,3) b x commit(1) by (simp add: process_fire_def processSignal_def)
  then show ?thesis using commit(2,3) by (auto simp: fire_result_def)
qed

theorem fire_detection_opens_alarm_witness:
  "\<exists>db r new. process_fire demo_fire demo_fire_env demo_booted (demo_command 1 True 5) = Inr (db, r) \<and>
     fr_status r = FireDurablyCommitted \<and> alarm_of db ''CH1'' = Some new \<and> status_of new = (AlarmOpen, ''fire-alarm:CH1:2'', 2)"
proof -
  let ?b = "\<lparr>fb_sensorId = ''F1'', fb_channelId = ''CH1'', fb_retainedTopic = ''fire/state/CH1''\<rparr>"
  have "case alarm_of demo_booted ''CH1'' of None \<Rightarrow> False | Some r \<Rightarrow> fs_desiredLifecycle r = AlarmResolved \<and>
      fs_fireRevision r = 1 \<and> fs_protocolMode r = ProtocolUnseen"
    by code_simp
  then obtain current where cur: "alarm_of demo_booted ''CH1'' = Some current" "fs_desiredLifecycle current = AlarmResolved"
    "fs_fireRevision current = 1" "fs_protocolMode current = ProtocolUnseen" by (auto split: option.splits)
  have "boot_retired demo_booted (fs_sensorId current) ''b1'' \<longleftrightarrow> False"
  proof -
    have "fd_retired demo_booted = []" by code_simp
    then show ?thesis by (simp add: boot_retired_def)
  qed
  then have acc: "accepted (evaluateSensorSequence (durable_cursor demo_booted current) (signal_fact (demo_signal True 5)))"
    using cur(4) by (simp add: evaluate_defs durable_cursor_def signal_fact_def demo_signal_def sequenceModeFor_def accepted_def)
  have "fire_configured demo_fire" "findBySensor (fx_bindings demo_fire) ''F1'' = Some ?b" "fd_opened demo_booted"
    by code_simp+
  then obtain db r new where "process_fire demo_fire demo_fire_env demo_booted (demo_command 1 True 5) = Inr (db, r)"
    "fr_status r = FireDurablyCommitted" "alarm_of db ''CH1'' = Some new"
    "status_of new = (AlarmOpen, fireAlarmId ''CH1'' (1 + 1), 1 + 1)"
    using fire_detection_opens_alarm [OF demo_booted_reached, of "demo_command 1 True 5" ?b current "''{}''" demo_fire_env]
      cur acc
    by (auto simp: demo_command_def new_command_def demo_signal_def kMaxFireRevision_def fields_disagree_def
        serializeSignal_def demo_fire_def demo_fire_api_def fire_env_works_def demo_fire_env_def)
  moreover have "fireAlarmId ''CH1'' (1 + 1) = ''fire-alarm:CH1:2''" by code_simp
  ultimately show ?thesis by auto
qed

text \<open>
  C40: A defect: an accepted signal whose document the JSON library cannot print (a boot id with a byte that is
  no UTF-8 makes \<open>dump()\<close> throw) is retried for ever. Whatever the outside does, the worker's round puts the
  command back with the channel's block, so that no other signal or clear of the channel can be selected
  while it waits, and the database never changes.
\<close>

theorem unserializable_signal_blocks_channel:
  assumes reached: "fire_reached ctx db" and opened: "fd_opened db"
    and b: "findBySensor (fx_bindings ctx) (fg_sensorId (fc_signal c)) = Some b" "fc_channelId c = fb_channelId b"
      "fb_channelId b \<noteq> []" "fb_sensorId b \<noteq> []"
    and c: "fc_kind c = SignalCommand" "\<not> fields_disagree (fc_signal c)" "fw_current w = Some c"
    and cur: "alarm_of db (fb_channelId b) = Some current"
    and acc: "accepted (evaluateSensorSequence (durable_cursor db current) (signal_fact (fc_signal c)))"
    and doc: "serializeSignal (fx_api ctx) (fc_signal c) = Inl e"
  shows "finish_fire_command ctx env now w db = (requeue_command ctx now w c True, db, None) \<and>
    c\<lparr>fc_retryCount := fc_retryCount c + 1, fc_retryAfter := Some (now + fcf_transientFailureRetryDelay (fx_config ctx)),
      fc_holdsChannelBlock := True\<rparr> \<in> set (fw_queue (requeue_command ctx now w c True)) \<and>
    (fc_channelId d = fc_channelId c \<and> fc_ticket d \<noteq> fc_ticket c \<longrightarrow>
       \<not> unblocked (fw_blocked (requeue_command ctx now w c True)) d)"
proof -
  let ?s = "fc_signal c"
  have ok: "fire_store_ok db" "mapped ctx db" using reached_ok [OF reached] by (simp_all add: fire_db_ok_def)
  note bs = findBySensor_Some [OF b(1)]
  have sensor: "fs_sensorId current = fg_sensorId ?s" using ok(2) bs cur by (auto simp: mapped_def)
  have judge: "judge_signal ctx env db t ?s b current x = Inl e"
    if "lookup_retired env db ?s = Inr x" for x t
  proof -
    have x: "x = boot_retired db (fs_sensorId current) boot"
      if "fg_sourceBootId ?s = Some boot" "fg_sourceProtocolVersion ?s = BootEpochV2" for boot
      using \<open>lookup_retired env db ?s = Inr x\<close> that c(2) b(4) bs opened sensor
      by (auto simp: lookup_retired_def isSensorBootIdRetired_def boot_retired_def fields_disagree_def split: if_splits)
    have "evaluateSensorSequence (signal_cursor current ?s x) (signal_fact ?s) =
        evaluateSensorSequence (durable_cursor db current) (signal_fact ?s)"
      by (rule signal_cursor_durable [OF c(2) x])
    then show ?thesis using acc doc accepted_not_duplicate [OF acc] by (simp add: judge_signal_def Let_def)
  qed
  have "\<exists>e'. process_fire ctx env db c = Inl e'"
  proof (cases "getFireAlarmState (fe_read env) db (fb_channelId b)")
    case (Inr found)
    then have "found = Some current"
      using opened b(3) selectState_ok [OF ok(1)] cur by (auto simp: getFireAlarmState_def split: if_splits)
    then show ?thesis
      using Inr b(1) c(1,2) judge by (cases "lookup_retired env db ?s") (auto simp: process_fire_def processSignal_def)
  qed (use b(1) c(1) in \<open>simp add: process_fire_def processSignal_def\<close>)
  then have "finish_fire_command ctx env now w db = (requeue_command ctx now w c True, db, None)"
    using c(3) by (auto simp: finish_fire_command_def retryableResult_def fire_result_def)
  then show ?thesis by (auto simp: requeue_command_def Let_def unblocked_def um_find_put)
qed

definition demo_utf8_fire :: "unit FireContext" where
  "demo_utf8_fire = demo_fire\<lparr>fx_api := demo_fire_api\<lparr>fa_dump := (\<lambda>doc.
     if (''source_boot_id'', FjString [CHR 0xFF]) \<in> set doc then Inl ''invalid UTF-8 byte'' else Inr ''{}'')\<rparr>\<rparr>"

definition demo_bad_command :: FireCommand where
  "demo_bad_command = (new_command SignalCommand ((demo_signal True 5)\<lparr>fg_sourceBootId := Some [CHR 0xFF]\<rparr>) ''CH1'' [])
     \<lparr>fc_ticket := 1\<rparr>"

theorem unserializable_signal_blocks_channel_witness:
  "finish_fire_command demo_utf8_fire demo_fire_env 0 (started_worker\<lparr>fw_current := Some demo_bad_command\<rparr>) demo_booted =
     (requeue_command demo_utf8_fire 0 (started_worker\<lparr>fw_current := Some demo_bad_command\<rparr>) demo_bad_command True,
      demo_booted, None)"
proof -
  let ?b = "\<lparr>fb_sensorId = ''F1'', fb_channelId = ''CH1'', fb_retainedTopic = ''fire/state/CH1''\<rparr>"
  have "fire_initialize demo_utf8_fire 0 SqlWorks SqlWorks demo_empty = Inr (demo_booted, True, [])" by code_simp
  then have "fire_history demo_utf8_fire demo_empty demo_booted"
    by (intro r_into_rtranclp fire_db_step.restarted)
  moreover have "distinct (map fb_channelId (fx_bindings demo_utf8_fire))" by code_simp
  ultimately have reached: "fire_reached demo_utf8_fire demo_booted"
    unfolding fire_reached_def by (intro conjI exI [of _ demo_empty]) (simp_all add: demo_empty_def)
  have "case alarm_of demo_booted ''CH1'' of None \<Rightarrow> False | Some r \<Rightarrow> fs_protocolMode r = ProtocolUnseen"
    by code_simp
  then obtain current where cur: "alarm_of demo_booted ''CH1'' = Some current" "fs_protocolMode current = ProtocolUnseen"
    by (auto split: option.splits)
  have "fd_retired demo_booted = []" by code_simp
  then have acc: "accepted (evaluateSensorSequence (durable_cursor demo_booted current) (signal_fact (fc_signal demo_bad_command)))"
    using cur(2) by (simp add: evaluate_defs durable_cursor_def signal_fact_def demo_bad_command_def new_command_def
        demo_signal_def sequenceModeFor_def accepted_def boot_retired_def)
  have facts: "findBySensor (fx_bindings demo_utf8_fire) ''F1'' = Some ?b" "fd_opened demo_booted"
    "serializeSignal (fx_api demo_utf8_fire) (fc_signal demo_bad_command) = Inl ''invalid UTF-8 byte''"
    by code_simp+
  show ?thesis
    using unserializable_signal_blocks_channel [OF reached facts(2), of demo_bad_command ?b
        "started_worker\<lparr>fw_current := Some demo_bad_command\<rparr>" current _ demo_fire_env 0] facts cur(1) acc
    by (simp add: demo_bad_command_def new_command_def demo_signal_def fields_disagree_def)
qed

end
