(* ===== verification/FireDelivery.thy ===== *)
theory FireDelivery
  imports FireService
begin

text \<open>
  The fire delivery coordinator of \<^verbatim>\<open>src/event/FireDeliveryCoordinator.cpp\<close>: it publishes the outbox over
  MQTT, retained states before lifecycle events, and tells the fire service and the regular publishers
  when a channel's retained state has reached the broker.

  The object is shared by the transport's callbacks, the fire service and its own worker thread. A call
  from outside is one critical section of the mutex, so one function here. The worker's loop is cut where
  another thread can come between: at every critical section, every database call and every call of the
  publisher. \<open>WorkerPc\<close> says where the worker stands; \<open>worker_step\<close> is the step from there to the next cut.
  Calls on worker-only data between two cuts belong to the step. \<open>std::map\<close> is an association list, its
  order does not matter here.
\<close>

section \<open>Transport\<close>

datatype MqttTransportFactKind = FactConnected | FactDisconnected | FactSubscriptionAcknowledged
  | FactSubscriptionsReady | FactPublishAcknowledged | FactEpochFaulted

record MqttTransportFact =
  mf_kind :: MqttTransportFactKind
  mf_epoch :: "64 word"
  mf_messageId :: int
  mf_reason :: int
  mf_subscriptionTopic :: string
  mf_grantedQos :: "int list"

record MqttTrackedPublishResult =
  mp_accepted :: bool
  mp_epoch :: "64 word"
  mp_messageId :: int
  mp_deliveryKey :: string
  mp_revision :: "64 word"
  mp_attemptId :: string

section \<open>State\<close>

record DeliveryConfig =
  dg_channelIds :: "string list"
  dg_factQueueCapacity :: nat
  dg_localFailureRetryDelay :: int
  dg_pubAckTimeout :: int
  dg_regularEgressDrainTimeout :: int
  dg_hasPublisher :: bool
  dg_hasFaultHandler :: bool

record DeliveryAttempt =
  at_delivery :: FireOutboxRecord
  at_attemptId :: string
  at_submittedAt :: int

text \<open>The last six fields belong to the worker alone; the others are guarded by the mutex.\<close>

record DeliveryCoordinator =
  dc_facts :: "MqttTransportFact list"
  dc_ready :: "(string, bool) umap"
  dc_readyRevision :: "(string, 64 word) umap"
  dc_mutationDepth :: "(string, nat) umap"
  dc_running :: bool
  dc_acceptingFacts :: bool
  dc_stopRequested :: bool
  dc_outboxChanged :: bool
  dc_factOverflow :: bool
  dc_factOverflowEpoch :: "64 word option"
  dc_lifecycleRelease :: bool
  dc_activeEgress :: nat
  dc_deliveryIdle :: bool
  dc_outboxGeneration :: "64 word"
  dc_readinessGeneration :: "64 word"
  dc_egressEpoch :: "64 word"
  dc_egressGeneration :: "64 word"
  dc_activeEpoch :: "64 word"
  dc_subscriptionsReady :: bool
  dc_syncedRevision :: "(string, 64 word) umap"
  dc_inFlight :: "(64 word \<times> int, DeliveryAttempt) umap"
  dc_nextAttemptId :: "64 word"
  dc_retryAfter :: "(string, int) umap"

definition newDeliveryCoordinator :: "DeliveryConfig \<Rightarrow> DeliveryCoordinator" where
  "newDeliveryCoordinator config =
     (let channels = dg_channelIds config in
      \<lparr>dc_facts = [], dc_ready = foldl (\<lambda>m c. um_emplace c False m) [] channels,
       dc_readyRevision = foldl (\<lambda>m c. um_emplace c 0 m) [] channels,
       dc_mutationDepth = foldl (\<lambda>m c. um_emplace c 0 m) [] channels,
       dc_running = False, dc_acceptingFacts = False, dc_stopRequested = False, dc_outboxChanged = False,
       dc_factOverflow = False, dc_factOverflowEpoch = None, dc_lifecycleRelease = False,
       dc_activeEgress = 0, dc_deliveryIdle = False, dc_outboxGeneration = 0, dc_readinessGeneration = 0,
       dc_egressEpoch = 0, dc_egressGeneration = 0, dc_activeEpoch = 0, dc_subscriptionsReady = False,
       dc_syncedRevision = [], dc_inFlight = [], dc_nextAttemptId = 1, dc_retryAfter = []\<rparr>)"

definition invalidateRegularEgress :: "DeliveryCoordinator \<Rightarrow> DeliveryCoordinator" where
  "invalidateRegularEgress c =
     c\<lparr>dc_outboxGeneration := dc_outboxGeneration c + 1,
       dc_readinessGeneration := (let g = dc_readinessGeneration c + 1 in if g = 0 then g + 1 else g),
       dc_egressEpoch := 0, dc_egressGeneration := 0, dc_deliveryIdle := False\<rparr>"

definition failCloseAllReadiness :: "DeliveryCoordinator \<Rightarrow> DeliveryCoordinator" where
  "failCloseAllReadiness c =
     invalidateRegularEgress (c\<lparr>dc_ready := map (\<lambda>(channel, _). (channel, False)) (dc_ready c),
       dc_readyRevision := foldl (\<lambda>m channel. um_put channel 0 m) (dc_readyRevision c) (map fst (dc_ready c))\<rparr>)"

definition all_channels_ready :: "DeliveryCoordinator \<Rightarrow> bool" where
  "all_channels_ready c \<longleftrightarrow> dc_ready c \<noteq> [] \<and> list_all snd (dc_ready c)"

definition no_open_mutation :: "DeliveryCoordinator \<Rightarrow> bool" where
  "no_open_mutation c \<longleftrightarrow> list_all (\<lambda>(_, depth). depth = 0) (dc_mutationDepth c)"

section \<open>Calls from outside\<close>

text \<open>\<open>start()\<close>: left is an exception of the database.\<close>

definition delivery_start ::
  "DeliveryConfig \<Rightarrow> FireSql \<Rightarrow> string \<Rightarrow> DeliveryCoordinator \<Rightarrow> FireDb \<Rightarrow>
     string + DeliveryCoordinator \<times> FireDb \<times> bool" where
  "delivery_start config sql current_timestamp c db =
     (let channels = dg_channelIds config in
      if dc_running c \<or> \<not> dg_hasPublisher config \<or> channels = [] \<or> dg_factQueueCapacity config = 0 \<or>
         dg_pubAckTimeout config \<le> 0 \<or> dg_regularEgressDrainTimeout config \<le> 0 \<or>
         [] \<in> set channels \<or> \<not> distinct channels
      then Inr (c, db, False)
      else try_bind (listFireRetainedDeliveries sql db) (\<lambda>retained.
        if length retained \<noteq> length channels \<or> \<not> list_all (\<lambda>row. fo_channelId row \<in> set channels) retained
        then Inr (c, db, False)
        else
          let (db1, reset) = resetFireInFlightDeliveries sql current_timestamp db in
          if \<not> reset then Inr (c, db1, False)
          else Inr (failCloseAllReadiness (c\<lparr>dc_stopRequested := False, dc_acceptingFacts := True,
                 dc_running := True\<rparr>), db1, True)))"

definition closes_readiness :: "MqttTransportFact \<Rightarrow> bool" where
  "closes_readiness event \<longleftrightarrow>
     mf_kind event \<in> {FactConnected, FactSubscriptionsReady, FactDisconnected, FactEpochFaulted}"

definition enqueueTransportFact ::
  "DeliveryConfig \<Rightarrow> DeliveryCoordinator \<Rightarrow> MqttTransportFact \<Rightarrow> DeliveryCoordinator \<times> bool" where
  "enqueueTransportFact config c event =
     (if \<not> dc_running c \<or> \<not> dc_acceptingFacts c then (c, False)
      else
        let c1 = (if closes_readiness event then failCloseAllReadiness c else c) in
        if length (dc_facts c1) \<ge> dg_factQueueCapacity config
        then (failCloseAllReadiness (c1\<lparr>dc_factOverflow := True,
                dc_factOverflowEpoch := (if mf_epoch event \<noteq> 0 then Some (mf_epoch event) else dc_factOverflowEpoch c1)\<rparr>),
              False)
        else (c1\<lparr>dc_facts := dc_facts c1 @ [event]\<rparr>, True))"

definition notifyOutboxChanged :: "DeliveryCoordinator \<Rightarrow> string \<Rightarrow> DeliveryCoordinator" where
  "notifyOutboxChanged c channelId =
     (let c1 = (if um_contains (dc_ready c) channelId
                then c\<lparr>dc_ready := um_put channelId False (dc_ready c),
                       dc_readyRevision := um_put channelId 0 (dc_readyRevision c)\<rparr>
                else c) in
      (invalidateRegularEgress c1)\<lparr>dc_outboxChanged := True\<rparr>)"

text \<open>
  \<open>beginDomainMutation\<close> releases the mutex while it waits for the regular publishers to leave, so it has two
  parts: \<open>None\<close> is the early refusal, \<open>finishMutationWait\<close> runs when the wait ends (by its condition or by
  its timeout).
\<close>

definition enterDomainMutation :: "DeliveryCoordinator \<Rightarrow> string \<Rightarrow> DeliveryCoordinator option" where
  "enterDomainMutation c channelId =
     (if \<not> dc_running c \<or> dc_stopRequested c then None
      else case um_find (dc_mutationDepth c) channelId of
          None \<Rightarrow> None
        | Some depth \<Rightarrow>
            if dc_lifecycleRelease c then None
            else Some ((invalidateRegularEgress (c\<lparr>dc_mutationDepth := um_put channelId (depth + 1) (dc_mutationDepth c),
                   dc_ready := um_put channelId False (dc_ready c),
                   dc_readyRevision := um_put channelId 0 (dc_readyRevision c)\<rparr>))\<lparr>dc_outboxChanged := True\<rparr>))"

definition egress_drained :: "DeliveryCoordinator \<Rightarrow> bool" where
  "egress_drained c \<longleftrightarrow> dc_activeEgress c = 0 \<or> dc_stopRequested c"

definition leave_mutation :: "DeliveryCoordinator \<Rightarrow> string \<Rightarrow> DeliveryCoordinator" where
  "leave_mutation c channelId =
     (case um_find (dc_mutationDepth c) channelId of
        None \<Rightarrow> c
      | Some depth \<Rightarrow>
          (invalidateRegularEgress (c\<lparr>dc_mutationDepth := um_put channelId (depth - 1) (dc_mutationDepth c)\<rparr>))
            \<lparr>dc_outboxChanged := True\<rparr>)"

definition finishMutationWait :: "DeliveryCoordinator \<Rightarrow> string \<Rightarrow> DeliveryCoordinator \<times> bool" where
  "finishMutationWait c channelId =
     (if \<not> egress_drained c \<or> dc_stopRequested c then (leave_mutation c channelId, False) else (c, True))"

definition completeDomainMutation :: "DeliveryCoordinator \<Rightarrow> string \<Rightarrow> DeliveryCoordinator" where
  "completeDomainMutation c channelId =
     (case um_find (dc_mutationDepth c) channelId of
        None \<Rightarrow> c
      | Some depth \<Rightarrow> if depth = 0 then c else leave_mutation c channelId)"

definition isReady :: "DeliveryCoordinator \<Rightarrow> string \<Rightarrow> bool" where
  "isReady c channelId \<longleftrightarrow> um_find (dc_ready c) channelId = Some True"

definition isRevisionSynchronized :: "DeliveryCoordinator \<Rightarrow> string \<Rightarrow> 64 word \<Rightarrow> bool" where
  "isRevisionSynchronized c channelId revision \<longleftrightarrow>
     um_find (dc_ready c) channelId = Some True \<and> um_find (dc_readyRevision c) channelId = Some revision"

text \<open>A grant is the pair of epoch and generation.\<close>

definition beginRegularEgress ::
  "DeliveryCoordinator \<Rightarrow> DeliveryCoordinator \<times> (64 word \<times> 64 word) option" where
  "beginRegularEgress c =
     (if \<not> dc_running c \<or> dc_stopRequested c \<or> dc_ready c = [] \<or> \<not> dc_deliveryIdle c \<or> dc_egressEpoch c = 0 \<or>
         dc_egressGeneration c \<noteq> dc_readinessGeneration c \<or> \<not> all_channels_ready c \<or> \<not> no_open_mutation c
      then (c, None)
      else (c\<lparr>dc_activeEgress := dc_activeEgress c + 1\<rparr>, Some (dc_egressEpoch c, dc_egressGeneration c)))"

definition isRegularEgressGrantCurrent :: "DeliveryCoordinator \<Rightarrow> 64 word \<times> 64 word \<Rightarrow> bool" where
  "isRegularEgressGrantCurrent c grant \<longleftrightarrow>
     dc_running c \<and> \<not> dc_stopRequested c \<and> dc_deliveryIdle c \<and> fst grant \<noteq> 0 \<and> fst grant = dc_egressEpoch c \<and>
     snd grant = dc_egressGeneration c \<and> snd grant = dc_readinessGeneration c \<and>
     list_all snd (dc_ready c) \<and> no_open_mutation c"

definition completeRegularEgress :: "DeliveryCoordinator \<Rightarrow> DeliveryCoordinator" where
  "completeRegularEgress c =
     (if dc_activeEgress c = 0 then c else c\<lparr>dc_activeEgress := dc_activeEgress c - 1\<rparr>)"

text \<open>The first critical section of \<open>stop()\<close>; the worker then ends, and the last one clears \<open>running_\<close>.\<close>

definition delivery_request_stop :: "DeliveryCoordinator \<Rightarrow> DeliveryCoordinator" where
  "delivery_request_stop c =
     (if \<not> dc_running c then c
      else failCloseAllReadiness (c\<lparr>dc_acceptingFacts := False, dc_stopRequested := True\<rparr>))"

section \<open>The worker\<close>

text \<open>
  What the outside does during one step of the worker: the clock, the faults of the marks and of the
  reads, the database's timestamp and the publisher's answer (left is an exception). The fault handler is
  an output.
\<close>

record DeliveryEnv =
  de_now :: int
  de_mark :: FireSql
  de_read :: FireSql
  de_at :: string
  de_publish :: "string + MqttTrackedPublishResult"

datatype delivery_output = EpochFault "64 word" | PublisherCalled FireOutboxRecord string "64 word"

definition fault_output :: "DeliveryConfig \<Rightarrow> 64 word \<Rightarrow> delivery_output list" where
  "fault_output config epoch = (if dg_hasFaultHandler config then [EpochFault epoch] else [])"

definition mark_attempts :: "DeliveryEnv \<Rightarrow> string \<Rightarrow> DeliveryAttempt list \<Rightarrow> FireDb \<Rightarrow> FireDb" where
  "mark_attempts env reason attempts db =
     foldl (\<lambda>db a. fst (markFireDeliveryPending (de_mark env) (de_at env) db (fo_deliveryKey (at_delivery a))
       (fo_fireRevision (at_delivery a)) reason)) db attempts"

definition requeueAllInflight ::
  "DeliveryEnv \<Rightarrow> string \<Rightarrow> DeliveryCoordinator \<Rightarrow> FireDb \<Rightarrow> DeliveryCoordinator \<times> FireDb" where
  "requeueAllInflight env reason c db =
     (c\<lparr>dc_inFlight := []\<rparr>, mark_attempts env reason (map snd (dc_inFlight c)) db)"

definition disconnectEpoch ::
  "DeliveryEnv \<Rightarrow> 64 word \<Rightarrow> string \<Rightarrow> DeliveryCoordinator \<Rightarrow> FireDb \<Rightarrow> DeliveryCoordinator \<times> FireDb" where
  "disconnectEpoch env epoch reason c db =
     (if epoch = 0 then (c, db)
      else
        let mine = (\<lambda>entry. fst (fst entry) = epoch);
            db1 = mark_attempts env reason (map snd (filter mine (dc_inFlight c))) db;
            c1 = c\<lparr>dc_inFlight := filter (\<lambda>entry. \<not> mine entry) (dc_inFlight c)\<rparr> in
        if dc_activeEpoch c1 = epoch
        then (failCloseAllReadiness (c1\<lparr>dc_activeEpoch := 0, dc_subscriptionsReady := False,
                dc_syncedRevision := [], dc_retryAfter := []\<rparr>), db1)
        else (c1, db1))"

definition scheduleRetry :: "DeliveryConfig \<Rightarrow> int \<Rightarrow> string \<Rightarrow> DeliveryCoordinator \<Rightarrow> DeliveryCoordinator" where
  "scheduleRetry config now channelId c =
     c\<lparr>dc_retryAfter := um_put channelId (now + dg_localFailureRetryDelay config) (dc_retryAfter c)\<rparr>"

definition clearRetry :: "string \<Rightarrow> DeliveryCoordinator \<Rightarrow> DeliveryCoordinator" where
  "clearRetry channelId c = c\<lparr>dc_retryAfter := um_erase channelId (dc_retryAfter c)\<rparr>"

definition retryDeferred :: "DeliveryCoordinator \<Rightarrow> string \<Rightarrow> int \<Rightarrow> bool" where
  "retryDeferred c channelId now \<longleftrightarrow>
     (case um_find (dc_retryAfter c) channelId of None \<Rightarrow> False | Some t \<Rightarrow> t > now)"

definition recoverActorFailure ::
  "DeliveryConfig \<Rightarrow> DeliveryEnv \<Rightarrow> string \<Rightarrow> DeliveryCoordinator \<Rightarrow> FireDb \<Rightarrow>
     (DeliveryCoordinator \<times> FireDb) \<times> delivery_output list" where
  "recoverActorFailure config env reason c db =
     (let epoch = dc_activeEpoch c;
          (c1, db1) = (if epoch \<noteq> 0 then disconnectEpoch env epoch reason c db else requeueAllInflight env reason c db);
          c2 = foldl (\<lambda>c channel. scheduleRetry config (de_now env) channel c) (failCloseAllReadiness c1)
                 (dg_channelIds config) in
      ((c2, db1), if epoch \<noteq> 0 then fault_output config epoch else []))"

definition hasInFlight :: "FireDeliverySinkKind \<Rightarrow> DeliveryCoordinator \<Rightarrow> string \<Rightarrow> bool" where
  "hasInFlight kind c channelId \<longleftrightarrow>
     list_ex (\<lambda>(_, a). fo_channelId (at_delivery a) = channelId \<and> fo_sinkKind (at_delivery a) = kind) (dc_inFlight c)"

definition nextWakeAt :: "DeliveryConfig \<Rightarrow> DeliveryCoordinator \<Rightarrow> int option" where
  "nextWakeAt config c =
     earliest_of (map snd (dc_retryAfter c) @
       map (\<lambda>(_, a). at_submittedAt a + dg_pubAckTimeout config) (dc_inFlight c))"

text \<open>\<open>processFact\<close>, up to the acknowledgement's second database call: the answer is the attempt and its mark.\<close>

definition connect_epoch ::
  "DeliveryEnv \<Rightarrow> 64 word \<Rightarrow> DeliveryCoordinator \<Rightarrow> FireDb \<Rightarrow> DeliveryCoordinator \<times> FireDb" where
  "connect_epoch env epoch c db =
     (if epoch < dc_activeEpoch c then (c, db)
      else
        let (c1, db1) = (if dc_activeEpoch c \<noteq> 0 \<and> epoch \<noteq> dc_activeEpoch c
              then disconnectEpoch env (dc_activeEpoch c) ''fresh MQTT epoch connected'' c db else (c, db)) in
        (failCloseAllReadiness (c1\<lparr>dc_activeEpoch := epoch, dc_subscriptionsReady := False,
           dc_syncedRevision := []\<rparr>), db1))"

definition processFact ::
  "DeliveryEnv \<Rightarrow> MqttTransportFact \<Rightarrow> DeliveryCoordinator \<Rightarrow> FireDb \<Rightarrow>
     (DeliveryCoordinator \<times> FireDb) \<times> (DeliveryAttempt \<times> bool) option" where
  "processFact env event c db =
     (case mf_kind event of
        FactConnected \<Rightarrow> (connect_epoch env (mf_epoch event) c db, None)
      | FactSubscriptionsReady \<Rightarrow>
          ((if mf_epoch event = dc_activeEpoch c \<and> dc_activeEpoch c \<noteq> 0
            then c\<lparr>dc_subscriptionsReady := True, dc_retryAfter := []\<rparr> else c, db), None)
      | FactDisconnected \<Rightarrow>
          (if mf_epoch event = dc_activeEpoch c
           then disconnectEpoch env (mf_epoch event) ''MQTT disconnected before PUBACK'' c db else (c, db), None)
      | FactEpochFaulted \<Rightarrow>
          (if mf_epoch event = dc_activeEpoch c
           then disconnectEpoch env (mf_epoch event) ''MQTT epoch faulted before PUBACK'' c db else (c, db), None)
      | FactPublishAcknowledged \<Rightarrow>
          if mf_epoch event \<noteq> dc_activeEpoch c then ((c, db), None)
          else (case um_find (dc_inFlight c) (mf_epoch event, mf_messageId event) of
              None \<Rightarrow> ((c, db), None)
            | Some attempt \<Rightarrow>
                let (db1, acknowledged) = acknowledgeFireDelivery (de_mark env) (de_at env) db
                      (fo_deliveryKey (at_delivery attempt)) (fo_fireRevision (at_delivery attempt)) in
                ((c\<lparr>dc_inFlight := um_erase (mf_epoch event, mf_messageId event) (dc_inFlight c)\<rparr>, db1),
                 Some (attempt, acknowledged)))
      | FactSubscriptionAcknowledged \<Rightarrow> ((c, db), None))"

text \<open>The rest: an acknowledged retained row that is still at the attempt's revision is synchronized.\<close>

definition finish_acknowledge ::
  "DeliveryEnv \<Rightarrow> DeliveryAttempt \<Rightarrow> bool \<Rightarrow> DeliveryCoordinator \<Rightarrow> FireDb \<Rightarrow> string + DeliveryCoordinator" where
  "finish_acknowledge env attempt acknowledged c db =
     (let d = at_delivery attempt; done = clearRetry (fo_channelId d) in
      if acknowledged \<and> fo_sinkKind d = RetainedState
      then try_bind (getFireDelivery (de_read env) db (fo_deliveryKey d)) (\<lambda>current.
        Inr (done (case current of
            None \<Rightarrow> c
          | Some row \<Rightarrow> if fo_fireRevision row = fo_fireRevision d
              then c\<lparr>dc_syncedRevision := um_put (fo_channelId d) (fo_fireRevision d) (dc_syncedRevision c)\<rparr>
              else c)))
      else Inr (done c))"

definition handle_overflow ::
  "DeliveryConfig \<Rightarrow> DeliveryEnv \<Rightarrow> bool \<Rightarrow> 64 word option \<Rightarrow> DeliveryCoordinator \<Rightarrow> FireDb \<Rightarrow>
     (DeliveryCoordinator \<times> FireDb) \<times> delivery_output list" where
  "handle_overflow config env overflow overflowEpoch c db =
     (let epoch = (case overflowEpoch of Some e \<Rightarrow> e | None \<Rightarrow> dc_activeEpoch c) in
      if \<not> overflow \<or> epoch = 0 then ((c, db), [])
      else (if epoch = dc_activeEpoch c then disconnectEpoch env epoch ''transport fact queue overflow'' c db
            else (c, db), fault_output config epoch))"

definition expirePubAckDeadline ::
  "DeliveryConfig \<Rightarrow> DeliveryEnv \<Rightarrow> DeliveryCoordinator \<Rightarrow> FireDb \<Rightarrow>
     (DeliveryCoordinator \<times> FireDb) \<times> delivery_output list" where
  "expirePubAckDeadline config env c db =
     (if dc_activeEpoch c = 0 \<or>
         \<not> list_ex (\<lambda>(_, a). at_submittedAt a + dg_pubAckTimeout config \<le> de_now env) (dc_inFlight c)
      then ((c, db), [])
      else (disconnectEpoch env (dc_activeEpoch c) ''MQTT PUBACK deadline expired'' c db,
            fault_output config (dc_activeEpoch c)))"

text \<open>\<open>publish\<close> up to the call of the publisher: the attempt id and the expected epoch.\<close>

definition begin_publish ::
  "DeliveryConfig \<Rightarrow> DeliveryEnv \<Rightarrow> FireOutboxRecord \<Rightarrow> DeliveryCoordinator \<Rightarrow> FireDb \<Rightarrow>
     (DeliveryCoordinator \<times> FireDb) \<times> (string \<times> 64 word) option" where
  "begin_publish config env d c db =
     (let (db1, marked) = markFireDeliveryInFlight (de_mark env) (de_at env) db (fo_deliveryKey d) (fo_fireRevision d) in
      if \<not> marked then ((scheduleRetry config (de_now env) (fo_channelId d) c, db1), None)
      else ((c\<lparr>dc_nextAttemptId := dc_nextAttemptId c + 1\<rparr>, db1),
            Some (''fire-attempt:'' @ to_string (uint (dc_nextAttemptId c)), dc_activeEpoch c)))"

definition finish_publish ::
  "DeliveryConfig \<Rightarrow> DeliveryEnv \<Rightarrow> FireOutboxRecord \<Rightarrow> string \<Rightarrow> 64 word \<Rightarrow> MqttTrackedPublishResult \<Rightarrow>
     DeliveryCoordinator \<Rightarrow> FireDb \<Rightarrow> (DeliveryCoordinator \<times> FireDb) \<times> delivery_output list" where
  "finish_publish config env d attemptId expectedEpoch r c db =
     (let pending = (\<lambda>reason. fst (markFireDeliveryPending (de_mark env) (de_at env) db (fo_deliveryKey d)
            (fo_fireRevision d) reason));
          key = (mp_epoch r, mp_messageId r) in
      if \<not> mp_accepted r \<or> mp_epoch r \<noteq> expectedEpoch \<or> dc_activeEpoch c \<noteq> expectedEpoch \<or> mp_messageId r < 0 \<or>
         mp_deliveryKey r \<noteq> fo_deliveryKey d \<or> mp_revision r \<noteq> fo_fireRevision d \<or> mp_attemptId r \<noteq> attemptId
      then ((scheduleRetry config (de_now env) (fo_channelId d) c,
             pending ''MQTT tracked publish was not accepted in the active epoch''), [])
      else if um_contains (dc_inFlight c) key
      then (disconnectEpoch env (dc_activeEpoch c) ''same-epoch MQTT MID collision'' c
              (pending ''MQTT reused an in-flight MID in the same epoch''), fault_output config (dc_activeEpoch c))
      else ((clearRetry (fo_channelId d) (c\<lparr>dc_inFlight := um_emplace key
               \<lparr>at_delivery = d, at_attemptId = attemptId, at_submittedAt = de_now env\<rparr> (dc_inFlight c)\<rparr>), db), []))"

definition recomputeReadiness ::
  "FireOutboxRecord list \<Rightarrow> 64 word \<Rightarrow> DeliveryCoordinator \<Rightarrow> DeliveryCoordinator" where
  "recomputeReadiness retained observed c =
     (let row = (\<lambda>channel. find (\<lambda>r. fo_channelId r = channel) retained);
          is_ready = (\<lambda>channel. observed = dc_outboxGeneration c \<and> um_find (dc_mutationDepth c) channel = Some 0 \<and>
            dc_activeEpoch c \<noteq> 0 \<and> dc_subscriptionsReady c \<and>
            (case row channel of None \<Rightarrow> False
             | Some r \<Rightarrow> um_find (dc_syncedRevision c) channel = Some (fo_fireRevision r)));
          channels = map fst (dc_ready c) in
      c\<lparr>dc_ready := map (\<lambda>(channel, _). (channel, is_ready channel)) (dc_ready c),
        dc_readyRevision := foldl (\<lambda>m channel. um_put channel
            (if is_ready channel then fo_fireRevision (the (row channel)) else 0) m) (dc_readyRevision c) channels,
        dc_egressEpoch := (if channels \<noteq> [] \<and> list_all is_ready channels then dc_activeEpoch c else 0),
        dc_egressGeneration := dc_readinessGeneration c\<rparr>)"

definition beginLifecycleRelease :: "64 word \<Rightarrow> DeliveryCoordinator \<Rightarrow> DeliveryCoordinator \<times> bool" where
  "beginLifecycleRelease observed c =
     (if dc_lifecycleRelease c \<or> observed \<noteq> dc_outboxGeneration c \<or> dc_activeEpoch c = 0 \<or>
         \<not> dc_subscriptionsReady c \<or> \<not> all_channels_ready c \<or> \<not> no_open_mutation c
      then (c, False) else (c\<lparr>dc_lifecycleRelease := True\<rparr>, True))"

definition endLifecycleRelease :: "DeliveryCoordinator \<Rightarrow> DeliveryCoordinator" where
  "endLifecycleRelease c = c\<lparr>dc_lifecycleRelease := False\<rparr>"

definition updateIdleState :: "bool \<Rightarrow> DeliveryCoordinator \<Rightarrow> DeliveryCoordinator" where
  "updateIdleState pendingLifecycle c =
     c\<lparr>dc_deliveryIdle := all_channels_ready c \<and> \<not> pendingLifecycle \<and> dc_inFlight c = []\<rparr>"

section \<open>The worker's loop\<close>

datatype WorkerPc =
    WaitForWork
  | Facts "MqttTransportFact list" bool "64 word option"
  | Acknowledged DeliveryAttempt bool "MqttTransportFact list" bool "64 word option"
  | Expire
  | Observe
  | ListRetained "64 word" int
  | RetainedRows "64 word" int "FireOutboxRecord list" "FireOutboxRecord list" bool
  | CheckReady "64 word" int bool
  | TryRelease "64 word" int
  | ListLifecycle int
  | LifecycleRows int "FireOutboxRecord list" "string list"
  | CallPublisher FireOutboxRecord string "64 word" WorkerPc
  | ListPending
  | SetIdle bool
  | WorkerEnded

type_synonym DeliveryState = "DeliveryCoordinator \<times> FireDb \<times> WorkerPc"

text \<open>The exception handler of the loop, with the release that \<open>pump\<close> ends first.\<close>

definition worker_failed ::
  "DeliveryConfig \<Rightarrow> DeliveryEnv \<Rightarrow> string \<Rightarrow> DeliveryCoordinator \<Rightarrow> FireDb \<Rightarrow> DeliveryState \<times> delivery_output list" where
  "worker_failed config env reason c db =
     (let ((c1, db1), outs) = recoverActorFailure config env (''Fire delivery actor exception: '' @ reason)
            (endLifecycleRelease c) db in
      ((c1, db1, WaitForWork), outs))"

text \<open>The loop over the rows: the next row to publish, if any, with where to go on.\<close>

definition offer_row ::
  "DeliveryConfig \<Rightarrow> DeliveryEnv \<Rightarrow> FireOutboxRecord \<Rightarrow> WorkerPc \<Rightarrow> DeliveryCoordinator \<Rightarrow> FireDb \<Rightarrow> DeliveryState" where
  "offer_row config env d resume c db =
     (case begin_publish config env d c db of
        ((c1, db1), None) \<Rightarrow> (c1, db1, resume)
      | ((c1, db1), Some (attemptId, epoch)) \<Rightarrow> (c1, db1, CallPublisher d attemptId epoch resume))"

definition worker_step ::
  "DeliveryConfig \<Rightarrow> DeliveryEnv \<Rightarrow> DeliveryState \<Rightarrow> DeliveryState \<times> delivery_output list" where
  "worker_step config env st =
     (case st of (c, db, pc) \<Rightarrow>
      case pc of
        WaitForWork \<Rightarrow>
          (if dc_stopRequested c
           then (let (c1, db1) = requeueAllInflight env ''delivery coordinator stopped before PUBACK'' c db in
                 ((c1, db1, WorkerEnded), []))
           else if dc_facts c \<noteq> [] \<or> dc_outboxChanged c \<or> dc_factOverflow c \<or>
              (case nextWakeAt config c of None \<Rightarrow> False | Some t \<Rightarrow> t \<le> de_now env)
           then ((c\<lparr>dc_facts := [], dc_outboxChanged := False, dc_factOverflow := False, dc_factOverflowEpoch := None\<rparr>,
                  db, Facts (dc_facts c) (dc_factOverflow c) (dc_factOverflowEpoch c)), [])
           else (st, []))
      | Facts [] overflow overflowEpoch \<Rightarrow>
          (let ((c1, db1), outs) = handle_overflow config env overflow overflowEpoch c db in ((c1, db1, Expire), outs))
      | Facts (event # rest) overflow overflowEpoch \<Rightarrow>
          (case processFact env event c db of
             ((c1, db1), None) \<Rightarrow> ((c1, db1, Facts rest overflow overflowEpoch), [])
           | ((c1, db1), Some (attempt, ok)) \<Rightarrow> ((c1, db1, Acknowledged attempt ok rest overflow overflowEpoch), []))
      | Acknowledged attempt ok rest overflow overflowEpoch \<Rightarrow>
          (case finish_acknowledge env attempt ok c db of
             Inl e \<Rightarrow> worker_failed config env e c db
           | Inr c1 \<Rightarrow> ((c1, db, Facts rest overflow overflowEpoch), []))
      | Expire \<Rightarrow> (let ((c1, db1), outs) = expirePubAckDeadline config env c db in ((c1, db1, Observe), outs))
      | Observe \<Rightarrow>
          ((c, db, if dc_activeEpoch c = 0 \<or> \<not> dc_subscriptionsReady c then ListPending
              else ListRetained (dc_outboxGeneration c) (de_now env)), [])
      | ListRetained observed now \<Rightarrow>
          (case listFireRetainedDeliveries (de_read env) db of
             Inl e \<Rightarrow> worker_failed config env e c db
           | Inr rows \<Rightarrow> ((c, db, RetainedRows observed now rows rows False), []))
      | RetainedRows observed now rows [] pending \<Rightarrow>
          ((recomputeReadiness rows observed c, db, CheckReady observed now pending), [])
      | RetainedRows observed now rows (row # todo) pending \<Rightarrow>
          (let channel = fo_channelId row in
           if um_find (dc_syncedRevision c) channel = Some (fo_fireRevision row)
           then ((c, db, RetainedRows observed now rows todo pending), [])
           else if retryDeferred c channel now \<or> hasInFlight RetainedState c channel
           then ((c, db, RetainedRows observed now rows todo True), [])
           else (offer_row config env row (RetainedRows observed now rows todo True) c db, []))
      | CheckReady observed now pending \<Rightarrow>
          ((c, db, if pending \<or> \<not> all_channels_ready c then ListPending else TryRelease observed now), [])
      | TryRelease observed now \<Rightarrow>
          (case beginLifecycleRelease observed c of
             (c1, released) \<Rightarrow> ((c1, db, if released then ListLifecycle now else ListPending), []))
      | ListLifecycle now \<Rightarrow>
          (case listPendingFireLifecycleDeliveries (de_read env) db None of
             Inl e \<Rightarrow> worker_failed config env e c db
           | Inr rows \<Rightarrow> ((c, db, LifecycleRows now rows []), []))
      | LifecycleRows now [] submitted \<Rightarrow> ((endLifecycleRelease c, db, ListPending), [])
      | LifecycleRows now (row # todo) submitted \<Rightarrow>
          (let channel = fo_channelId row; resume = LifecycleRows now todo (channel # submitted) in
           if channel \<in> set submitted then ((c, db, LifecycleRows now todo submitted), [])
           else if retryDeferred c channel now \<or> hasInFlight LifecycleEvent c channel then ((c, db, resume), [])
           else (offer_row config env row resume c db, []))
      | CallPublisher d attemptId epoch resume \<Rightarrow>
          (case de_publish env of
             Inl e \<Rightarrow> (let (st1, outs) = worker_failed config env e c db in (st1, PublisherCalled d attemptId epoch # outs))
           | Inr r \<Rightarrow> (let ((c1, db1), outs) = finish_publish config env d attemptId epoch r c db in
               ((c1, db1, resume), PublisherCalled d attemptId epoch # outs)))
      | ListPending \<Rightarrow>
          (case listPendingFireLifecycleDeliveries (de_read env) db None of
             Inl e \<Rightarrow> worker_failed config env e c db
           | Inr rows \<Rightarrow> ((c, db, SetIdle (rows \<noteq> [])), []))
      | SetIdle pending \<Rightarrow> ((updateIdleState pending c, db, WaitForWork), [])
      | WorkerEnded \<Rightarrow> (st, []))"

end
