(* ===== verification/FireReadiness.thy ===== *)
theory FireReadiness
  imports FireDelivery FireProps
begin

text \<open>
  The delivery coordinator of \<^verbatim>\<open>src/event/FireDeliveryCoordinator.cpp\<close> beside the fire service: all
  interleavings of transport facts, domain mutations, regular publishers and the steps of the worker, and
  what the readiness of a channel means in them.
\<close>

section \<open>The system\<close>

text \<open>
  An event is one critical section of a caller, one command of the fire service inside its boundary, or one
  step of the worker. The state keeps the callers that wait in \<open>beginDomainMutation\<close> and the open boundaries.
  A command that changes the outbox runs only inside the boundary of its channel, as \<open>applyTransition\<close> does.
\<close>

datatype delivery_event = Deliver MqttTransportFact | Notify string | EnterMutation string | EndWait string
  | ServiceCommand FireEnv FireCommand | CompleteMutation string | BeginEgress | EndEgress | RequestStop
  | Work DeliveryEnv

record 'j DeliveryContext =
  dx_fire :: "'j FireContext"
  dx_config :: DeliveryConfig

type_synonym DeliverySystem = "DeliveryState \<times> string list \<times> string list"

definition service_command :: "'j FireContext \<Rightarrow> string list \<Rightarrow> FireEnv \<Rightarrow> FireCommand \<Rightarrow> FireDb \<Rightarrow> FireDb" where
  "service_command ctx boundaries env cmd db =
     (case process_fire ctx env db cmd of
        Inl e \<Rightarrow> db
      | Inr (db1, r) \<Rightarrow> if fd_outbox db1 = fd_outbox db \<or> fc_channelId cmd \<in> set boundaries then db1 else db)"

definition delivery_step ::
  "'j DeliveryContext \<Rightarrow> DeliverySystem \<Rightarrow> delivery_event \<Rightarrow> DeliverySystem \<times> delivery_output list" where
  "delivery_step dx s event =
     (case s of ((c, db, pc), waiting, boundaries) \<Rightarrow>
      case event of
        Deliver f \<Rightarrow> (((fst (enqueueTransportFact (dx_config dx) c f), db, pc), waiting, boundaries), [])
      | Notify ch \<Rightarrow> (((notifyOutboxChanged c ch, db, pc), waiting, boundaries), [])
      | EnterMutation ch \<Rightarrow>
          (case enterDomainMutation c ch of
             None \<Rightarrow> (s, [])
           | Some c1 \<Rightarrow> (((c1, db, pc), ch # waiting, boundaries), []))
      | EndWait ch \<Rightarrow>
          if ch \<notin> set waiting then (s, [])
          else (case finishMutationWait c ch of (c1, entered) \<Rightarrow>
            (((c1, db, pc), remove1 ch waiting, if entered then ch # boundaries else boundaries), []))
      | ServiceCommand env cmd \<Rightarrow>
          (((c, service_command (dx_fire dx) boundaries env cmd db, pc), waiting, boundaries), [])
      | CompleteMutation ch \<Rightarrow>
          if ch \<notin> set boundaries then (s, [])
          else (((completeDomainMutation c ch, db, pc), waiting, remove1 ch boundaries), [])
      | BeginEgress \<Rightarrow> (((fst (beginRegularEgress c), db, pc), waiting, boundaries), [])
      | EndEgress \<Rightarrow> (((completeRegularEgress c, db, pc), waiting, boundaries), [])
      | RequestStop \<Rightarrow> (((delivery_request_stop c, db, pc), waiting, boundaries), [])
      | Work env \<Rightarrow>
          (case worker_step (dx_config dx) env (c, db, pc) of (st, outs) \<Rightarrow> ((st, waiting, boundaries), outs)))"

text \<open>Commands of the service come from its submissions.\<close>

fun event_ok :: "'j DeliveryContext \<Rightarrow> delivery_event \<Rightarrow> bool" where
  "event_ok dx (ServiceCommand env cmd) = command_ok (dx_fire dx) cmd"
| "event_ok dx _ = True"

section \<open>The retained rows of the database\<close>

text \<open>\<open>at_revision\<close>: the retained row of a channel has the revision; \<open>acked_at\<close>: it has not passed it, and is
  acknowledged if it is still there.\<close>

definition at_revision :: "FireDb \<Rightarrow> string \<Rightarrow> 64 word \<Rightarrow> bool" where
  "at_revision db ch v \<longleftrightarrow>
     (\<forall>d \<in> set (fd_outbox db). or_delivery_key d = retainedDeliveryId ch \<longrightarrow> or_fire_revision d = uint v)"

definition acked_at :: "FireDb \<Rightarrow> string \<Rightarrow> 64 word \<Rightarrow> bool" where
  "acked_at db ch v \<longleftrightarrow>
     (\<forall>d \<in> set (fd_outbox db). or_delivery_key d = retainedDeliveryId ch \<longrightarrow>
        uint v \<le> or_fire_revision d \<and> (or_fire_revision d = uint v \<longrightarrow> or_delivery_state d = ''ACKED''))"

text \<open>The marks of a step: they may touch the rows and revisions in \<open>K\<close> only, and keep keys and revisions.\<close>

definition marks_at :: "(string \<times> 64 word) set \<Rightarrow> FireDb \<Rightarrow> FireDb \<Rightarrow> bool" where
  "marks_at K db db' \<longleftrightarrow> (\<exists>g. fd_outbox db' = map g (fd_outbox db) \<and>
     (\<forall>d. or_delivery_key (g d) = or_delivery_key d \<and> or_fire_revision (g d) = or_fire_revision d \<and>
        ((\<exists>(key, v) \<in> K. or_delivery_key d = key \<and> or_fire_revision d = uint v) \<or> g d = d)))"

lemma marks_at_refl [simp]: "marks_at K db db"
  unfolding marks_at_def by (intro exI [of _ id]) simp

lemma marks_atE:
  assumes "marks_at K db db'"
  obtains g where "fd_outbox db' = map g (fd_outbox db)" "\<And>d. or_delivery_key (g d) = or_delivery_key d"
    "\<And>d. or_fire_revision (g d) = or_fire_revision d"
    "\<And>d. (\<exists>(key, v) \<in> K. or_delivery_key d = key \<and> or_fire_revision d = uint v) \<or> g d = d"
  using assms unfolding marks_at_def by metis

lemma marks_at_trans:
  assumes "marks_at K db db1" and "marks_at L db1 db2"
  shows "marks_at (K \<union> L) db db2"
proof -
  from assms(1) obtain f where f: "fd_outbox db1 = map f (fd_outbox db)" "\<And>d. or_delivery_key (f d) = or_delivery_key d"
    "\<And>d. or_fire_revision (f d) = or_fire_revision d"
    "\<And>d. (\<exists>(key, v) \<in> K. or_delivery_key d = key \<and> or_fire_revision d = uint v) \<or> f d = d"
    by (rule marks_atE) blast
  from assms(2) obtain g where g: "fd_outbox db2 = map g (fd_outbox db1)" "\<And>d. or_delivery_key (g d) = or_delivery_key d"
    "\<And>d. or_fire_revision (g d) = or_fire_revision d"
    "\<And>d. (\<exists>(key, v) \<in> L. or_delivery_key d = key \<and> or_fire_revision d = uint v) \<or> g d = d"
    by (rule marks_atE) blast
  have "(\<exists>(key, v) \<in> K \<union> L. or_delivery_key d = key \<and> or_fire_revision d = uint v) \<or> g (f d) = d" for d
    using f(4) [of d] g(4) [of "f d"] f(2,3) [of d] by auto
  then show ?thesis
    unfolding marks_at_def by (intro exI [of _ "g \<circ> f"]) (simp add: f(1-3) g(1-3))
qed

lemma marks_at_mono: "marks_at K db db' \<Longrightarrow> K \<subseteq> L \<Longrightarrow> marks_at L db db'"
  using marks_at_trans [of K db db' L db'] by (simp add: Un_absorb1)

lemma mark_delivery_at:
  assumes "\<And>d. or_delivery_key (f d) = or_delivery_key d" and "\<And>d. or_fire_revision (f d) = or_fire_revision d"
  shows "marks_at {(key, v)} db (fst (mark_delivery sql extra f key v db))"
proof -
  let ?g = "\<lambda>d. if or_delivery_key d = key \<and> or_fire_revision d = uint v \<and> extra d then f d else d"
  have "marks_at {(key, v)} db (db\<lparr>fd_outbox := map ?g (fd_outbox db)\<rparr>)"
    unfolding marks_at_def using assms by (intro exI [of _ ?g]) simp
  then show ?thesis
    by (simp add: mark_delivery_def checkedInt64_def update_rows_def Let_def)
qed

lemma marks_are_at [simp]:
  "marks_at {(key, v)} db (fst (markFireDeliveryInFlight sql at db key v))"
  "marks_at {(key, v)} db (fst (markFireDeliveryPending sql at db key v e))"
  "marks_at {(key, v)} db (fst (acknowledgeFireDelivery sql at db key v))"
  unfolding markFireDeliveryInFlight_def markFireDeliveryPending_def acknowledgeFireDelivery_def
  by (rule mark_delivery_at; simp)+

lemma at_revision_mark: "marks_at K db db' \<Longrightarrow> at_revision db' ch v \<longleftrightarrow> at_revision db ch v"
proof -
  assume "marks_at K db db'"
  then obtain g where "fd_outbox db' = map g (fd_outbox db)"
    "\<And>d. or_delivery_key (g d) = or_delivery_key d" "\<And>d. or_fire_revision (g d) = or_fire_revision d"
    by (auto simp: marks_at_def)
  then show ?thesis by (simp add: at_revision_def)
qed

lemma acked_at_mark:
  assumes m: "marks_at K db db'" and other: "(retainedDeliveryId ch, v) \<notin> K" and ok: "acked_at db ch v"
  shows "acked_at db' ch v"
proof -
  obtain g where g: "fd_outbox db' = map g (fd_outbox db)"
    "\<And>d. or_delivery_key (g d) = or_delivery_key d" "\<And>d. or_fire_revision (g d) = or_fire_revision d"
    "\<And>d. (\<exists>(key, v) \<in> K. or_delivery_key d = key \<and> or_fire_revision d = uint v) \<or> g d = d"
    using m by (auto simp: marks_at_def)
  have "uint v \<le> or_fire_revision d \<and> (or_fire_revision d = uint v \<longrightarrow> or_delivery_state (g d) = ''ACKED'')"
    if d: "d \<in> set (fd_outbox db)" "or_delivery_key d = retainedDeliveryId ch" for d
  proof (cases "g d = d")
    case False
    then obtain r where "(or_delivery_key d, r) \<in> K" "or_fire_revision d = uint r" using g(4) [of d] by auto
    moreover from this have "r \<noteq> v" using d(2) other by metis
    then have "uint r \<noteq> uint v" by (metis word_uint_eqI)
    ultimately show ?thesis using ok d by (auto simp: acked_at_def)
  qed (use ok d in \<open>auto simp: acked_at_def\<close>)
  then show ?thesis unfolding acked_at_def by (auto simp: g)
qed

lemma count_rows_Suc: "count_rows p rows = Suc 0 \<Longrightarrow> \<exists>d \<in> set rows. p d"
  unfolding count_rows_def by (metis filter_False length_0_conv n_not_Suc_n)

lemma acknowledge_acked:
  assumes ok: "fire_store_ok db" and run: "acknowledgeFireDelivery sql at db key v = (db', True)"
    and key: "key = retainedDeliveryId ch"
  shows "acked_at db' ch v"
proof -
  let ?p = "\<lambda>r. or_delivery_key r = key \<and> or_fire_revision r = uint v \<and> or_delivery_state r = ''IN_FLIGHT''"
  let ?f = "\<lambda>r. r\<lparr>or_delivery_state := ''ACKED'', or_acked_revision := Some (uint v), or_last_error := [], or_updated_at := at\<rparr>"
  have db': "db' = db\<lparr>fd_outbox := update_rows ?p ?f (fd_outbox db)\<rparr>" and one: "count_rows ?p (fd_outbox db) = Suc 0"
    using run by (auto simp: acknowledgeFireDelivery_def mark_delivery_def checkedInt64_def Let_def split: if_splits)
  obtain d0 where d0: "d0 \<in> set (fd_outbox db)" "?p d0" using count_rows_Suc [OF one] by blast
  have only: "d = d0" if "d \<in> set (fd_outbox db)" "or_delivery_key d = key" for d
    using ok that d0 unfolding fire_store_ok_def by (metis distinct_map inj_onD)
  show ?thesis
    unfolding acked_at_def
  proof (intro ballI impI)
    fix d
    assume d: "d \<in> set (fd_outbox db')" "or_delivery_key d = retainedDeliveryId ch"
    then obtain d1 where d1: "d1 \<in> set (fd_outbox db)" "d = (if ?p d1 then ?f d1 else d1)"
      using set_update_rows [of d ?p ?f "fd_outbox db"] db' by auto
    then have "d1 = d0" using only d(2) key by (cases "?p d1") auto
    then show "uint v \<le> or_fire_revision d \<and> (or_fire_revision d = uint v \<longrightarrow> or_delivery_state d = ''ACKED'')"
      using d0(2) d1(2) by simp
  qed
qed

lemma acknowledge_keeps:
  assumes "acked_at db ch r"
  shows "acked_at (fst (acknowledgeFireDelivery sql at db key v)) ch r"
proof -
  let ?p = "\<lambda>d. or_delivery_key d = key \<and> or_fire_revision d = uint v \<and> or_delivery_state d = ''IN_FLIGHT''"
  let ?g = "\<lambda>d. if ?p d then d\<lparr>or_delivery_state := ''ACKED'', or_acked_revision := Some (uint v), or_last_error := [],
      or_updated_at := at\<rparr> else d"
  define g :: "FireOutboxRow \<Rightarrow> FireOutboxRow" where "g = ?g"
  have g: "or_delivery_key (g d) = or_delivery_key d" "or_fire_revision (g d) = or_fire_revision d"
    "or_delivery_state d = ''ACKED'' \<Longrightarrow> or_delivery_state (g d) = ''ACKED''" for d
    by (simp_all add: g_def)
  have "acked_at (db\<lparr>fd_outbox := map g (fd_outbox db)\<rparr>) ch r"
    using assms by (auto simp: acked_at_def g)
  then show ?thesis
    using assms by (simp add: acknowledgeFireDelivery_def mark_delivery_def checkedInt64_def Let_def update_rows_def g_def)
qed

text \<open>A command of the service moves the retained row of its own channel only, and moves it forward.\<close>

lemma transition_moves:
  assumes ok: "fire_store_ok db" and cur: "alarm_of db c = Some current"
    and out: "outbox_transition db r l db'"
    and r: "fo_deliveryKey r = retainedDeliveryId c" "uint (fo_fireRevision r) = uint (fs_fireRevision current) + 1"
    and l: "fo_deliveryKey l = lifecycleDeliveryId e"
  shows "acked_at db ch v \<Longrightarrow> acked_at db' ch v" "ch \<noteq> c \<Longrightarrow> at_revision db' ch v \<longleftrightarrow> at_revision db ch v"
proof -
  obtain row where row: "deliveryColumns l = Inr row" "fd_outbox db' =
      map (\<lambda>d. if or_delivery_key d = retainedDeliveryId c then retained_row r (uint (fo_fireRevision r)) d else d)
        (fd_outbox db) @ [row]"
    using out r(1) by (auto simp: outbox_transition_def update_rows_def)
  have key: "or_delivery_key row = lifecycleDeliveryId e" using row(1) l by (auto simp: deliveryColumns_def)
  have old: "or_fire_revision d = uint (fs_fireRevision current)"
    if d: "d \<in> set (fd_outbox db)" "or_delivery_key d = retainedDeliveryId c" for d
  proof -
    obtain s where s: "s \<in> set (fd_states db)" "sr_channel_id s = c" "retained_of s d"
      by (rule retained_key [OF ok d])
    obtain s' where s': "s' \<in> set (fd_states db)" "stateColumns current = Inr s'" "sr_channel_id s' = c"
      by (rule selectState_row [OF ok cur])
    have "s = s'" using fire_state_unique [OF ok s(1) s'(1)] s(2) s'(3) by simp
    then show ?thesis using s(3) s'(2) by (auto simp: retained_of_def stateColumns_Inr)
  qed
  show "acked_at db' ch v" if a: "acked_at db ch v"
  proof -
    have "uint v \<le> or_fire_revision d" if "d \<in> set (fd_outbox db)" "or_delivery_key d = retainedDeliveryId ch" for d
      using a that by (simp add: acked_at_def)
    then show ?thesis
      using a r key old unfolding acked_at_def row(2) by (fastforce simp: retained_row_def)
  qed
  show "at_revision db' ch v \<longleftrightarrow> at_revision db ch v" if "ch \<noteq> c"
    using that key unfolding at_revision_def row(2) by (auto simp: retained_row_def)
qed

lemma next_revision: "0 < new \<Longrightarrow> new = r + 1 \<Longrightarrow> uint new = uint r + 1" for r new :: "64 word"
proof -
  assume "0 < new" "new = r + 1"
  then have "1 + r \<noteq> 0" by (simp add: add.commute)
  then have "unat (1 + r) = Suc (unat r)" by (rule unatSuc)
  then show ?thesis using \<open>new = r + 1\<close> by (simp add: add.commute uint_nat del: of_nat_unat)
qed

lemma service_moves:
  assumes db: "fire_db_ok ctx db" and c: "command_ok ctx cmd" and run: "process_fire ctx env db cmd = Inr (db', r)"
  shows "fd_outbox db' = fd_outbox db \<or>
    (\<forall>ch v. (acked_at db ch v \<longrightarrow> acked_at db' ch v) \<and>
       (ch \<noteq> fc_channelId cmd \<longrightarrow> at_revision db' ch v = at_revision db ch v))"
proof -
  have ok: "fire_store_ok db" "mapped ctx db" using db by (simp_all add: fire_db_ok_def)
  have ok': "fire_store_ok db'" using fire_db_ok_process [OF db c run] by (simp add: fire_db_ok_def)
  have ch: "fire_step ctx db b (command_meaning cmd (fc_channelId cmd)) (command_cursor db cmd) (db', r) \<Longrightarrow> ?thesis"
    if b: "fb_channelId b = fc_channelId cmd" for b :: FireChannelBinding
  proof -
    assume "fire_step ctx db b (command_meaning cmd (fc_channelId cmd)) (command_cursor db cmd) (db', r)"
    then consider "db' = db" | "fd_outbox db' = fd_outbox db" | current new alarmId where
      "alarm_of db (fc_channelId cmd) = Some current" "committed_by db (fc_channelId cmd) current new (db', r)"
      "fs_fireRevision new = fs_fireRevision current + 1" "announced ctx db b current new alarmId db'"
      unfolding fire_step_def unchanged_by_def b by auto
    then show ?thesis
    proof cases
      case 3
      then obtain signal where out: "outbox_transition db
           (the (fm_retainedDelivery (transition_mutation ctx b (fs_fireRevision current) new signal alarmId)))
           (the (fm_lifecycleDelivery (transition_mutation ctx b (fs_fireRevision current) new signal alarmId))) db'"
        by (auto simp: announced_def Let_def)
      have "alarm_of db' (fc_channelId cmd) = Some (stored_state new)" using 3(2) by (simp add: committed_by_def committed_to_def)
      then have "0 < fs_fireRevision (stored_state new)"
        by (rule selectState_row [OF ok'])
      then have "0 < fs_fireRevision new" by simp
      then have v: "uint (fs_fireRevision new) = uint (fs_fireRevision current) + 1"
        using 3(3) by (rule next_revision)
      show ?thesis
        using transition_moves [OF ok(1) 3(1) out, of "fs_lastEventId new"] v b
        by (simp add: transition_mutation_def makeDelivery_def Let_def)
    qed simp_all
  qed
  show ?thesis
    using process_fire_sound [OF ok c run] ch by (auto simp: unchanged_by_def)
qed

section \<open>The shared part of the coordinator\<close>

text \<open>
  The depth of a channel counts its callers, an open boundary excludes the regular publishers, and a
  release of lifecycle rows excludes both waiting and open boundaries.
\<close>

definition depth_of :: "DeliveryCoordinator \<Rightarrow> string \<Rightarrow> nat" where
  "depth_of c ch = (case um_find (dc_mutationDepth c) ch of None \<Rightarrow> 0 | Some n \<Rightarrow> n)"

definition shared_ok :: "DeliveryCoordinator \<Rightarrow> string list \<Rightarrow> string list \<Rightarrow> bool" where
  "shared_ok c waiting boundaries \<longleftrightarrow>
     (\<forall>ch. depth_of c ch = count_list waiting ch + count_list boundaries ch) \<and>
     (boundaries \<noteq> [] \<longrightarrow> dc_activeEgress c = 0) \<and>
     (dc_lifecycleRelease c \<longrightarrow> waiting = [] \<and> boundaries = [])"

text \<open>\<open>closes k\<close>: no readiness is gained, and the generation moves by at most \<open>k\<close>, always when a depth does.\<close>

definition closes :: "nat \<Rightarrow> DeliveryCoordinator \<Rightarrow> DeliveryCoordinator \<Rightarrow> bool" where
  "closes k c c' \<longleftrightarrow>
     fst ` set (dc_ready c) \<subseteq> fst ` set (dc_ready c') \<and>
     (\<forall>ch. um_find (dc_ready c') ch = Some True \<longrightarrow> um_find (dc_ready c) ch = Some True \<and>
        um_find (dc_readyRevision c') ch = um_find (dc_readyRevision c) ch \<and> depth_of c' ch = depth_of c ch) \<and>
     unat (dc_outboxGeneration c) \<le> unat (dc_outboxGeneration c') \<and>
     unat (dc_outboxGeneration c') \<le> unat (dc_outboxGeneration c) + k \<and>
     (dc_outboxGeneration c' = dc_outboxGeneration c \<longrightarrow> depth_of c' = depth_of c)"

definition worker_view :: "DeliveryCoordinator \<Rightarrow>
    bool \<times> 64 word \<times> bool \<times> (string, 64 word) umap \<times> (64 word \<times> int, DeliveryAttempt) umap" where
  "worker_view c =
     (dc_lifecycleRelease c, dc_activeEpoch c, dc_subscriptionsReady c, dc_syncedRevision c, dc_inFlight c)"

lemma closes_refl [simp]: "closes k c c"
  by (simp add: closes_def)

lemma closes_mono: "closes j c c' \<Longrightarrow> j \<le> k \<Longrightarrow> closes k c c'"
  by (auto simp: closes_def)

lemma closes_trans:
  assumes "closes j c c1" and "closes k c1 c2"
  shows "closes (j + k) c c2"
proof -
  have gen: "dc_outboxGeneration c1 = dc_outboxGeneration c \<and> dc_outboxGeneration c2 = dc_outboxGeneration c1"
    if "dc_outboxGeneration c2 = dc_outboxGeneration c"
    using assms that by (simp add: closes_def) (metis dual_order.antisym word_unat_eq_iff)
  show ?thesis
    unfolding closes_def
  proof (intro conjI allI impI)
    show "fst ` set (dc_ready c) \<subseteq> fst ` set (dc_ready c2)" using assms unfolding closes_def by (meson order_trans)
    show "unat (dc_outboxGeneration c) \<le> unat (dc_outboxGeneration c2)" using assms by (simp add: closes_def)
    show "unat (dc_outboxGeneration c2) \<le> unat (dc_outboxGeneration c) + (j + k)" using assms by (simp add: closes_def)
    show "depth_of c2 = depth_of c" if "dc_outboxGeneration c2 = dc_outboxGeneration c"
      using gen [OF that] assms by (simp add: closes_def)
  next
    fix ch
    assume "um_find (dc_ready c2) ch = Some True"
    then show "um_find (dc_ready c) ch = Some True" "depth_of c2 ch = depth_of c ch"
      "um_find (dc_readyRevision c2) ch = um_find (dc_readyRevision c) ch"
      using assms by (simp_all add: closes_def)
  qed
qed

lemma unat_bump: "unat g + 1 < 2 ^ 64 \<Longrightarrow> unat (g + 1) = unat g + 1" for g :: "64 word"
  by (simp add: unat_plus_if' )

lemma count_list_remove1: "count_list (remove1 x xs) y = (if y = x then count_list xs y - 1 else count_list xs y)"
  by (induction xs) (auto simp: count_list_0_iff)

lemma closes_invalidate:
  assumes gen: "unat (dc_outboxGeneration c) + 1 < 2 ^ 64"
    and c': "dc_outboxGeneration c' = dc_outboxGeneration c + 1" "fst ` set (dc_ready c) \<subseteq> fst ` set (dc_ready c')"
    and ready: "\<And>ch. um_find (dc_ready c') ch = Some True \<Longrightarrow> um_find (dc_ready c) ch = Some True \<and>
        um_find (dc_readyRevision c') ch = um_find (dc_readyRevision c) ch \<and> depth_of c' ch = depth_of c ch"
  shows "closes 1 c c'"
  using ready c' unat_bump [OF gen] by (auto simp: closes_def)

lemma find_all_False: "um_find (map (\<lambda>(ch, _). (ch, False)) m) x \<noteq> Some True"
  by (induction m) (auto simp: um_find_def)

lemma closes_failClose:
  assumes "unat (dc_outboxGeneration c) + 1 < 2 ^ 64"
  shows "closes 1 c (failCloseAllReadiness c)"
  using assms find_all_False [of "dc_ready c"]
  by (intro closes_invalidate) (auto simp: failCloseAllReadiness_def invalidateRegularEgress_def image_image split_beta)

lemma failClose_view [simp]:
  "worker_view (failCloseAllReadiness c) = worker_view c" "depth_of (failCloseAllReadiness c) = depth_of c"
  "dc_activeEgress (failCloseAllReadiness c) = dc_activeEgress c"
  "dc_outboxGeneration (failCloseAllReadiness c) = dc_outboxGeneration c + 1"
  by (simp_all add: failCloseAllReadiness_def invalidateRegularEgress_def worker_view_def depth_of_def fun_eq_iff)

lemma shared_ok_cong:
  assumes "shared_ok c w b" and "depth_of c' = depth_of c" and "dc_activeEgress c' = dc_activeEgress c"
    and "dc_lifecycleRelease c' \<longrightarrow> dc_lifecycleRelease c"
  shows "shared_ok c' w b"
  using assms by (auto simp: shared_ok_def)

lemma closed_to_outside:
  assumes "closes k c c'" and "worker_view c' = worker_view c" and "k \<le> 2"
  shows "closes 2 c c' \<and> worker_view c' = worker_view c"
  using assms closes_mono by blast

lemma closes_same:
  assumes "dc_ready c' = dc_ready c" and "dc_readyRevision c' = dc_readyRevision c"
    and "dc_mutationDepth c' = dc_mutationDepth c" and "dc_outboxGeneration c' = dc_outboxGeneration c"
  shows "closes k c c'" "depth_of c' = depth_of c"
  using assms by (simp_all add: closes_def depth_of_def fun_eq_iff)

lemma closes_from:
  assumes "closes k c1 c'" and "dc_ready c1 = dc_ready c" and "dc_readyRevision c1 = dc_readyRevision c"
    and "dc_mutationDepth c1 = dc_mutationDepth c" and "dc_outboxGeneration c1 = dc_outboxGeneration c"
  shows "closes k c c'"
  using closes_trans [OF closes_same(1) [OF assms(2-5), of 0] assms(1)] by simp

lemma view_facts [simp]:
  "worker_view (c\<lparr>dc_facts := fs\<rparr>) = worker_view c" "depth_of (c\<lparr>dc_facts := fs\<rparr>) = depth_of c"
  "worker_view (c\<lparr>dc_factOverflow := o1, dc_factOverflowEpoch := e\<rparr>) = worker_view c"
  "depth_of (c\<lparr>dc_factOverflow := o1, dc_factOverflowEpoch := e\<rparr>) = depth_of c"
  by (simp_all add: worker_view_def depth_of_def fun_eq_iff)

lemma enqueue_outside:
  assumes gen: "unat (dc_outboxGeneration c) + 2 < 2 ^ 64" and ok: "shared_ok c w b"
    and c': "c' = fst (enqueueTransportFact config c event)"
  shows "closes 2 c c' \<and> worker_view c' = worker_view c" "shared_ok c' w b"
proof -
  define c1 where "c1 = (if closes_readiness event then failCloseAllReadiness c else c)"
  have c1: "closes 1 c c1" "worker_view c1 = worker_view c" "depth_of c1 = depth_of c"
    "dc_activeEgress c1 = dc_activeEgress c" "unat (dc_outboxGeneration c1) + 1 < 2 ^ 64"
    unfolding c1_def using gen unat_bump [of "dc_outboxGeneration c"] closes_failClose [of c] by simp_all
  consider "c' = c" | "c' = c1\<lparr>dc_facts := dc_facts c1 @ [event]\<rparr>"
    | e where "c' = failCloseAllReadiness (c1\<lparr>dc_factOverflow := True, dc_factOverflowEpoch := e\<rparr>)"
  proof (cases "\<not> dc_running c \<or> \<not> dc_acceptingFacts c")
    case True
    then show thesis using that(1) by (simp add: c' enqueueTransportFact_def)
  next
    case False
    then show thesis
      using that(2,3) by (cases "length (dc_facts c1) \<ge> dg_factQueueCapacity config")
        (simp_all add: c' enqueueTransportFact_def Let_def c1_def [symmetric] del: if_split)
  qed
  then have "closes (1 + 1) c c' \<and> worker_view c' = worker_view c \<and> depth_of c' = depth_of c \<and>
      dc_activeEgress c' = dc_activeEgress c"
  proof cases
    case 2
    have "closes 1 c1 c'" by (rule closes_same) (simp_all add: 2)
    then show ?thesis using c1 closes_trans [OF c1(1)] by (simp add: 2)
  next
    case 3
    have "closes 1 c1 c'"
      unfolding 3 by (rule closes_from [OF closes_failClose]) (use c1(5) in simp_all)
    then show ?thesis using c1 closes_trans [OF c1(1)] by (simp add: 3)
  qed simp
  then show "closes 2 c c' \<and> worker_view c' = worker_view c" "shared_ok c' w b"
    using shared_ok_cong [OF ok, of c'] by (simp_all add: worker_view_def numeral_2_eq_2)
qed

lemma notify_outside:
  assumes gen: "unat (dc_outboxGeneration c) + 1 < 2 ^ 64" and ok: "shared_ok c w b"
  shows "closes 1 c (notifyOutboxChanged c ch) \<and> worker_view (notifyOutboxChanged c ch) = worker_view c"
    "shared_ok (notifyOutboxChanged c ch) w b"
proof -
  have depth: "depth_of (notifyOutboxChanged c ch) = depth_of c"
    by (simp add: notifyOutboxChanged_def invalidateRegularEgress_def depth_of_def fun_eq_iff)
  have "closes 1 c (notifyOutboxChanged c ch)"
    by (rule closes_invalidate [OF gen]) (auto simp: depth_of_def um_find_put um_put_keys notifyOutboxChanged_def
        invalidateRegularEgress_def split: if_splits)
  then show "closes 1 c (notifyOutboxChanged c ch) \<and> worker_view (notifyOutboxChanged c ch) = worker_view c"
    by (simp add: worker_view_def notifyOutboxChanged_def invalidateRegularEgress_def)
  show "shared_ok (notifyOutboxChanged c ch) w b"
    by (rule shared_ok_cong [OF ok depth]) (simp_all add: notifyOutboxChanged_def invalidateRegularEgress_def)
qed

lemma enter_outside:
  assumes gen: "unat (dc_outboxGeneration c) + 1 < 2 ^ 64" and ok: "shared_ok c w b"
    and run: "enterDomainMutation c ch = Some c'"
  shows "closes 1 c c' \<and> worker_view c' = worker_view c" "shared_ok c' (ch # w) b"
proof -
  obtain depth where depth: "um_find (dc_mutationDepth c) ch = Some depth" "\<not> dc_lifecycleRelease c"
    and c': "c' = (invalidateRegularEgress (c\<lparr>dc_mutationDepth := um_put ch (depth + 1) (dc_mutationDepth c),
       dc_ready := um_put ch False (dc_ready c), dc_readyRevision := um_put ch 0 (dc_readyRevision c)\<rparr>))\<lparr>dc_outboxChanged := True\<rparr>"
    using run by (auto simp: enterDomainMutation_def split: if_splits option.splits)
  have d': "depth_of c' x = (if x = ch then depth_of c ch + 1 else depth_of c x)" for x
    using depth by (simp add: c' invalidateRegularEgress_def depth_of_def um_find_put)
  have "closes 1 c c'"
    by (rule closes_invalidate [OF gen])
      (auto simp: depth_of_def um_find_put um_put_keys invalidateRegularEgress_def c' split: if_splits)
  then show "closes 1 c c' \<and> worker_view c' = worker_view c"
    by (simp add: worker_view_def c' invalidateRegularEgress_def)
  show "shared_ok c' (ch # w) b"
    using ok depth(2) d' by (auto simp: shared_ok_def) (simp_all add: c' invalidateRegularEgress_def)
qed

lemma leave_outside:
  assumes gen: "unat (dc_outboxGeneration c) + 1 < 2 ^ 64" and ready: "um_find (dc_ready c) ch \<noteq> Some True"
  shows "closes 1 c (leave_mutation c ch) \<and> worker_view (leave_mutation c ch) = worker_view c"
    "depth_of (leave_mutation c ch) x = (if x = ch then depth_of c ch - 1 else depth_of c x)"
    "dc_activeEgress (leave_mutation c ch) = dc_activeEgress c"
proof -
  show d': "depth_of (leave_mutation c ch) x = (if x = ch then depth_of c ch - 1 else depth_of c x)" for x
    by (simp add: leave_mutation_def invalidateRegularEgress_def depth_of_def um_find_put split: option.split)
  have "closes 1 c (leave_mutation c ch)"
  proof (cases "um_find (dc_mutationDepth c) ch")
    case (Some depth)
    then show ?thesis
      by (intro closes_invalidate [OF gen])
        (use ready in \<open>auto simp: leave_mutation_def invalidateRegularEgress_def depth_of_def um_find_put\<close>)
  qed (simp add: leave_mutation_def)
  then show "closes 1 c (leave_mutation c ch) \<and> worker_view (leave_mutation c ch) = worker_view c"
    by (simp add: worker_view_def leave_mutation_def invalidateRegularEgress_def split: option.split)
  show "dc_activeEgress (leave_mutation c ch) = dc_activeEgress c"
    by (simp add: leave_mutation_def invalidateRegularEgress_def split: option.split)
qed

definition ready_closed :: "DeliveryCoordinator \<Rightarrow> bool" where
  "ready_closed c \<longleftrightarrow> (\<forall>ch. um_find (dc_ready c) ch = Some True \<longrightarrow> depth_of c ch = 0)"

lemma count_pos: "x \<in> set xs \<Longrightarrow> 0 < count_list xs x"
  by (metis count_list_0_iff gr0I)

lemma no_open_depth: "no_open_mutation c \<Longrightarrow> depth_of c ch = 0"
  by (auto simp: no_open_mutation_def depth_of_def list_all_iff split: option.split dest!: um_find_SomeD)

lemma depth_zero_empty:
  assumes "shared_ok c w b" and "\<And>ch. depth_of c ch = 0"
  shows "w = []" "b = []"
proof -
  have none: "count_list w ch = 0 \<and> count_list b ch = 0" for ch using assms by (simp add: shared_ok_def)
  then have "x \<notin> set w" "x \<notin> set b" for x by (metis count_list_0_iff)+
  then show "w = []" "b = []" by (metis list.set_intros(1) neq_Nil_conv)+
qed

lemma end_wait_outside:
  assumes gen: "unat (dc_outboxGeneration c) + 1 < 2 ^ 64" and ok: "shared_ok c w b" and r: "ready_closed c"
    and ch: "ch \<in> set w" and run: "finishMutationWait c ch = (c', entered)"
  shows "closes 1 c c' \<and> worker_view c' = worker_view c"
    "shared_ok c' (remove1 ch w) (if entered then ch # b else b)"
proof -
  have pos: "0 < depth_of c ch" using ok count_pos [OF ch] by (simp add: shared_ok_def)
  then have ready: "um_find (dc_ready c) ch \<noteq> Some True" using r by (auto simp: ready_closed_def)
  note leave = leave_outside [OF gen ready]
  have release: "\<not> dc_lifecycleRelease c" using ok ch by (auto simp: shared_ok_def)
  consider "c' = leave_mutation c ch" "\<not> entered" | "c' = c" "entered" "dc_activeEgress c = 0"
    using run by (auto simp: finishMutationWait_def egress_drained_def split: if_splits)
  then have "(closes 1 c c' \<and> worker_view c' = worker_view c) \<and>
      shared_ok c' (remove1 ch w) (if entered then ch # b else b)"
  proof cases
    case 1
    have "\<not> dc_lifecycleRelease c'" using release leave(1) by (simp add: 1 worker_view_def)
    then show ?thesis using ok leave count_pos [OF ch] by (simp add: 1 shared_ok_def count_list_remove1)
  next
    case 2
    then show ?thesis using ok release count_pos [OF ch] by (auto simp: shared_ok_def count_list_remove1)
  qed
  then show "closes 1 c c' \<and> worker_view c' = worker_view c"
    "shared_ok c' (remove1 ch w) (if entered then ch # b else b)" by simp_all
qed

lemma complete_outside:
  assumes gen: "unat (dc_outboxGeneration c) + 1 < 2 ^ 64" and ok: "shared_ok c w b" and r: "ready_closed c"
    and ch: "ch \<in> set b" and c': "c' = completeDomainMutation c ch"
  shows "closes 1 c c' \<and> worker_view c' = worker_view c" "shared_ok c' w (remove1 ch b)"
proof -
  have pos: "0 < depth_of c ch" using ok count_pos [OF ch] by (simp add: shared_ok_def)
  then have ready: "um_find (dc_ready c) ch \<noteq> Some True" using r by (auto simp: ready_closed_def)
  note leave = leave_outside [OF gen ready]
  have release: "\<not> dc_lifecycleRelease c" using ok ch by (auto simp: shared_ok_def)
  have c'': "c' = leave_mutation c ch"
    using pos by (auto simp: c' completeDomainMutation_def depth_of_def split: option.splits)
  show "closes 1 c c' \<and> worker_view c' = worker_view c" using leave(1) by (simp add: c'')
  then have "\<not> dc_lifecycleRelease c'" using release by (simp add: worker_view_def)
  then show "shared_ok c' w (remove1 ch b)"
    using ok leave count_pos [OF ch] by (auto simp: c'' shared_ok_def count_list_remove1)
qed

text \<open>The calls of the other threads, in one statement.\<close>

definition outside_event :: "delivery_event \<Rightarrow> bool" where
  "outside_event event \<longleftrightarrow> (case event of ServiceCommand env cmd \<Rightarrow> False | Work env \<Rightarrow> False | _ \<Rightarrow> True)"

lemma egress_outside:
  assumes ok: "shared_ok c w b"
  shows "closes k c (fst (beginRegularEgress c)) \<and> worker_view (fst (beginRegularEgress c)) = worker_view c"
    "shared_ok (fst (beginRegularEgress c)) w b"
    "closes k c (completeRegularEgress c) \<and> worker_view (completeRegularEgress c) = worker_view c"
    "shared_ok (completeRegularEgress c) w b"
proof -
  have "closes k c (fst (beginRegularEgress c))" "closes k c (completeRegularEgress c)"
    by (rule closes_same; simp add: beginRegularEgress_def completeRegularEgress_def)+
  then show "closes k c (fst (beginRegularEgress c)) \<and> worker_view (fst (beginRegularEgress c)) = worker_view c"
    "closes k c (completeRegularEgress c) \<and> worker_view (completeRegularEgress c) = worker_view c"
    by (simp_all add: beginRegularEgress_def completeRegularEgress_def worker_view_def)
  have "b = []" if "no_open_mutation c" using depth_zero_empty [OF ok no_open_depth [OF that]] by simp
  then show "shared_ok (fst (beginRegularEgress c)) w b"
    using ok by (auto simp: beginRegularEgress_def shared_ok_def depth_of_def)
  show "shared_ok (completeRegularEgress c) w b"
    using ok by (auto simp: completeRegularEgress_def shared_ok_def depth_of_def)
qed

lemma stop_outside:
  assumes gen: "unat (dc_outboxGeneration c) + 1 < 2 ^ 64" and ok: "shared_ok c w b"
  shows "closes 1 c (delivery_request_stop c) \<and> worker_view (delivery_request_stop c) = worker_view c"
    "shared_ok (delivery_request_stop c) w b"
proof -
  let ?c1 = "c\<lparr>dc_acceptingFacts := False, dc_stopRequested := True\<rparr>"
  have c1: "worker_view ?c1 = worker_view c" "depth_of ?c1 = depth_of c"
    by (simp_all add: worker_view_def depth_of_def fun_eq_iff)
  have "closes 1 c (failCloseAllReadiness ?c1)"
    by (rule closes_from [OF closes_failClose]) (use gen in simp_all)
  then show "closes 1 c (delivery_request_stop c) \<and> worker_view (delivery_request_stop c) = worker_view c"
    using c1 by (simp add: delivery_request_stop_def)
  then show "shared_ok (delivery_request_stop c) w b"
    using c1 by (intro shared_ok_cong [OF ok]) (simp_all add: delivery_request_stop_def worker_view_def)
qed

lemma outside_step:
  assumes gen: "unat (dc_outboxGeneration c) + 2 < 2 ^ 64" and ok: "shared_ok c w b" and r: "ready_closed c"
    and event: "outside_event event"
    and run: "delivery_step dx ((c, db, pc), w, b) event = (((c', db', pc'), w', b'), outs)"
  shows "db' = db \<and> pc' = pc \<and> outs = []" "closes 2 c c' \<and> worker_view c' = worker_view c" "shared_ok c' w' b'"
proof -
  have gen1: "unat (dc_outboxGeneration c) + 1 < 2 ^ 64" using gen by simp
  have "(db' = db \<and> pc' = pc \<and> outs = []) \<and> (\<exists>k \<le> 2. closes k c c' \<and> worker_view c' = worker_view c) \<and> shared_ok c' w' b'"
  proof (cases event)
    case (Deliver f)
    then show ?thesis using run enqueue_outside [OF gen ok refl] by (auto simp: delivery_step_def)
  next
    case (Notify ch)
    then show ?thesis using run notify_outside [OF gen1 ok, of ch] by (auto simp: delivery_step_def intro: exI [of _ 1])
  next
    case (EnterMutation ch)
    then show ?thesis using run ok enter_outside [OF gen1 ok]
      by (auto simp: delivery_step_def split: option.splits intro: exI [of _ 1])
  next
    case (EndWait ch)
    show ?thesis
    proof (cases "ch \<in> set w")
      case True
      obtain c1 entered where c1: "finishMutationWait c ch = (c1, entered)" by (cases "finishMutationWait c ch")
      show ?thesis using run EndWait True end_wait_outside [OF gen1 ok r True c1]
        by (auto simp: delivery_step_def c1 intro: exI [of _ 1])
    qed (use run ok EndWait in \<open>auto simp: delivery_step_def\<close>)
  next
    case (CompleteMutation ch)
    then show ?thesis using run ok complete_outside [OF gen1 ok r _ refl]
      by (auto simp: delivery_step_def split: if_splits intro: exI [of _ 1])
  next
    case RequestStop
    then show ?thesis using run stop_outside [OF gen1 ok] by (auto simp: delivery_step_def intro: exI [of _ 1])
  qed (use run event egress_outside(1,3) [OF ok, of 1] egress_outside(2,4) [OF ok] in \<open>auto simp: delivery_step_def outside_event_def intro: exI [of _ 1]\<close>)
  then show "db' = db \<and> pc' = pc \<and> outs = []" "closes 2 c c' \<and> worker_view c' = worker_view c" "shared_ok c' w' b'"
    using closes_mono by blast+
qed

section \<open>The invariant\<close>

text \<open>
  The worker's own data: an attempt in flight is never at the synchronized revision of its channel, and a
  channel has at most one retained row in flight. The rows that the worker still holds are rows of their kind.
\<close>

definition delivery_ok :: "FireOutboxRecord \<Rightarrow> bool" where
  "delivery_ok d \<longleftrightarrow> (if fo_sinkKind d = RetainedState then fo_deliveryKey d = retainedDeliveryId (fo_channelId d)
     else \<exists>e. fo_deliveryKey d = lifecycleDeliveryId e)"

definition attempts :: "DeliveryCoordinator \<Rightarrow> FireOutboxRecord list" where
  "attempts c = map (\<lambda>(_, a). at_delivery a) (dc_inFlight c)"

definition retained_on :: "string \<Rightarrow> FireOutboxRecord list \<Rightarrow> FireOutboxRecord list" where
  "retained_on ch ds = filter (\<lambda>d. fo_sinkKind d = RetainedState \<and> fo_channelId d = ch) ds"

definition unsynced :: "DeliveryCoordinator \<Rightarrow> FireOutboxRecord \<Rightarrow> bool" where
  "unsynced c d \<longleftrightarrow> delivery_ok d \<and>
     (fo_sinkKind d = RetainedState \<longrightarrow> um_find (dc_syncedRevision c) (fo_channelId d) \<noteq> Some (fo_fireRevision d))"

definition attempts_ok :: "DeliveryCoordinator \<Rightarrow> bool" where
  "attempts_ok c \<longleftrightarrow> (\<forall>d \<in> set (attempts c). unsynced c d) \<and> (\<forall>ch. length (retained_on ch (attempts c)) \<le> 1)"

fun retained_phase :: "WorkerPc \<Rightarrow> bool" where
  "retained_phase (RetainedRows _ _ _ _ _) = True"
| "retained_phase _ = False"

fun lifecycle_phase :: "WorkerPc \<Rightarrow> bool" where
  "lifecycle_phase (LifecycleRows _ _ _) = True"
| "lifecycle_phase _ = False"

fun releasing :: "WorkerPc \<Rightarrow> bool" where
  "releasing (ListLifecycle _) = True"
| "releasing (LifecycleRows _ _ _) = True"
| "releasing (CallPublisher _ _ _ resume) = releasing resume"
| "releasing _ = False"

fun pc_ok :: "DeliveryCoordinator \<Rightarrow> WorkerPc \<Rightarrow> bool" where
  "pc_ok c (Acknowledged a _ _ _ _) \<longleftrightarrow> delivery_ok (at_delivery a) \<and>
     (fo_sinkKind (at_delivery a) = RetainedState \<longrightarrow> retained_on (fo_channelId (at_delivery a)) (attempts c) = [])"
| "pc_ok c (RetainedRows _ _ rows todo _) \<longleftrightarrow>
     (\<forall>r \<in> set rows. delivery_ok r \<and> fo_sinkKind r = RetainedState) \<and> set todo \<subseteq> set rows"
| "pc_ok c (LifecycleRows _ todo _) \<longleftrightarrow> (\<forall>r \<in> set todo. delivery_ok r \<and> fo_sinkKind r = LifecycleEvent)"
| "pc_ok c (CallPublisher d _ _ resume) \<longleftrightarrow> pc_ok c resume \<and> unsynced c d \<and>
     (if fo_sinkKind d = RetainedState
      then retained_phase resume \<and> retained_on (fo_channelId d) (attempts c) = []
      else lifecycle_phase resume)"
| "pc_ok c _ \<longleftrightarrow> True"

text \<open>What the worker knows of the database: synchronized rows are acknowledged, a list of retained rows is
  current as long as the generation is, and so is a channel that is ready.\<close>

definition synced_ok :: "DeliveryCoordinator \<Rightarrow> FireDb \<Rightarrow> bool" where
  "synced_ok c db \<longleftrightarrow> (\<forall>ch v. um_find (dc_syncedRevision c) ch = Some v \<longrightarrow> acked_at db ch v)"

fun snapshot :: "WorkerPc \<Rightarrow> (64 word \<times> FireOutboxRecord list) option" where
  "snapshot (ListRetained observed _) = Some (observed, [])"
| "snapshot (RetainedRows observed _ rows _ _) = Some (observed, rows)"
| "snapshot (CallPublisher _ _ _ resume) = snapshot resume"
| "snapshot _ = None"

definition snapshot_ok :: "DeliveryCoordinator \<Rightarrow> FireDb \<Rightarrow> WorkerPc \<Rightarrow> bool" where
  "snapshot_ok c db pc \<longleftrightarrow> (case snapshot pc of None \<Rightarrow> True | Some (observed, rows) \<Rightarrow>
     unat observed \<le> unat (dc_outboxGeneration c) \<and>
     (observed = dc_outboxGeneration c \<longrightarrow> (\<forall>r \<in> set rows. depth_of c (fo_channelId r) = 0 \<longrightarrow>
        at_revision db (fo_channelId r) (fo_fireRevision r))))"

definition ready_ok :: "DeliveryCoordinator \<Rightarrow> FireDb \<Rightarrow> bool" where
  "ready_ok c db \<longleftrightarrow> (\<forall>ch. um_find (dc_ready c) ch = Some True \<longrightarrow> depth_of c ch = 0 \<and>
     (\<exists>v. um_find (dc_readyRevision c) ch = Some v \<and> um_find (dc_syncedRevision c) ch = Some v \<and> at_revision db ch v))"

definition settled :: "DeliveryCoordinator \<Rightarrow> FireDb \<Rightarrow> string \<Rightarrow> bool" where
  "settled c db ch \<longleftrightarrow> (\<exists>v. at_revision db ch v \<and> acked_at db ch v \<and>
     (\<forall>d \<in> set (retained_on ch (attempts c)). fo_fireRevision d \<noteq> v))"

definition release_ok :: "string list \<Rightarrow> DeliveryCoordinator \<Rightarrow> FireDb \<Rightarrow> WorkerPc \<Rightarrow> bool" where
  "release_ok channels c db pc \<longleftrightarrow> dc_lifecycleRelease c = releasing pc \<and>
     (releasing pc \<longrightarrow> (\<forall>ch \<in> set channels. settled c db ch))"

fun ack_ok :: "FireDb \<Rightarrow> WorkerPc \<Rightarrow> bool" where
  "ack_ok db (Acknowledged a ok _ _ _) \<longleftrightarrow> (ok \<and> fo_sinkKind (at_delivery a) = RetainedState \<longrightarrow>
     acked_at db (fo_channelId (at_delivery a)) (fo_fireRevision (at_delivery a)))"
| "ack_ok db _ \<longleftrightarrow> True"

definition worker_ok :: "'j DeliveryContext \<Rightarrow> DeliveryState \<Rightarrow> bool" where
  "worker_ok dx st \<longleftrightarrow> (case st of (c, db, pc) \<Rightarrow>
     fire_db_ok (dx_fire dx) db \<and> set (dg_channelIds (dx_config dx)) \<subseteq> fst ` set (dc_ready c) \<and>
     attempts_ok c \<and> pc_ok c pc \<and> synced_ok c db \<and> snapshot_ok c db pc \<and> ready_ok c db \<and>
     release_ok (dg_channelIds (dx_config dx)) c db pc \<and> ack_ok db pc)"

definition delivery_inv :: "'j DeliveryContext \<Rightarrow> DeliverySystem \<Rightarrow> bool" where
  "delivery_inv dx s \<longleftrightarrow> (case s of ((c, db, pc), waiting, boundaries) \<Rightarrow>
     shared_ok c waiting boundaries \<and> worker_ok dx (c, db, pc))"

lemma worker_okD:
  assumes "worker_ok dx (c, db, pc)"
  shows "fire_db_ok (dx_fire dx) db" "set (dg_channelIds (dx_config dx)) \<subseteq> fst ` set (dc_ready c)"
    "attempts_ok c" "pc_ok c pc" "synced_ok c db" "snapshot_ok c db pc" "ready_ok c db"
    "release_ok (dg_channelIds (dx_config dx)) c db pc" "ack_ok db pc"
  using assms by (simp_all add: worker_ok_def)

lemma worker_okI:
  assumes "fire_db_ok (dx_fire dx) db" and "set (dg_channelIds (dx_config dx)) \<subseteq> fst ` set (dc_ready c)"
    and "attempts_ok c" and "pc_ok c pc" and "synced_ok c db" and "snapshot_ok c db pc" and "ready_ok c db"
    and "release_ok (dg_channelIds (dx_config dx)) c db pc" and "ack_ok db pc"
  shows "worker_ok dx (c, db, pc)"
  using assms by (simp add: worker_ok_def)

lemma ready_ok_closed: "ready_ok c db \<Longrightarrow> ready_closed c"
  by (simp add: ready_ok_def ready_closed_def)

text \<open>The other threads see and keep all of it.\<close>

lemma pc_ok_cong:
  assumes "attempts c' = attempts c" and "dc_syncedRevision c' = dc_syncedRevision c"
  shows "pc_ok c' pc = pc_ok c pc"
  using assms by (induction pc) (simp_all add: unsynced_def)

lemma snapshot_ok_closes:
  assumes "snapshot_ok c db pc" and "closes k c c'"
  shows "snapshot_ok c' db pc"
proof (cases "snapshot pc")
  case (Some x)
  obtain observed rows where x: "x = (observed, rows)" by (cases x)
  have le: "unat observed \<le> unat (dc_outboxGeneration c)" using assms(1) Some x by (simp add: snapshot_ok_def)
  then have "unat observed \<le> unat (dc_outboxGeneration c')" using assms(2) by (simp add: closes_def)
  moreover have "\<forall>r \<in> set rows. depth_of c' (fo_channelId r) = 0 \<longrightarrow> at_revision db (fo_channelId r) (fo_fireRevision r)"
    if same: "observed = dc_outboxGeneration c'"
  proof -
    have "unat (dc_outboxGeneration c) \<le> unat (dc_outboxGeneration c')" using assms(2) by (simp add: closes_def)
    then have "dc_outboxGeneration c' = dc_outboxGeneration c" using le same by (metis dual_order.antisym word_unat_eq_iff)
    moreover from this have "depth_of c' = depth_of c" using assms(2) by (simp add: closes_def)
    ultimately show ?thesis using assms(1) Some x same by (simp add: snapshot_ok_def)
  qed
  ultimately show ?thesis by (simp add: snapshot_ok_def Some x)
qed (simp add: snapshot_ok_def)

lemma closes_keys: "closes k c c' \<Longrightarrow> fst ` set (dc_ready c) \<subseteq> fst ` set (dc_ready c')"
  by (simp add: closes_def)

lemma closes_ready: "closes k c c' \<Longrightarrow> um_find (dc_ready c') ch = Some True \<Longrightarrow> um_find (dc_ready c) ch = Some True \<and>
    um_find (dc_readyRevision c') ch = um_find (dc_readyRevision c) ch \<and> depth_of c' ch = depth_of c ch"
  by (simp add: closes_def)

lemma worker_ok_outside:
  assumes ok: "worker_ok dx (c, db, pc)" and closes: "closes k c c'" and view: "worker_view c' = worker_view c"
  shows "worker_ok dx (c', db, pc)"
proof (rule worker_okI)
  note ok = worker_okD [OF ok]
  have same: "dc_syncedRevision c' = dc_syncedRevision c" "attempts c' = attempts c"
    "dc_lifecycleRelease c' = dc_lifecycleRelease c"
    using view by (simp_all add: worker_view_def attempts_def)
  show "fire_db_ok (dx_fire dx) db" "ack_ok db pc" using ok by simp_all
  show "set (dg_channelIds (dx_config dx)) \<subseteq> fst ` set (dc_ready c')" using ok(2) closes_keys [OF closes] by (rule order_trans)
  show "attempts_ok c'" using ok(3) by (simp add: attempts_ok_def unsynced_def same)
  show "pc_ok c' pc" using ok(4) pc_ok_cong [of c' c] by (simp add: same)
  show "synced_ok c' db" using ok(5) by (simp add: synced_ok_def same)
  show "snapshot_ok c' db pc" by (rule snapshot_ok_closes [OF ok(6) closes])
  show "ready_ok c' db" using ok(7) closes_ready [OF closes] by (simp add: ready_ok_def same)
  show "release_ok (dg_channelIds (dx_config dx)) c' db pc" using ok(8) by (simp add: release_ok_def settled_def same)
qed

lemma delivery_inv_outside:
  assumes inv: "delivery_inv dx ((c, db, pc), w, b)" and gen: "unat (dc_outboxGeneration c) + 2 < 2 ^ 64"
    and event: "outside_event event"
  shows "delivery_inv dx (fst (delivery_step dx ((c, db, pc), w, b) event)) \<and>
    unat (dc_outboxGeneration (fst (fst (fst (delivery_step dx ((c, db, pc), w, b) event))))) \<le> unat (dc_outboxGeneration c) + 2"
proof -
  have ok: "shared_ok c w b" "worker_ok dx (c, db, pc)" using inv by (simp_all add: delivery_inv_def)
  obtain c' db' pc' w' b' outs where run: "delivery_step dx ((c, db, pc), w, b) event = (((c', db', pc'), w', b'), outs)"
    by (metis surj_pair)
  note step = outside_step [OF gen ok(1) ready_ok_closed [OF worker_okD(7) [OF ok(2)]] event run]
  have "unat (dc_outboxGeneration c') \<le> unat (dc_outboxGeneration c) + 2" using step(2) by (simp add: closes_def)
  then show ?thesis using worker_ok_outside [OF ok(2)] step by (auto simp: run delivery_inv_def)
qed

text \<open>A command of the service.\<close>

lemma service_command_moves:
  assumes db: "fire_db_ok ctx db" and c: "command_ok ctx cmd" and db': "db' = service_command ctx b env cmd db"
  shows "fire_db_ok ctx db'" "acked_at db ch v \<Longrightarrow> acked_at db' ch v"
    "ch \<notin> set b \<Longrightarrow> at_revision db' ch v = at_revision db ch v"
proof -
  have "fire_db_ok ctx db' \<and> (\<forall>ch v. (acked_at db ch v \<longrightarrow> acked_at db' ch v) \<and>
      (ch \<notin> set b \<longrightarrow> at_revision db' ch v = at_revision db ch v))"
  proof (cases "process_fire ctx env db cmd")
    case (Inl e)
    then show ?thesis using db by (simp add: db' service_command_def)
  next
    case (Inr x)
    obtain db1 r where x: "x = (db1, r)" by (cases x)
    have run: "process_fire ctx env db cmd = Inr (db1, r)" by (simp add: Inr x)
    have d: "db' = (if fd_outbox db1 = fd_outbox db \<or> fc_channelId cmd \<in> set b then db1 else db)"
      by (simp add: db' service_command_def run)
    have same: "acked_at db1 ch v = acked_at db ch v" "at_revision db1 ch v = at_revision db ch v"
      if "fd_outbox db1 = fd_outbox db" for ch v using that by (simp_all add: acked_at_def at_revision_def)
    have ok1: "fire_db_ok ctx db1" using fire_db_ok_process [OF db c run] by simp
    show ?thesis
    proof (cases "fd_outbox db1 = fd_outbox db")
      case True
      then show ?thesis using ok1 same by (simp add: d)
    next
      case False
      then have moves: "\<forall>ch v. (acked_at db ch v \<longrightarrow> acked_at db1 ch v) \<and>
          (ch \<noteq> fc_channelId cmd \<longrightarrow> at_revision db1 ch v = at_revision db ch v)"
        using service_moves [OF db c run] by simp
      show ?thesis
      proof (cases "fc_channelId cmd \<in> set b")
        case True
        then have "db' = db1" by (simp add: d)
        moreover have "ch \<noteq> fc_channelId cmd" if "ch \<notin> set b" for ch using True that by metis
        ultimately show ?thesis using ok1 moves by metis
      qed (use False db in \<open>simp add: d\<close>)
    qed
  qed
  then show "fire_db_ok ctx db'" "acked_at db ch v \<Longrightarrow> acked_at db' ch v"
    "ch \<notin> set b \<Longrightarrow> at_revision db' ch v = at_revision db ch v" by blast+
qed

lemma ack_ok_mono: "ack_ok db pc \<Longrightarrow> (\<And>ch v. acked_at db ch v \<Longrightarrow> acked_at db' ch v) \<Longrightarrow> ack_ok db' pc"
  by (cases pc) auto

lemma delivery_inv_service:
  assumes inv: "delivery_inv dx ((c, db, pc), w, b)" and cmd: "command_ok (dx_fire dx) cmd"
  shows "delivery_inv dx ((c, service_command (dx_fire dx) b env cmd db, pc), w, b)"
proof -
  define db' where "db' = service_command (dx_fire dx) b env cmd db"
  have sh: "shared_ok c w b" and "worker_ok dx (c, db, pc)" using inv by (simp_all add: delivery_inv_def)
  note ok = worker_okD [OF this(2)]
  note move = service_command_moves [OF ok(1) cmd db'_def]
  have free: "ch \<notin> set b" if "depth_of c ch = 0" for ch
    using sh that by (auto simp: shared_ok_def count_list_0_iff)
  have "worker_ok dx (c, db', pc)"
  proof (rule worker_okI)
    show "synced_ok c db'" using ok(5) move(2) by (simp add: synced_ok_def)
    show "snapshot_ok c db' pc"
      using ok(6) move(3) free by (auto simp: snapshot_ok_def split: option.splits)
    show "ready_ok c db'" unfolding ready_ok_def
    proof (intro allI impI)
      fix ch
      assume "um_find (dc_ready c) ch = Some True"
      then obtain v where v: "depth_of c ch = 0" "um_find (dc_readyRevision c) ch = Some v"
        "um_find (dc_syncedRevision c) ch = Some v" "at_revision db ch v"
        using ok(7) by (auto simp: ready_ok_def)
      then show "depth_of c ch = 0 \<and> (\<exists>v. um_find (dc_readyRevision c) ch = Some v \<and>
          um_find (dc_syncedRevision c) ch = Some v \<and> at_revision db' ch v)"
        using move(3) [OF free [OF v(1)]] by simp
    qed
    show "release_ok (dg_channelIds (dx_config dx)) c db' pc"
    proof (cases "releasing pc")
      case True
      then have "b = []" using ok(8) sh by (simp add: release_ok_def shared_ok_def)
      then have "settled c db' ch" if "settled c db ch" for ch using that move(2,3) by (auto simp: settled_def)
      then show ?thesis using ok(8) by (simp add: release_ok_def)
    qed (use ok(8) in \<open>simp add: release_ok_def\<close>)
    show "ack_ok db' pc" using ok(9) by (rule ack_ok_mono) (rule move(2))
  qed (use ok move(1) in simp_all)
  then show ?thesis using sh by (simp add: delivery_inv_def db'_def)
qed

end
