(* ===== verification/FireDeliverySteps.thy ===== *)
theory FireDeliverySteps
  imports FireReadiness
begin

text \<open>
  The steps of the worker of \<^verbatim>\<open>src/event/FireDeliveryCoordinator.cpp\<close> keep the invariant of
  \<open>FireReadiness\<close>: first the routines that give up attempts and readiness, then the single steps of the
  loop, and at the end every run of the system from \<open>start()\<close>.
\<close>

section \<open>Moves of the worker\<close>

text \<open>\<open>drops\<close>: the worker gives up readiness, synchronized revisions and attempts. \<open>writes\<close>: its marks.\<close>

definition drops :: "nat \<Rightarrow> DeliveryCoordinator \<Rightarrow> DeliveryCoordinator \<Rightarrow> bool" where
  "drops k c c' \<longleftrightarrow> closes k c c' \<and> depth_of c' = depth_of c \<and> dc_activeEgress c' = dc_activeEgress c \<and>
     dc_lifecycleRelease c' = dc_lifecycleRelease c \<and>
     (\<forall>ch v. um_find (dc_syncedRevision c') ch = Some v \<longrightarrow> um_find (dc_syncedRevision c) ch = Some v) \<and>
     (\<forall>ch. um_find (dc_ready c') ch = Some True \<longrightarrow>
        um_find (dc_syncedRevision c') ch = um_find (dc_syncedRevision c) ch) \<and>
     set (attempts c') \<subseteq> set (attempts c) \<and>
     (\<forall>ch. length (retained_on ch (attempts c')) \<le> length (retained_on ch (attempts c)))"

definition keys_of :: "FireOutboxRecord list \<Rightarrow> (string \<times> 64 word) set" where
  "keys_of ds = (\<lambda>d. (fo_deliveryKey d, fo_fireRevision d)) ` set ds"

definition writes :: "'j FireContext \<Rightarrow> FireOutboxRecord list \<Rightarrow> FireDb \<Rightarrow> FireDb \<Rightarrow> bool" where
  "writes ctx ds db db' \<longleftrightarrow> marks_at (keys_of ds) db db' \<and> (fire_db_ok ctx db \<longrightarrow> fire_db_ok ctx db')"

lemma keys_of_simps [simp]:
  "keys_of [] = {}" "keys_of (d # ds) = insert (fo_deliveryKey d, fo_fireRevision d) (keys_of ds)"
  "keys_of (ds @ es) = keys_of ds \<union> keys_of es"
  by (auto simp: keys_of_def)

lemma writes_refl [simp]: "writes ctx ds db db"
  by (simp add: writes_def)

lemma writes_trans: "writes ctx ds db db1 \<Longrightarrow> writes ctx es db1 db2 \<Longrightarrow> writes ctx (ds @ es) db db2"
  using marks_at_trans by (auto simp: writes_def)

lemma writes_mono: "writes ctx ds db db' \<Longrightarrow> set ds \<subseteq> set es \<Longrightarrow> writes ctx es db db'"
  using marks_at_mono [of "keys_of ds" db db' "keys_of es"] by (simp add: writes_def keys_of_def image_mono)

lemma writes_marks [simp]:
  "writes ctx [d] db (fst (markFireDeliveryInFlight sql at db (fo_deliveryKey d) (fo_fireRevision d)))"
  "writes ctx [d] db (fst (markFireDeliveryPending sql at db (fo_deliveryKey d) (fo_fireRevision d) e))"
  "writes ctx [d] db (fst (acknowledgeFireDelivery sql at db (fo_deliveryKey d) (fo_fireRevision d)))"
  using fire_db_ok_mark [of ctx db sql at "MarkInFlight (fo_deliveryKey d) (fo_fireRevision d)"]
    fire_db_ok_mark [of ctx db sql at "MarkPending (fo_deliveryKey d) (fo_fireRevision d) e"]
    fire_db_ok_mark [of ctx db sql at "MarkAcknowledged (fo_deliveryKey d) (fo_fireRevision d)"]
  by (simp_all add: writes_def apply_mark_def)

lemma writes_mark_attempts: "writes ctx (map at_delivery as) db (mark_attempts env reason as db)"
proof (induction as arbitrary: db)
  case (Cons a as)
  then show ?case
    using writes_trans [OF writes_marks(2)] by (fastforce simp: mark_attempts_def)
qed (simp add: mark_attempts_def)

lemma attempts_filter:
  assumes "dc_inFlight c' = filter p (dc_inFlight c)"
  shows "set (attempts c') \<subseteq> set (attempts c)" "length (retained_on ch (attempts c')) \<le> length (retained_on ch (attempts c))"
proof -
  show "set (attempts c') \<subseteq> set (attempts c)" by (auto simp: attempts_def assms)
  have "length (retained_on ch (map (\<lambda>(_, a). at_delivery a) (filter p m))) \<le> length (retained_on ch (map (\<lambda>(_, a). at_delivery a) m))"
    for m :: "((64 word \<times> int) \<times> DeliveryAttempt) list"
    by (induction m) (auto simp: retained_on_def)
  then show "length (retained_on ch (attempts c')) \<le> length (retained_on ch (attempts c))"
    by (simp add: attempts_def assms)
qed

lemma drops_attempts:
  assumes "drops k c c'"
  shows "set (attempts c') \<subseteq> set (attempts c)" "length (retained_on ch (attempts c')) \<le> length (retained_on ch (attempts c))"
  using assms by (simp_all add: drops_def)

lemma dropsI:
  assumes "closes k c c'" and "dc_mutationDepth c' = dc_mutationDepth c" and "dc_activeEgress c' = dc_activeEgress c"
    and "dc_lifecycleRelease c' = dc_lifecycleRelease c"
    and "\<And>ch v. um_find (dc_syncedRevision c') ch = Some v \<Longrightarrow> um_find (dc_syncedRevision c) ch = Some v"
    and "\<And>ch. um_find (dc_ready c') ch = Some True \<Longrightarrow>
        um_find (dc_syncedRevision c') ch = um_find (dc_syncedRevision c) ch"
    and "dc_inFlight c' = filter p (dc_inFlight c)"
  shows "drops k c c'"
  unfolding drops_def
proof (intro conjI allI impI)
  show "depth_of c' = depth_of c" by (simp add: depth_of_def fun_eq_iff assms(2))
  show "um_find (dc_syncedRevision c) ch = Some v" if "um_find (dc_syncedRevision c') ch = Some v" for ch v
    using that by (rule assms(5))
  show "um_find (dc_syncedRevision c') ch = um_find (dc_syncedRevision c) ch" if "um_find (dc_ready c') ch = Some True" for ch
    using that by (rule assms(6))
qed (rule assms(1) assms(3) assms(4) attempts_filter [OF assms(7)])+

lemma drops_same:
  assumes "dc_ready c' = dc_ready c" and "dc_readyRevision c' = dc_readyRevision c"
    and "dc_mutationDepth c' = dc_mutationDepth c" and "dc_outboxGeneration c' = dc_outboxGeneration c"
    and "dc_activeEgress c' = dc_activeEgress c" and "dc_lifecycleRelease c' = dc_lifecycleRelease c"
    and "dc_syncedRevision c' = dc_syncedRevision c" and "dc_inFlight c' = dc_inFlight c"
  shows "drops k c c'"
  by (rule dropsI [where p = "\<lambda>_. True"]) (simp_all add: assms closes_same)

lemma drops_ready: "drops k c c' \<Longrightarrow> um_find (dc_ready c') ch = Some True \<Longrightarrow>
    um_find (dc_syncedRevision c') ch = um_find (dc_syncedRevision c) ch"
  unfolding drops_def by blast

lemma drops_synced: "drops k c c' \<Longrightarrow> um_find (dc_syncedRevision c') ch = Some v \<Longrightarrow>
    um_find (dc_syncedRevision c) ch = Some v"
  unfolding drops_def by blast

lemma drops_trans:
  assumes "drops j c c1" and "drops k c1 c2"
  shows "drops (j + k) c c2"
proof -
  have a: "closes j c c1" "closes k c1 c2" using assms by (simp_all add: drops_def)
  have ready: "um_find (dc_ready c1) ch = Some True" if "um_find (dc_ready c2) ch = Some True" for ch
    using closes_ready [OF a(2) that] by simp
  show ?thesis
    unfolding drops_def
  proof (intro conjI allI impI)
    show "closes (j + k) c c2" by (rule closes_trans [OF a])
    show "set (attempts c2) \<subseteq> set (attempts c)" using drops_attempts(1) assms order_trans by metis
    show "length (retained_on ch (attempts c2)) \<le> length (retained_on ch (attempts c))" for ch
      using drops_attempts(2) assms order_trans by metis
    show "um_find (dc_syncedRevision c2) ch = um_find (dc_syncedRevision c) ch"
      if "um_find (dc_ready c2) ch = Some True" for ch
      using drops_ready [OF assms(2) that] drops_ready [OF assms(1) ready [OF that]] by (rule trans)
    show "um_find (dc_syncedRevision c) ch = Some v" if "um_find (dc_syncedRevision c2) ch = Some v" for ch v
      by (rule drops_synced [OF assms(1) drops_synced [OF assms(2) that]])
    show "depth_of c2 = depth_of c" "dc_activeEgress c2 = dc_activeEgress c"
      "dc_lifecycleRelease c2 = dc_lifecycleRelease c"
      using assms by (simp_all add: drops_def)
  qed
qed

lemma drops_mono: "drops j c c' \<Longrightarrow> j \<le> k \<Longrightarrow> drops k c c'"
  unfolding drops_def by (elim conjE) (intro conjI; (assumption | rule closes_mono))

lemma drops_failClose:
  assumes "unat (dc_outboxGeneration c) + 1 < 2 ^ 64" and "\<And>ch v. um_find (dc_syncedRevision c) ch = Some v \<Longrightarrow>
      um_find (dc_syncedRevision c0) ch = Some v"
    and "dc_ready c = dc_ready c0" "dc_readyRevision c = dc_readyRevision c0"
    "dc_mutationDepth c = dc_mutationDepth c0" "dc_outboxGeneration c = dc_outboxGeneration c0"
    "dc_activeEgress c = dc_activeEgress c0" "dc_lifecycleRelease c = dc_lifecycleRelease c0"
    "dc_inFlight c = filter p (dc_inFlight c0)"
  shows "drops 1 c0 (failCloseAllReadiness c)"
proof -
  have same: "dc_syncedRevision (failCloseAllReadiness c) = dc_syncedRevision c"
    "dc_inFlight (failCloseAllReadiness c) = dc_inFlight c" "dc_lifecycleRelease (failCloseAllReadiness c) = dc_lifecycleRelease c"
    using failClose_view(1) [of c] by (simp_all add: worker_view_def)
  have no: "um_find (dc_ready (failCloseAllReadiness c)) ch \<noteq> Some True" for ch
    using find_all_False by (simp add: failCloseAllReadiness_def invalidateRegularEgress_def)
  have depth: "dc_mutationDepth (failCloseAllReadiness c) = dc_mutationDepth c"
    by (simp add: failCloseAllReadiness_def invalidateRegularEgress_def)
  show ?thesis
  proof (rule dropsI [where p = p])
    show "closes 1 c0 (failCloseAllReadiness c)" by (rule closes_from [OF closes_failClose [OF assms(1)] assms(3-6)])
    show "um_find (dc_syncedRevision c0) ch = Some v"
      if "um_find (dc_syncedRevision (failCloseAllReadiness c)) ch = Some v" for ch v
      using that unfolding same by (rule assms(2))
  qed (simp_all add: assms(3-9) same no depth)
qed

text \<open>The worker's routines that give up.\<close>

definition gives_up :: "'j FireContext \<Rightarrow> nat \<Rightarrow> DeliveryCoordinator \<times> FireDb \<Rightarrow> DeliveryCoordinator \<times> FireDb \<Rightarrow> bool" where
  "gives_up ctx k s t \<longleftrightarrow> drops k (fst s) (fst t) \<and> writes ctx (attempts (fst s)) (snd s) (snd t)"

lemma gives_up_trans: "gives_up ctx j s t \<Longrightarrow> gives_up ctx k t u \<Longrightarrow> gives_up ctx (j + k) s u"
proof -
  assume a: "gives_up ctx j s t" "gives_up ctx k t u"
  have "set (attempts (fst t)) \<subseteq> set (attempts (fst s))" using a(1) drops_attempts(1) by (metis gives_up_def)
  then have "writes ctx (attempts (fst s)) (snd t) (snd u)" using a(2) writes_mono unfolding gives_up_def by blast
  then have "writes ctx (attempts (fst s) @ attempts (fst s)) (snd s) (snd u)"
    using a(1) writes_trans unfolding gives_up_def by blast
  then have "writes ctx (attempts (fst s)) (snd s) (snd u)" by (rule writes_mono) simp
  then show ?thesis using a drops_trans unfolding gives_up_def by blast
qed

lemma gives_up_refl [simp]: "gives_up ctx k s s"
  by (simp add: gives_up_def drops_same)

lemma gives_up_mono: "gives_up ctx j s t \<Longrightarrow> j \<le> k \<Longrightarrow> gives_up ctx k s t"
  unfolding gives_up_def using drops_mono by blast

lemma gives_up_requeue: "gives_up ctx k (c, db) (requeueAllInflight env reason c db)"
proof -
  have "drops k c (c\<lparr>dc_inFlight := []\<rparr>)"
    by (rule dropsI [where p = "\<lambda>_. False"]) (simp_all add: closes_same)
  moreover have "map at_delivery (map snd (dc_inFlight c)) = attempts c" by (auto simp: attempts_def)
  ultimately show ?thesis
    using writes_mark_attempts [of ctx "map snd (dc_inFlight c)" db env reason]
    by (simp add: gives_up_def requeueAllInflight_def)
qed

lemma gives_up_disconnect:
  assumes gen: "unat (dc_outboxGeneration c) + 1 < 2 ^ 64"
  shows "gives_up ctx 1 (c, db) (disconnectEpoch env epoch reason c db)"
proof (cases "epoch = 0")
  case False
  define mine :: "(64 word \<times> int) \<times> DeliveryAttempt \<Rightarrow> bool" where "mine = (\<lambda>entry. fst (fst entry) = epoch)"
  define c1 where "c1 = c\<lparr>dc_inFlight := filter (\<lambda>entry. \<not> mine entry) (dc_inFlight c)\<rparr>"
  define db1 where "db1 = mark_attempts env reason (map snd (filter mine (dc_inFlight c))) db"
  have "writes ctx (map at_delivery (map snd (filter mine (dc_inFlight c)))) db db1"
    unfolding db1_def by (rule writes_mark_attempts)
  then have w: "writes ctx (attempts c) db db1" by (rule writes_mono) (auto simp: attempts_def)
  have "drops 1 c c1"
    by (rule dropsI [where p = "\<lambda>entry. \<not> mine entry"]) (simp_all add: closes_same c1_def)
  moreover have "drops 1 c (failCloseAllReadiness (c1\<lparr>dc_activeEpoch := 0, dc_subscriptionsReady := False,
      dc_syncedRevision := [], dc_retryAfter := []\<rparr>))"
    by (rule drops_failClose) (use gen in \<open>simp_all add: c1_def\<close>)
  moreover have "disconnectEpoch env epoch reason c db =
      (if dc_activeEpoch c1 = epoch then (failCloseAllReadiness (c1\<lparr>dc_activeEpoch := 0, dc_subscriptionsReady := False,
          dc_syncedRevision := [], dc_retryAfter := []\<rparr>), db1) else (c1, db1))"
    using False by (simp add: disconnectEpoch_def Let_def c1_def db1_def mine_def)
  ultimately show ?thesis using w by (simp add: gives_up_def)
qed (simp add: disconnectEpoch_def)

lemma drops_gen: "drops k c c' \<Longrightarrow> unat (dc_outboxGeneration c') \<le> unat (dc_outboxGeneration c) + k"
  by (simp add: drops_def closes_def)

lemma gives_up_connect:
  assumes gen: "unat (dc_outboxGeneration c) + 2 < 2 ^ 64"
  shows "gives_up ctx 2 (c, db) (connect_epoch env epoch c db)"
proof (cases "epoch < dc_activeEpoch c")
  case False
  define s where "s = (if dc_activeEpoch c \<noteq> 0 \<and> epoch \<noteq> dc_activeEpoch c
    then disconnectEpoch env (dc_activeEpoch c) ''fresh MQTT epoch connected'' c db else (c, db))"
  obtain c1 db1 where s1: "s = (c1, db1)" by (cases s)
  have s: "gives_up ctx 1 (c, db) (c1, db1)"
    using gen gives_up_disconnect [of c ctx] unfolding s1 [symmetric] s_def by (simp del: One_nat_def)
  then have "drops 1 c c1" by (simp add: gives_up_def)
  then have gen1: "unat (dc_outboxGeneration c1) + 1 < 2 ^ 64" using gen drops_gen by fastforce
  have "drops 1 c1 (failCloseAllReadiness (c1\<lparr>dc_activeEpoch := epoch, dc_subscriptionsReady := False, dc_syncedRevision := []\<rparr>))"
    by (rule drops_failClose [where p = "\<lambda>_. True"]) (use gen1 in simp_all)
  then have "gives_up ctx 1 (c1, db1)
      (failCloseAllReadiness (c1\<lparr>dc_activeEpoch := epoch, dc_subscriptionsReady := False, dc_syncedRevision := []\<rparr>), db1)"
    by (simp add: gives_up_def)
  from gives_up_trans [OF s this] show ?thesis
    using False s1 by (simp add: connect_epoch_def Let_def s_def [symmetric] numeral_2_eq_2)
qed (simp add: connect_epoch_def)

lemma retry_fields: "\<exists>m. foldl (\<lambda>c channel. scheduleRetry config t channel c) c chs = c\<lparr>dc_retryAfter := m\<rparr>"
proof (induction chs arbitrary: c)
  case Nil
  show ?case by (intro exI [of _ "dc_retryAfter c"]) simp
next
  case (Cons ch chs)
  obtain m where "foldl (\<lambda>c channel. scheduleRetry config t channel c) (scheduleRetry config t ch c) chs =
      (scheduleRetry config t ch c)\<lparr>dc_retryAfter := m\<rparr>" using Cons by blast
  then show ?case by (intro exI [of _ m]) (simp add: scheduleRetry_def)
qed

lemma gives_up_recover:
  assumes gen: "unat (dc_outboxGeneration c) + 2 < 2 ^ 64"
  shows "gives_up ctx 2 (c, db) (fst (recoverActorFailure config env reason c db))"
proof -
  define s where "s = (if dc_activeEpoch c \<noteq> 0 then disconnectEpoch env (dc_activeEpoch c) reason c db
    else requeueAllInflight env reason c db)"
  obtain c1 db1 where s1: "s = (c1, db1)" by (cases s)
  have s: "gives_up ctx 1 (c, db) (c1, db1)"
    using gen gives_up_disconnect [of c ctx] gives_up_requeue [of ctx 1 c] unfolding s1 [symmetric] s_def by (simp del: One_nat_def)
  then have "drops 1 c c1" by (simp add: gives_up_def)
  then have gen1: "unat (dc_outboxGeneration c1) + 1 < 2 ^ 64" using gen drops_gen by fastforce
  obtain m where m: "foldl (\<lambda>c channel. scheduleRetry config (de_now env) channel c) (failCloseAllReadiness c1)
      (dg_channelIds config) = (failCloseAllReadiness c1)\<lparr>dc_retryAfter := m\<rparr>" using retry_fields by blast
  have "drops 1 c1 (failCloseAllReadiness c1)"
    by (rule drops_failClose [where p = "\<lambda>_. True"]) (use gen1 in simp_all)
  moreover have "drops 0 (failCloseAllReadiness c1) ((failCloseAllReadiness c1)\<lparr>dc_retryAfter := m\<rparr>)"
    by (rule drops_same) simp_all
  ultimately have "drops (1 + 0) c1 ((failCloseAllReadiness c1)\<lparr>dc_retryAfter := m\<rparr>)" by (rule drops_trans)
  then have "gives_up ctx 1 (c1, db1) ((failCloseAllReadiness c1)\<lparr>dc_retryAfter := m\<rparr>, db1)"
    by (simp add: gives_up_def)
  from gives_up_trans [OF s this] show ?thesis
    using s1 m by (simp add: recoverActorFailure_def Let_def s_def [symmetric] numeral_2_eq_2)
qed

lemma gives_up_overflow:
  assumes gen: "unat (dc_outboxGeneration c) + 1 < 2 ^ 64"
  shows "gives_up ctx 1 (c, db) (fst (handle_overflow config env overflow e c db))"
    "gives_up ctx 1 (c, db) (fst (expirePubAckDeadline config env c db))"
  using gives_up_disconnect [OF gen, of ctx]
  by (simp_all add: handle_overflow_def expirePubAckDeadline_def Let_def del: One_nat_def)

text \<open>Moves of the worker keep what it knows.\<close>

lemma key_unsynced:
  assumes "\<And>d. d \<in> set ds \<Longrightarrow> unsynced c d" and "um_find (dc_syncedRevision c) ch = Some v"
  shows "(retainedDeliveryId ch, v) \<notin> keys_of ds"
  using assms by (fastforce simp: keys_of_def unsynced_def delivery_ok_def split: if_splits)

lemma retained_key_of:
  assumes "\<And>d. d \<in> set ds \<Longrightarrow> delivery_ok d" and "(retainedDeliveryId ch, v) \<in> keys_of ds"
  shows "\<exists>d \<in> set (retained_on ch ds). fo_fireRevision d = v"
  using assms by (fastforce simp: keys_of_def delivery_ok_def retained_on_def split: if_splits)

lemma synced_ok_writes:
  assumes "synced_ok c db" and "writes ctx ds db db'" and "\<And>d. d \<in> set ds \<Longrightarrow> unsynced c d"
  shows "synced_ok c db'"
  unfolding synced_ok_def
proof (intro allI impI)
  fix ch v
  assume v: "um_find (dc_syncedRevision c) ch = Some v"
  have "marks_at (keys_of ds) db db'" using assms(2) by (simp add: writes_def)
  moreover have "(retainedDeliveryId ch, v) \<notin> keys_of ds" by (rule key_unsynced [OF assms(3) v])
  moreover have "acked_at db ch v" using assms(1) v by (simp add: synced_ok_def)
  ultimately show "acked_at db' ch v" by (rule acked_at_mark)
qed

lemma writes_revision: "writes ctx ds db db' \<Longrightarrow> at_revision db' ch v = at_revision db ch v"
  unfolding writes_def by (blast dest: at_revision_mark)

lemma snapshot_ok_writes:
  assumes "writes ctx ds db db'"
  shows "snapshot_ok c db' pc = snapshot_ok c db pc"
  unfolding snapshot_ok_def writes_revision [OF assms] by (rule refl)

lemma ready_ok_drops:
  assumes ready: "ready_ok c db" and d: "drops k c c'" and w: "writes ctx ds db db'"
  shows "ready_ok c' db'"
  unfolding ready_ok_def
proof (intro allI impI)
  fix ch
  assume r': "um_find (dc_ready c') ch = Some True"
  have "closes k c c'" using d by (simp add: drops_def)
  note cl = closes_ready [OF this r']
  note sy = drops_ready [OF d r']
  show "depth_of c' ch = 0 \<and> (\<exists>v. um_find (dc_readyRevision c') ch = Some v \<and>
      um_find (dc_syncedRevision c') ch = Some v \<and> at_revision db' ch v)"
    using ready cl sy unfolding ready_ok_def writes_revision [OF w] by metis
qed

lemma settled_drops:
  assumes s: "settled c db ch" and d: "drops k c c'" and w: "writes ctx ds db db'"
    and ds: "\<And>d. d \<in> set ds \<Longrightarrow> delivery_ok d \<and> (d \<in> set (attempts c) \<or> fo_sinkKind d \<noteq> RetainedState)"
  shows "settled c' db' ch"
proof -
  obtain v where v: "at_revision db ch v" "acked_at db ch v" "\<And>d. d \<in> set (retained_on ch (attempts c)) \<Longrightarrow> fo_fireRevision d \<noteq> v"
    using s by (auto simp: settled_def)
  have "(retainedDeliveryId ch, v) \<notin> keys_of ds"
  proof
    assume "(retainedDeliveryId ch, v) \<in> keys_of ds"
    then obtain d where d: "d \<in> set (retained_on ch ds)" "fo_fireRevision d = v" using retained_key_of [of ds] ds by blast
    then have "d \<in> set (retained_on ch (attempts c))" using ds by (auto simp: retained_on_def)
    then show False using v(3) d(2) by blast
  qed
  moreover have "marks_at (keys_of ds) db db'" using w by (simp add: writes_def)
  ultimately have "acked_at db' ch v" using v(2) acked_at_mark by blast
  moreover have "set (retained_on ch (attempts c')) \<subseteq> set (retained_on ch (attempts c))"
    using drops_attempts(1) [OF d] by (auto simp: retained_on_def)
  moreover have "at_revision db' ch v" using v(1) writes_revision [OF w] by simp
  ultimately show ?thesis using v(3) unfolding settled_def by blast
qed

lemma unsynced_drops: "unsynced c d \<Longrightarrow> drops k c c' \<Longrightarrow> unsynced c' d"
  unfolding unsynced_def using drops_synced by blast

lemma attempts_ok_drops:
  assumes ok: "attempts_ok c" and d: "drops k c c'"
  shows "attempts_ok c'"
  unfolding attempts_ok_def
proof (intro conjI ballI allI)
  show "unsynced c' x" if "x \<in> set (attempts c')" for x
    using ok that drops_attempts(1) [OF d] unsynced_drops [OF _ d] unfolding attempts_ok_def by blast
  show "length (retained_on ch (attempts c')) \<le> 1" for ch
    using ok drops_attempts(2) [OF d, of ch] unfolding attempts_ok_def by (meson order_trans)
qed

lemma worker_moves:
  assumes ok: "worker_ok dx (c, db, pc)" and d: "drops k c c'" and w: "writes (dx_fire dx) ds db db'"
    and ds: "\<And>d. d \<in> set ds \<Longrightarrow> unsynced c d"
    and release: "\<And>d. d \<in> set ds \<Longrightarrow> releasing pc \<Longrightarrow> d \<in> set (attempts c) \<or> fo_sinkKind d \<noteq> RetainedState"
    and pc': "pc_ok c' pc'" "snapshot pc' = snapshot pc \<or> snapshot pc' = None" "releasing pc' = releasing pc" "ack_ok db' pc'"
  shows "worker_ok dx (c', db', pc')"
proof (rule worker_okI)
  note ok = worker_okD [OF ok]
  have closes: "closes k c c'" using d by (simp add: drops_def)
  show "fire_db_ok (dx_fire dx) db'" using ok(1) w by (simp add: writes_def)
  show "set (dg_channelIds (dx_config dx)) \<subseteq> fst ` set (dc_ready c')" using ok(2) closes_keys [OF closes] by (rule order_trans)
  show "attempts_ok c'" by (rule attempts_ok_drops [OF ok(3) d])
  show "synced_ok c' db'"
    using synced_ok_writes [OF ok(5) w ds] drops_synced [OF d] unfolding synced_ok_def by blast
  have "snapshot_ok c' db pc" by (rule snapshot_ok_closes [OF ok(6) closes])
  then have "snapshot_ok c' db' pc" using snapshot_ok_writes [OF w] by simp
  then show "snapshot_ok c' db' pc'" using pc'(2) by (auto simp: snapshot_ok_def)
  show "ready_ok c' db'" by (rule ready_ok_drops [OF ok(7) d w])
  have flag: "dc_lifecycleRelease c' = releasing pc'" using d ok(8) pc'(3) by (simp add: drops_def release_ok_def)
  have "settled c' db' ch" if r: "releasing pc'" and ch: "ch \<in> set (dg_channelIds (dx_config dx))" for ch
  proof (rule settled_drops [OF _ d w])
    show "settled c db ch" using ok(8) r ch pc'(3) by (simp add: release_ok_def)
    show "delivery_ok x \<and> (x \<in> set (attempts c) \<or> fo_sinkKind x \<noteq> RetainedState)" if "x \<in> set ds" for x
      using ds [OF that] release [OF that] r pc'(3) by (simp add: unsynced_def)
  qed
  then show "release_ok (dg_channelIds (dx_config dx)) c' db' pc'" using flag by (simp add: release_ok_def)
qed (use pc' in simp_all)

lemma worker_gives_up:
  assumes ok: "worker_ok dx (c, db, pc)" and g: "gives_up (dx_fire dx) k (c, db) (c', db')"
    and pc': "pc_ok c' pc'" "snapshot pc' = snapshot pc \<or> snapshot pc' = None" "releasing pc' = releasing pc" "ack_ok db' pc'"
  shows "worker_ok dx (c', db', pc')"
proof -
  have "drops k c c'" "writes (dx_fire dx) (attempts c) db db'" using g by (simp_all add: gives_up_def)
  then show ?thesis
    by (rule worker_moves [OF ok]) (use worker_okD(3) [OF ok] pc' in \<open>auto simp: attempts_ok_def\<close>)
qed

section \<open>The steps of the worker\<close>

lemma filter_erase: "dc_inFlight (c\<lparr>dc_inFlight := um_erase k (dc_inFlight c)\<rparr>) = filter (\<lambda>p. fst p \<noteq> k) (dc_inFlight c)"
  by (simp add: um_erase_def)

text \<open>A lookup in the rows that the database gives.\<close>

lemma read_all_mem: "read_all f xs = Inr ys \<Longrightarrow> y \<in> set ys \<Longrightarrow> \<exists>x \<in> set xs. f x = Inr y"
  by (induction f xs arbitrary: ys rule: read_all.induct) (auto elim!: try_bind_InrE simp del: try_bind_Inr)

lemma read_row:
  assumes ok: "fire_store_ok db" and row: "row \<in> set (fd_outbox db)" and d: "readDelivery row = Inr d"
  shows "delivery_ok d" "fo_sinkKind d = (if or_sink_kind row = ''RETAINED_STATE'' then RetainedState else LifecycleEvent)"
    "fo_deliveryKey d = or_delivery_key row" "fo_channelId d = or_channel_id row"
    "fo_fireRevision d = word_of_int (or_fire_revision row)"
proof -
  obtain s where s: "retained_of s row \<or> lifecycle_of s row" using ok row unfolding fire_store_ok_def by blast
  have f: "fo_deliveryKey d = or_delivery_key row" "fo_channelId d = or_channel_id row"
    "fo_fireRevision d = word_of_int (or_fire_revision row)"
    "fireDeliverySinkFromString (or_sink_kind row) = Some (fo_sinkKind d)"
    using d by (auto simp: readDelivery_def split: option.splits if_splits)
  have "fo_sinkKind d = (if or_sink_kind row = ''RETAINED_STATE'' then RetainedState else LifecycleEvent)"
    using f(4) s sink_text [of RetainedState] sink_text [of LifecycleEvent]
    by (auto simp: retained_of_def lifecycle_of_def fireDeliverySinkFromString_def)
  then show "fo_sinkKind d = (if or_sink_kind row = ''RETAINED_STATE'' then RetainedState else LifecycleEvent)"
    "delivery_ok d" using s f by (auto simp: delivery_ok_def retained_of_def lifecycle_of_def)
qed (use d in \<open>auto simp: readDelivery_def split: option.splits if_splits\<close>)

lemma retained_row_facts:
  assumes ok: "fire_store_ok db" and row: "row \<in> set (fd_outbox db)" "or_delivery_key row = retainedDeliveryId ch"
  shows "uint (word_of_int (or_fire_revision row) :: 64 word) = or_fire_revision row"
proof -
  obtain s where s: "s \<in> set (fd_states db)" "retained_of s row" by (rule retained_key [OF ok row])
  then obtain r where "stateColumns r = Inr s" using ok unfolding fire_store_ok_def written_state_def by blast
  then have "or_fire_revision row = uint (fs_fireRevision r)" using s(2) by (auto simp: stateColumns_Inr retained_of_def)
  then show ?thesis by simp
qed

lemma row_revision:
  assumes ok: "fire_store_ok db" and row: "row \<in> set (fd_outbox db)" and d: "readDelivery row = Inr d"
    and retained: "fo_sinkKind d = RetainedState"
  shows "at_revision db (fo_channelId d) (fo_fireRevision d)"
proof -
  note r = read_row [OF ok row d]
  have key: "or_delivery_key row = retainedDeliveryId (fo_channelId d)" using r(1,3) retained by (simp add: delivery_ok_def)
  have "row' = row" if "row' \<in> set (fd_outbox db)" "or_delivery_key row' = retainedDeliveryId (fo_channelId d)" for row'
    using ok row key that unfolding fire_store_ok_def by (metis distinct_map inj_onD)
  then show ?thesis using retained_row_facts [OF ok row key] r(5) by (auto simp: at_revision_def)
qed

lemma listed_retained:
  assumes "fire_store_ok db" and "listFireRetainedDeliveries sql db = Inr rows" and "d \<in> set rows"
  shows "delivery_ok d" "fo_sinkKind d = RetainedState" "at_revision db (fo_channelId d) (fo_fireRevision d)"
proof -
  obtain row where row: "row \<in> set (fd_outbox db)" "or_sink_kind row = ''RETAINED_STATE''" "readDelivery row = Inr d"
    using assms(2,3) by (auto simp: listFireRetainedDeliveries_def split: if_splits dest!: read_all_mem)
  show "delivery_ok d" by (rule read_row(1) [OF assms(1) row(1,3)])
  show k: "fo_sinkKind d = RetainedState" using read_row(2) [OF assms(1) row(1,3)] row(2) by simp
  show "at_revision db (fo_channelId d) (fo_fireRevision d)" by (rule row_revision [OF assms(1) row(1,3) k])
qed

lemma listed_lifecycle:
  assumes "fire_store_ok db" and "listPendingFireLifecycleDeliveries sql db ch = Inr rows" and "d \<in> set rows"
  shows "delivery_ok d \<and> fo_sinkKind d = LifecycleEvent"
proof -
  obtain row where row: "row \<in> set (fd_outbox db)" "or_sink_kind row = ''LIFECYCLE_EVENT''" "readDelivery row = Inr d"
    using assms(2,3) by (auto simp: listPendingFireLifecycleDeliveries_def split: if_splits dest!: read_all_mem)
  show ?thesis using read_row(1,2) [OF assms(1) row(1,3)] row(2) by simp
qed

lemma got_retained:
  assumes ok: "fire_store_ok db" and "getFireDelivery sql db (retainedDeliveryId ch) = Inr (Some d)"
  shows "at_revision db ch (fo_fireRevision d)"
proof -
  obtain row where row: "row \<in> set (fd_outbox db)" "or_delivery_key row = retainedDeliveryId ch" "readDelivery row = Inr d"
    using assms(2) by (auto simp: getFireDelivery_def selectDelivery_def find_Some_iff in_set_conv_nth
        split: if_splits option.splits elim!: try_bind_InrE simp del: try_bind_Inr)
  obtain s where s: "retained_of s row" by (rule retained_key [OF ok row(1,2)])
  have "fo_channelId d = ch" "fo_sinkKind d = RetainedState"
    using read_row [OF ok row(1,3)] s row(2) by (auto simp: retained_of_def)
  then show ?thesis using row_revision [OF ok row(1,3)] by simp
qed

lemma got_row:
  assumes ok: "fire_store_ok db" and "getFireDelivery sql db (retainedDeliveryId ch) = Inr (Some d)"
    and v: "at_revision db ch v"
  shows "fo_fireRevision d = v"
proof -
  obtain row where row: "row \<in> set (fd_outbox db)" "or_delivery_key row = retainedDeliveryId ch"
    using assms(2) by (auto simp: getFireDelivery_def selectDelivery_def find_Some_iff in_set_conv_nth
        split: if_splits option.splits)
  have "uint (fo_fireRevision d) = uint v" using got_retained [OF ok assms(2)] v row unfolding at_revision_def by metis
  then show ?thesis by (simp add: word_uint_eq_iff)
qed

text \<open>What a step of the worker leaves to the other threads.\<close>

definition stays :: "DeliveryCoordinator \<Rightarrow> DeliveryCoordinator \<Rightarrow> bool" where
  "stays c c' \<longleftrightarrow> depth_of c' = depth_of c \<and> dc_activeEgress c' = dc_activeEgress c \<and>
     unat (dc_outboxGeneration c') \<le> unat (dc_outboxGeneration c) + 2 \<and>
     (dc_lifecycleRelease c' \<longrightarrow> dc_lifecycleRelease c)"

lemma drops_stays:
  assumes "drops k c c'" and "k \<le> 2"
  shows "stays c c'"
  unfolding stays_def
proof (intro conjI)
  show "unat (dc_outboxGeneration c') \<le> unat (dc_outboxGeneration c) + 2" using drops_gen [OF assms(1)] assms(2) by linarith
qed (use assms(1) in \<open>unfold drops_def, blast+\<close>)

lemma stays_shared:
  assumes "stays c c'" and "shared_ok c w b"
  shows "shared_ok c' w b"
proof (rule shared_ok_cong [OF assms(2)])
  show "depth_of c' = depth_of c" using assms(1) unfolding stays_def by (rule conjunct1)
  show "dc_activeEgress c' = dc_activeEgress c" using assms(1) unfolding stays_def by blast
  show "dc_lifecycleRelease c' \<longrightarrow> dc_lifecycleRelease c" using assms(1) unfolding stays_def by blast
qed

lemma worker_gives_up_stays:
  assumes ok: "worker_ok dx (c, db, pc)" and g: "gives_up (dx_fire dx) k (c, db) (c', db')" and k: "k \<le> 2"
    and pc': "pc_ok c' pc'" "snapshot pc' = snapshot pc \<or> snapshot pc' = None" "releasing pc' = releasing pc" "ack_ok db' pc'"
  shows "worker_ok dx (c', db', pc') \<and> stays c c'"
proof -
  have "drops k c c'" using g by (simp add: gives_up_def)
  then show ?thesis using worker_gives_up [OF ok g pc'] drops_stays k by blast
qed

lemma worker_same:
  assumes ok: "worker_ok dx (c, db, pc)" and same: "dc_ready c' = dc_ready c" "dc_readyRevision c' = dc_readyRevision c"
    "dc_mutationDepth c' = dc_mutationDepth c" "dc_outboxGeneration c' = dc_outboxGeneration c"
    "dc_activeEgress c' = dc_activeEgress c" "dc_lifecycleRelease c' = dc_lifecycleRelease c"
    "dc_syncedRevision c' = dc_syncedRevision c" "dc_inFlight c' = dc_inFlight c"
    and pc': "pc_ok c' pc'" "snapshot pc' = snapshot pc \<or> snapshot pc' = None" "releasing pc' = releasing pc" "ack_ok db pc'"
  shows "worker_ok dx (c', db, pc') \<and> stays c c'"
proof (rule worker_gives_up_stays [OF ok _ _ pc'])
  show "gives_up (dx_fire dx) 0 (c, db) (c', db)" using drops_same [OF same] by (simp add: gives_up_def)
qed simp

lemma release_ended:
  assumes ok: "worker_ok dx (c, db, pc)" and pc': "pc_ok c pc'" "snapshot pc' = None" "\<not> releasing pc'" "ack_ok db pc'"
  shows "worker_ok dx (endLifecycleRelease c, db, pc') \<and> stays c (endLifecycleRelease c)"
proof -
  note ok = worker_okD [OF ok]
  have [simp]: "attempts (endLifecycleRelease c) = attempts c" "depth_of (endLifecycleRelease c) = depth_of c"
    by (simp_all add: attempts_def depth_of_def fun_eq_iff endLifecycleRelease_def)
  have "worker_ok dx (endLifecycleRelease c, db, pc')"
  proof (rule worker_okI)
    show "attempts_ok (endLifecycleRelease c)" using ok(3) by (simp add: attempts_ok_def unsynced_def) (simp add: endLifecycleRelease_def)
    show "pc_ok (endLifecycleRelease c) pc'" using pc'(1) pc_ok_cong [of "endLifecycleRelease c" c] by (simp add: endLifecycleRelease_def attempts_def)
    show "synced_ok (endLifecycleRelease c) db" using ok(5) by (simp add: synced_ok_def endLifecycleRelease_def)
    show "snapshot_ok (endLifecycleRelease c) db pc'" using pc'(2) by (simp add: snapshot_ok_def)
    show "ready_ok (endLifecycleRelease c) db" using ok(7) by (simp add: ready_ok_def) (simp add: endLifecycleRelease_def)
    show "release_ok (dg_channelIds (dx_config dx)) (endLifecycleRelease c) db pc'"
      using pc'(3) by (simp add: release_ok_def endLifecycleRelease_def)
  qed (use ok(1,2) pc'(4) in \<open>simp_all add: endLifecycleRelease_def\<close>)
  then show ?thesis by (simp add: stays_def) (simp add: endLifecycleRelease_def)
qed

lemma stays_trans_end: "stays (endLifecycleRelease c) c' \<Longrightarrow> \<not> dc_lifecycleRelease c' \<Longrightarrow> stays c c'"
proof -
  have "depth_of (endLifecycleRelease c) = depth_of c" by (simp add: depth_of_def fun_eq_iff endLifecycleRelease_def)
  then show "stays (endLifecycleRelease c) c' \<Longrightarrow> \<not> dc_lifecycleRelease c' \<Longrightarrow> stays c c'"
    by (simp add: stays_def) (simp add: endLifecycleRelease_def)
qed

lemma worker_failed_ok:
  assumes ok: "worker_ok dx (c, db, pc)" and gen: "unat (dc_outboxGeneration c) + 2 < 2 ^ 64"
    and run: "worker_failed (dx_config dx) env reason c db = ((c', db', pc'), outs)"
  shows "worker_ok dx (c', db', pc') \<and> stays c c'"
proof -
  let ?c0 = "endLifecycleRelease c"
  let ?r = "recoverActorFailure (dx_config dx) env (''Fire delivery actor exception: '' @ reason) ?c0 db"
  have r: "?r = ((c', db'), outs)" and pc': "pc' = WaitForWork"
    using run by (auto simp: worker_failed_def Let_def split: prod.splits)
  have "unat (dc_outboxGeneration ?c0) + 2 < 2 ^ 64" using gen by (simp add: endLifecycleRelease_def)
  then have "gives_up (dx_fire dx) 2 (?c0, db) (fst ?r)" by (rule gives_up_recover)
  then have g: "gives_up (dx_fire dx) 2 (?c0, db) (c', db')" unfolding r by simp
  have "worker_ok dx (?c0, db, WaitForWork)" using release_ended [OF ok, of WaitForWork] by simp
  then have res: "worker_ok dx (c', db', WaitForWork) \<and> stays ?c0 c'"
    by (rule worker_gives_up_stays [OF _ g]) simp_all
  moreover have "\<not> dc_lifecycleRelease c'"
    using worker_okD(8) [of dx c' db' WaitForWork] res by (simp add: release_ok_def)
  ultimately show ?thesis using stays_trans_end pc' by blast
qed

lemma offer_row_ok:
  assumes ok: "worker_ok dx (c, db, pc)" and d: "unsynced c d"
    and resume: "pc_ok c resume" "snapshot resume = snapshot pc" "releasing resume = releasing pc" "ack_ok db resume"
    and kind: "if fo_sinkKind d = RetainedState then retained_phase resume \<and> retained_on (fo_channelId d) (attempts c) = []
      else lifecycle_phase resume"
    and run: "offer_row (dx_config dx) env d resume c db = (c', db', pc')"
  shows "worker_ok dx (c', db', pc') \<and> stays c c'"
proof -
  define m where "m = markFireDeliveryInFlight (de_mark env) (de_at env) db (fo_deliveryKey d) (fo_fireRevision d)"
  have w: "writes (dx_fire dx) [d] db (fst m)" by (simp add: m_def)
  have phase: "ack_ok db2 resume" for db2 using kind by (cases resume) (auto split: if_splits)
  have release: "d' \<in> set (attempts c) \<or> fo_sinkKind d' \<noteq> RetainedState" if "d' \<in> set [d]" "releasing pc" for d'
    using that kind resume(3) by (cases resume) (auto split: if_splits)
  consider "c' = scheduleRetry (dx_config dx) (de_now env) (fo_channelId d) c" "db' = fst m" "pc' = resume"
    | i e where "c' = c\<lparr>dc_nextAttemptId := dc_nextAttemptId c + 1\<rparr>" "db' = fst m" "pc' = CallPublisher d i e resume"
    using run by (auto simp: offer_row_def begin_publish_def m_def Let_def split: prod.splits if_splits option.splits)
  then show ?thesis
  proof cases
    case 1
    have drops: "drops 0 c c'" by (rule drops_same) (simp_all add: 1 scheduleRetry_def)
    have "attempts c' = attempts c" "dc_syncedRevision c' = dc_syncedRevision c" by (simp_all add: 1 scheduleRetry_def attempts_def)
    then have "pc_ok c' pc'" using resume(1) pc_ok_cong [of c' c] 1(3) by simp
    then have "worker_ok dx (c', db', pc')"
      using worker_moves [OF ok drops, of "[d]" db' pc'] w d release resume phase 1(2,3) by auto
    then show ?thesis using drops_stays [OF drops] by simp
  next
    case 2
    have drops: "drops 0 c c'" by (rule drops_same) (simp_all add: 2)
    have same: "attempts c' = attempts c" "dc_syncedRevision c' = dc_syncedRevision c" by (simp_all add: 2 attempts_def)
    then have "pc_ok c' pc'" using resume(1) pc_ok_cong [of c' c] 2(3) d kind by (simp add: unsynced_def)
    then have "worker_ok dx (c', db', pc')"
      using worker_moves [OF ok drops, of "[d]" db' pc'] w d release resume 2(2,3) by auto
    then show ?thesis using drops_stays [OF drops] by simp
  qed
qed

text \<open>The answer of the publisher.\<close>

lemma resume_ack: "retained_phase resume \<or> lifecycle_phase resume \<Longrightarrow> ack_ok db resume"
  by (cases resume) simp_all

lemma resume_pc_ok: "retained_phase resume \<or> lifecycle_phase resume \<Longrightarrow> pc_ok c' resume = pc_ok c resume"
  by (cases resume) simp_all

lemma new_attempt_ok:
  assumes ok: "attempts_ok c" and d: "unsynced c d"
    and free: "fo_sinkKind d = RetainedState \<Longrightarrow> retained_on (fo_channelId d) (attempts c) = []"
    and c': "attempts c' = attempts c @ [d]" "dc_syncedRevision c' = dc_syncedRevision c"
  shows "attempts_ok c'"
  unfolding attempts_ok_def
proof (intro conjI ballI allI)
  show "unsynced c' x" if "x \<in> set (attempts c')" for x
    using ok that d by (auto simp: attempts_ok_def unsynced_def c')
  show "length (retained_on ch (attempts c')) \<le> 1" for ch
    using ok free by (auto simp: attempts_ok_def retained_on_def c')
qed

lemma new_attempt:
  assumes ok: "worker_ok dx (c, db, CallPublisher d i e resume)"
    and c': "attempts c' = attempts c @ [d]" "dc_syncedRevision c' = dc_syncedRevision c"
      "dc_ready c' = dc_ready c" "dc_readyRevision c' = dc_readyRevision c" "dc_mutationDepth c' = dc_mutationDepth c"
      "dc_outboxGeneration c' = dc_outboxGeneration c" "dc_lifecycleRelease c' = dc_lifecycleRelease c"
  shows "worker_ok dx (c', db, resume)"
proof (rule worker_okI)
  note ok = worker_okD [OF ok]
  have d: "unsynced c d" "pc_ok c resume"
    "fo_sinkKind d = RetainedState \<Longrightarrow> retained_on (fo_channelId d) (attempts c) = []"
    "if fo_sinkKind d = RetainedState then retained_phase resume else lifecycle_phase resume"
    using ok(4) by (simp_all split: if_splits)
  have phase: "retained_phase resume \<or> lifecycle_phase resume" using d(4) by (simp split: if_splits)
  have depth: "depth_of c' = depth_of c" by (simp add: depth_of_def fun_eq_iff c')
  show "attempts_ok c'" by (rule new_attempt_ok [OF ok(3) d(1,3) c'(1,2)])
  show "pc_ok c' resume" using d(2) resume_pc_ok [OF phase, of c' c] by simp
  show "synced_ok c' db" using ok(5) by (simp add: synced_ok_def c')
  show "snapshot_ok c' db resume" using ok(6) unfolding snapshot_ok_def snapshot.simps c'(6) depth .
  show "ready_ok c' db" using ok(7) by (simp add: ready_ok_def c' depth)
  have "retained_on ch (attempts c') = retained_on ch (attempts c)" if "releasing resume" for ch
    using d(4) that by (cases resume) (auto simp: retained_on_def c' split: if_splits)
  then show "release_ok (dg_channelIds (dx_config dx)) c' db resume"
    using ok(8) by (auto simp: release_ok_def settled_def c'(7))
  show "ack_ok db resume" by (rule resume_ack [OF phase])
qed (use worker_okD(1,2) [OF ok] in \<open>simp_all add: c'\<close>)

lemma finish_publish_ok:
  assumes ok: "worker_ok dx (c, db, CallPublisher d i e resume)" and gen: "unat (dc_outboxGeneration c) + 2 < 2 ^ 64"
    and run: "finish_publish (dx_config dx) env d i e r c db = ((c', db'), outs)"
  shows "worker_ok dx (c', db', resume) \<and> stays c c'"
proof -
  note pc = worker_okD(4) [OF ok]
  have d: "unsynced c d" "pc_ok c resume"
    "if fo_sinkKind d = RetainedState then retained_phase resume else lifecycle_phase resume"
    using pc by (simp_all split: if_splits)
  have phase: "retained_phase resume \<or> lifecycle_phase resume" using d(3) by (simp split: if_splits)
  have release: "fo_sinkKind d \<noteq> RetainedState" if "releasing resume" using d(3) that by (cases resume) (auto split: if_splits)
  define db1 where "db1 = (\<lambda>reason. fst (markFireDeliveryPending (de_mark env) (de_at env) db (fo_deliveryKey d)
      (fo_fireRevision d) reason))"
  have w: "writes (dx_fire dx) [d] db (db1 reason)" for reason by (simp add: db1_def)
  define key where "key = (mp_epoch r, mp_messageId r)"
  define a where "a = \<lparr>at_delivery = d, at_attemptId = i, at_submittedAt = de_now env\<rparr>"
  define bad where "bad \<longleftrightarrow> \<not> mp_accepted r \<or> mp_epoch r \<noteq> e \<or> dc_activeEpoch c \<noteq> e \<or> mp_messageId r < 0 \<or>
    mp_deliveryKey r \<noteq> fo_deliveryKey d \<or> mp_revision r \<noteq> fo_fireRevision d \<or> mp_attemptId r \<noteq> i"
  note run = run [unfolded finish_publish_def Let_def, folded bad_def db1_def key_def a_def]
  consider reason where "c' = scheduleRetry (dx_config dx) (de_now env) (fo_channelId d) c" "db' = db1 reason"
    | reason1 reason2 where "(c', db') = disconnectEpoch env (dc_activeEpoch c) reason1 c (db1 reason2)"
    | "\<not> um_contains (dc_inFlight c) key" "c' = clearRetry (fo_channelId d) (c\<lparr>dc_inFlight := um_emplace key a (dc_inFlight c)\<rparr>)" "db' = db"
  proof (cases bad)
    case True
    then show thesis
      using run that(1) [of "''MQTT tracked publish was not accepted in the active epoch''"] by (simp add: db1_def)
  next
    case False
    then show thesis
      using run that(3) that(2) [of "''same-epoch MQTT MID collision''" "''MQTT reused an in-flight MID in the same epoch''"]
      by (cases "um_contains (dc_inFlight c) key") (simp_all add: db1_def)
  qed
  then show ?thesis
  proof cases
    case 1
    have drops: "drops 0 c c'" by (rule drops_same) (simp_all add: 1 scheduleRetry_def)
    have "worker_ok dx (c', db', resume)"
      by (rule worker_moves [OF ok drops, of "[d]"])
        (use w 1 d release phase resume_pc_ok [OF phase, of c' c] resume_ack [OF phase] in auto)
    then show ?thesis using drops_stays [OF drops] by simp
  next
    case 2
    have "gives_up (dx_fire dx) 1 (c, db1 reason2) (c', db')"
      unfolding 2 by (rule gives_up_disconnect) (use gen in simp)
    then have g: "drops 1 c c'" "writes (dx_fire dx) (attempts c) (db1 reason2) db'" by (simp_all add: gives_up_def)
    have "writes (dx_fire dx) ([d] @ attempts c) db db'" by (rule writes_trans [OF w g(2)])
    then have "worker_ok dx (c', db', resume)"
      by (rule worker_moves [OF ok g(1)])
        (use worker_okD(3) [OF ok] d release phase resume_pc_ok [OF phase, of c' c] resume_ack [OF phase] in
          \<open>auto simp: attempts_ok_def\<close>)
    then show ?thesis using drops_stays [OF g(1)] by simp
  next
    case 3
    have "dc_inFlight c' = dc_inFlight c @ [(key, a)]" using 3 by (simp add: clearRetry_def um_emplace_def)
    then have "attempts c' = attempts c @ [d]" by (simp add: attempts_def a_def)
    then have "worker_ok dx (c', db', resume)"
      unfolding 3(3) by (rule new_attempt [OF ok]) (simp_all add: 3(2) clearRetry_def)
    moreover have "stays c c'" by (simp add: 3(2) stays_def clearRetry_def depth_of_def fun_eq_iff)
    ultimately show ?thesis by simp
  qed
qed

text \<open>The readiness is recomputed from a list that is current for every channel it makes ready.\<close>

lemma find_ready_map: "um_find (map (\<lambda>(ch, _). (ch, f ch)) m) ch = (if ch \<in> fst ` set m then Some (f ch) else None)"
  by (induction m) (auto simp: um_find_def)

lemma find_foldl_put:
  "um_find (foldl (\<lambda>m ch. um_put ch (g ch) m) m chs) x = (if x \<in> set chs then Some (g x) else um_find m x)"
  by (induction chs arbitrary: m) (auto simp: um_find_put)

lemma recompute_ok:
  assumes ok: "worker_ok dx (c, db, RetainedRows observed now rows [] pending)" and c': "c' = recomputeReadiness rows observed c"
  shows "worker_ok dx (c', db, CheckReady observed now pending) \<and> stays c c'"
proof -
  define row where "row = (\<lambda>ch. find (\<lambda>r. fo_channelId r = ch) rows)"
  define is_ready where "is_ready = (\<lambda>channel. observed = dc_outboxGeneration c \<and> um_find (dc_mutationDepth c) channel = Some 0 \<and>
            dc_activeEpoch c \<noteq> 0 \<and> dc_subscriptionsReady c \<and>
            (case row channel of None \<Rightarrow> False
             | Some r \<Rightarrow> um_find (dc_syncedRevision c) channel = Some (fo_fireRevision r)))"
  note ok = worker_okD [OF ok]
  have same: "attempts c' = attempts c" "dc_syncedRevision c' = dc_syncedRevision c" "depth_of c' = depth_of c"
    "dc_lifecycleRelease c' = dc_lifecycleRelease c" "dc_outboxGeneration c' = dc_outboxGeneration c"
    "dc_activeEgress c' = dc_activeEgress c"
    by (simp_all add: c' recomputeReadiness_def Let_def attempts_def depth_of_def fun_eq_iff)
  have ready': "dc_ready c' = map (\<lambda>(ch, _). (ch, is_ready ch)) (dc_ready c)"
    "dc_readyRevision c' = foldl (\<lambda>m ch. um_put ch (if is_ready ch then fo_fireRevision (the (row ch)) else 0) m)
       (dc_readyRevision c) (map fst (dc_ready c))"
    unfolding c' recomputeReadiness_def Let_def is_ready_def row_def by simp_all
  have "ready_ok c' db"
    unfolding ready_ok_def
  proof (intro allI impI)
    fix ch
    assume "um_find (dc_ready c') ch = Some True"
    then have ch: "ch \<in> fst ` set (dc_ready c)" "is_ready ch" by (simp_all add: ready' find_ready_map split: if_splits)
    then obtain r where r: "row ch = Some r" "um_find (dc_syncedRevision c) ch = Some (fo_fireRevision r)"
      "observed = dc_outboxGeneration c" "um_find (dc_mutationDepth c) ch = Some 0"
      by (auto simp: is_ready_def split: option.splits)
    have mem: "r \<in> set rows" "fo_channelId r = ch" using r(1) by (auto simp: row_def find_Some_iff)
    have depth: "depth_of c ch = 0" using r(4) by (simp add: depth_of_def)
    have "at_revision db ch (fo_fireRevision r)" using ok(6) mem depth r(3) by (auto simp: snapshot_ok_def)
    moreover have "um_find (dc_readyRevision c') ch = Some (fo_fireRevision r)"
      using ch r(1) by (simp add: ready' find_foldl_put)
    ultimately show "depth_of c' ch = 0 \<and> (\<exists>v. um_find (dc_readyRevision c') ch = Some v \<and>
        um_find (dc_syncedRevision c') ch = Some v \<and> at_revision db ch v)"
      using depth r(2) by (simp add: same)
  qed
  moreover have "fst ` set (dc_ready c') = fst ` set (dc_ready c)" by (auto simp: ready' image_image split_beta)
  ultimately have "worker_ok dx (c', db, CheckReady observed now pending)"
    using ok by (auto simp: worker_ok_def attempts_ok_def unsynced_def synced_ok_def snapshot_ok_def release_ok_def same)
  then show ?thesis by (simp add: stays_def same)
qed

text \<open>A release begins with every channel synchronized.\<close>

lemma all_ready_find:
  assumes "all_channels_ready c" and "ch \<in> fst ` set (dc_ready c)"
  shows "um_find (dc_ready c) ch = Some True"
proof -
  obtain x where x: "um_find (dc_ready c) ch = Some x"
    using assms(2) um_contains_iff [of "dc_ready c" ch] by (auto simp: um_contains_def)
  then show ?thesis using um_find_SomeD [OF x] assms(1) by (auto simp: all_channels_ready_def list_all_iff)
qed

lemma synced_settled:
  assumes ok: "attempts_ok c" "synced_ok c db" "ready_ok c db" and ch: "um_find (dc_ready c) ch = Some True"
  shows "settled c db ch"
proof -
  obtain v where v: "um_find (dc_syncedRevision c) ch = Some v" "at_revision db ch v"
    using ok(3) ch by (auto simp: ready_ok_def)
  have "acked_at db ch v" using ok(2) v(1) by (simp add: synced_ok_def)
  moreover have "fo_fireRevision d \<noteq> v" if "d \<in> set (retained_on ch (attempts c))" for d
    using ok(1) that v(1) by (auto simp: attempts_ok_def retained_on_def unsynced_def)
  ultimately show ?thesis using v(2) by (auto simp: settled_def)
qed

lemma release_begins:
  assumes ok: "worker_ok dx (c, db, TryRelease observed now)" and sh: "shared_ok c w b"
    and run: "beginLifecycleRelease observed c = (c', True)"
  shows "worker_ok dx (c', db, ListLifecycle now)" "shared_ok c' w b" "dc_outboxGeneration c' = dc_outboxGeneration c"
proof -
  note ok = worker_okD [OF ok]
  have c': "c' = c\<lparr>dc_lifecycleRelease := True\<rparr>" and all: "all_channels_ready c" "no_open_mutation c"
    using run by (auto simp: beginLifecycleRelease_def split: if_splits)
  have same: "attempts c' = attempts c" "depth_of c' = depth_of c"
    by (simp_all add: c' attempts_def depth_of_def fun_eq_iff)
  have "settled c db ch" if "ch \<in> set (dg_channelIds (dx_config dx))" for ch
  proof (rule synced_settled [OF ok(3,5,7)])
    show "um_find (dc_ready c) ch = Some True" using all_ready_find [OF all(1)] ok(2) that by blast
  qed
  then have "release_ok (dg_channelIds (dx_config dx)) c' db (ListLifecycle now)"
    by (simp add: release_ok_def settled_def same) (simp add: c')
  moreover have "attempts_ok c'" using ok(3) by (simp add: attempts_ok_def unsynced_def same) (simp add: c')
  moreover have "synced_ok c' db" using ok(5) by (simp add: synced_ok_def c')
  moreover have "ready_ok c' db" using ok(7) by (simp add: ready_ok_def same) (simp add: c')
  ultimately show "worker_ok dx (c', db, ListLifecycle now)"
    using ok(1,2) by (simp add: worker_ok_def snapshot_ok_def) (simp add: c')
  show "shared_ok c' w b"
    using sh depth_zero_empty [OF sh no_open_depth [OF all(2)]] by (simp add: shared_ok_def same)
qed (use run in \<open>auto simp: beginLifecycleRelease_def split: if_splits\<close>)

text \<open>An acknowledgement: first the mark, then the look at the row.\<close>

lemma acknowledge_ok:
  assumes ok: "worker_ok dx (c, db, Facts (event # rest) o1 e1)"
    and a: "um_find (dc_inFlight c) key = Some a"
    and run: "acknowledgeFireDelivery sql at db (fo_deliveryKey (at_delivery a)) (fo_fireRevision (at_delivery a)) = (db', good)"
    and c': "c' = c\<lparr>dc_inFlight := um_erase key (dc_inFlight c)\<rparr>"
  shows "worker_ok dx (c', db', Acknowledged a good rest o1 e1) \<and> stays c c'"
proof -
  let ?d = "at_delivery a"
  note wok = worker_okD [OF ok]
  have mem: "(key, a) \<in> set (dc_inFlight c)" by (rule um_find_SomeD [OF a])
  then have d: "?d \<in> set (attempts c)" by (force simp: attempts_def)
  then have d_ok: "unsynced c ?d" using wok(3) by (simp add: attempts_ok_def)
  have w: "writes (dx_fire dx) [?d] db db'"
    using writes_marks(3) [of "dx_fire dx" ?d db sql at] by (simp add: run)
  have "closes 0 c c'" by (rule closes_same) (simp_all add: c')
  then have drops: "drops 0 c c'" by (rule dropsI [where p = "\<lambda>p. fst p \<noteq> key"]) (simp_all add: c' um_erase_def)
  have free: "retained_on (fo_channelId ?d) (attempts c') = []" if k: "fo_sinkKind ?d = RetainedState"
  proof -
    have "length (retained_on (fo_channelId ?d) (map (\<lambda>(_, a). at_delivery a) (filter (\<lambda>p. fst p \<noteq> key) m)))
        < length (retained_on (fo_channelId ?d) (map (\<lambda>(_, a). at_delivery a) m))"
      if "(key, a) \<in> set m" for m :: "((64 word \<times> int) \<times> DeliveryAttempt) list"
      using that
    proof (induction m)
      case (Cons x m)
      have le: "length (retained_on (fo_channelId ?d) (map (\<lambda>(_, a). at_delivery a) (filter (\<lambda>p. fst p \<noteq> key) m)))
          \<le> length (retained_on (fo_channelId ?d) (map (\<lambda>(_, a). at_delivery a) m))"
        by (induction m) (auto simp: retained_on_def)
      show ?case using Cons le k by (cases "x = (key, a)") (auto simp: retained_on_def)
    qed simp
    from this [OF mem] have "length (retained_on (fo_channelId ?d) (attempts c')) < length (retained_on (fo_channelId ?d) (attempts c))"
      by (simp add: attempts_def c' um_erase_def)
    also have "length (retained_on (fo_channelId ?d) (attempts c)) \<le> 1" using wok(3) by (simp add: attempts_ok_def)
    finally show ?thesis by simp
  qed
  have "acked_at db' (fo_channelId ?d) (fo_fireRevision ?d)" if "good" "fo_sinkKind ?d = RetainedState"
  proof (rule acknowledge_acked)
    show "fire_store_ok db" using wok(1) by (simp add: fire_db_ok_def)
    show "acknowledgeFireDelivery sql at db (fo_deliveryKey ?d) (fo_fireRevision ?d) = (db', True)" using run that by simp
    show "fo_deliveryKey ?d = retainedDeliveryId (fo_channelId ?d)" using d_ok that(2) by (simp add: unsynced_def delivery_ok_def)
  qed
  moreover have "delivery_ok ?d" using d_ok by (simp add: unsynced_def)
  ultimately have "worker_ok dx (c', db', Acknowledged a good rest o1 e1)"
    by (intro worker_moves [OF ok drops w]) (use d_ok free in auto)
  then show ?thesis using drops_stays [OF drops] by simp
qed

lemma synchronized_ok:
  assumes ok: "worker_ok dx (c, db, Acknowledged a True rest o1 e1)" and k: "fo_sinkKind (at_delivery a) = RetainedState"
    and row: "getFireDelivery sql db (fo_deliveryKey (at_delivery a)) = Inr (Some r)"
      "fo_fireRevision r = fo_fireRevision (at_delivery a)"
    and c': "c' = c\<lparr>dc_syncedRevision := um_put (fo_channelId (at_delivery a)) (fo_fireRevision (at_delivery a)) (dc_syncedRevision c)\<rparr>"
  shows "worker_ok dx (c', db, Facts rest o1 e1)"
proof -
  let ?ch = "fo_channelId (at_delivery a)" and ?v = "fo_fireRevision (at_delivery a)"
  note ok = worker_okD [OF ok]
  have store: "fire_store_ok db" using ok(1) by (simp add: fire_db_ok_def)
  have key: "fo_deliveryKey (at_delivery a) = retainedDeliveryId ?ch" and free: "retained_on ?ch (attempts c) = []"
    using ok(4) k by (simp_all add: delivery_ok_def)
  have synced: "um_find (dc_syncedRevision c') x = (if x = ?ch then Some ?v else um_find (dc_syncedRevision c) x)" for x
    by (simp add: c' um_find_put)
  have same: "attempts c' = attempts c" "depth_of c' = depth_of c"
    by (simp_all add: c' attempts_def depth_of_def fun_eq_iff)
  have "unsynced c' d" if d: "d \<in> set (attempts c)" for d
  proof -
    have "fo_channelId d \<noteq> ?ch" if "fo_sinkKind d = RetainedState"
      using free d that by (auto simp: retained_on_def filter_empty_conv)
    then show ?thesis using ok(3) d by (auto simp: attempts_ok_def unsynced_def synced)
  qed
  then have "attempts_ok c'" using ok(3) by (simp add: attempts_ok_def same)
  moreover have "synced_ok c' db" using ok(5,9) k by (simp add: synced_ok_def synced)
  moreover have "ready_ok c' db"
    unfolding ready_ok_def
  proof (intro allI impI)
    fix ch
    assume "um_find (dc_ready c') ch = Some True"
    then obtain v where v: "depth_of c ch = 0" "um_find (dc_readyRevision c) ch = Some v"
      "um_find (dc_syncedRevision c) ch = Some v" "at_revision db ch v"
      using ok(7) by (auto simp: ready_ok_def c')
    have "v = ?v" if "ch = ?ch" using got_row [OF store row(1) [unfolded key]] v(4) row(2) that by simp
    then show "depth_of c' ch = 0 \<and> (\<exists>v. um_find (dc_readyRevision c') ch = Some v \<and>
        um_find (dc_syncedRevision c') ch = Some v \<and> at_revision db ch v)"
      using v by (intro conjI exI [of _ v]) (simp_all add: same synced, simp add: c')
  qed
  moreover have "release_ok (dg_channelIds (dx_config dx)) c' db (Facts rest o1 e1)"
    using ok(8) by (simp add: release_ok_def c')
  ultimately show ?thesis using ok(1,2) by (simp add: worker_ok_def snapshot_ok_def) (simp add: c')
qed

lemma process_fact_ok:
  assumes ok: "worker_ok dx (c, db, Facts (event # rest) o1 e1)" and gen: "unat (dc_outboxGeneration c) + 2 < 2 ^ 64"
    and run: "processFact env event c db = ((c', db'), None)"
  shows "worker_ok dx (c', db', Facts rest o1 e1) \<and> stays c c'"
proof -
  have gen1: "unat (dc_outboxGeneration c) + 1 < 2 ^ 64" using gen by simp
  have "gives_up (dx_fire dx) 2 (c, db) (c', db')"
  proof (cases "mf_kind event")
    case FactConnected
    then show ?thesis using run gives_up_connect [OF gen, of "dx_fire dx" db env "mf_epoch event"] by (simp add: processFact_def)
  next
    case FactSubscriptionsReady
    then have "drops 2 c c'" "db' = db" using run by (auto simp: processFact_def intro: drops_same split: if_splits)
    then show ?thesis by (simp add: gives_up_def)
  next
    case FactPublishAcknowledged
    then have "(c', db') = (c, db)"
      using run by (auto simp: processFact_def Let_def split: if_splits option.splits prod.splits)
    then show ?thesis by simp
  next
    case FactDisconnected
    then have "(c', db') = (c, db) \<or> (\<exists>reason. (c', db') = disconnectEpoch env (mf_epoch event) reason c db)"
      using run unfolding processFact_def by (cases "mf_epoch event = dc_activeEpoch c") (simp_all, metis)
    then show ?thesis using gives_up_mono [OF gives_up_disconnect [OF gen1], of 2] by auto
  next
    case FactEpochFaulted
    then have "(c', db') = (c, db) \<or> (\<exists>reason. (c', db') = disconnectEpoch env (mf_epoch event) reason c db)"
      using run unfolding processFact_def by (cases "mf_epoch event = dc_activeEpoch c") (simp_all, metis)
    then show ?thesis using gives_up_mono [OF gives_up_disconnect [OF gen1], of 2] by auto
  qed (use run in \<open>simp add: processFact_def\<close>)
  then show ?thesis by (rule worker_gives_up_stays [OF ok]) simp_all
qed

lemma process_ack_ok:
  assumes ok: "worker_ok dx (c, db, Facts (event # rest) o1 e1)"
    and run: "processFact env event c db = ((c', db'), Some (a, good))"
  shows "worker_ok dx (c', db', Acknowledged a good rest o1 e1) \<and> stays c c'"
proof -
  define key where "key = (mf_epoch event, mf_messageId event)"
  have "um_find (dc_inFlight c) key = Some a \<and> c' = c\<lparr>dc_inFlight := um_erase key (dc_inFlight c)\<rparr> \<and>
      acknowledgeFireDelivery (de_mark env) (de_at env) db (fo_deliveryKey (at_delivery a)) (fo_fireRevision (at_delivery a)) = (db', good)"
    using run by (auto simp: processFact_def key_def Let_def split: MqttTransportFactKind.splits if_splits option.splits prod.splits)
  then show ?thesis using acknowledge_ok [OF ok] by blast
qed

lemma clear_retry_ok:
  assumes "worker_ok dx (c, db, Facts rest o1 e1)"
  shows "worker_ok dx (clearRetry ch c, db, Facts rest o1 e1) \<and> stays c (clearRetry ch c)"
  by (rule worker_same [OF assms]) (simp_all add: clearRetry_def)

lemma finish_acknowledge_ok:
  assumes ok: "worker_ok dx (c, db, Acknowledged a good rest o1 e1)"
    and run: "finish_acknowledge env a good c db = Inr c'"
  shows "worker_ok dx (c', db, Facts rest o1 e1) \<and> stays c c'"
proof -
  let ?d = "at_delivery a"
  let ?synced = "c\<lparr>dc_syncedRevision := um_put (fo_channelId ?d) (fo_fireRevision ?d) (dc_syncedRevision c)\<rparr>"
  have plain: "worker_ok dx (c, db, Facts rest o1 e1)" using worker_same [OF ok, of c "Facts rest o1 e1"] by simp
  consider "c' = clearRetry (fo_channelId ?d) c"
    | r where "good" "fo_sinkKind ?d = RetainedState" "getFireDelivery (de_read env) db (fo_deliveryKey ?d) = Inr (Some r)"
      "fo_fireRevision r = fo_fireRevision ?d" "c' = clearRetry (fo_channelId ?d) ?synced"
    using run by (auto simp: finish_acknowledge_def Let_def split: if_splits option.splits elim!: try_bind_InrE simp del: try_bind_Inr)
  then show ?thesis
  proof cases
    case 1
    then show ?thesis using clear_retry_ok [OF plain] by simp
  next
    case 2
    have "worker_ok dx (?synced, db, Facts rest o1 e1)"
      by (rule synchronized_ok [OF _ 2(2,3,4) refl]) (use ok 2(1) in simp)
    then have "worker_ok dx (c', db, Facts rest o1 e1) \<and> stays ?synced c'"
      using clear_retry_ok [of dx ?synced] 2(5) by simp
    then show ?thesis by (simp add: stays_def depth_of_def fun_eq_iff)
  qed
qed

text \<open>Every step of the worker keeps its invariant, and the other threads'.\<close>

lemma wait_step_ok:
  assumes ok: "worker_ok dx (c, db, WaitForWork)"
    and run: "worker_step (dx_config dx) env (c, db, WaitForWork) = ((c', db', pc'), outs)"
  shows "worker_ok dx (c', db', pc') \<and> stays c c'"
proof (cases "dc_stopRequested c")
  case True
  then have r: "requeueAllInflight env ''delivery coordinator stopped before PUBACK'' c db = (c', db')" and pc': "pc' = WorkerEnded"
    using run by (auto simp: worker_step_def Let_def split: prod.splits)
  have "gives_up (dx_fire dx) 0 (c, db) (c', db')"
    using gives_up_requeue [of "dx_fire dx" 0 c db env "''delivery coordinator stopped before PUBACK''"] by (simp add: r)
  then show ?thesis unfolding pc' by (rule worker_gives_up_stays [OF ok]) simp_all
next
  case False
  define taken where "taken = c\<lparr>dc_facts := [], dc_outboxChanged := False, dc_factOverflow := False, dc_factOverflowEpoch := None\<rparr>"
  have "(c', db', pc') = (c, db, WaitForWork) \<or>
      (c', db', pc') = (taken, db, Facts (dc_facts c) (dc_factOverflow c) (dc_factOverflowEpoch c))"
    using run False by (auto simp: worker_step_def Let_def taken_def split: if_splits)
  moreover have "worker_ok dx (taken, db, Facts (dc_facts c) (dc_factOverflow c) (dc_factOverflowEpoch c)) \<and> stays c taken"
    by (rule worker_same [OF ok]) (simp_all add: taken_def)
  moreover have "stays c c" by (simp add: stays_def)
  ultimately show ?thesis using ok by auto
qed

lemma facts_step_ok:
  assumes ok: "worker_ok dx (c, db, Facts fs o1 e1)" and gen: "unat (dc_outboxGeneration c) + 2 < 2 ^ 64"
    and run: "worker_step (dx_config dx) env (c, db, Facts fs o1 e1) = ((c', db', pc'), outs)"
  shows "worker_ok dx (c', db', pc') \<and> stays c c'"
proof (cases fs)
  case Nil
  then have r: "handle_overflow (dx_config dx) env o1 e1 c db = ((c', db'), outs)" and pc': "pc' = Expire"
    using run by (auto simp: worker_step_def Let_def split: prod.splits)
  have "gives_up (dx_fire dx) 1 (c, db) (c', db')"
    using gives_up_overflow(1) [of c "dx_fire dx" db "dx_config dx" env o1 e1] gen by (simp add: r)
  then show ?thesis unfolding pc' by (rule worker_gives_up_stays [OF ok]) simp_all
next
  case (Cons event rest)
  obtain c1 db1 x where r: "processFact env event c db = ((c1, db1), x)" by (metis surj_pair)
  note ok = ok [unfolded Cons]
  show ?thesis
  proof (cases x)
    case None
    then have "(c', db', pc') = (c1, db1, Facts rest o1 e1)" using run Cons r by (simp add: worker_step_def)
    then show ?thesis using process_fact_ok [OF ok gen] r None by simp
  next
    case (Some y)
    obtain a good where y: "y = (a, good)" by (cases y)
    have "(c', db', pc') = (c1, db1, Acknowledged a good rest o1 e1)" using run Cons r Some y by (simp add: worker_step_def)
    then show ?thesis using process_ack_ok [OF ok] r Some y by simp
  qed
qed

lemma retained_step_ok:
  assumes ok: "worker_ok dx (c, db, RetainedRows observed now rows todo pending)"
    and run: "worker_step (dx_config dx) env (c, db, RetainedRows observed now rows todo pending) = ((c', db', pc'), outs)"
  shows "worker_ok dx (c', db', pc') \<and> stays c c'"
proof (cases todo)
  case Nil
  then have "c' = recomputeReadiness rows observed c" "db' = db" "pc' = CheckReady observed now pending"
    using run by (simp_all add: worker_step_def)
  then show ?thesis using recompute_ok [OF ok [unfolded Nil]] by simp
next
  case (Cons row rest)
  let ?resume = "\<lambda>p. RetainedRows observed now rows rest p"
  note pc = worker_okD(4) [OF ok]
  have row: "delivery_ok row" "fo_sinkKind row = RetainedState" and rest: "pc_ok c (?resume p)" for p
    using pc Cons by auto
  have same: "worker_ok dx (c, db, ?resume p) \<and> stays c c" for p
    by (rule worker_same [OF ok]) (use rest in simp_all)
  define synced where "synced \<longleftrightarrow> um_find (dc_syncedRevision c) (fo_channelId row) = Some (fo_fireRevision row)"
  define busy where "busy \<longleftrightarrow> retryDeferred c (fo_channelId row) now \<or> hasInFlight RetainedState c (fo_channelId row)"
  have step: "worker_step (dx_config dx) env (c, db, RetainedRows observed now rows todo pending) =
      (if synced then ((c, db, ?resume pending), []) else if busy then ((c, db, ?resume True), [])
       else (offer_row (dx_config dx) env row (?resume True) c db, []))"
    by (simp add: worker_step_def Cons Let_def synced_def busy_def)
  consider "(c', db', pc') = (c, db, ?resume pending)" | "(c', db', pc') = (c, db, ?resume True)"
    | "\<not> synced" "\<not> busy" "offer_row (dx_config dx) env row (?resume True) c db = (c', db', pc')"
    using run step by (cases synced; cases busy) simp_all
  then show ?thesis
  proof cases
    case 3
    have "retained_on (fo_channelId row) (attempts c) = []"
      using 3(2) by (auto simp: busy_def hasInFlight_def retained_on_def attempts_def list_ex_iff filter_empty_conv)
    moreover have "unsynced c row" using row 3(1) by (simp add: unsynced_def synced_def)
    ultimately show ?thesis
      by (intro offer_row_ok [OF ok _ rest _ _ _ _ 3(3)]) (simp_all add: row(2))
  qed (use same in simp_all)
qed

lemma lifecycle_step_ok:
  assumes ok: "worker_ok dx (c, db, LifecycleRows now todo submitted)"
    and run: "worker_step (dx_config dx) env (c, db, LifecycleRows now todo submitted) = ((c', db', pc'), outs)"
  shows "worker_ok dx (c', db', pc') \<and> stays c c'"
proof (cases todo)
  case Nil
  then have "c' = endLifecycleRelease c" "db' = db" "pc' = ListPending" using run by (simp_all add: worker_step_def)
  then show ?thesis using release_ended [OF ok, of ListPending] by simp
next
  case (Cons row rest)
  let ?resume = "LifecycleRows now rest (fo_channelId row # submitted)"
  note pc = worker_okD(4) [OF ok]
  have row: "delivery_ok row" "fo_sinkKind row = LifecycleEvent" and rest: "pc_ok c (LifecycleRows now rest sub)" for sub
    using pc Cons by auto
  have same: "worker_ok dx (c, db, LifecycleRows now rest sub) \<and> stays c c" for sub
    by (rule worker_same [OF ok]) (use rest in simp_all)
  define seen where "seen \<longleftrightarrow> fo_channelId row \<in> set submitted"
  define busy where "busy \<longleftrightarrow> retryDeferred c (fo_channelId row) now \<or> hasInFlight LifecycleEvent c (fo_channelId row)"
  have step: "worker_step (dx_config dx) env (c, db, LifecycleRows now todo submitted) =
      (if seen then ((c, db, LifecycleRows now rest submitted), []) else if busy then ((c, db, ?resume), [])
       else (offer_row (dx_config dx) env row ?resume c db, []))"
    by (simp add: worker_step_def Cons Let_def seen_def busy_def)
  consider "(c', db', pc') = (c, db, LifecycleRows now rest submitted)" | "(c', db', pc') = (c, db, ?resume)"
    | "offer_row (dx_config dx) env row ?resume c db = (c', db', pc')"
    using run step by (cases seen; cases busy) simp_all
  then show ?thesis
  proof cases
    case 3
    have "unsynced c row" using row by (simp add: unsynced_def)
    then show ?thesis by (intro offer_row_ok [OF ok _ rest _ _ _ _ 3]) (simp_all add: row(2))
  qed (use same in simp_all)
qed

lemma quiet_step_ok:
  assumes ok: "worker_ok dx (c, db, pc)" and gen: "unat (dc_outboxGeneration c) + 2 < 2 ^ 64"
    and pc: "pc \<in> {Expire, Observe, ListPending, WorkerEnded} \<or> (\<exists>p. pc = SetIdle p) \<or>
      (\<exists>o1 now p. pc = CheckReady o1 now p) \<or> (\<exists>now. pc = ListLifecycle now) \<or> (\<exists>o1 now. pc = ListRetained o1 now)"
    and run: "worker_step (dx_config dx) env (c, db, pc) = ((c', db', pc'), outs)"
  shows "worker_ok dx (c', db', pc') \<and> stays c c'"
proof -
  note wok = worker_okD [OF ok]
  have store: "fire_store_ok db" using wok(1) by (simp add: fire_db_ok_def)
  have same: "worker_ok dx (c, db, pc') \<and> stays c c"
    if "pc_ok c pc'" "snapshot_ok c db pc'" "releasing pc' = releasing pc" "ack_ok db pc'" for pc'
    using ok that by (simp add: worker_ok_def release_ok_def stays_def)
  have fail: "worker_ok dx (c', db', pc') \<and> stays c c'"
    if "worker_failed (dx_config dx) env reason c db = ((c', db', pc'), outs)" for reason
    by (rule worker_failed_ok [OF ok gen that])
  consider "pc = Expire" | "pc = Observe" | "pc = ListPending" | "pc = WorkerEnded" | p where "pc = SetIdle p"
    | o1 now p where "pc = CheckReady o1 now p" | now where "pc = ListLifecycle now" | o1 now where "pc = ListRetained o1 now"
    using pc by blast
  then show ?thesis
  proof cases
    case 1
    then have r: "expirePubAckDeadline (dx_config dx) env c db = ((c', db'), outs)" and pc': "pc' = Observe"
      using run by (auto simp: worker_step_def Let_def split: prod.splits)
    have "gives_up (dx_fire dx) 1 (c, db) (c', db')"
      using gives_up_overflow(2) [of c "dx_fire dx" db "dx_config dx" env] gen by (simp add: r)
    then show ?thesis unfolding pc' by (rule worker_gives_up_stays [OF ok]) (simp_all add: 1)
  next
    case 2
    then have "c' = c" "db' = db" "pc' = (if dc_activeEpoch c = 0 \<or> \<not> dc_subscriptionsReady c then ListPending
        else ListRetained (dc_outboxGeneration c) (de_now env))"
      using run by (auto simp: worker_step_def)
    then show ?thesis using same [of pc'] by (simp add: 2 snapshot_ok_def split: if_splits)
  next
    case 3
    show ?thesis
    proof (cases "listPendingFireLifecycleDeliveries (de_read env) db None")
      case (Inl e)
      then show ?thesis using run fail by (simp add: 3 worker_step_def)
    next
      case (Inr rows)
      then show ?thesis using run same [of "SetIdle (rows \<noteq> [])"] by (auto simp: 3 worker_step_def snapshot_ok_def)
    qed
  next
    case 4
    then show ?thesis using run same [of WorkerEnded] by (simp add: worker_step_def snapshot_ok_def)
  next
    case 5
    then have "c' = updateIdleState p c" "db' = db" "pc' = WaitForWork" using run by (simp_all add: worker_step_def)
    then show ?thesis using worker_same [OF ok, of c' WaitForWork] by (simp add: 5 updateIdleState_def)
  next
    case 6
    then have "c' = c" "db' = db" "pc' = (if p \<or> \<not> all_channels_ready c then ListPending else TryRelease o1 now)"
      using run by (auto simp: worker_step_def)
    then show ?thesis using same [of pc'] by (simp add: 6 snapshot_ok_def split: if_splits)
  next
    case 7
    show ?thesis
    proof (cases "listPendingFireLifecycleDeliveries (de_read env) db None")
      case (Inl e)
      then show ?thesis using run fail by (simp add: 7 worker_step_def)
    next
      case (Inr rows)
      then have "c' = c" "db' = db" "pc' = LifecycleRows now rows []" using run by (simp_all add: 7 worker_step_def)
      then show ?thesis using same [of pc'] listed_lifecycle [OF store Inr] by (simp add: 7 snapshot_ok_def)
    qed
  next
    case 8
    show ?thesis
    proof (cases "listFireRetainedDeliveries (de_read env) db")
      case (Inl e)
      then show ?thesis using run fail by (simp add: 8 worker_step_def)
    next
      case (Inr rows)
      then have r: "c' = c" "db' = db" "pc' = RetainedRows o1 now rows rows False" using run by (simp_all add: 8 worker_step_def)
      have "unat o1 \<le> unat (dc_outboxGeneration c)" using wok(6) by (simp add: 8 snapshot_ok_def)
      then show ?thesis using r same [of pc'] listed_retained [OF store Inr] by (simp add: 8 snapshot_ok_def)
    qed
  qed
qed

lemma call_step_ok:
  assumes ok: "worker_ok dx (c, db, CallPublisher d i e resume)" and gen: "unat (dc_outboxGeneration c) + 2 < 2 ^ 64"
    and run: "worker_step (dx_config dx) env (c, db, CallPublisher d i e resume) = ((c', db', pc'), outs)"
  shows "worker_ok dx (c', db', pc') \<and> stays c c'"
proof (cases "de_publish env")
  case (Inl reason)
  obtain st outs1 where f: "worker_failed (dx_config dx) env reason c db = (st, outs1)" by (metis surj_pair)
  have "st = (c', db', pc')" using run f by (simp add: worker_step_def Inl)
  then show ?thesis using worker_failed_ok [OF ok gen] f by blast
next
  case (Inr r)
  obtain c1 db1 outs1 where f: "finish_publish (dx_config dx) env d i e r c db = ((c1, db1), outs1)" by (metis surj_pair)
  have "(c', db', pc') = (c1, db1, resume)" using run f by (simp add: worker_step_def Inr)
  then show ?thesis using finish_publish_ok [OF ok gen f] by simp
qed

lemma acknowledged_step_ok:
  assumes ok: "worker_ok dx (c, db, Acknowledged a good rest o1 e1)" and gen: "unat (dc_outboxGeneration c) + 2 < 2 ^ 64"
    and run: "worker_step (dx_config dx) env (c, db, Acknowledged a good rest o1 e1) = ((c', db', pc'), outs)"
  shows "worker_ok dx (c', db', pc') \<and> stays c c'"
proof (cases "finish_acknowledge env a good c db")
  case (Inl e)
  then have "worker_failed (dx_config dx) env e c db = ((c', db', pc'), outs)" using run by (simp add: worker_step_def)
  then show ?thesis by (rule worker_failed_ok [OF ok gen])
next
  case (Inr c1)
  then have "(c', db', pc') = (c1, db, Facts rest o1 e1)" using run by (simp add: worker_step_def)
  then show ?thesis using finish_acknowledge_ok [OF ok Inr] by simp
qed

lemma worker_step_ok:
  assumes ok: "worker_ok dx (c, db, pc)" and sh: "shared_ok c w b" and gen: "unat (dc_outboxGeneration c) + 2 < 2 ^ 64"
    and run: "worker_step (dx_config dx) env (c, db, pc) = ((c', db', pc'), outs)"
  shows "worker_ok dx (c', db', pc') \<and> shared_ok c' w b \<and>
    unat (dc_outboxGeneration c') \<le> unat (dc_outboxGeneration c) + 2"
proof (cases "\<exists>o1 now. pc = TryRelease o1 now")
  case True
  then obtain o1 now where pc: "pc = TryRelease o1 now" by blast
  obtain c1 released where r: "beginLifecycleRelease o1 c = (c1, released)" by (metis surj_pair)
  show ?thesis
  proof (cases released)
    case True
    then have "(c', db', pc') = (c1, db, ListLifecycle now)" using run r by (simp add: pc worker_step_def)
    then show ?thesis using release_begins [OF ok [unfolded pc] sh] r True by simp
  next
    case False
    then have "c1 = c" using r by (auto simp: beginLifecycleRelease_def split: if_splits)
    then have "(c', db', pc') = (c, db, ListPending)" using run r False by (simp add: pc worker_step_def)
    moreover have "worker_ok dx (c, db, ListPending)" using worker_same [OF ok, of c ListPending] by (simp add: pc)
    ultimately show ?thesis using sh by simp
  qed
next
  case False
  have "worker_ok dx (c', db', pc') \<and> stays c c'"
  proof (cases pc)
    case WaitForWork
    then show ?thesis using wait_step_ok ok run by blast
  next
    case (Facts fs o1 e1)
    then show ?thesis using facts_step_ok ok gen run by blast
  next
    case (Acknowledged a good rest o1 e1)
    then show ?thesis using acknowledged_step_ok ok gen run by blast
  next
    case (RetainedRows o1 now rows todo p)
    then show ?thesis using retained_step_ok ok run by blast
  next
    case (LifecycleRows now todo sub)
    then show ?thesis using lifecycle_step_ok ok run by blast
  next
    case (CallPublisher d i e resume)
    then show ?thesis using call_step_ok ok gen run by blast
  next
    case (TryRelease o1 now)
    then show ?thesis using False by blast
  qed (rule quiet_step_ok [OF ok gen _ run], simp)+
  then show ?thesis using stays_shared [OF _ sh] unfolding stays_def by blast
qed

section \<open>Runs\<close>

abbreviation generation :: "DeliverySystem \<Rightarrow> nat" where
  "generation s \<equiv> unat (dc_outboxGeneration (fst (fst s)))"

lemma delivery_inv_step:
  assumes inv: "delivery_inv dx s" and gen: "generation s + 2 < 2 ^ 64" and event: "event_ok dx event"
  shows "delivery_inv dx (fst (delivery_step dx s event)) \<and>
    generation (fst (delivery_step dx s event)) \<le> generation s + 2"
proof -
  obtain c db pc w b where s: "s = ((c, db, pc), w, b)" by (metis surj_pair)
  have sh: "shared_ok c w b" and ok: "worker_ok dx (c, db, pc)" using inv by (simp_all add: s delivery_inv_def)
  have gen': "unat (dc_outboxGeneration c) + 2 < 2 ^ 64" using gen by (simp add: s)
  show ?thesis
  proof (cases "outside_event event")
    case True
    then show ?thesis using delivery_inv_outside [OF inv [unfolded s] gen'] by (simp add: s)
  next
    case False
    then consider env cmd where "event = ServiceCommand env cmd" | env where "event = Work env"
      by (cases event) (simp_all add: outside_event_def)
    then show ?thesis
    proof cases
      case 1
      then show ?thesis using delivery_inv_service [OF inv [unfolded s]] event by (simp add: s delivery_step_def)
    next
      case (2 env)
      obtain c' db' pc' outs where run: "worker_step (dx_config dx) env (c, db, pc) = ((c', db', pc'), outs)"
        by (metis surj_pair)
      show ?thesis using worker_step_ok [OF ok sh gen' run] run by (simp add: s delivery_step_def 2 delivery_inv_def)
    qed
  qed
qed

lemma delivery_inv_run:
  assumes "delivery_inv dx s" and "generation s + 2 * length events < 2 ^ 64" and "\<forall>event \<in> set events. event_ok dx event"
  shows "delivery_inv dx (final_state (delivery_step dx) s events) \<and>
    generation (final_state (delivery_step dx) s events) \<le> generation s + 2 * length events"
  using assms
proof (induction events arbitrary: s)
  case (Cons event events)
  have "generation s + 2 < 2 ^ 64" using Cons.prems(2) by simp
  then have step: "delivery_inv dx (fst (delivery_step dx s event))" "generation (fst (delivery_step dx s event)) \<le> generation s + 2"
    using delivery_inv_step [OF Cons.prems(1)] Cons.prems(3) by simp_all
  then have "generation (fst (delivery_step dx s event)) + 2 * length events < 2 ^ 64" using Cons.prems(2) by simp
  note Cons.IH [OF step(1) this]
  then show ?case using Cons.prems(3) step(2) by (auto simp: split_beta)
qed simp

text \<open>The state after \<open>start()\<close>.\<close>

lemma foldl_emplace_keys: "fst ` set (foldl (\<lambda>m ch. um_emplace ch x m) m chs) = fst ` set m \<union> set chs"
  by (induction chs arbitrary: m) (auto simp: um_emplace_def um_contains_def)

lemma foldl_emplace_find:
  "um_find (foldl (\<lambda>m ch. um_emplace ch x m) m chs) ch = Some y \<Longrightarrow> y = x \<or> um_find m ch = Some y"
  by (induction chs arbitrary: m) (fastforce simp: um_find_emplace split: if_splits)+

lemma started_inv:
  assumes db: "fire_db_ok (dx_fire dx) db"
    and run: "delivery_start (dx_config dx) sql t (newDeliveryCoordinator (dx_config dx)) db = Inr (c, db', True)"
  shows "delivery_inv dx ((c, db', WaitForWork), [], [])" "dc_outboxGeneration c = 1"
proof -
  let ?new = "newDeliveryCoordinator (dx_config dx)"
  have c: "c = failCloseAllReadiness (?new\<lparr>dc_stopRequested := False, dc_acceptingFacts := True, dc_running := True\<rparr>)"
    and db': "db' = fst (resetFireInFlightDeliveries sql t db)"
    using run by (auto simp: delivery_start_def Let_def split: if_splits prod.splits elim!: try_bind_InrE simp del: try_bind_Inr)
  have f: "dc_inFlight c = []" "dc_syncedRevision c = []" "\<not> dc_lifecycleRelease c" "dc_activeEgress c = 0"
    "dc_outboxGeneration c = 1" "dc_mutationDepth c = foldl (\<lambda>m c. um_emplace c 0 m) [] (dg_channelIds (dx_config dx))"
    by (simp_all add: c failCloseAllReadiness_def invalidateRegularEgress_def newDeliveryCoordinator_def Let_def)
  have keys: "fst ` set (dc_ready c) = set (dg_channelIds (dx_config dx))"
    by (simp add: c failCloseAllReadiness_def invalidateRegularEgress_def newDeliveryCoordinator_def Let_def
        image_image split_beta foldl_emplace_keys)
  have closed: "um_find (dc_ready c) ch \<noteq> Some True" for ch
    using find_all_False by (simp add: c failCloseAllReadiness_def invalidateRegularEgress_def)
  have depth: "depth_of c ch = 0" for ch
    using foldl_emplace_find [of 0 "[]" "dg_channelIds (dx_config dx)" ch]
    by (auto simp: depth_of_def f(6) split: option.split)
  have "fire_db_ok (dx_fire dx) db'"
    using fire_db_ok_mark [OF db, of sql t ResetInFlight] by (simp add: db' apply_mark_def)
  then show "delivery_inv dx ((c, db', WaitForWork), [], [])"
    using f keys closed depth
    by (simp add: delivery_inv_def shared_ok_def worker_ok_def attempts_ok_def attempts_def retained_on_def synced_ok_def
        snapshot_ok_def ready_ok_def release_ok_def)
  show "dc_outboxGeneration c = 1" by (rule f(5))
qed

end
