(* ===== verification/FireDeliveryProps.thy ===== *)
theory FireDeliveryProps
  imports FireDeliverySteps
begin

text \<open>
  Properties of the delivery coordinator of \<^verbatim>\<open>src/event/FireDeliveryCoordinator.cpp\<close> over every run of the
  system of \<open>FireReadiness\<close>: what a channel that is ready means, when a lifecycle event may be published, and
  how regular publishers and mutations exclude each other.
\<close>

section \<open>What the readiness of a channel means\<close>

text \<open>
  The state of an alarm has reached the broker: the one retained row of its channel is acknowledged at the
  revision of the alarm.
\<close>

definition state_delivered :: "FireDb \<Rightarrow> string \<Rightarrow> FireAlarmStateRecord \<Rightarrow> bool" where
  "state_delivered db ch alarm \<longleftrightarrow> (\<exists>row. retained_rows db ch = [row] \<and>
     or_fire_revision row = uint (fs_fireRevision alarm) \<and> or_delivery_state row = ''ACKED'')"

lemma settled_delivered:
  assumes ok: "fire_store_ok db" and alarm: "alarm_of db ch = Some alarm"
    and v: "at_revision db ch v" "acked_at db ch v"
  shows "fs_fireRevision alarm = v" "state_delivered db ch alarm"
proof -
  obtain row where row: "retained_rows db ch = [row]" "or_fire_revision row = uint (fs_fireRevision alarm)"
    using retained_rows_one [OF ok alarm] by blast
  then have mem: "row \<in> set (retained_rows db ch)" by simp
  then have r: "row \<in> set (fd_outbox db)" "or_sink_kind row = ''RETAINED_STATE''" "or_channel_id row = ch"
    by (simp_all add: retained_rows_def)
  obtain s where s: "retained_of s row \<or> lifecycle_of s row" using ok r(1) unfolding fire_store_ok_def by blast
  then have key: "or_delivery_key row = retainedDeliveryId ch" using r(2,3) by (auto simp: retained_of_def lifecycle_of_def)
  have v': "or_fire_revision row = uint v" using v(1) r(1) key by (simp add: at_revision_def)
  then show "fs_fireRevision alarm = v" using row(2) by (simp add: word_uint_eq_iff)
  have "or_delivery_state row = ''ACKED''" using v(2) r(1) key v' by (simp add: acked_at_def)
  then show "state_delivered db ch alarm" using row by (simp add: state_delivered_def)
qed

text \<open>The states that runs of the system reach after \<open>start()\<close> on a reachable database.\<close>

definition delivery_reached :: "'j DeliveryContext \<Rightarrow> DeliverySystem \<Rightarrow> bool" where
  "delivery_reached dx s \<longleftrightarrow> (\<exists>db0 sql t c db events.
     fire_reached (dx_fire dx) db0 \<and>
     delivery_start (dx_config dx) sql t (newDeliveryCoordinator (dx_config dx)) db0 = Inr (c, db, True) \<and>
     (\<forall>event \<in> set events. event_ok dx event) \<and> 2 * length events + 1 < 2 ^ 64 \<and>
     s = final_state (delivery_step dx) ((c, db, WaitForWork), [], []) events)"

lemma reached_delivery_inv: "delivery_reached dx s \<Longrightarrow> delivery_inv dx s"
  unfolding delivery_reached_def
proof (elim exE conjE)
  fix db0 sql t c db events
  assume a: "fire_reached (dx_fire dx) db0"
    "delivery_start (dx_config dx) sql t (newDeliveryCoordinator (dx_config dx)) db0 = Inr (c, db, True)"
    "\<forall>event \<in> set events. event_ok dx event" "2 * length events + 1 < 2 ^ 64"
    "s = final_state (delivery_step dx) ((c, db, WaitForWork), [], []) events"
  note start = started_inv [OF reached_ok [OF a(1)] a(2)]
  show "delivery_inv dx s"
    using delivery_inv_run [OF start(1), of events] start(2) a(3-5) by simp
qed

lemma reached_parts:
  assumes "delivery_reached dx ((c, db, pc), w, b)"
  shows "shared_ok c w b" "worker_ok dx (c, db, pc)" "fire_store_ok db"
  using reached_delivery_inv [OF assms] by (simp_all add: delivery_inv_def worker_ok_def fire_db_ok_def)

lemma ready_settled:
  assumes ok: "worker_ok dx (c, db, pc)" and ready: "um_find (dc_ready c) ch = Some True"
  obtains v where "um_find (dc_readyRevision c) ch = Some v" "at_revision db ch v" "acked_at db ch v"
proof -
  obtain v where "um_find (dc_readyRevision c) ch = Some v" "um_find (dc_syncedRevision c) ch = Some v" "at_revision db ch v"
    using worker_okD(7) [OF ok] ready by (auto simp: ready_ok_def)
  then show thesis using that worker_okD(5) [OF ok] by (simp add: synced_ok_def)
qed

text \<open>
  Runs for the witnesses: the transport connects, the retained rows are published and acknowledged, and the
  worker makes the channels ready. The database is that of an open alarm, with whatever payloads it has, or
  the one after the bootstrap.
\<close>

definition demo_outbox_row :: "bool \<Rightarrow> string \<Rightarrow> string \<Rightarrow> string \<Rightarrow> int \<Rightarrow> string \<Rightarrow> string \<Rightarrow> FireOutboxRow" where
  "demo_outbox_row state key logical ch v alarm payload =
     \<lparr>or_delivery_key = key, or_sink_kind = (if state then ''RETAINED_STATE'' else ''LIFECYCLE_EVENT''),
      or_logical_key = logical, or_sensor_id = (if ch = ''CH1'' then ''F1'' else ''F2''), or_channel_id = ch,
      or_event_id = ''fire-event:'' @ ch @ '':'' @ to_string v, or_alarm_id = alarm, or_fire_revision = v,
      or_topic = (if state then logical else ''fire/events/CH1''), or_payload_json = payload, or_qos = 1,
      or_retain = (if state then 1 else 0), or_attempt_count = 0, or_next_attempt_at = ''2026-01-01T00:00:00+09:00'',
      or_last_error = [], or_delivery_state = ''PENDING'', or_acked_revision = None,
      or_created_at = ''2026-01-01T00:00:00+09:00'', or_updated_at = ''2026-01-01T00:00:00+09:00''\<rparr>"

definition demo_delivery_db :: "FireStateRow list \<Rightarrow> string \<Rightarrow> string \<Rightarrow> string \<Rightarrow> FireDb" where
  "demo_delivery_db states p q r = \<lparr>fd_opened = True, fd_states = states, fd_outbox =
     [demo_outbox_row True (retainedDeliveryId ''CH1'') ''fire/state/CH1'' ''CH1'' 2 ''fire-alarm:CH1:2'' p,
      demo_outbox_row True (retainedDeliveryId ''CH2'') ''fire/state/CH2'' ''CH2'' 1 ''fire-alarm:CH2:bootstrap'' q,
      demo_outbox_row False (lifecycleDeliveryId ''fire-event:CH1:2'') ''fire-event:CH1:2'' ''CH1'' 2 ''fire-alarm:CH1:2'' r],
     fd_retired = []\<rparr>"

definition demo_boot_db :: "FireStateRow list \<Rightarrow> string \<Rightarrow> string \<Rightarrow> FireDb" where
  "demo_boot_db states p q = \<lparr>fd_opened = True, fd_states = states, fd_outbox =
     [demo_outbox_row True (retainedDeliveryId ''CH1'') ''fire/state/CH1'' ''CH1'' 1 ''fire-alarm:CH1:bootstrap'' p,
      demo_outbox_row True (retainedDeliveryId ''CH2'') ''fire/state/CH2'' ''CH2'' 1 ''fire-alarm:CH2:bootstrap'' q],
     fd_retired = []\<rparr>"

lemma demo_alarm_db: "\<exists>states p q r. fst demo_alarm = demo_delivery_db states p q r"
proof -
  have "case demo_alarm of (db, _) \<Rightarrow> db = demo_delivery_db (fd_states db) (or_payload_json (fd_outbox db ! 0))
      (or_payload_json (fd_outbox db ! 1)) (or_payload_json (fd_outbox db ! 2))"
    by code_simp
  then have "fst demo_alarm = demo_delivery_db (fd_states (fst demo_alarm)) (or_payload_json (fd_outbox (fst demo_alarm) ! 0))
      (or_payload_json (fd_outbox (fst demo_alarm) ! 1)) (or_payload_json (fd_outbox (fst demo_alarm) ! 2))"
    unfolding split_beta .
  then show ?thesis by blast
qed

lemma demo_booted_db: "\<exists>states p q. demo_booted = demo_boot_db states p q"
proof -
  have "case Some demo_booted of Some db \<Rightarrow> db = demo_boot_db (fd_states db) (or_payload_json (fd_outbox db ! 0))
      (or_payload_json (fd_outbox db ! 1)) | None \<Rightarrow> False"
    by code_simp
  then show ?thesis unfolding option.case by blast
qed

definition demo_coordinator :: "unit DeliveryContext" where
  "demo_coordinator = \<lparr>dx_fire = demo_fire, dx_config = \<lparr>dg_channelIds = [''CH1'', ''CH2''], dg_factQueueCapacity = 256,
     dg_localFailureRetryDelay = 100000000, dg_pubAckTimeout = 5000000000, dg_regularEgressDrainTimeout = 1000000000,
     dg_hasPublisher = True, dg_hasFaultHandler = True\<rparr>\<rparr>"

definition demo_work :: "string \<Rightarrow> 64 word \<Rightarrow> int \<Rightarrow> delivery_event" where
  "demo_work key v n = Work \<lparr>de_now = 0, de_mark = SqlWorks, de_read = SqlWorks, de_at = ''t'',
     de_publish = Inr \<lparr>mp_accepted = True, mp_epoch = 1, mp_messageId = n, mp_deliveryKey = key, mp_revision = v,
       mp_attemptId = ''fire-attempt:'' @ to_string n\<rparr>\<rparr>"

definition demo_fact :: "MqttTransportFactKind \<Rightarrow> int \<Rightarrow> delivery_event" where
  "demo_fact kind n = Deliver \<lparr>mf_kind = kind, mf_epoch = 1, mf_messageId = n, mf_reason = 0, mf_subscriptionTopic = [],
     mf_grantedQos = []\<rparr>"

definition demo_publish_events :: "64 word \<Rightarrow> delivery_event list" where
  "demo_publish_events v = [demo_fact FactConnected 0, demo_fact FactSubscriptionsReady 0] @
     replicate 8 (demo_work [] 0 0) @
     [demo_work (retainedDeliveryId ''CH1'') v 1, demo_work [] 0 0, demo_work (retainedDeliveryId ''CH2'') 1 2] @
     replicate 4 (demo_work [] 0 0) @ [demo_fact FactPublishAcknowledged 1, demo_fact FactPublishAcknowledged 2] @
     replicate 12 (demo_work [] 0 0)"

definition demo_started :: "FireDb \<Rightarrow> DeliverySystem" where
  "demo_started db = (case delivery_start (dx_config demo_coordinator) SqlWorks ''t''
      (newDeliveryCoordinator (dx_config demo_coordinator)) db of
        Inr (c, db, _) \<Rightarrow> ((c, db, WaitForWork), [], [])
      | Inl _ \<Rightarrow> ((newDeliveryCoordinator (dx_config demo_coordinator), db, WaitForWork), [], []))"

definition demo_delivery_run :: "delivery_event list \<Rightarrow> FireDb \<Rightarrow> DeliverySystem" where
  "demo_delivery_run events db = final_state (delivery_step demo_coordinator) (demo_started db) events"

lemma demo_run_reached:
  assumes db: "fire_reached demo_fire db" and ok: "\<forall>event \<in> set events. event_ok demo_coordinator event"
    and bound: "2 * length events + 1 < 2 ^ 64"
    and start: "case delivery_start (dx_config demo_coordinator) SqlWorks ''t''
      (newDeliveryCoordinator (dx_config demo_coordinator)) db of Inr (c, db, ok) \<Rightarrow> ok | Inl _ \<Rightarrow> False"
  shows "delivery_reached demo_coordinator (demo_delivery_run events db)"
proof -
  let ?new = "newDeliveryCoordinator (dx_config demo_coordinator)"
  from start obtain c db' where st: "delivery_start (dx_config demo_coordinator) SqlWorks ''t'' ?new db = Inr (c, db', True)"
    by (auto split: sum.splits)
  then have "demo_started db = ((c, db', WaitForWork), [], [])" by (simp add: demo_started_def)
  then show ?thesis
    unfolding delivery_reached_def demo_delivery_run_def using ok bound st db
    by (intro exI [of _ db] exI [of _ SqlWorks] exI [of _ "''t''"] exI [of _ c] exI [of _ db'] exI [of _ events])
      (simp add: demo_coordinator_def)
qed

lemma demo_events_ok: "\<forall>event \<in> set (demo_publish_events v @ replicate n (demo_work [] 0 0)). event_ok demo_coordinator event"
  by (auto simp: demo_publish_events_def demo_fact_def demo_work_def)

lemma demo_starts_delivery:
  "case delivery_start (dx_config demo_coordinator) SqlWorks ''t'' (newDeliveryCoordinator (dx_config demo_coordinator))
     (demo_boot_db s p q) of Inr (c, db, ok) \<Rightarrow> ok | Inl _ \<Rightarrow> False"
  "case delivery_start (dx_config demo_coordinator) SqlWorks ''t'' (newDeliveryCoordinator (dx_config demo_coordinator))
     (demo_delivery_db s p q r) of Inr (c, db, ok) \<Rightarrow> ok | Inl _ \<Rightarrow> False"
  by code_simp+

definition demo_idle :: DeliverySystem where
  "demo_idle = demo_delivery_run (demo_publish_events 1 @ replicate 6 (demo_work [] 0 0)) demo_booted"

definition demo_releasing :: DeliverySystem where
  "demo_releasing = demo_delivery_run (demo_publish_events 2 @ replicate 4 (demo_work [] 0 0)) (fst demo_alarm)"

lemma demo_idle_reached: "delivery_reached demo_coordinator demo_idle"
proof -
  have "length (demo_publish_events 1 @ replicate 6 (demo_work [] 0 0)) = 37" by (simp add: demo_publish_events_def)
  then show ?thesis
    unfolding demo_idle_def
  proof (intro demo_run_reached [OF demo_booted_reached demo_events_ok])
    obtain s p q where db: "demo_booted = demo_boot_db s p q" using demo_booted_db by blast
    show "case delivery_start (dx_config demo_coordinator) SqlWorks ''t'' (newDeliveryCoordinator (dx_config demo_coordinator))
        demo_booted of Inr (c, db, ok) \<Rightarrow> ok | Inl _ \<Rightarrow> False" unfolding db by (rule demo_starts_delivery(1))
  qed simp
qed

lemma demo_releasing_reached: "delivery_reached demo_coordinator demo_releasing"
proof -
  have "length (demo_publish_events 2 @ replicate 4 (demo_work [] 0 0)) = 35" by (simp add: demo_publish_events_def)
  then show ?thesis
    unfolding demo_releasing_def
  proof (intro demo_run_reached [OF demo_alarm_reached demo_events_ok])
    obtain s p q r where db: "fst demo_alarm = demo_delivery_db s p q r" using demo_alarm_db by blast
    show "case delivery_start (dx_config demo_coordinator) SqlWorks ''t'' (newDeliveryCoordinator (dx_config demo_coordinator))
        (fst demo_alarm) of Inr (c, db, ok) \<Rightarrow> ok | Inl _ \<Rightarrow> False" unfolding db by (rule demo_starts_delivery(2))
  qed simp
qed

definition demo_idle_checks :: "DeliverySystem \<Rightarrow> bool" where
  "demo_idle_checks s = (case s of ((c, db, pc), w, b) \<Rightarrow> isRevisionSynchronized c ''CH1'' 1 \<and>
     retained_rows db ''CH1'' \<noteq> [] \<and> isRegularEgressGrantCurrent c (dc_egressEpoch c, dc_egressGeneration c))"

lemma demo_idle_run: "demo_idle_checks demo_idle"
proof -
  have "demo_idle_checks (demo_delivery_run (demo_publish_events 1 @ replicate 6 (demo_work [] 0 0)) (demo_boot_db s p q))" for s p q
    by code_simp
  then show ?thesis using demo_booted_db unfolding demo_idle_def by metis
qed

definition demo_release_checks :: "DeliverySystem \<Rightarrow> bool" where
  "demo_release_checks s = (case s of ((c, db, CallPublisher d i e resume), w, b) \<Rightarrow>
     fo_sinkKind d = LifecycleEvent \<and> retained_rows db ''CH1'' \<noteq> [] | _ \<Rightarrow> False)"

lemma demo_releasing_run: "demo_release_checks demo_releasing"
proof -
  have "demo_release_checks (demo_delivery_run (demo_publish_events 2 @ replicate 4 (demo_work [] 0 0)) (demo_delivery_db s p q r))"
    for s p q r by code_simp
  then show ?thesis using demo_alarm_db unfolding demo_releasing_def by metis
qed

lemma row_alarm:
  assumes ok: "fire_store_ok db" and row: "retained_rows db ch \<noteq> []"
  obtains alarm where "alarm_of db ch = Some alarm"
proof -
  obtain d where d: "d \<in> set (fd_outbox db)" "or_channel_id d = ch"
    using row by (auto simp: retained_rows_def filter_empty_conv)
  then obtain s where "s \<in> set (fd_states db)" "sr_channel_id s = ch"
    using ok by (auto simp: fire_store_ok_def retained_of_def lifecycle_of_def)
  then show thesis using alarm_of_row [OF ok] that by metis
qed

definition demo_boundary :: DeliverySystem where
  "demo_boundary = demo_delivery_run [EnterMutation ''CH1'', EndWait ''CH1''] demo_booted"

lemma demo_boundary_reached: "delivery_reached demo_coordinator demo_boundary"
  unfolding demo_boundary_def
proof (intro demo_run_reached [OF demo_booted_reached])
  obtain s p q where db: "demo_booted = demo_boot_db s p q" using demo_booted_db by blast
  show "case delivery_start (dx_config demo_coordinator) SqlWorks ''t'' (newDeliveryCoordinator (dx_config demo_coordinator))
      demo_booted of Inr (c, db, ok) \<Rightarrow> ok | Inl _ \<Rightarrow> False" unfolding db by (rule demo_starts_delivery(1))
qed simp_all

lemma demo_boundary_open: "snd (snd demo_boundary) = [''CH1'']"
proof -
  have "snd (snd (demo_delivery_run [EnterMutation ''CH1'', EndWait ''CH1''] (demo_boot_db s p q))) = [''CH1'']" for s p q
    by code_simp
  then show ?thesis using demo_booted_db unfolding demo_boundary_def by metis
qed

text \<open>
  C17: A channel that the coordinator reports as synchronized at a revision is synchronized at that revision:
  the alarm of the channel has it, and its retained message was acknowledged by the broker at it. This
  holds after a successful \<open>start()\<close> over every interleaving of transport facts, commands of the fire
  service whose transitions run inside the mutation boundary of their channel, regular publishers, stop
  requests and the worker's steps, failures of the database and of the publisher included, for runs of
  less than \<open>2 ^ 63\<close> events (the generation counter does not wrap).
\<close>

theorem fire_ready_is_synchronized:
  assumes "delivery_reached dx ((c, db, pc), w, b)" and "isRevisionSynchronized c ch v" and "alarm_of db ch = Some alarm"
  shows "fs_fireRevision alarm = v \<and> state_delivered db ch alarm"
proof -
  note parts = reached_parts [OF assms(1)]
  have r: "um_find (dc_ready c) ch = Some True" "um_find (dc_readyRevision c) ch = Some v"
    using assms(2) by (simp_all add: isRevisionSynchronized_def)
  obtain v' where v: "um_find (dc_readyRevision c) ch = Some v'" "at_revision db ch v'" "acked_at db ch v'"
    by (rule ready_settled [OF parts(2) r(1)])
  then show ?thesis using settled_delivered [OF parts(3) assms(3) v(2,3)] r(2) by simp
qed

theorem fire_ready_is_synchronized_witness:
  "\<exists>c db pc w b alarm. demo_idle = ((c, db, pc), w, b) \<and> isRevisionSynchronized c ''CH1'' 1 \<and>
     alarm_of db ''CH1'' = Some alarm \<and> fs_fireRevision alarm = 1 \<and> state_delivered db ''CH1'' alarm"
proof -
  obtain c db pc w b where s: "demo_idle = ((c, db, pc), w, b)" by (metis surj_pair)
  have ready: "isRevisionSynchronized c ''CH1'' 1" "retained_rows db ''CH1'' \<noteq> []"
    using demo_idle_run by (simp_all add: demo_idle_checks_def s)
  have reached: "delivery_reached demo_coordinator ((c, db, pc), w, b)" using demo_idle_reached by (simp add: s)
  obtain alarm where "alarm_of db ''CH1'' = Some alarm" by (rule row_alarm [OF reached_parts(3) [OF reached] ready(2)])
  then show ?thesis using fire_ready_is_synchronized [OF reached ready(1)] s ready(1) by blast
qed

text \<open>
  C18: In the same runs, when the worker hands a lifecycle event to the publisher, the current state of
  every configured channel has been acknowledged by the broker; nothing that interleaves between the
  worker's check and its call can change that.
\<close>

theorem lifecycle_follows_states:
  assumes "delivery_reached dx ((c, db, pc), w, b)"
    and "PublisherCalled d i e \<in> set (snd (delivery_step dx ((c, db, pc), w, b) (Work env)))"
    and "fo_sinkKind d = LifecycleEvent" and "ch \<in> set (dg_channelIds (dx_config dx))" and "alarm_of db ch = Some alarm"
  shows "state_delivered db ch alarm"
proof -
  note parts = reached_parts [OF assms(1)]
  have "\<exists>i' e' resume. pc = CallPublisher d i' e' resume"
    using assms(2) by (auto simp: delivery_step_def worker_step_def worker_failed_def recoverActorFailure_def fault_output_def
        handle_overflow_def expirePubAckDeadline_def finish_publish_def Let_def
        split: prod.splits WorkerPc.splits list.splits if_splits sum.splits option.splits)
  then obtain i' e' resume where pc: "pc = CallPublisher d i' e' resume" by blast
  then have "lifecycle_phase resume" using worker_okD(4) [OF parts(2)] assms(3) by simp
  then have "releasing pc" using pc by (cases resume) simp_all
  then have "settled c db ch" using worker_okD(8) [OF parts(2)] assms(4) by (simp add: release_ok_def)
  then obtain v where "at_revision db ch v" "acked_at db ch v" by (auto simp: settled_def)
  then show ?thesis using settled_delivered(2) [OF parts(3) assms(5)] by blast
qed

theorem lifecycle_follows_states_witness:
  "\<exists>c db pc w b d i e env alarm. demo_releasing = ((c, db, pc), w, b) \<and>
     PublisherCalled d i e \<in> set (snd (delivery_step demo_coordinator ((c, db, pc), w, b) (Work env))) \<and>
     fo_sinkKind d = LifecycleEvent \<and> alarm_of db ''CH1'' = Some alarm \<and> state_delivered db ''CH1'' alarm"
proof -
  obtain c db pc w b where s: "demo_releasing = ((c, db, pc), w, b)" by (metis surj_pair)
  obtain d i e resume where pc: "pc = CallPublisher d i e resume" "fo_sinkKind d = LifecycleEvent" "retained_rows db ''CH1'' \<noteq> []"
    using demo_releasing_run by (cases pc) (simp_all add: demo_release_checks_def s)
  have reached: "delivery_reached demo_coordinator ((c, db, pc), w, b)" using demo_releasing_reached by (simp add: s)
  define env where "env = \<lparr>de_now = 0, de_mark = SqlWorks, de_read = SqlWorks, de_at = ''t'', de_publish = Inl ''offline''\<rparr>"
  have called: "PublisherCalled d i e \<in> set (snd (delivery_step demo_coordinator ((c, db, pc), w, b) (Work env)))"
    by (simp add: delivery_step_def worker_step_def pc(1) env_def Let_def split: prod.split)
  obtain alarm where alarm: "alarm_of db ''CH1'' = Some alarm" by (rule row_alarm [OF reached_parts(3) [OF reached] pc(3)])
  have "''CH1'' \<in> set (dg_channelIds (dx_config demo_coordinator))" by (simp add: demo_coordinator_def)
  from lifecycle_follows_states [OF reached called pc(2) this alarm] show ?thesis using s called pc(2) alarm by blast
qed

text \<open>
  C19: In the same runs, a regular publisher and a fire mutation exclude each other: while a mutation
  boundary is open, no publisher is inside and no grant is given; and while a grant is current, no
  mutation is open or waits for its boundary, and the current state of every configured channel has been
  acknowledged by the broker.
\<close>

theorem egress_excludes_mutation:
  assumes "delivery_reached dx ((c, db, pc), w, b)"
  shows "(b \<noteq> [] \<longrightarrow> dc_activeEgress c = 0 \<and> snd (beginRegularEgress c) = None) \<and>
    (isRegularEgressGrantCurrent c grant \<longrightarrow> w = [] \<and> b = [] \<and>
       (\<forall>ch \<in> set (dg_channelIds (dx_config dx)). \<forall>alarm. alarm_of db ch = Some alarm \<longrightarrow> state_delivered db ch alarm))"
proof (intro conjI impI)
  note parts = reached_parts [OF assms]
  show "dc_activeEgress c = 0" if "b \<noteq> []" using parts(1) that by (simp add: shared_ok_def)
  show "snd (beginRegularEgress c) = None" if "b \<noteq> []"
    using that depth_zero_empty(2) [OF parts(1) no_open_depth] by (auto simp: beginRegularEgress_def)
  assume g: "isRegularEgressGrantCurrent c grant"
  then have closed: "no_open_mutation c" and all: "list_all snd (dc_ready c)"
    by (simp_all add: isRegularEgressGrantCurrent_def)
  show "w = []" "b = []" using depth_zero_empty [OF parts(1) no_open_depth [OF closed]] by simp_all
  show "\<forall>ch \<in> set (dg_channelIds (dx_config dx)). \<forall>alarm. alarm_of db ch = Some alarm \<longrightarrow> state_delivered db ch alarm"
  proof (intro ballI allI impI)
    fix ch alarm
    assume ch: "ch \<in> set (dg_channelIds (dx_config dx))" and alarm: "alarm_of db ch = Some alarm"
    have mem: "ch \<in> fst ` set (dc_ready c)" using ch worker_okD(2) [OF parts(2)] by blast
    then have "all_channels_ready c" using all by (auto simp: all_channels_ready_def)
    then have "um_find (dc_ready c) ch = Some True" using mem by (rule all_ready_find)
    then obtain v where "at_revision db ch v" "acked_at db ch v" by (rule ready_settled [OF parts(2)])
    then show "state_delivered db ch alarm" using settled_delivered(2) [OF parts(3) alarm] by blast
  qed
qed

theorem egress_excludes_mutation_witness:
  "(\<exists>c db pc w b. demo_boundary = ((c, db, pc), w, b) \<and> b \<noteq> [] \<and> snd (beginRegularEgress c) = None) \<and>
   (\<exists>c db pc w b alarm. demo_idle = ((c, db, pc), w, b) \<and>
      isRegularEgressGrantCurrent c (dc_egressEpoch c, dc_egressGeneration c) \<and>
      alarm_of db ''CH1'' = Some alarm \<and> state_delivered db ''CH1'' alarm)"
proof (rule conjI)
  obtain c db pc w b where s: "demo_boundary = ((c, db, pc), w, b)" by (metis surj_pair)
  have "delivery_reached demo_coordinator ((c, db, pc), w, b)" using demo_boundary_reached by (simp add: s)
  moreover have "b \<noteq> []" using demo_boundary_open by (simp add: s)
  ultimately show "\<exists>c db pc w b. demo_boundary = ((c, db, pc), w, b) \<and> b \<noteq> [] \<and> snd (beginRegularEgress c) = None"
    using egress_excludes_mutation s by blast
next
  obtain c db pc w b where s: "demo_idle = ((c, db, pc), w, b)" by (metis surj_pair)
  have g: "isRegularEgressGrantCurrent c (dc_egressEpoch c, dc_egressGeneration c)" "retained_rows db ''CH1'' \<noteq> []"
    using demo_idle_run by (simp_all add: demo_idle_checks_def s)
  have reached: "delivery_reached demo_coordinator ((c, db, pc), w, b)" using demo_idle_reached by (simp add: s)
  obtain alarm where alarm: "alarm_of db ''CH1'' = Some alarm" by (rule row_alarm [OF reached_parts(3) [OF reached] g(2)])
  have "''CH1'' \<in> set (dg_channelIds (dx_config demo_coordinator))" by (simp add: demo_coordinator_def)
  then have "state_delivered db ''CH1'' alarm" using egress_excludes_mutation [OF reached] g(1) alarm by blast
  then show "\<exists>c db pc w b alarm. demo_idle = ((c, db, pc), w, b) \<and>
      isRegularEgressGrantCurrent c (dc_egressEpoch c, dc_egressGeneration c) \<and>
      alarm_of db ''CH1'' = Some alarm \<and> state_delivered db ''CH1'' alarm"
    using s g(1) alarm by blast
qed


end
